(* ===== verification/Vesta_Prelude.thy ===== *)
theory Vesta_Prelude
  imports Main "HOL-Library.Word" "HOL-Library.AList"
begin

text \<open>
  Shared vocabulary of the development: Rust's fixed-width integers as words, results with an
  explicit panic outcome, checked slicing and arithmetic, and the big-endian byte encodings of
  the standard library (\<^verbatim>\<open>to_be_bytes\<close> and \<^verbatim>\<open>from_be_bytes\<close>), with the lemmas the
  components use.

  A Rust \<^verbatim>\<open>Result<T, E>\<close> is the sum \<open>'e fault + 'a\<close>. The left side is either an error value
  the function returns, or the outcome \<open>Panic\<close>: an index or a slice out of range, an
  arithmetic overflow or a shift by at least the width, as in a build with overflow checks.
  A theorem that a function never panics therefore covers builds without these checks too:
  where no check fires, both builds compute the same value.
\<close>

unbundle bit_operations_syntax

section \<open>Collections of rewrite rules\<close>

named_theorems wire_simps \<open>reading what was written: the forward direction of the codecs\<close>
named_theorems wire_dest \<open>what a successful read says about the bytes\<close>
named_theorems panic_free \<open>operations that never panic\<close>

section \<open>Integer types\<close>

type_synonym u8 = "8 word"
type_synonym u16 = "16 word"
type_synonym u32 = "32 word"
type_synonym u64 = "64 word"

text \<open>Signed integers share the representation; \<open>sint\<close> reads their value.\<close>

type_synonym i8 = "8 word"
type_synonym i16 = "16 word"

type_synonym bytes = "u8 list"

section \<open>Results and panics\<close>

datatype 'e fault = Err 'e | Panic

type_synonym ('a, 'e) result = "'e fault + 'a"

abbreviation Ok :: "'a \<Rightarrow> ('a, 'e) result" where
  "Ok \<equiv> Inr"

abbreviation fail :: "'e \<Rightarrow> ('a, 'e) result" where
  "fail e \<equiv> Inl (Err e)"

abbreviation panic :: "('a, 'e) result" where
  "panic \<equiv> Inl Panic"

text \<open>
  \<^verbatim>\<open>Result::and_then\<close>, which is also what the operator \<^verbatim>\<open>?\<close> does with the rest of a
  function body.
\<close>

fun and_then :: "('a, 'e) result \<Rightarrow> ('a \<Rightarrow> ('b, 'e) result) \<Rightarrow> ('b, 'e) result" where
  "and_then (Inl e) f = Inl e"
| "and_then (Inr x) f = f x"

fun map_err :: "('e \<Rightarrow> 'f) \<Rightarrow> ('a, 'e) result \<Rightarrow> ('a, 'f) result" where
  "map_err g (Inl (Err e)) = Inl (Err (g e))"
| "map_err g (Inl Panic) = Inl Panic"
| "map_err g (Inr x) = Inr x"

fun map_ok :: "('a \<Rightarrow> 'b) \<Rightarrow> ('a, 'e) result \<Rightarrow> ('b, 'e) result" where
  "map_ok g (Inl e) = Inl e"
| "map_ok g (Inr x) = Inr (g x)"

fun is_ok :: "('a, 'e) result \<Rightarrow> bool" where
  "is_ok (Inl e) = False"
| "is_ok (Inr x) = True"

definition panics :: "('a, 'e) result \<Rightarrow> bool" where
  "panics r \<longleftrightarrow> r = panic"

fun ok_or :: "'a option \<Rightarrow> 'e \<Rightarrow> ('a, 'e) result" where
  "ok_or None e = fail e"
| "ok_or (Some x) e = Ok x"

text \<open>A loop that runs a fallible body over a list and stops at the first failure.\<close>

fun for_each :: "'x list \<Rightarrow> 's \<Rightarrow> ('x \<Rightarrow> 's \<Rightarrow> ('s, 'e) result) \<Rightarrow> ('s, 'e) result" where
  "for_each [] s body = Ok s"
| "for_each (x # xs) s body = and_then (body x s) (\<lambda>s'. for_each xs s' body)"

lemma and_then_eq_Ok [simp]:
  "and_then r f = Ok y \<longleftrightarrow> (\<exists>x. r = Ok x \<and> f x = Ok y)"
  by (cases r) auto

lemma and_then_OkE:
  assumes "and_then r f = Ok y"
  obtains x where "r = Ok x" and "f x = Ok y"
  using assms by auto

lemma and_then_cong [fundef_cong]:
  "r = s \<Longrightarrow> (\<And>x. s = Ok x \<Longrightarrow> f x = g x) \<Longrightarrow> and_then r f = and_then s g"
  by (cases s) auto

lemma map_err_eq_Ok [simp]: "map_err g r = Ok y \<longleftrightarrow> r = Ok y"
  by (cases "(g, r)" rule: map_err.cases) auto

lemma map_ok_eq_Ok [simp]: "map_ok g r = Ok y \<longleftrightarrow> (\<exists>x. r = Ok x \<and> y = g x)"
  by (cases r) auto

lemma ok_or_eq_Ok [simp]: "ok_or x e = Ok y \<longleftrightarrow> x = Some y"
  by (cases x) auto

lemma is_ok_iff: "is_ok r \<longleftrightarrow> (\<exists>x. r = Ok x)"
  by (cases r) auto

lemma panics_simps [simp]:
  "panics (Inl Panic)" "\<not> panics (Inl (Err e))" "\<not> panics (Inr x)"
  by (auto simp: panics_def)

lemma panics_and_then [panic_free]:
  "panics (and_then r f) \<longleftrightarrow> panics r \<or> (\<exists>x. r = Ok x \<and> panics (f x))"
  by (cases r) (auto simp: panics_def)

lemma panics_map_err [simp]: "panics (map_err g r) \<longleftrightarrow> panics r"
  by (cases "(g, r)" rule: map_err.cases) auto

lemma panics_map_ok [simp]: "panics (map_ok g r) \<longleftrightarrow> panics r"
  by (cases r) (auto simp: panics_def)

lemma panics_ok_or [simp]: "\<not> panics (ok_or x e)"
  by (cases x) auto

lemma panics_if: "panics (if b then r else s) \<longleftrightarrow> (if b then panics r else panics s)"
  by simp

lemma for_each_append:
  "for_each (xs @ ys) s body = and_then (for_each xs s body) (\<lambda>s'. for_each ys s' body)"
proof (induction xs arbitrary: s)
  case Nil
  then show ?case by simp
next
  case (Cons x xs)
  then show ?case by (cases "body x s") auto
qed

text \<open>An invariant of the loop body is an invariant of the loop.\<close>

lemma for_each_invariant:
  assumes "for_each xs s body = Ok t" and "P s"
    and "\<And>x s s'. x \<in> set xs \<Longrightarrow> P s \<Longrightarrow> body x s = Ok s' \<Longrightarrow> P s'"
  shows "P t"
  using assms
proof (induction xs arbitrary: s)
  case Nil
  then show ?case by simp
next
  case (Cons x xs)
  then obtain s' where "body x s = Ok s'" and rest: "for_each xs s' body = Ok t" by auto
  then have "P s'" using Cons.prems by auto
  then show ?case using rest Cons.IH Cons.prems(3) by (meson list.set_intros(2))
qed

lemma for_each_no_panic:
  assumes "\<And>x s. x \<in> set xs \<Longrightarrow> \<not> panics (body x s)"
  shows "\<not> panics (for_each xs s body)"
  using assms
  by (induction xs arbitrary: s) (auto simp: panics_and_then)

text \<open>
  A run of guard statements \<^verbatim>\<open>if .. { return Err(..); }\<close> and \<^verbatim>\<open>check(..)?;\<close>: the first one that
  does not pass decides.
\<close>

fun checks :: "(unit, 'e) result list \<Rightarrow> (unit, 'e) result" where
  "checks [] = Ok ()"
| "checks (c # cs) = and_then c (\<lambda>_. checks cs)"

definition reject_if :: "bool \<Rightarrow> 'e \<Rightarrow> (unit, 'e) result" where
  "reject_if bad e = (if bad then fail e else Ok ())"

lemma checks_eq_Ok [simp]: "checks cs = Ok u \<longleftrightarrow> (\<forall>c \<in> set cs. c = Ok ())"
  by (induction cs) auto

lemma reject_if_eq_Ok [simp]: "reject_if bad e = Ok u \<longleftrightarrow> \<not> bad"
  by (simp add: reject_if_def)

lemma panics_reject_if [simp]: "\<not> panics (reject_if bad e)"
  by (simp add: reject_if_def)

lemma panics_checks:
  "panics (checks (c # cs)) \<longleftrightarrow> panics c \<or> c = Ok () \<and> panics (checks cs)"
  "\<not> panics (checks [])"
  by (auto simp: panics_and_then)

section \<open>Checked slices, indexing and arithmetic\<close>

text \<open>\<^verbatim>\<open>bytes[lo..hi]\<close> and \<^verbatim>\<open>bytes[i]\<close> panic out of range.\<close>

definition slice :: "'a list \<Rightarrow> nat \<Rightarrow> nat \<Rightarrow> ('a list, 'e) result" where
  "slice xs lo hi =
     (if lo \<le> hi \<and> hi \<le> length xs then Ok (take (hi - lo) (drop lo xs)) else panic)"

definition index :: "'a list \<Rightarrow> nat \<Rightarrow> ('a, 'e) result" where
  "index xs i = (if i < length xs then Ok (xs ! i) else panic)"

text \<open>What a slice holds after \<open>ys\<close> was written through a mutable borrow of it at \<open>lo\<close>.\<close>

definition splice :: "'a list \<Rightarrow> nat \<Rightarrow> 'a list \<Rightarrow> 'a list" where
  "splice xs lo ys = take lo xs @ ys @ drop (lo + length ys) xs"

definition sub_u8 :: "u8 \<Rightarrow> u8 \<Rightarrow> (u8, 'e) result" where
  "sub_u8 a b = (if b \<le> a then Ok (a - b) else panic)"

text \<open>\<^verbatim>\<open>1_u16 << n\<close> panics when \<open>n\<close> is not smaller than the width.\<close>

definition shl1_u16 :: "nat \<Rightarrow> (u16, 'e) result" where
  "shl1_u16 n = (if n < 16 then Ok (push_bit n 1) else panic)"

definition saturating_add :: "'a::len word \<Rightarrow> 'a word \<Rightarrow> 'a word" where
  "saturating_add a b = (if unat a + unat b < 2 ^ LENGTH('a) then a + b else - 1)"

definition count_ones :: "'a::len word \<Rightarrow> nat" where
  "count_ones w = length (filter (bit w) [0..<LENGTH('a)])"

definition div_ceil_u8 :: "u8 \<Rightarrow> u8 \<Rightarrow> u8" where
  "div_ceil_u8 a b = (if a mod b > 0 then a div b + 1 else a div b)"

lemma slice_Ok_iff:
  "slice xs lo hi = Ok ys \<longleftrightarrow> lo \<le> hi \<and> hi \<le> length xs \<and> ys = take (hi - lo) (drop lo xs)"
  by (auto simp: slice_def)

lemma panics_slice [simp]: "panics (slice xs lo hi) \<longleftrightarrow> \<not> (lo \<le> hi \<and> hi \<le> length xs)"
  by (simp add: slice_def)

lemma index_Ok_iff: "index xs i = Ok x \<longleftrightarrow> i < length xs \<and> x = xs ! i"
  by (auto simp: index_def)

lemma panics_index [simp]: "panics (index xs i) \<longleftrightarrow> length xs \<le> i"
  by (simp add: index_def not_less)

lemma length_splice: "lo + length ys \<le> length xs \<Longrightarrow> length (splice xs lo ys) = length xs"
  by (simp add: splice_def)

lemma panics_sub_u8 [simp]: "panics (sub_u8 a b) \<longleftrightarrow> a < b"
  by (auto simp: sub_u8_def)

lemma panics_shl1_u16 [simp]: "panics (shl1_u16 n) \<longleftrightarrow> 16 \<le> n"
  by (simp add: shl1_u16_def not_less)

lemma count_ones_card: "count_ones (w :: 'a::len word) = card {i. bit w i}"
proof -
  have "{i. bit w i} = set (filter (bit w) [0..<LENGTH('a)])"
    using bit_imp_le_length by auto
  then show ?thesis
    by (simp only: count_ones_def distinct_card [OF distinct_filter [OF distinct_upt]])
qed

lemma count_ones_le: "count_ones (w :: 'a::len word) \<le> LENGTH('a)"
  unfolding count_ones_def by (rule order_trans [OF length_filter_le]) simp

lemma unat_ucast_widen:
  "LENGTH('a) \<le> LENGTH('b) \<Longrightarrow> unat (ucast (x :: 'a::len word) :: 'b::len word) = unat x"
proof -
  assume "LENGTH('a) \<le> LENGTH('b)"
  then have "unat x < 2 ^ LENGTH('b)"
    by (intro order_less_le_trans [OF unsigned_less [of x]] power_increasing) auto
  then show ?thesis by (simp add: unsigned_ucast_eq take_bit_nat_eq_self)
qed

lemma saturating_add_mono: "(a :: 'a::len word) \<le> saturating_add a b"
proof (cases "unat a + unat b < 2 ^ LENGTH('a)")
  case True
  then show ?thesis by (simp add: saturating_add_def word_le_nat_alt unat_word_ariths)
next
  case False
  then show ?thesis by (simp add: saturating_add_def)
qed

lemma unat_saturating_add:
  "unat (saturating_add (a :: 'a::len word) b) = min (2 ^ LENGTH('a) - 1) (unat a + unat b)"
proof (cases "unat a + unat b < 2 ^ LENGTH('a)")
  case True
  then show ?thesis by (simp add: saturating_add_def unat_word_ariths)
next
  case False
  then show ?thesis by (simp add: saturating_add_def unsigned_minus_1_eq_mask mask_eq_exp_minus_1)
qed

section \<open>Big-endian byte strings\<close>

definition to_be_bytes :: "'a::len word \<Rightarrow> bytes" where
  "to_be_bytes w = map (\<lambda>i. ucast (drop_bit (8 * i) w)) (rev [0..<LENGTH('a) div 8])"

definition from_be_bytes :: "bytes \<Rightarrow> 'a::len word" where
  "from_be_bytes bs = foldl (\<lambda>acc b. push_bit 8 acc OR ucast b) 0 bs"

lemma length_to_be_bytes [simp]: "length (to_be_bytes (w :: 'a::len word)) = LENGTH('a) div 8"
  by (simp add: to_be_bytes_def)

lemma bit_from_be_bytes:
  "bit (from_be_bytes bs :: 'a::len word) n \<longleftrightarrow>
     n < LENGTH('a) \<and> n < 8 * length bs \<and> bit (rev bs ! (n div 8)) (n mod 8)"
proof (induction bs arbitrary: n rule: rev_induct)
  case Nil
  then show ?case by (simp add: from_be_bytes_def)
next
  case (snoc b bs)
  have unfold: "from_be_bytes (bs @ [b]) = (push_bit 8 (from_be_bytes bs) OR ucast b :: 'a word)"
    by (simp add: from_be_bytes_def)
  show ?case
  proof (cases "n < 8")
    case True
    then show ?thesis by (auto simp: unfold bit_simps)
  next
    case False
    then have "n div 8 = Suc ((n - 8) div 8)" and "n mod 8 = (n - 8) mod 8"
      by (simp_all add: le_div_geq le_mod_geq)
    moreover have "\<not> bit b n" using False bit_imp_le_length [of b n] by auto
    ultimately show ?thesis using False by (auto simp: unfold bit_simps snoc.IH)
  qed
qed

lemma nth_to_be_bytes:
  "i < LENGTH('a) div 8 \<Longrightarrow>
     to_be_bytes (w :: 'a::len word) ! i = ucast (drop_bit (8 * (LENGTH('a) div 8 - Suc i)) w)"
  by (simp add: to_be_bytes_def rev_nth)

lemma from_be_bytes_to_be_bytes:
  assumes "8 dvd LENGTH('a)"
  shows "from_be_bytes (to_be_bytes w) = (w :: 'a::len word)"
proof (rule bit_word_eqI)
  fix n
  assume "n < LENGTH('a)"
  then show "bit (from_be_bytes (to_be_bytes w) :: 'a word) n \<longleftrightarrow> bit w n"
    using assms by (auto simp: bit_from_be_bytes to_be_bytes_def rev_map bit_simps elim!: dvdE)
qed

lemma to_be_bytes_from_be_bytes:
  assumes "8 dvd LENGTH('a)" and "length bs = LENGTH('a::len) div 8"
  shows "to_be_bytes (from_be_bytes bs :: 'a word) = bs"
proof (rule nth_equalityI)
  show "length (to_be_bytes (from_be_bytes bs :: 'a word)) = length bs"
    using assms by simp
next
  fix i
  assume "i < length (to_be_bytes (from_be_bytes bs :: 'a word))"
  then have i: "i < length bs" using assms by simp
  obtain k where k: "LENGTH('a) = 8 * k" using assms(1) by (auto elim: dvdE)
  show "to_be_bytes (from_be_bytes bs :: 'a word) ! i = bs ! i"
  proof (rule bit_word_eqI)
    fix n
    assume n: "n < LENGTH(8)"
    then have "(n + 8 * (k - Suc i)) div 8 = k - Suc i" "(n + 8 * (k - Suc i)) mod 8 = n"
      by auto
    moreover have "n + 8 * (k - Suc i) < 8 * k" using i n assms k by auto
    ultimately show "bit (to_be_bytes (from_be_bytes bs :: 'a word) ! i) n \<longleftrightarrow> bit (bs ! i) n"
      using i n assms k
      by (simp add: nth_to_be_bytes bit_simps bit_from_be_bytes rev_nth add.commute)
  qed
qed

text \<open>The widths on the wire.\<close>

lemma be_bytes_inverse [simp]:
  "from_be_bytes (to_be_bytes a) = (a :: u8)"
  "from_be_bytes (to_be_bytes b) = (b :: u16)"
  "from_be_bytes (to_be_bytes c) = (c :: u32)"
  "from_be_bytes (to_be_bytes d) = (d :: u64)"
  by (simp_all add: from_be_bytes_to_be_bytes)

lemma to_be_bytes_u8 [simp]: "to_be_bytes (w :: u8) = [w]"
  by (simp add: to_be_bytes_def upt_rec)

lemma be_bytes_of_length:
  "length bs = 1 \<Longrightarrow> to_be_bytes (from_be_bytes bs :: u8) = bs"
  "length bs = 2 \<Longrightarrow> to_be_bytes (from_be_bytes bs :: u16) = bs"
  "length bs = 4 \<Longrightarrow> to_be_bytes (from_be_bytes bs :: u32) = bs"
  "length bs = 8 \<Longrightarrow> to_be_bytes (from_be_bytes bs :: u64) = bs"
  by (simp_all add: to_be_bytes_from_be_bytes del: to_be_bytes_u8)

section \<open>Lists\<close>

lemma take_append_exact: "length xs = n \<Longrightarrow> take n (xs @ ys) = xs"
  by simp

lemma drop_append_exact: "length xs = n \<Longrightarrow> drop n (xs @ ys) = ys"
  by simp

text \<open>A list of known length, spelled out element by element.\<close>

lemma length_eq_mapE:
  assumes "length xs = n"
  obtains f where "xs = map f [0..<n]"
  using assms by (metis map_nth)

lemma drop_eq_append_iff:
  "k + n \<le> length xs \<Longrightarrow> drop k xs = take n (drop k xs) @ drop (k + n) xs"
  by (metis append_take_drop_id drop_drop add.commute)

end
