(* ===== verification/Protocol_V1.thy ===== *)
theory Protocol_V1
  imports Vesta_Prelude
begin

text \<open>
  The fixed 48-byte version 1 frame of \<^verbatim>\<open>crates/vesta-protocol/src/lib.rs\<close>: its unit-bearing
  values, the decoder with its three error cases, the encoder that fills a zeroed array field by
  field, and the proof that the two are inverse to each other.
\<close>

section \<open>Values\<close>

definition FRAME_LEN :: nat where "FRAME_LEN = 48"

definition MAGIC :: bytes where "MAGIC = [0x56, 0x53]"

definition VERSION :: u8 where "VERSION = 1"

datatype temperature = from_centi_celsius (centi_celsius: i16)
datatype pressure = from_pascals (pascals: u32)
datatype relative_humidity = from_milli_percent_rh (milli_percent_rh: u32)
datatype gas_resistance = from_ohms (ohms: u32)
datatype bme68x_status = from_bits_retain (bits: u8)

definition NEW_DATA :: u8 where "NEW_DATA = 0x80"
definition GAS_MEASUREMENT_VALID :: u8 where "GAS_MEASUREMENT_VALID = 0x20"
definition HEATER_STABLE :: u8 where "HEATER_STABLE = 0x10"
definition KNOWN_MASK :: u8 where
  "KNOWN_MASK = NEW_DATA OR GAS_MEASUREMENT_VALID OR HEATER_STABLE"

definition is_new_data :: "bme68x_status \<Rightarrow> bool" where
  "is_new_data s \<longleftrightarrow> bits s AND NEW_DATA \<noteq> 0"

definition is_gas_measurement_valid :: "bme68x_status \<Rightarrow> bool" where
  "is_gas_measurement_valid s \<longleftrightarrow> bits s AND GAS_MEASUREMENT_VALID \<noteq> 0"

definition is_heater_stable :: "bme68x_status \<Rightarrow> bool" where
  "is_heater_stable s \<longleftrightarrow> bits s AND HEATER_STABLE \<noteq> 0"

definition unknown_bits :: "bme68x_status \<Rightarrow> u8" where
  "unknown_bits s = bits s AND NOT KNOWN_MASK"

record compensated_readings =
  cr_temperature :: temperature
  cr_pressure :: pressure
  cr_humidity :: relative_humidity
  cr_gas_resistance :: gas_resistance

record raw_readings =
  rr_temperature_adc :: u32
  rr_pressure_adc :: u32
  rr_humidity_adc :: u16
  rr_gas_resistance_adc :: u16
  rr_gas_range :: u8
  rr_gas_index :: u8
  rr_measurement_index :: u8
  rr_heater_resistance :: u8
  rr_heater_current :: u8
  rr_gas_wait :: u8

record telemetry_v1 =
  t1_sensor_status :: bme68x_status
  t1_node_id :: u64
  t1_sequence :: u32
  t1_compensated :: compensated_readings
  t1_raw :: raw_readings

datatype decode_error =
  DE_WrongLength nat nat
| DE_InvalidMagic bytes
| DE_UnsupportedVersion u8

section \<open>Decoding\<close>

text \<open>
  The readers index two, four or eight consecutive bytes; indexing them one by one panics in the
  same cases as taking the slice.
\<close>

definition read_u16 :: "bytes \<Rightarrow> nat \<Rightarrow> (u16, 'e) result" where
  "read_u16 bs offset = map_ok from_be_bytes (slice bs offset (offset + 2))"

definition read_i16 :: "bytes \<Rightarrow> nat \<Rightarrow> (i16, 'e) result" where
  "read_i16 bs offset = map_ok from_be_bytes (slice bs offset (offset + 2))"

definition read_u32 :: "bytes \<Rightarrow> nat \<Rightarrow> (u32, 'e) result" where
  "read_u32 bs offset = map_ok from_be_bytes (slice bs offset (offset + 4))"

definition read_u64 :: "bytes \<Rightarrow> nat \<Rightarrow> (u64, 'e) result" where
  "read_u64 bs offset = map_ok from_be_bytes (slice bs offset (offset + 8))"

definition telemetry_v1_decode :: "bytes \<Rightarrow> (telemetry_v1, decode_error) result" where
  "telemetry_v1_decode bs =
    (if length bs \<noteq> FRAME_LEN then fail (DE_WrongLength FRAME_LEN (length bs)) else
     and_then (index bs 0) (\<lambda>b0.
     and_then (index bs 1) (\<lambda>b1.
     if [b0, b1] \<noteq> MAGIC then fail (DE_InvalidMagic [b0, b1]) else
     and_then (index bs 2) (\<lambda>version.
     if version \<noteq> VERSION then fail (DE_UnsupportedVersion version) else
     and_then (index bs 3) (\<lambda>status.
     and_then (read_u64 bs 4) (\<lambda>node_id.
     and_then (read_u32 bs 12) (\<lambda>sequence.
     and_then (read_i16 bs 16) (\<lambda>temperature.
     and_then (read_u32 bs 18) (\<lambda>pressure.
     and_then (read_u32 bs 22) (\<lambda>humidity.
     and_then (read_u32 bs 26) (\<lambda>gas_resistance.
     and_then (read_u32 bs 30) (\<lambda>temperature_adc.
     and_then (read_u32 bs 34) (\<lambda>pressure_adc.
     and_then (read_u16 bs 38) (\<lambda>humidity_adc.
     and_then (read_u16 bs 40) (\<lambda>gas_resistance_adc.
     and_then (index bs 42) (\<lambda>gas_range.
     and_then (index bs 43) (\<lambda>gas_index.
     and_then (index bs 44) (\<lambda>measurement_index.
     and_then (index bs 45) (\<lambda>heater_resistance.
     and_then (index bs 46) (\<lambda>heater_current.
     and_then (index bs 47) (\<lambda>gas_wait.
     Ok \<lparr>t1_sensor_status = from_bits_retain status,
         t1_node_id = node_id,
         t1_sequence = sequence,
         t1_compensated =
           \<lparr>cr_temperature = from_centi_celsius temperature,
            cr_pressure = from_pascals pressure,
            cr_humidity = from_milli_percent_rh humidity,
            cr_gas_resistance = from_ohms gas_resistance\<rparr>,
         t1_raw =
           \<lparr>rr_temperature_adc = temperature_adc,
            rr_pressure_adc = pressure_adc,
            rr_humidity_adc = humidity_adc,
            rr_gas_resistance_adc = gas_resistance_adc,
            rr_gas_range = gas_range,
            rr_gas_index = gas_index,
            rr_measurement_index = measurement_index,
            rr_heater_resistance = heater_resistance,
            rr_heater_current = heater_current,
            rr_gas_wait = gas_wait\<rparr>\<rparr>)))))))))))))))))))))"

section \<open>Encoding\<close>

text \<open>The encoder copies each field into its place in a zeroed 48-byte array.\<close>

definition telemetry_v1_encode :: "telemetry_v1 \<Rightarrow> bytes" where
  "telemetry_v1_encode t =
    (let frame = replicate FRAME_LEN 0;
         frame = splice frame 0 MAGIC;
         frame = frame[2 := VERSION];
         frame = frame[3 := bits (t1_sensor_status t)];
         frame = splice frame 4 (to_be_bytes (t1_node_id t));
         frame = splice frame 12 (to_be_bytes (t1_sequence t));
         frame = splice frame 16 (to_be_bytes (centi_celsius (cr_temperature (t1_compensated t))));
         frame = splice frame 18 (to_be_bytes (pascals (cr_pressure (t1_compensated t))));
         frame = splice frame 22 (to_be_bytes (milli_percent_rh (cr_humidity (t1_compensated t))));
         frame = splice frame 26 (to_be_bytes (ohms (cr_gas_resistance (t1_compensated t))));
         frame = splice frame 30 (to_be_bytes (rr_temperature_adc (t1_raw t)));
         frame = splice frame 34 (to_be_bytes (rr_pressure_adc (t1_raw t)));
         frame = splice frame 38 (to_be_bytes (rr_humidity_adc (t1_raw t)));
         frame = splice frame 40 (to_be_bytes (rr_gas_resistance_adc (t1_raw t)));
         frame = frame[42 := rr_gas_range (t1_raw t)];
         frame = frame[43 := rr_gas_index (t1_raw t)];
         frame = frame[44 := rr_measurement_index (t1_raw t)];
         frame = frame[45 := rr_heater_resistance (t1_raw t)];
         frame = frame[46 := rr_heater_current (t1_raw t)];
         frame = frame[47 := rr_gas_wait (t1_raw t)]
     in frame)"

section \<open>The layout\<close>

text \<open>
  The byte string the array holds at the end: the fields in wire order, with no gap and no byte
  left over.
\<close>

definition v1_layout :: "telemetry_v1 \<Rightarrow> bytes" where
  "v1_layout t =
     MAGIC @ [VERSION, bits (t1_sensor_status t)]
     @ to_be_bytes (t1_node_id t) @ to_be_bytes (t1_sequence t)
     @ to_be_bytes (centi_celsius (cr_temperature (t1_compensated t)))
     @ to_be_bytes (pascals (cr_pressure (t1_compensated t)))
     @ to_be_bytes (milli_percent_rh (cr_humidity (t1_compensated t)))
     @ to_be_bytes (ohms (cr_gas_resistance (t1_compensated t)))
     @ to_be_bytes (rr_temperature_adc (t1_raw t)) @ to_be_bytes (rr_pressure_adc (t1_raw t))
     @ to_be_bytes (rr_humidity_adc (t1_raw t)) @ to_be_bytes (rr_gas_resistance_adc (t1_raw t))
     @ [rr_gas_range (t1_raw t), rr_gas_index (t1_raw t), rr_measurement_index (t1_raw t),
        rr_heater_resistance (t1_raw t), rr_heater_current (t1_raw t), rr_gas_wait (t1_raw t)]"

lemma splice_append_replicate:
  "length pre = lo \<Longrightarrow> length ys \<le> n \<Longrightarrow>
     splice (pre @ replicate n x) lo ys = (pre @ ys) @ replicate (n - length ys) x"
  by (simp add: splice_def)

lemma update_append_replicate:
  "length pre = i \<Longrightarrow> 0 < n \<Longrightarrow>
     (pre @ replicate n x)[i := y] = (pre @ [y]) @ replicate (n - 1) x"
  by (cases n) (auto simp: list_update_append)

lemma telemetry_v1_encode_layout: "telemetry_v1_encode t = v1_layout t"
proof -
  have start: "replicate FRAME_LEN (0 :: u8) = [] @ replicate 48 0"
    by (simp add: FRAME_LEN_def)
  show ?thesis
    unfolding telemetry_v1_encode_def v1_layout_def Let_def start MAGIC_def
    by (simp add: splice_append_replicate update_append_replicate del: append_assoc append.simps
          replicate.simps)
       simp
qed

lemma length_telemetry_v1_encode: "length (telemetry_v1_encode t) = FRAME_LEN"
  by (simp add: telemetry_v1_encode_layout v1_layout_def MAGIC_def FRAME_LEN_def)

section \<open>Decoding inverts encoding\<close>

lemmas v1_reads = read_u16_def read_i16_def read_u32_def read_u64_def

lemma v1_decode_encode: "telemetry_v1_decode (telemetry_v1_encode t) = Ok t"
  by (simp add: telemetry_v1_decode_def telemetry_v1_encode_layout v1_layout_def v1_reads
        slice_def index_def FRAME_LEN_def MAGIC_def VERSION_def nth_append)

text \<open>C35. Decoding an encoded reading returns exactly that reading.\<close>

theorem telemetry_v1_roundtrip: "telemetry_v1_decode (telemetry_v1_encode t) = Ok t"
  by (rule v1_decode_encode)

text \<open>The three checks, and nothing else, decide whether a byte string is a frame.\<close>

lemma telemetry_v1_decode_Ok_iff:
  "(\<exists>t. telemetry_v1_decode bs = Ok t) \<longleftrightarrow>
     length bs = FRAME_LEN \<and> take 2 bs = MAGIC \<and> bs ! 2 = VERSION"
proof (cases "length bs = FRAME_LEN")
  case True
  then obtain f where "bs = map f [0..<48]"
    unfolding FRAME_LEN_def by (rule length_eq_mapE)
  then show ?thesis
    by (auto simp: telemetry_v1_decode_def v1_reads slice_def index_def FRAME_LEN_def MAGIC_def
          upt_rec)
next
  case False
  then show ?thesis by (simp add: telemetry_v1_decode_def)
qed

lemma v1_encode_decode:
  assumes "telemetry_v1_decode bs = Ok t"
  shows "telemetry_v1_encode t = bs"
proof -
  have len: "length bs = FRAME_LEN"
    using assms telemetry_v1_decode_Ok_iff by blast
  then obtain f where bs: "bs = map f [0..<48]"
    unfolding FRAME_LEN_def by (rule length_eq_mapE)
  show ?thesis
    using assms unfolding telemetry_v1_encode_layout v1_layout_def bs
    by (auto simp: telemetry_v1_decode_def v1_reads slice_def index_def FRAME_LEN_def MAGIC_def
          VERSION_def upt_rec be_bytes_of_length split: if_splits)
qed

text \<open>A frame the decoder accepts is the canonical encoding of the reading it returns.\<close>

theorem telemetry_v1_canonical:
  assumes "telemetry_v1_decode bs = Ok t"
  shows "telemetry_v1_encode t = bs"
  using assms by (rule v1_encode_decode)

theorem telemetry_v1_canonical_witness:
  "\<exists>t. telemetry_v1_decode (MAGIC @ [VERSION] @ replicate 45 7) = Ok t
     \<and> telemetry_v1_encode t = MAGIC @ [VERSION] @ replicate 45 7"
proof -
  have "\<exists>t. telemetry_v1_decode (MAGIC @ [VERSION] @ replicate 45 7) = Ok t"
    unfolding telemetry_v1_decode_Ok_iff by (simp add: MAGIC_def FRAME_LEN_def)
  then show ?thesis using telemetry_v1_canonical by blast
qed

lemma telemetry_v1_decode_no_panic [simp]: "\<not> panics (telemetry_v1_decode bs)"
  unfolding telemetry_v1_decode_def
  by (auto simp: panics_and_then v1_reads slice_def index_def FRAME_LEN_def)

text \<open>
  The decoder has four outcomes: the three errors, each with the offending length, magic or
  version and in this order of precedence, and otherwise a reading. It never panics.
\<close>

theorem telemetry_v1_decode_outcomes:
  "if length bs \<noteq> FRAME_LEN
   then telemetry_v1_decode bs = fail (DE_WrongLength FRAME_LEN (length bs))
   else if take 2 bs \<noteq> MAGIC then telemetry_v1_decode bs = fail (DE_InvalidMagic (take 2 bs))
   else if bs ! 2 \<noteq> VERSION then telemetry_v1_decode bs = fail (DE_UnsupportedVersion (bs ! 2))
   else (\<exists>t. telemetry_v1_decode bs = Ok t)"
proof (cases "length bs = FRAME_LEN \<and> take 2 bs = MAGIC \<and> bs ! 2 = VERSION")
  case True
  then show ?thesis using telemetry_v1_decode_Ok_iff [of bs] by auto
next
  case False
  have "take 2 bs = [bs ! 0, bs ! 1]" if "length bs = FRAME_LEN"
    using that by (simp add: FRAME_LEN_def numeral_2_eq_2 take_Suc_conv_app_nth)
  with False show ?thesis by (auto simp: telemetry_v1_decode_def index_def FRAME_LEN_def)
qed

end
