(* ===== verification/V2_Wire.thy ===== *)
theory V2_Wire
  imports Vesta_Prelude
begin

text \<open>
  The bounds-checked cursors of \<^verbatim>\<open>crates/vesta-protocol/src/v2.rs\<close>: the error type of the
  protocol-v2 codec, the \<^verbatim>\<open>Reader\<close> and the \<^verbatim>\<open>Writer\<close> with one operation per integer
  width, and the contract every width keeps (locale \<open>wire_field\<close>): what was written is what is
  read, a successful read returns the only value with these bytes, and neither cursor panics.
\<close>

section \<open>Errors\<close>

datatype v2_error =
  WrongLength nat nat
| FrameTooLong nat
| InvalidMagic bytes
| UnsupportedVersion u8
| InvalidHeaderLength u8
| UnknownFrameType u8
| InvalidFragmentCount u8
| InvalidFragmentIndex u8 u8
| InvalidField string
| UnknownFlags string u32
| ConfigIdMismatch u64 u64
| StepIndexOutOfBounds
| BufferExhausted

section \<open>Reader\<close>

record reader =
  rd_bytes :: bytes
  rd_offset :: nat

definition reader_new :: "bytes \<Rightarrow> reader" where
  "reader_new bs = \<lparr>rd_bytes = bs, rd_offset = 0\<rparr>"

text \<open>
  \<^verbatim>\<open>Reader::take\<close>. Offsets and lengths of slices are natural numbers here: the sum that
  \<^verbatim>\<open>checked_add\<close> guards is at most the length of a slice plus a constant, far below the range
  of \<^verbatim>\<open>usize\<close>, so its failure is never taken.
\<close>

definition reader_take :: "nat \<Rightarrow> reader \<Rightarrow> (bytes \<times> reader, v2_error) result" where
  "reader_take n r =
     (let end = rd_offset r + n
      in if end \<le> length (rd_bytes r)
         then Ok (take n (drop (rd_offset r) (rd_bytes r)), r\<lparr>rd_offset := end\<rparr>)
         else fail BufferExhausted)"

definition reader_u8 :: "reader \<Rightarrow> (u8 \<times> reader, v2_error) result" where
  "reader_u8 r = and_then (reader_take 1 r) (\<lambda>(bs, r'). and_then (index bs 0) (\<lambda>b. Ok (b, r')))"

definition reader_i8 :: "reader \<Rightarrow> (i8 \<times> reader, v2_error) result" where
  "reader_i8 r = and_then (reader_take 1 r) (\<lambda>(bs, r'). Ok (from_be_bytes bs, r'))"

definition reader_u16 :: "reader \<Rightarrow> (u16 \<times> reader, v2_error) result" where
  "reader_u16 r = and_then (reader_take 2 r) (\<lambda>(bs, r'). Ok (from_be_bytes bs, r'))"

definition reader_i16 :: "reader \<Rightarrow> (i16 \<times> reader, v2_error) result" where
  "reader_i16 r = and_then (reader_take 2 r) (\<lambda>(bs, r'). Ok (from_be_bytes bs, r'))"

definition reader_u32 :: "reader \<Rightarrow> (u32 \<times> reader, v2_error) result" where
  "reader_u32 r = and_then (reader_take 4 r) (\<lambda>(bs, r'). Ok (from_be_bytes bs, r'))"

definition reader_u64 :: "reader \<Rightarrow> (u64 \<times> reader, v2_error) result" where
  "reader_u64 r = and_then (reader_take 8 r) (\<lambda>(bs, r'). Ok (from_be_bytes bs, r'))"

definition reader_finish :: "reader \<Rightarrow> (unit, v2_error) result" where
  "reader_finish r =
     (if rd_offset r = length (rd_bytes r) then Ok ()
      else fail (WrongLength (length (rd_bytes r)) (rd_offset r)))"

section \<open>Writer\<close>

text \<open>
  The writer borrows a slice and fills it from the left. \<open>writer_finish\<close> hands the filled slice
  back, as the end of the mutable borrow does.
\<close>

record writer =
  wr_bytes :: bytes
  wr_offset :: nat

definition writer_new :: "bytes \<Rightarrow> writer" where
  "writer_new bs = \<lparr>wr_bytes = bs, wr_offset = 0\<rparr>"

definition writer_bytes :: "bytes \<Rightarrow> writer \<Rightarrow> (writer, v2_error) result" where
  "writer_bytes v w =
     (let end = wr_offset w + length v
      in if end \<le> length (wr_bytes w)
         then Ok (w\<lparr>wr_bytes := splice (wr_bytes w) (wr_offset w) v, wr_offset := end\<rparr>)
         else fail BufferExhausted)"

definition writer_u8 :: "u8 \<Rightarrow> writer \<Rightarrow> (writer, v2_error) result" where
  "writer_u8 v = writer_bytes [v]"

definition writer_i8 :: "i8 \<Rightarrow> writer \<Rightarrow> (writer, v2_error) result" where
  "writer_i8 v = writer_bytes (to_be_bytes v)"

definition writer_u16 :: "u16 \<Rightarrow> writer \<Rightarrow> (writer, v2_error) result" where
  "writer_u16 v = writer_bytes (to_be_bytes v)"

definition writer_i16 :: "i16 \<Rightarrow> writer \<Rightarrow> (writer, v2_error) result" where
  "writer_i16 v = writer_bytes (to_be_bytes v)"

definition writer_u32 :: "u32 \<Rightarrow> writer \<Rightarrow> (writer, v2_error) result" where
  "writer_u32 v = writer_bytes (to_be_bytes v)"

definition writer_u64 :: "u64 \<Rightarrow> writer \<Rightarrow> (writer, v2_error) result" where
  "writer_u64 v = writer_bytes (to_be_bytes v)"

definition writer_finish :: "writer \<Rightarrow> (bytes, v2_error) result" where
  "writer_finish w =
     (if wr_offset w = length (wr_bytes w) then Ok (wr_bytes w)
      else fail (WrongLength (length (wr_bytes w)) (wr_offset w)))"

text \<open>A sequence of statements \<^verbatim>\<open>writer.x(..)?;\<close> stops at the first failure.\<close>

fun write_all :: "(writer \<Rightarrow> (writer, v2_error) result) list \<Rightarrow> writer \<Rightarrow> (writer, v2_error) result"
  where
    "write_all [] w = Ok w"
  | "write_all (f # fs) w = and_then (f w) (write_all fs)"

section \<open>Cursors between what is done and what is left\<close>

text \<open>A cursor that has passed \<open>pre\<close>, with \<open>rest\<close> ahead of it.\<close>

definition reader_on :: "bytes \<Rightarrow> bytes \<Rightarrow> reader" where
  "reader_on pre rest = \<lparr>rd_bytes = pre @ rest, rd_offset = length pre\<rparr>"

definition writer_on :: "bytes \<Rightarrow> bytes \<Rightarrow> writer" where
  "writer_on pre room = \<lparr>wr_bytes = pre @ room, wr_offset = length pre\<rparr>"

lemma reader_new_on: "reader_new bs = reader_on [] bs"
  by (simp add: reader_new_def reader_on_def)

lemma writer_new_on: "writer_new bs = writer_on [] bs"
  by (simp add: writer_new_def writer_on_def)

lemma reader_on_sel [simp]:
  "rd_bytes (reader_on pre rest) = pre @ rest" "rd_offset (reader_on pre rest) = length pre"
  by (simp_all add: reader_on_def)

lemma reader_take_on:
  "reader_take n (reader_on pre rest) =
     (if n \<le> length rest then Ok (take n rest, reader_on (pre @ take n rest) (drop n rest))
      else fail BufferExhausted)"
  by (simp add: reader_take_def reader_on_def)

lemma reader_finish_on [wire_simps]: "reader_finish (reader_on pre rest) = Ok u \<longleftrightarrow> rest = []"
  by (simp add: reader_finish_def reader_on_def)

lemma panics_reader_finish [simp]: "\<not> panics (reader_finish r)"
  by (simp add: reader_finish_def)

lemma panics_reader_take [simp]: "\<not> panics (reader_take n r)"
  by (simp add: reader_take_def Let_def)

lemma reader_take_Ok_iff [wire_dest]:
  "reader_take n (reader_on pre bs) = Ok (v, r) \<longleftrightarrow>
     length v = n \<and> (\<exists>rest. bs = v @ rest \<and> r = reader_on (pre @ v) rest)"
proof
  assume "reader_take n (reader_on pre bs) = Ok (v, r)"
  then have "n \<le> length bs" "v = take n bs" "r = reader_on (pre @ take n bs) (drop n bs)"
    by (auto simp: reader_take_on split: if_splits)
  then have "length v = n \<and> bs = v @ drop n bs \<and> r = reader_on (pre @ v) (drop n bs)"
    by simp
  then show "length v = n \<and> (\<exists>rest. bs = v @ rest \<and> r = reader_on (pre @ v) rest)"
    by blast
qed (auto simp: reader_take_on)

lemma writer_bytes_on [wire_simps]:
  "writer_bytes v (writer_on pre room) =
     (if length v \<le> length room then Ok (writer_on (pre @ v) (drop (length v) room))
      else fail BufferExhausted)"
  by (simp add: writer_bytes_def writer_on_def splice_def)

lemma writer_finish_on [wire_simps]:
  "writer_finish (writer_on pre room) =
     (if room = [] then Ok pre else fail (WrongLength (length pre + length room) (length pre)))"
  by (simp add: writer_finish_def writer_on_def)

lemma panics_writer_bytes [simp]: "\<not> panics (writer_bytes v w)"
  by (simp add: writer_bytes_def Let_def)

lemma panics_writer_finish [simp]: "\<not> panics (writer_finish w)"
  by (simp add: writer_finish_def)

section \<open>Writer actions and the bytes they emit\<close>

definition emits :: "(writer \<Rightarrow> (writer, v2_error) result) \<Rightarrow> bytes \<Rightarrow> bool" where
  "emits f v \<longleftrightarrow> (\<forall>pre room. f (writer_on pre room) = writer_bytes v (writer_on pre room))"

lemma emits_writer_bytes [wire_simps]: "emits (writer_bytes v) v"
  by (simp add: emits_def)

lemma emitsD: "emits f v \<Longrightarrow> f (writer_on pre room) = writer_bytes v (writer_on pre room)"
  by (simp add: emits_def)

lemma emits_Nil [wire_simps]: "emits Ok []"
  by (simp add: emits_def writer_bytes_on)

lemma emits_and_then:
  "emits f u \<Longrightarrow> emits g v \<Longrightarrow> emits (\<lambda>w. and_then (f w) g) (u @ v)"
  by (auto simp: emits_def writer_bytes_on add.commute)

text \<open>Actions in sequence emit the concatenation.\<close>

lemma emits_write_all [wire_simps]:
  "list_all2 emits fs vs \<Longrightarrow> emits (write_all fs) (concat vs)"
proof (induction rule: list_all2_induct)
  case Nil
  then show ?case by (simp add: emits_def writer_bytes_on)
next
  case (Cons f fs v vs)
  then show ?case using emits_and_then [of f v "write_all fs" "concat vs"]
    by (simp add: emits_def)
qed

lemma emits_write_last: "emits f v \<Longrightarrow> emits (write_all [f]) v"
  using emits_write_all [of "[f]" "[v]"] by simp

lemma emits_write_Cons:
  "emits f u \<Longrightarrow> emits (write_all fs) v \<Longrightarrow> emits (write_all (f # fs)) (u @ v)"
  using emits_and_then [of f u "write_all fs" v] by (simp add: emits_def)

text \<open>The same, for a run of statements that more code follows.\<close>

lemma emits_then_Nil: "emits g v \<Longrightarrow> emits (\<lambda>w. and_then (write_all [] w) g) v"
  by (simp add: emits_def)

lemma emits_then_Cons:
  assumes "emits f u" and "emits (\<lambda>w. and_then (write_all fs w) g) v"
  shows "emits (\<lambda>w. and_then (write_all (f # fs) w) g) (u @ v)"
proof -
  have "and_then (write_all (f # fs) w) g = and_then (f w) (\<lambda>w. and_then (write_all fs w) g)" for w
    by (cases "f w") auto
  then show ?thesis using emits_and_then [OF assms] by (simp only:)
qed

lemma emits_for_each:
  "(\<And>x. x \<in> set xs \<Longrightarrow> emits (f x) (enc x)) \<Longrightarrow>
     emits (\<lambda>w. for_each xs w f) (concat (map enc xs))"
proof (induction xs)
  case Nil
  then show ?case by (simp add: emits_def writer_bytes_on)
next
  case (Cons x xs)
  then show ?case using emits_and_then [of "f x" "enc x" "\<lambda>w. for_each xs w f"]
    by (simp add: emits_def)
qed

text \<open>An action on a slice of exactly the emitted length fills it.\<close>

lemma emits_fills:
  assumes "emits f v" and "length v = length room"
  shows "and_then (f (writer_new room)) writer_finish = Ok v"
  using assms by (simp add: writer_new_on emitsD writer_bytes_on writer_finish_on)

lemma panics_write_all:
  "(\<And>f w. f \<in> set fs \<Longrightarrow> \<not> panics (f w)) \<Longrightarrow> \<not> panics (write_all fs w)"
  by (induction fs arbitrary: w) (auto simp: panics_and_then)

section \<open>The contract of a wire field\<close>

text \<open>
  A field of the wire format: its encoding, its width, the reader operation and the writer
  operation for it. The laws are what the record codecs rely on.
\<close>

locale wire_field =
  fixes enc :: "'a \<Rightarrow> bytes"
    and width :: nat
    and rd :: "reader \<Rightarrow> ('a \<times> reader, v2_error) result"
    and wr :: "'a \<Rightarrow> writer \<Rightarrow> (writer, v2_error) result"
  assumes enc_width: "length (enc x) = width"
    and enc_inject: "enc x = enc y \<Longrightarrow> x = y"
    and enc_surj: "length bs = width \<Longrightarrow> \<exists>x. enc x = bs"
    and rd_enc: "reader_take width r = Ok (enc x, r') \<Longrightarrow> rd r = Ok (x, r')"
    and rd_short: "reader_take width r = Inl e \<Longrightarrow> rd r = Inl e"
    and wr_enc: "wr x w = writer_bytes (enc x) w"
begin

lemma read_written: "rd (reader_on pre (enc x @ rest)) = Ok (x, reader_on (pre @ enc x) rest)"
  by (rule rd_enc) (simp add: reader_take_on enc_width)

lemma read_iff:
  "rd (reader_on pre bs) = Ok (x, r) \<longleftrightarrow>
     (\<exists>rest. bs = enc x @ rest \<and> r = reader_on (pre @ enc x) rest)"
proof (cases "width \<le> length bs")
  case True
  then obtain y where y: "enc y = take width bs"
    using enc_surj [of "take width bs"] by auto
  then have "bs = enc y @ drop width bs"
    by simp
  then have "rd (reader_on pre bs) = Ok (y, reader_on (pre @ enc y) (drop width bs))"
    using read_written by metis
  then show ?thesis
    using \<open>bs = enc y @ drop width bs\<close> enc_width by (metis append_eq_append_conv enc_inject Inr_inject Pair_inject)
next
  case False
  then have "rd (reader_on pre bs) = fail BufferExhausted"
    by (intro rd_short) (simp add: reader_take_on)
  then show ?thesis using False enc_width by auto
qed

lemma read_no_panic: "\<not> panics (rd r)"
proof (cases "reader_take width r")
  case (Inl e)
  then show ?thesis
    using rd_short [OF Inl] panics_reader_take [of width r] by (simp add: panics_def)
next
  case (Inr p)
  obtain bs r' where p: "p = (bs, r')" by (cases p)
  with Inr have "length bs = width"
    by (auto simp: reader_take_def Let_def split: if_splits)
  then obtain x where "enc x = bs" using enc_surj by blast
  then show ?thesis using rd_enc Inr p by (metis panics_simps(3))
qed

lemma write_emits: "emits (wr x) (enc x)"
  by (simp add: emits_def wr_enc)

lemma write_no_panic: "\<not> panics (wr x w)"
  by (simp add: wr_enc)

end

lemma reader_take_length: "reader_take n r = Ok (bs, r') \<Longrightarrow> length bs = n"
  by (auto simp: reader_take_def Let_def split: if_splits)

interpretation u8_field: wire_field "\<lambda>x. [x]" 1 reader_u8 writer_u8
proof (unfold_locales, goal_cases)
  case (3 bs)
  then show ?case by (cases bs) auto
qed (auto simp: reader_u8_def writer_u8_def index_def)

text \<open>An integer of whole bytes is a wire field: the one proof behind the other widths.\<close>

lemma be_wire_field:
  assumes "8 dvd LENGTH('a::len)"
    and "\<And>r. rd r = and_then (reader_take (LENGTH('a) div 8) r) (\<lambda>(bs, r'). Ok (from_be_bytes bs, r'))"
    and "\<And>x :: 'a word. wr x = writer_bytes (to_be_bytes x)"
  shows "wire_field (to_be_bytes :: 'a word \<Rightarrow> bytes) (LENGTH('a) div 8) rd wr"
proof (unfold_locales, goal_cases)
  case (1 x)
  then show ?case by simp
next
  case (2 x y)
  then show ?case using from_be_bytes_to_be_bytes [OF assms(1)] by metis
next
  case (3 bs)
  then show ?case using to_be_bytes_from_be_bytes [OF assms(1)] by blast
next
  case (4 r x r')
  then show ?case using assms(1) by (simp add: assms(2) from_be_bytes_to_be_bytes)
next
  case (5 r e)
  then show ?case by (simp add: assms(2))
next
  case (6 x w)
  then show ?case by (simp add: assms(3))
qed

interpretation i8_field: wire_field "to_be_bytes :: i8 \<Rightarrow> bytes" 1 reader_i8 writer_i8
  using be_wire_field [of reader_i8 writer_i8] by (simp add: reader_i8_def writer_i8_def)

interpretation u16_field: wire_field "to_be_bytes :: u16 \<Rightarrow> bytes" 2 reader_u16 writer_u16
  using be_wire_field [of reader_u16 writer_u16] by (simp add: reader_u16_def writer_u16_def)

interpretation i16_field: wire_field "to_be_bytes :: i16 \<Rightarrow> bytes" 2 reader_i16 writer_i16
  using be_wire_field [of reader_i16 writer_i16] by (simp add: reader_i16_def writer_i16_def)

interpretation u32_field: wire_field "to_be_bytes :: u32 \<Rightarrow> bytes" 4 reader_u32 writer_u32
  using be_wire_field [of reader_u32 writer_u32] by (simp add: reader_u32_def writer_u32_def)

interpretation u64_field: wire_field "to_be_bytes :: u64 \<Rightarrow> bytes" 8 reader_u64 writer_u64
  using be_wire_field [of reader_u64 writer_u64] by (simp add: reader_u64_def writer_u64_def)

text \<open>Every successful read moves the cursor: the measure of the loops over a reader.\<close>

lemma reader_take_moves:
  "reader_take n r = Ok (bs, r') \<Longrightarrow>
     rd_bytes r' = rd_bytes r \<and> rd_offset r' = rd_offset r + n \<and> rd_offset r' \<le> length (rd_bytes r)"
  by (auto simp: reader_take_def Let_def split: if_splits)

lemma reader_moves:
  "reader_u8 r = Ok (a, r') \<Longrightarrow>
     rd_bytes r' = rd_bytes r \<and> rd_offset r' = rd_offset r + 1 \<and> rd_offset r' \<le> length (rd_bytes r)"
  "reader_u16 r = Ok (b, r') \<Longrightarrow>
     rd_bytes r' = rd_bytes r \<and> rd_offset r' = rd_offset r + 2 \<and> rd_offset r' \<le> length (rd_bytes r)"
  "reader_i16 r = Ok (c, r') \<Longrightarrow>
     rd_bytes r' = rd_bytes r \<and> rd_offset r' = rd_offset r + 2 \<and> rd_offset r' \<le> length (rd_bytes r)"
  by (auto simp: reader_u8_def reader_u16_def reader_i16_def dest!: reader_take_moves)

lemmas field_read_iff [wire_dest] =
  u8_field.read_iff i8_field.read_iff u16_field.read_iff i16_field.read_iff u32_field.read_iff
  u64_field.read_iff

lemmas field_read_written [wire_simps] =
  u8_field.read_written [simplified] i8_field.read_written [simplified] u16_field.read_written
  i16_field.read_written u32_field.read_written u64_field.read_written

lemmas field_read_last [wire_simps] =
  u16_field.read_written [where rest = "[]", simplified]
  i16_field.read_written [where rest = "[]", simplified]
  u32_field.read_written [where rest = "[]", simplified]
  u64_field.read_written [where rest = "[]", simplified]

lemmas field_emits [wire_simps] =
  u8_field.write_emits i8_field.write_emits u16_field.write_emits i16_field.write_emits
  u32_field.write_emits u64_field.write_emits

lemmas emits_intros =
  emits_write_last emits_write_Cons emits_writer_bytes field_emits

lemmas field_no_panic [simp] =
  u8_field.read_no_panic i8_field.read_no_panic u16_field.read_no_panic i16_field.read_no_panic
  u32_field.read_no_panic u64_field.read_no_panic
  u8_field.write_no_panic i8_field.write_no_panic u16_field.write_no_panic
  i16_field.write_no_panic u32_field.write_no_panic u64_field.write_no_panic

end
