(* ===== verification/V2_Model.thy ===== *)
theory V2_Model
  imports V2_Wire
begin

text \<open>
  The records of protocol version 2 (\<^verbatim>\<open>crates/vesta-protocol/src/v2.rs\<close>), the flag constants
  and the structural validators, with what each validator guarantees when it accepts.

  A Rust array \<open>[T; N]\<close> is a list; that its length is \<open>N\<close> is part of the well-formedness of
  the record that holds it (\<open>wf_config\<close>, \<open>wf_scan\<close>, \<open>wf_health\<close>).
\<close>

section \<open>Constants\<close>

definition VERSION_V2 :: u8 where "VERSION_V2 = 2"
definition V2_MAGIC :: bytes where "V2_MAGIC = [0x56, 0x53]"
definition HEADER_LEN :: nat where "HEADER_LEN = 48"
definition MAX_PHY_FRAME_LEN :: nat where "MAX_PHY_FRAME_LEN = 255"
definition MAX_PROFILE_STEPS :: nat where "MAX_PROFILE_STEPS = 10"
definition MAX_PROFILE_STEPS_U8 :: u8 where "MAX_PROFILE_STEPS_U8 = 10"
definition STEPS_PER_FRAGMENT :: nat where "STEPS_PER_FRAGMENT = 3"
definition STEPS_PER_FRAGMENT_U8 :: u8 where "STEPS_PER_FRAGMENT_U8 = 3"
definition MAX_PROFILE_FRAGMENTS :: nat where "MAX_PROFILE_FRAGMENTS = 4"
definition PROFILE_STEP_LEN :: nat where "PROFILE_STEP_LEN = 47"
definition PROFILE_FRAGMENT_META_LEN :: nat where "PROFILE_FRAGMENT_META_LEN = 42"
definition MAX_PROFILE_FRAME_LEN :: nat where
  "MAX_PROFILE_FRAME_LEN =
     HEADER_LEN + PROFILE_FRAGMENT_META_LEN + STEPS_PER_FRAGMENT * PROFILE_STEP_LEN"
definition CONFIG_BASE_LEN :: nat where "CONFIG_BASE_LEN = 83"
definition CONFIG_STEP_LEN :: nat where "CONFIG_STEP_LEN = 10"
definition MAX_V2_FRAME_LEN :: nat where "MAX_V2_FRAME_LEN = MAX_PROFILE_FRAME_LEN"
definition HEALTH_BASE_LEN :: nat where "HEALTH_BASE_LEN = 54"
definition MAX_HEALTH_EXTENSION_LEN :: nat where "MAX_HEALTH_EXTENSION_LEN = 8"

lemmas v2_lens =
  HEADER_LEN_def MAX_PHY_FRAME_LEN_def MAX_PROFILE_STEPS_def STEPS_PER_FRAGMENT_def
  MAX_PROFILE_FRAGMENTS_def PROFILE_STEP_LEN_def PROFILE_FRAGMENT_META_LEN_def
  MAX_PROFILE_FRAME_LEN_def CONFIG_BASE_LEN_def CONFIG_STEP_LEN_def MAX_V2_FRAME_LEN_def
  HEALTH_BASE_LEN_def MAX_HEALTH_EXTENSION_LEN_def

definition COMMON_FLAG_BOOT_ID_VALID :: u8 where "COMMON_FLAG_BOOT_ID_VALID = 0x01"
definition COMMON_FLAG_BOOT_ID_FROM_HW_RNG :: u8 where "COMMON_FLAG_BOOT_ID_FROM_HW_RNG = 0x02"
definition COMMON_FLAG_CONFIG_REPEAT :: u8 where "COMMON_FLAG_CONFIG_REPEAT = 0x04"
definition COMMON_FLAGS_KNOWN :: u8 where
  "COMMON_FLAGS_KNOWN =
     COMMON_FLAG_BOOT_ID_VALID OR COMMON_FLAG_BOOT_ID_FROM_HW_RNG OR COMMON_FLAG_CONFIG_REPEAT"

definition CONFIG_FLAG_CALIBRATION_HASH_VALID :: u8 where
  "CONFIG_FLAG_CALIBRATION_HASH_VALID = 0x01"
definition CONFIG_FLAG_SENSOR_CONFIG_READ_BACK :: u8 where
  "CONFIG_FLAG_SENSOR_CONFIG_READ_BACK = 0x02"
definition CONFIG_FLAGS_KNOWN :: u8 where
  "CONFIG_FLAGS_KNOWN =
     CONFIG_FLAG_CALIBRATION_HASH_VALID OR CONFIG_FLAG_SENSOR_CONFIG_READ_BACK"

definition OUTPUT_ROUTE_LORA_P2P :: u8 where "OUTPUT_ROUTE_LORA_P2P = push_bit 0 1"
definition OUTPUT_ROUTE_UART_COBS_CRC32 :: u8 where "OUTPUT_ROUTE_UART_COBS_CRC32 = push_bit 1 1"
definition OUTPUT_ROUTE_RTT :: u8 where "OUTPUT_ROUTE_RTT = push_bit 2 1"
definition OUTPUT_ROUTES_KNOWN :: u8 where
  "OUTPUT_ROUTES_KNOWN =
     OUTPUT_ROUTE_LORA_P2P OR OUTPUT_ROUTE_UART_COBS_CRC32 OR OUTPUT_ROUTE_RTT"

definition BUILD_FLAG_ID_VALID :: u8 where "BUILD_FLAG_ID_VALID = 0x01"
definition BUILD_FLAG_DIRTY :: u8 where "BUILD_FLAG_DIRTY = 0x02"
definition BUILD_FLAG_DEBUG_SLEEP :: u8 where "BUILD_FLAG_DEBUG_SLEEP = 0x04"
definition BUILD_FLAGS_KNOWN :: u8 where
  "BUILD_FLAGS_KNOWN = BUILD_FLAG_ID_VALID OR BUILD_FLAG_DIRTY OR BUILD_FLAG_DEBUG_SLEEP"

definition COLLECTION_FLAG_DUPLICATE :: u32 where "COLLECTION_FLAG_DUPLICATE = push_bit 2 1"
definition COLLECTION_FLAG_SENSOR_RECONFIGURED :: u32 where
  "COLLECTION_FLAG_SENSOR_RECONFIGURED = push_bit 11 1"
definition COLLECTION_FLAG_CONFIG_MISMATCH :: u32 where
  "COLLECTION_FLAG_CONFIG_MISMATCH = push_bit 12 1"
definition COLLECTION_FLAG_STALE_PRE_SCAN_FIELDS :: u32 where
  "COLLECTION_FLAG_STALE_PRE_SCAN_FIELDS = push_bit 13 1"
definition COLLECTION_FLAGS_KNOWN :: u32 where "COLLECTION_FLAGS_KNOWN = 0x3fff"
definition FINISH_REASON_COMPLETE :: u8 where "FINISH_REASON_COMPLETE = 0"
definition FINISH_REASON_PROFILE_ROLLOVER :: u8 where "FINISH_REASON_PROFILE_ROLLOVER = 4"
definition RESET_CAUSE_FLAGS_KNOWN :: u16 where "RESET_CAUSE_FLAGS_KNOWN = 0x00ff"
definition HEALTH_FLAG_BOOT_ID_UNAVAILABLE :: u8 where
  "HEALTH_FLAG_BOOT_ID_UNAVAILABLE = push_bit 1 1"
definition HEALTH_FLAG_CONFIG_MISMATCH :: u8 where "HEALTH_FLAG_CONFIG_MISMATCH = push_bit 2 1"
definition HEALTH_FLAGS_KNOWN :: u8 where "HEALTH_FLAGS_KNOWN = 0x3f"

definition CONFIG_SCHEMA_VERSION :: u8 where "CONFIG_SCHEMA_VERSION = 1"
definition PROFILE_SCHEMA_VERSION :: u8 where "PROFILE_SCHEMA_VERSION = 1"
definition HEALTH_SCHEMA_VERSION :: u8 where "HEALTH_SCHEMA_VERSION = 1"

lemmas v2_flags =
  COMMON_FLAG_BOOT_ID_VALID_def COMMON_FLAG_BOOT_ID_FROM_HW_RNG_def
  COMMON_FLAG_CONFIG_REPEAT_def COMMON_FLAGS_KNOWN_def

lemmas v2_schemas =
  CONFIG_SCHEMA_VERSION_def PROFILE_SCHEMA_VERSION_def HEALTH_SCHEMA_VERSION_def

section \<open>Records\<close>

datatype frame_type = DeviceConfig | ProfileFragment | DeviceHealth

fun frame_type_u8 :: "frame_type \<Rightarrow> u8" where
  "frame_type_u8 DeviceConfig = 1"
| "frame_type_u8 ProfileFragment = 2"
| "frame_type_u8 DeviceHealth = 3"

definition frame_type_try_from :: "u8 \<Rightarrow> (frame_type, v2_error) result" where
  "frame_type_try_from value =
     (if value = 1 then Ok DeviceConfig
      else if value = 2 then Ok ProfileFragment
      else if value = 3 then Ok DeviceHealth
      else fail (UnknownFrameType value))"

record common =
  c_flags :: u8
  c_node_id :: u64
  c_boot_id :: u64
  c_scan_sequence :: u32
  c_uptime_ms :: u64
  c_config_id :: u64
  c_reset_cause_flags :: u16

definition common_production :: "u64 \<Rightarrow> u64 \<Rightarrow> u32 \<Rightarrow> u64 \<Rightarrow> u64 \<Rightarrow> u16 \<Rightarrow> common" where
  "common_production node_id boot_id scan_sequence uptime_ms config_id reset_cause_flags =
     \<lparr>c_flags = COMMON_FLAG_BOOT_ID_VALID OR COMMON_FLAG_BOOT_ID_FROM_HW_RNG,
      c_node_id = node_id, c_boot_id = boot_id, c_scan_sequence = scan_sequence,
      c_uptime_ms = uptime_ms, c_config_id = config_id,
      c_reset_cause_flags = reset_cause_flags\<rparr>"

definition common_boot_id_unavailable :: "u64 \<Rightarrow> u32 \<Rightarrow> u64 \<Rightarrow> u64 \<Rightarrow> u16 \<Rightarrow> common" where
  "common_boot_id_unavailable node_id scan_sequence uptime_ms config_id reset_cause_flags =
     \<lparr>c_flags = 0, c_node_id = node_id, c_boot_id = 0, c_scan_sequence = scan_sequence,
      c_uptime_ms = uptime_ms, c_config_id = config_id,
      c_reset_cause_flags = reset_cause_flags\<rparr>"

record header =
  h_frame_type :: frame_type
  h_common :: common
  h_fragment_index :: u8
  h_fragment_count :: u8
  h_payload_len :: u16

record encoded_frame =
  ef_bytes :: bytes
  ef_len :: u8

definition encoded_frame_EMPTY :: encoded_frame where
  "encoded_frame_EMPTY = \<lparr>ef_bytes = replicate MAX_PHY_FRAME_LEN 0, ef_len = 0\<rparr>"

definition as_slice :: "encoded_frame \<Rightarrow> bytes" where
  "as_slice f = take (unat (ef_len f)) (ef_bytes f)"

record heater_step_config =
  hs_target_temperature_celsius :: u16
  hs_configured_duration_us :: u32
  hs_repetition_multiplier :: u8
  hs_readback_heater_current :: u8
  hs_programmed_heater_resistance :: u8
  hs_programmed_gas_wait :: u8

definition heater_step_config_default :: heater_step_config where
  "heater_step_config_default =
     \<lparr>hs_target_temperature_celsius = 0, hs_configured_duration_us = 0,
      hs_repetition_multiplier = 0, hs_readback_heater_current = 0,
      hs_programmed_heater_resistance = 0, hs_programmed_gas_wait = 0\<rparr>"

record device_config =
  dc_flags :: u8
  dc_firmware_version :: bytes
  dc_firmware_build_flags :: u8
  dc_firmware_build_id :: u64
  dc_sensor_chip_id :: u8
  dc_sensor_variant :: u8
  dc_sensor_i2c_address :: u8
  dc_temperature_oversampling :: u8
  dc_humidity_oversampling :: u8
  dc_pressure_oversampling :: u8
  dc_iir_filter :: u8
  dc_standby_time :: u8
  dc_operation_mode :: u8
  dc_heater_enabled :: u8
  dc_parallel_requested_shared_wait_ms :: u16
  dc_parallel_shared_wait_register :: u8
  dc_parallel_quantized_shared_wait_us :: u32
  dc_tphg_duration_us :: u32
  dc_expected_profile_duration_us :: u32
  dc_profile_id :: u16
  dc_profile_version :: u16
  dc_expected_step_count :: u8
  dc_heater_readback_valid_bitmap :: u16
  dc_calibration_hash_algorithm :: u8
  dc_calibration_hash :: u64
  dc_scan_interval_ms :: u32
  dc_config_repeat_interval_scans :: u16
  dc_output_routes :: u8
  dc_radio_frequency_hz :: u32
  dc_radio_tx_power_dbm :: i8
  dc_radio_spreading_factor :: u8
  dc_radio_bandwidth_hz :: u32
  dc_radio_coding_rate_numerator :: u8
  dc_radio_coding_rate_denominator :: u8
  dc_radio_preamble_symbols :: u16
  dc_radio_header_mode :: u8
  dc_radio_phy_crc_enabled :: u8
  dc_radio_iq_inverted :: u8
  dc_radio_sync_word :: u16
  dc_max_frame_len :: u8
  dc_profile_steps_per_fragment :: u8
  dc_steps :: "heater_step_config list"

record profile_step =
  ps_step_index :: u8
  ps_gas_index :: u8
  ps_measurement_index :: u8
  ps_status :: u8
  ps_raw_measurement_status :: u8
  ps_raw_gas_status :: u8
  ps_target_temperature_celsius :: u16
  ps_configured_duration_us :: u32
  ps_offset_us :: u32
  ps_temperature_centi_celsius :: i16
  ps_pressure_pascal :: u32
  ps_humidity_milli_percent_rh :: u32
  ps_gas_resistance_ohm :: u32
  ps_temperature_adc :: u32
  ps_pressure_adc :: u32
  ps_humidity_adc :: u16
  ps_gas_resistance_adc :: u16
  ps_gas_range :: u8
  ps_repetition_multiplier :: u8
  ps_heater_resistance :: u8
  ps_heater_current :: u8
  ps_gas_wait :: u8

record profile_scan =
  sc_profile_id :: u16
  sc_profile_version :: u16
  sc_expected_step_count :: u8
  sc_observed_unique_step_count :: u8
  sc_observed_field_count :: u16
  sc_missing_steps_bitmap :: u16
  sc_duplicate_steps_bitmap :: u16
  sc_scan_duration_us :: u32
  sc_collection_flags :: u32
  sc_finish_reason :: u8
  sc_duplicate_count :: u16
  sc_overwritten_field_count :: u16
  sc_out_of_order_count :: u16
  sc_ambiguous_index_jump_count :: u16
  sc_invalid_gas_index_count :: u16
  sc_intermediate_field_count :: u16
  sc_profile_rollover_count :: u16
  sc_fields_after_rollover_count :: u16
  sc_poll_count :: u16
  sc_steps :: "profile_step option list"

record encoded_profile =
  ep_frames :: "encoded_frame list"
  ep_count :: u8

definition encoded_profile_frames :: "encoded_profile \<Rightarrow> encoded_frame list" where
  "encoded_profile_frames p = take (unat (ep_count p)) (ep_frames p)"

record device_health =
  dh_flags :: u8
  dh_reset_cause_raw :: u32
  dh_successful_sensor_scans :: u32
  dh_failed_sensor_scans :: u32
  dh_incomplete_profiles :: u32
  dh_i2c_errors :: u32
  dh_radio_tx_errors :: u32
  dh_dropped_profiles :: u32
  dh_dropped_fragments :: u32
  dh_overwritten_fields :: u32
  dh_current_sample_interval_ms :: u32
  dh_firmware_version :: bytes
  dh_profile_id :: u16
  dh_profile_version :: u16
  dh_last_sensor_error :: u16
  dh_last_radio_error :: u16
  dh_calibrated_mcu_temperature_centi_celsius :: "i16 option"
  dh_calibrated_vdd_millivolt :: "u16 option"

record profile_fragment_view =
  fv_header :: header
  fv_profile_id :: u16
  fv_profile_version :: u16
  fv_expected_step_count :: u8
  fv_observed_unique_step_count :: u8
  fv_observed_field_count :: u16
  fv_missing_steps_bitmap :: u16
  fv_duplicate_steps_bitmap :: u16
  fv_scan_duration_us :: u32
  fv_collection_flags :: u32
  fv_finish_reason :: u8
  fv_duplicate_count :: u16
  fv_overwritten_field_count :: u16
  fv_out_of_order_count :: u16
  fv_ambiguous_index_jump_count :: u16
  fv_invalid_gas_index_count :: u16
  fv_intermediate_field_count :: u16
  fv_profile_rollover_count :: u16
  fv_fields_after_rollover_count :: u16
  fv_poll_count :: u16
  fv_step_window_start :: u8
  fv_steps_in_fragment :: u8
  fv_step_bytes :: bytes

datatype decoded_frame =
  DF_DeviceConfig header device_config
| DF_ProfileFragment profile_fragment_view
| DF_DeviceHealth header device_health

text \<open>The lengths the Rust array types fix.\<close>

definition wf_config :: "device_config \<Rightarrow> bool" where
  "wf_config c \<longleftrightarrow>
     length (dc_firmware_version c) = 3 \<and> length (dc_steps c) = MAX_PROFILE_STEPS"

definition wf_scan :: "profile_scan \<Rightarrow> bool" where
  "wf_scan s \<longleftrightarrow> length (sc_steps s) = MAX_PROFILE_STEPS"

definition wf_health :: "device_health \<Rightarrow> bool" where
  "wf_health h \<longleftrightarrow> length (dh_firmware_version h) = 3"

end
