(* ===== verification/V2_Validate.thy ===== *)
theory V2_Validate
  imports V2_Model
begin

text \<open>
  The structural validators of \<^verbatim>\<open>v2.rs\<close>, shared by its encoders and decoders, and the
  facts about step bitmaps they rest on. \<open>validate_config\<close>, \<open>validate_profile\<close> and the
  others keep the order of the checks in the source, so that the error they return is the one
  the source returns.
\<close>

section \<open>Flag checks\<close>

definition ensure_known_u8 :: "string \<Rightarrow> u8 \<Rightarrow> u8 \<Rightarrow> (unit, v2_error) result" where
  "ensure_known_u8 field value known =
     (let unknown = value AND NOT known
      in if unknown = 0 then Ok () else fail (UnknownFlags field (ucast unknown)))"

definition ensure_known_u16 :: "string \<Rightarrow> u16 \<Rightarrow> u16 \<Rightarrow> (unit, v2_error) result" where
  "ensure_known_u16 field value known =
     (let unknown = value AND NOT known
      in if unknown = 0 then Ok () else fail (UnknownFlags field (ucast unknown)))"

definition ensure_known_u32 :: "string \<Rightarrow> u32 \<Rightarrow> u32 \<Rightarrow> (unit, v2_error) result" where
  "ensure_known_u32 field value known =
     (let unknown = value AND NOT known
      in if unknown = 0 then Ok () else fail (UnknownFlags field unknown))"

lemma ensure_known_Ok [simp]:
  "ensure_known_u8 f a k = Ok u \<longleftrightarrow> a AND NOT k = 0"
  "ensure_known_u16 f b l = Ok u \<longleftrightarrow> b AND NOT l = 0"
  "ensure_known_u32 f c m = Ok u \<longleftrightarrow> c AND NOT m = 0"
  by (auto simp: ensure_known_u8_def ensure_known_u16_def ensure_known_u32_def Let_def)

lemma panics_ensure_known [simp]:
  "\<not> panics (ensure_known_u8 f a k)" "\<not> panics (ensure_known_u16 f b l)"
  "\<not> panics (ensure_known_u32 f c m)"
  by (auto simp: ensure_known_u8_def ensure_known_u16_def ensure_known_u32_def Let_def)

section \<open>Step masks\<close>

definition step_mask :: "u8 \<Rightarrow> (u16, 'e) result" where
  "step_mask step_count = map_ok (\<lambda>w. w - 1) (shl1_u16 (unat step_count))"

lemma step_mask_eq: "unat n < 16 \<Longrightarrow> step_mask n = Ok (mask (unat n))"
  by (simp add: step_mask_def shl1_u16_def mask_eq_exp_minus_1)

lemma step_mask_Ok: "step_mask n = Ok m \<longleftrightarrow> unat n < 16 \<and> m = mask (unat n)"
  by (auto simp: step_mask_def shl1_u16_def mask_eq_exp_minus_1)

lemma panics_step_mask [simp]: "panics (step_mask n) \<longleftrightarrow> 16 \<le> unat n"
  by (simp add: step_mask_def)

lemma u8_le_10: "(n :: u8) \<le> 10 \<Longrightarrow> unat n \<le> 10"
  by (simp add: word_le_nat_alt)

text \<open>A bitmap has no bit outside the mask exactly when its bits are all below the count.\<close>

lemma and_not_mask_eq_0_iff:
  "(w :: 'a::len word) AND NOT (mask n) = 0 \<longleftrightarrow> (\<forall>i. bit w i \<longrightarrow> i < n)"
  by (auto simp: bit_eq_iff bit_simps dest: bit_imp_le_length)

lemma and_single_bit_eq_0_iff:
  "i < LENGTH('a) \<Longrightarrow> (w :: 'a::len word) AND push_bit i 1 = 0 \<longleftrightarrow> \<not> bit w i"
  by (simp add: and_exp_eq_0_iff_not_bit)

lemma count_ones_within:
  fixes w :: "'a::len word"
  assumes "w AND NOT (mask n) = 0"
  shows "count_ones w \<le> n"
proof -
  have "{i. bit w i} \<subseteq> {..<n}"
    using assms by (auto simp: and_not_mask_eq_0_iff)
  then have "card {i. bit w i} \<le> card {..<n}"
    by (rule card_mono [OF finite_lessThan])
  then show ?thesis by (simp add: count_ones_card)
qed

section \<open>Configuration\<close>

text \<open>
  The loop over the ten heater-step slots: unused slots are zero, and a slot whose registers were
  not read back carries no register value.
\<close>

definition validate_config_step ::
  "device_config \<Rightarrow> nat \<times> heater_step_config \<Rightarrow> (unit, v2_error) result" where
  "validate_config_step c p =
     (case p of (i, step) \<Rightarrow>
        checks
         [reject_if (unat (dc_expected_step_count c) \<le> i \<and> step \<noteq> heater_step_config_default)
            (InvalidField ''unused_heater_step''),
          reject_if
            (i < unat (dc_expected_step_count c)
             \<and> dc_heater_readback_valid_bitmap c AND push_bit i 1 = 0
             \<and> (hs_readback_heater_current step \<noteq> 0
                \<or> hs_programmed_heater_resistance step \<noteq> 0
                \<or> hs_programmed_gas_wait step \<noteq> 0))
            (InvalidField ''unverified_heater_readback'')])"

definition validate_config :: "device_config \<Rightarrow> (unit, v2_error) result" where
  "validate_config c =
     checks
      ([ensure_known_u8 ''config_flags'' (dc_flags c) CONFIG_FLAGS_KNOWN,
        ensure_known_u8 ''firmware_build_flags'' (dc_firmware_build_flags c) BUILD_FLAGS_KNOWN,
        ensure_known_u8 ''output_routes'' (dc_output_routes c) OUTPUT_ROUTES_KNOWN,
        reject_if (dc_output_routes c = 0) (InvalidField ''output_routes''),
        reject_if (dc_profile_id c = 0 \<or> dc_profile_version c = 0)
          (InvalidField ''profile_identity''),
        reject_if (dc_sensor_variant c \<noteq> 0 \<and> dc_sensor_variant c \<noteq> 1 \<and> dc_sensor_variant c \<noteq> 255)
          (InvalidField ''sensor_variant''),
        reject_if (dc_temperature_oversampling c > 5 \<or> dc_humidity_oversampling c > 5
                   \<or> dc_pressure_oversampling c > 5)
          (InvalidField ''oversampling''),
        reject_if (dc_iir_filter c > 7) (InvalidField ''iir_filter''),
        reject_if (dc_standby_time c > 8) (InvalidField ''standby_time''),
        reject_if (\<not> (1 \<le> dc_operation_mode c \<and> dc_operation_mode c \<le> 3))
          (InvalidField ''operation_mode''),
        reject_if (\<not> (1 \<le> dc_expected_step_count c
                      \<and> dc_expected_step_count c \<le> MAX_PROFILE_STEPS_U8))
          (InvalidField ''expected_step_count''),
        and_then (step_mask (dc_expected_step_count c)) (\<lambda>valid_step_mask.
          reject_if (dc_heater_readback_valid_bitmap c AND NOT valid_step_mask \<noteq> 0)
            (InvalidField ''heater_readback_valid_bitmap'')),
        reject_if (dc_heater_enabled c > 1 \<or> dc_radio_phy_crc_enabled c > 1
                   \<or> dc_radio_iq_inverted c > 1 \<or> dc_radio_header_mode c > 1)
          (InvalidField ''boolean''),
        reject_if (dc_profile_steps_per_fragment c \<noteq> STEPS_PER_FRAGMENT_U8)
          (InvalidField ''profile_steps_per_fragment''),
        reject_if (unat (dc_max_frame_len c) \<noteq> MAX_V2_FRAME_LEN) (InvalidField ''max_frame_len''),
        (if dc_flags c AND CONFIG_FLAG_CALIBRATION_HASH_VALID = 0
         then reject_if (dc_calibration_hash_algorithm c \<noteq> 0 \<or> dc_calibration_hash c \<noteq> 0)
                (InvalidField ''calibration_hash'')
         else reject_if (dc_calibration_hash_algorithm c \<noteq> 1)
                (InvalidField ''calibration_hash_algorithm'')),
        reject_if (dc_firmware_build_flags c AND BUILD_FLAG_ID_VALID = 0
                   \<and> dc_firmware_build_id c \<noteq> 0)
          (InvalidField ''firmware_build_id''),
        reject_if (\<not> (5 \<le> dc_radio_spreading_factor c \<and> dc_radio_spreading_factor c \<le> 12))
          (InvalidField ''radio_spreading_factor''),
        reject_if (dc_radio_bandwidth_hz c = 0) (InvalidField ''radio_bandwidth_hz''),
        reject_if (dc_radio_coding_rate_numerator c \<noteq> 4
                   \<or> \<not> (5 \<le> dc_radio_coding_rate_denominator c
                        \<and> dc_radio_coding_rate_denominator c \<le> 8))
          (InvalidField ''radio_coding_rate''),
        reject_if (dc_radio_preamble_symbols c = 0) (InvalidField ''radio_preamble_symbols'')]
       @ map (validate_config_step c) (enumerate 0 (dc_steps c)))"

lemma panics_validate_config_step [simp]: "\<not> panics (validate_config_step c p)"
  by (cases p) (simp add: validate_config_step_def panics_checks del: checks.simps)

lemma panics_checks_append:
  "panics (checks (cs @ ds)) \<longleftrightarrow> panics (checks cs) \<or> checks cs = Ok () \<and> panics (checks ds)"
  by (induction cs) (auto simp: panics_and_then)

lemma panics_checks_all: "(\<And>c. c \<in> set cs \<Longrightarrow> \<not> panics c) \<Longrightarrow> \<not> panics (checks cs)"
  by (induction cs) (auto simp: panics_and_then)

lemma validate_config_no_panic: "\<not> panics (validate_config c)"
proof -
  have "\<not> panics (checks (map (validate_config_step c) (enumerate 0 (dc_steps c))))"
    by (rule panics_checks_all) auto
  then show ?thesis
    unfolding validate_config_def panics_checks_append
    by (auto simp: panics_checks panics_and_then MAX_PROFILE_STEPS_U8_def dest!: u8_le_10
        simp del: checks.simps)
qed

text \<open>What the codec needs from an accepted configuration.\<close>

lemma validate_config_bounds:
  assumes "validate_config c = Ok u"
  shows "1 \<le> unat (dc_expected_step_count c)" "unat (dc_expected_step_count c) \<le> 10"
    "dc_flags c AND NOT CONFIG_FLAGS_KNOWN = 0"
    "dc_firmware_build_flags c AND NOT BUILD_FLAGS_KNOWN = 0"
    "\<And>i. unat (dc_expected_step_count c) \<le> i \<Longrightarrow> i < length (dc_steps c) \<Longrightarrow>
       dc_steps c ! i = heater_step_config_default"
proof -
  have "1 \<le> dc_expected_step_count c" "dc_expected_step_count c \<le> 10"
    using assms by (auto simp: validate_config_def MAX_PROFILE_STEPS_U8_def)
  then show "1 \<le> unat (dc_expected_step_count c)" "unat (dc_expected_step_count c) \<le> 10"
    by (auto simp: word_le_nat_alt)
  show "dc_flags c AND NOT CONFIG_FLAGS_KNOWN = 0"
    "dc_firmware_build_flags c AND NOT BUILD_FLAGS_KNOWN = 0"
    using assms by (auto simp: validate_config_def)
  fix i
  assume i: "unat (dc_expected_step_count c) \<le> i" "i < length (dc_steps c)"
  have "validate_config_step c (i, dc_steps c ! i) = Ok ()"
    using assms i(2) unfolding validate_config_def
    by (auto simp: in_set_enumerate_eq)
  then show "dc_steps c ! i = heater_step_config_default"
    using i(1) by (simp add: validate_config_step_def)
qed

section \<open>Profile steps and scans\<close>

definition validate_profile_step :: "profile_step \<Rightarrow> (unit, v2_error) result" where
  "validate_profile_step step =
     (let raw_known_status =
            (ps_raw_measurement_status step AND 0x80) OR (ps_raw_gas_status step AND 0x30)
      in checks
          [reject_if (ps_status step AND 0xb0 \<noteq> raw_known_status) (InvalidField ''step_status_raw''),
           reject_if (ps_gas_index step \<noteq> ps_raw_measurement_status step AND 0x0f)
             (InvalidField ''step_gas_index_raw''),
           reject_if (ps_gas_range step \<noteq> ps_raw_gas_status step AND 0x0f)
             (InvalidField ''step_gas_range_raw''),
           reject_if (ps_gas_index step \<noteq> ps_step_index step) (InvalidField ''step_gas_index'')])"

lemma panics_validate_profile_step [simp]: "\<not> panics (validate_profile_step s)"
  by (simp add: validate_profile_step_def Let_def panics_checks del: checks.simps)

text \<open>\<^verbatim>\<open>expected - u8::try_from(missing.count_ones())?\<close>\<close>

definition observed_steps :: "u8 \<Rightarrow> u16 \<Rightarrow> (u8, v2_error) result" where
  "observed_steps expected missing =
     (let ones = count_ones missing
      in and_then (if ones < 256 then Ok (word_of_nat ones)
                   else fail (InvalidField ''missing_steps_bitmap''))
           (\<lambda>n. sub_u8 expected n))"

definition validate_profile_slot :: "profile_scan \<Rightarrow> nat \<Rightarrow> (unit, v2_error) result" where
  "validate_profile_slot scan i =
     (let expected_present =
            i < unat (sc_expected_step_count scan)
            \<and> sc_missing_steps_bitmap scan AND push_bit i 1 = 0
      in and_then (index (sc_steps scan) i) (\<lambda>slot.
           case (expected_present, slot) of
             (True, Some step) \<Rightarrow>
               if unat (ps_step_index step) = i then validate_profile_step step
               else fail (InvalidField ''profile_step_presence'')
           | (False, None) \<Rightarrow> Ok ()
           | _ \<Rightarrow> fail (InvalidField ''profile_step_presence'')))"

definition validate_profile :: "profile_scan \<Rightarrow> (unit, v2_error) result" where
  "validate_profile scan =
     checks
      ([reject_if (sc_profile_id scan = 0 \<or> sc_profile_version scan = 0)
          (InvalidField ''profile_identity''),
        reject_if (\<not> (1 \<le> sc_expected_step_count scan
                      \<and> sc_expected_step_count scan \<le> MAX_PROFILE_STEPS_U8))
          (InvalidField ''expected_step_count''),
        ensure_known_u32 ''collection_flags'' (sc_collection_flags scan) COLLECTION_FLAGS_KNOWN,
        reject_if (sc_finish_reason scan > FINISH_REASON_PROFILE_ROLLOVER)
          (InvalidField ''finish_reason''),
        reject_if (sc_collection_flags scan AND COLLECTION_FLAG_STALE_PRE_SCAN_FIELDS \<noteq> 0
                   \<and> sc_intermediate_field_count scan = 0)
          (InvalidField ''stale_pre_scan_fields''),
        and_then (step_mask (sc_expected_step_count scan)) (\<lambda>valid_mask.
          reject_if (sc_missing_steps_bitmap scan AND NOT valid_mask \<noteq> 0
                     \<or> sc_duplicate_steps_bitmap scan AND NOT valid_mask \<noteq> 0)
            (InvalidField ''step_bitmap'')),
        and_then (observed_steps (sc_expected_step_count scan) (sc_missing_steps_bitmap scan))
          (\<lambda>observed. checks
             [reject_if (observed \<noteq> sc_observed_unique_step_count scan)
                (InvalidField ''observed_unique_step_count''),
              reject_if (sc_observed_field_count scan < ucast observed)
                (InvalidField ''observed_field_count'')])]
       @ map (validate_profile_slot scan) [0..<MAX_PROFILE_STEPS])"

lemma observed_steps_eq:
  assumes "unat expected \<le> 10" and "missing AND NOT (mask (unat expected)) = 0"
  shows "observed_steps expected missing = Ok (expected - word_of_nat (count_ones missing))"
    and "unat (expected - word_of_nat (count_ones missing)) = unat expected - count_ones missing"
proof -
  have le: "count_ones missing \<le> unat expected"
    using assms(2) by (rule count_ones_within)
  then have small: "count_ones missing < 256" using assms(1) by simp
  then have u: "unat (word_of_nat (count_ones missing) :: u8) = count_ones missing"
    by (simp add: unat_of_nat)
  then have "(word_of_nat (count_ones missing) :: u8) \<le> expected"
    using le by (simp add: word_le_nat_alt)
  then show "observed_steps expected missing = Ok (expected - word_of_nat (count_ones missing))"
    using small by (simp add: observed_steps_def sub_u8_def Let_def)
  show "unat (expected - word_of_nat (count_ones missing)) = unat expected - count_ones missing"
    using \<open>(word_of_nat (count_ones missing) :: u8) \<le> expected\<close> u by (simp add: unat_sub)
qed

lemma validate_profile_slot_no_panic:
  "wf_scan scan \<Longrightarrow> i < MAX_PROFILE_STEPS \<Longrightarrow> \<not> panics (validate_profile_slot scan i)"
  by (auto simp: validate_profile_slot_def wf_scan_def panics_and_then Let_def
      split: option.splits bool.splits)

lemma validate_profile_no_panic:
  assumes "wf_scan scan"
  shows "\<not> panics (validate_profile scan)"
proof -
  have slots: "\<not> panics (checks (map (validate_profile_slot scan) [0..<MAX_PROFILE_STEPS]))"
    by (rule panics_checks_all) (use assms validate_profile_slot_no_panic in auto)
  have "\<not> panics (observed_steps e m)"
    if "e \<le> 10" "m AND NOT (mask (unat e)) = 0" for e :: u8 and m
    using that observed_steps_eq(1) [of e m] by (auto dest!: u8_le_10)
  with slots show ?thesis
    unfolding validate_profile_def panics_checks_append
    by (auto simp: panics_checks panics_and_then MAX_PROFILE_STEPS_U8_def step_mask_Ok
        dest: u8_le_10 simp del: checks.simps)
qed

definition validate_profile_config_identity :: "common \<Rightarrow> u32 \<Rightarrow> u8 \<Rightarrow> (unit, v2_error) result" where
  "validate_profile_config_identity common collection_flags finish_reason =
     reject_if
       (c_config_id common = 0
        \<and> (collection_flags AND COLLECTION_FLAG_CONFIG_MISMATCH = 0
           \<or> finish_reason = FINISH_REASON_COMPLETE))
       (InvalidField ''profile_config_id_status'')"

definition profile_fragment_count :: "u8 \<Rightarrow> (u8, v2_error) result" where
  "profile_fragment_count expected_step_count =
     (if \<not> (1 \<le> expected_step_count \<and> expected_step_count \<le> MAX_PROFILE_STEPS_U8)
      then fail (InvalidField ''expected_step_count'')
      else Ok (div_ceil_u8 expected_step_count STEPS_PER_FRAGMENT_U8))"

lemma panics_profile_fragment_count [simp]: "\<not> panics (profile_fragment_count n)"
  by (simp add: profile_fragment_count_def)

lemma div_ceil_u8_3:
  assumes "1 \<le> unat (n :: u8)" "unat n \<le> 10"
  shows "unat (div_ceil_u8 n 3) = (unat n + 2) div 3"
    "1 \<le> unat (div_ceil_u8 n 3)" "unat (div_ceil_u8 n 3) \<le> 4"
proof -
  have "n \<in> {1, 2, 3, 4, 5, 6, 7, 8, 9, 10}"
  proof -
    have "unat n \<in> {1, 2, 3, 4, 5, 6, 7, 8, 9, 10}" using assms by (simp, presburger)
    then have "word_of_nat (unat n) \<in> (word_of_nat :: nat \<Rightarrow> u8) ` {1, 2, 3, 4, 5, 6, 7, 8, 9, 10}"
      by blast
    then show ?thesis by simp
  qed
  then show "unat (div_ceil_u8 n 3) = (unat n + 2) div 3"
    "1 \<le> unat (div_ceil_u8 n 3)" "unat (div_ceil_u8 n 3) \<le> 4"
    by (auto simp: div_ceil_u8_def)
qed

section \<open>Health\<close>

definition validate_health_flags :: "common \<Rightarrow> u8 \<Rightarrow> (unit, v2_error) result" where
  "validate_health_flags common flags =
     checks
      [ensure_known_u8 ''health_flags'' flags HEALTH_FLAGS_KNOWN,
       (let header_says_unavailable = (c_flags common AND COMMON_FLAG_BOOT_ID_VALID = 0);
            health_says_unavailable = (flags AND HEALTH_FLAG_BOOT_ID_UNAVAILABLE \<noteq> 0)
        in reject_if (header_says_unavailable \<noteq> health_says_unavailable)
             (InvalidField ''health_boot_id_status''))]"

definition validate_health_config_identity :: "common \<Rightarrow> device_health \<Rightarrow> (unit, v2_error) result" where
  "validate_health_config_identity common health =
     (let profile_id_missing = (dh_profile_id health = 0);
          profile_version_missing = (dh_profile_version health = 0)
      in if profile_id_missing \<noteq> profile_version_missing
         then fail (InvalidField ''health_profile_identity'')
         else if profile_id_missing
         then reject_if (c_config_id common \<noteq> 0) (InvalidField ''health_config_id_status'')
         else reject_if (c_config_id common = 0 \<and> dh_flags health AND HEALTH_FLAG_CONFIG_MISMATCH = 0)
                (InvalidField ''health_config_id_status''))"

lemma panics_validate_health [simp]:
  "\<not> panics (validate_health_flags c f)" "\<not> panics (validate_health_config_identity c h)"
  "\<not> panics (validate_profile_config_identity c cf fr)"
  by (auto simp: validate_health_flags_def validate_health_config_identity_def
      validate_profile_config_identity_def panics_checks Let_def simp del: checks.simps)

end
