(* ===== verification/V2_Header.thy ===== *)
theory V2_Header
  imports V2_Validate
begin

text \<open>
  The common 48-byte header of protocol version 2: \<open>encode_header\<close> and \<open>decode_header\<close> of
  \<^verbatim>\<open>v2.rs\<close>. Both are characterised by one predicate on headers (\<open>header_valid\<close>) and one byte
  layout (\<open>header_layout\<close>): the encoder produces the layout of valid headers, and the decoder
  accepts exactly the layouts of valid headers followed by a payload of the announced length.
\<close>

section \<open>Encoding\<close>

definition encode_header ::
  "bytes \<Rightarrow> frame_type \<Rightarrow> common \<Rightarrow> u8 \<Rightarrow> u8 \<Rightarrow> nat \<Rightarrow> (bytes, v2_error) result" where
  "encode_header bs frame_type common fragment_index fragment_count payload_len =
    (if length bs \<noteq> HEADER_LEN then fail (WrongLength HEADER_LEN (length bs))
     else if fragment_count = 0 then fail (InvalidFragmentCount fragment_count)
     else if fragment_index \<ge> fragment_count
     then fail (InvalidFragmentIndex fragment_index fragment_count)
     else
     and_then (ensure_known_u8 ''common_flags'' (c_flags common) COMMON_FLAGS_KNOWN) (\<lambda>_.
     if c_flags common AND COMMON_FLAG_BOOT_ID_FROM_HW_RNG \<noteq> 0
        \<and> c_flags common AND COMMON_FLAG_BOOT_ID_VALID = 0
     then fail (InvalidField ''boot_id_flags'')
     else if c_flags common AND COMMON_FLAG_BOOT_ID_VALID = 0 \<and> c_boot_id common \<noteq> 0
     then fail (InvalidField ''invalid_boot_id_value'')
     else
     and_then (ensure_known_u16 ''reset_cause_flags'' (c_reset_cause_flags common)
                 RESET_CAUSE_FLAGS_KNOWN) (\<lambda>_.
     let total_len = HEADER_LEN + payload_len in
     if total_len > MAX_PHY_FRAME_LEN then fail (FrameTooLong total_len)
     else
     and_then
       (write_all
          [writer_bytes V2_MAGIC,
           writer_u8 VERSION_V2,
           writer_u8 (frame_type_u8 frame_type),
           writer_u8 48,
           writer_u8 (c_flags common),
           writer_u8 fragment_index,
           writer_u8 fragment_count]
          (writer_new bs)) (\<lambda>w.
     and_then (if payload_len < 2 ^ 16 then Ok (word_of_nat payload_len)
               else fail (FrameTooLong total_len)) (\<lambda>plen.
     and_then
       (write_all
          [writer_u16 plen,
           writer_u64 (c_node_id common),
           writer_u64 (c_boot_id common),
           writer_u32 (c_scan_sequence common),
           writer_u64 (c_uptime_ms common),
           writer_u64 (c_config_id common),
           writer_u16 (c_reset_cause_flags common)] w)
       writer_finish)))))"

section \<open>Decoding\<close>

definition decode_header :: "bytes \<Rightarrow> (header, v2_error) result" where
  "decode_header bs =
    (if length bs < HEADER_LEN then fail (WrongLength HEADER_LEN (length bs)) else
     and_then (slice bs 0 HEADER_LEN) (\<lambda>hb.
     and_then (reader_u8 (reader_new hb)) (\<lambda>(m0, r).
     and_then (reader_u8 r) (\<lambda>(m1, r).
     if [m0, m1] \<noteq> V2_MAGIC then fail (InvalidMagic [m0, m1]) else
     and_then (reader_u8 r) (\<lambda>(version, r).
     if version \<noteq> VERSION_V2 then fail (UnsupportedVersion version) else
     and_then (reader_u8 r) (\<lambda>(ft, r).
     and_then (frame_type_try_from ft) (\<lambda>frame_type.
     and_then (reader_u8 r) (\<lambda>(header_len, r).
     if unat header_len \<noteq> HEADER_LEN then fail (InvalidHeaderLength header_len) else
     and_then (reader_u8 r) (\<lambda>(flags, r).
     and_then (ensure_known_u8 ''common_flags'' flags COMMON_FLAGS_KNOWN) (\<lambda>_.
     and_then (reader_u8 r) (\<lambda>(fragment_index, r).
     and_then (reader_u8 r) (\<lambda>(fragment_count, r).
     if fragment_count = 0 then fail (InvalidFragmentCount fragment_count)
     else if fragment_index \<ge> fragment_count
     then fail (InvalidFragmentIndex fragment_index fragment_count)
     else
     and_then (reader_u16 r) (\<lambda>(payload_len, r).
     and_then (reader_u64 r) (\<lambda>(node_id, r).
     and_then (reader_u64 r) (\<lambda>(boot_id, r).
     and_then (reader_u32 r) (\<lambda>(scan_sequence, r).
     and_then (reader_u64 r) (\<lambda>(uptime_ms, r).
     and_then (reader_u64 r) (\<lambda>(config_id, r).
     and_then (reader_u16 r) (\<lambda>(reset_cause_flags, r).
     and_then (reader_finish r) (\<lambda>_.
     and_then (ensure_known_u16 ''reset_cause_flags'' reset_cause_flags
                 RESET_CAUSE_FLAGS_KNOWN) (\<lambda>_.
     if flags AND COMMON_FLAG_BOOT_ID_FROM_HW_RNG \<noteq> 0 \<and> flags AND COMMON_FLAG_BOOT_ID_VALID = 0
     then fail (InvalidField ''boot_id_flags'')
     else if flags AND COMMON_FLAG_BOOT_ID_VALID = 0 \<and> boot_id \<noteq> 0
     then fail (InvalidField ''invalid_boot_id_value'')
     else
     let expected_len = HEADER_LEN + unat payload_len in
     if length bs \<noteq> expected_len then fail (WrongLength expected_len (length bs))
     else Ok \<lparr>h_frame_type = frame_type,
              h_common =
                \<lparr>c_flags = flags, c_node_id = node_id, c_boot_id = boot_id,
                 c_scan_sequence = scan_sequence, c_uptime_ms = uptime_ms,
                 c_config_id = config_id, c_reset_cause_flags = reset_cause_flags\<rparr>,
              h_fragment_index = fragment_index,
              h_fragment_count = fragment_count,
              h_payload_len = payload_len\<rparr>)))))))))))))))))))))"

section \<open>Valid headers and their layout\<close>

definition common_valid :: "common \<Rightarrow> bool" where
  "common_valid c \<longleftrightarrow>
     c_flags c AND NOT COMMON_FLAGS_KNOWN = 0
     \<and> \<not> (c_flags c AND COMMON_FLAG_BOOT_ID_FROM_HW_RNG \<noteq> 0
          \<and> c_flags c AND COMMON_FLAG_BOOT_ID_VALID = 0)
     \<and> \<not> (c_flags c AND COMMON_FLAG_BOOT_ID_VALID = 0 \<and> c_boot_id c \<noteq> 0)
     \<and> c_reset_cause_flags c AND NOT RESET_CAUSE_FLAGS_KNOWN = 0"

definition header_valid :: "header \<Rightarrow> bool" where
  "header_valid h \<longleftrightarrow> common_valid (h_common h) \<and> h_fragment_index h < h_fragment_count h"

definition header_layout :: "header \<Rightarrow> bytes" where
  "header_layout h =
     V2_MAGIC @ [VERSION_V2, frame_type_u8 (h_frame_type h), 48, c_flags (h_common h),
       h_fragment_index h, h_fragment_count h]
     @ to_be_bytes (h_payload_len h) @ to_be_bytes (c_node_id (h_common h))
     @ to_be_bytes (c_boot_id (h_common h)) @ to_be_bytes (c_scan_sequence (h_common h))
     @ to_be_bytes (c_uptime_ms (h_common h)) @ to_be_bytes (c_config_id (h_common h))
     @ to_be_bytes (c_reset_cause_flags (h_common h))"

lemma length_header_layout [simp]: "length (header_layout h) = HEADER_LEN"
  by (simp add: header_layout_def V2_MAGIC_def HEADER_LEN_def)

lemma frame_type_try_from_Ok [simp]:
  "frame_type_try_from v = Ok ft \<longleftrightarrow> v = frame_type_u8 ft"
  by (cases ft) (auto simp: frame_type_try_from_def)

lemma panics_frame_type_try_from [simp]: "\<not> panics (frame_type_try_from v)"
  by (simp add: frame_type_try_from_def)

lemma unat_eq_48: "unat (x :: u8) = 48 \<longleftrightarrow> x = 48"
  by (auto simp: word_unat_eq_iff)

lemma frame_type_u8_inject [simp]: "frame_type_u8 a = frame_type_u8 b \<longleftrightarrow> a = b"
  by (cases a; cases b) auto

lemma header_eta [simp]:
  "\<lparr>h_frame_type = h_frame_type h,
    h_common =
      \<lparr>c_flags = c_flags (h_common h), c_node_id = c_node_id (h_common h),
       c_boot_id = c_boot_id (h_common h), c_scan_sequence = c_scan_sequence (h_common h),
       c_uptime_ms = c_uptime_ms (h_common h), c_config_id = c_config_id (h_common h),
       c_reset_cause_flags = c_reset_cause_flags (h_common h)\<rparr>,
    h_fragment_index = h_fragment_index h, h_fragment_count = h_fragment_count h,
    h_payload_len = h_payload_len h\<rparr> = h"
  by (cases h; cases "h_common h") simp

text \<open>The decoder accepts exactly the valid layouts with a payload of the announced length.\<close>

lemma decode_header_iff:
  "decode_header bs = Ok h \<longleftrightarrow>
     header_valid h
     \<and> (\<exists>payload. bs = header_layout h @ payload \<and> length payload = unat (h_payload_len h))"
  (is "?lhs \<longleftrightarrow> ?rhs")
proof
  assume L: ?lhs
  then have "HEADER_LEN \<le> length bs"
    by (simp add: decode_header_def split: if_splits)
  then have bs: "bs = take 48 bs @ drop 48 bs" and hb: "slice bs 0 HEADER_LEN = Ok (take 48 bs)"
    by (simp_all add: HEADER_LEN_def slice_def)
  from L have "header_valid h \<and> take 48 bs = header_layout h \<and>
     length (drop 48 bs) = unat (h_payload_len h)"
    unfolding decode_header_def header_valid_def common_valid_def header_layout_def
    by (auto simp: hb [unfolded HEADER_LEN_def] HEADER_LEN_def reader_new_on wire_dest
        reader_finish_on V2_MAGIC_def Let_def unat_eq_48 split: if_splits)
  with bs show ?rhs by metis
next
  assume ?rhs
  then obtain payload where v: "header_valid h" and bs: "bs = header_layout h @ payload"
    and len: "length payload = unat (h_payload_len h)" by blast
  have hb: "slice bs 0 HEADER_LEN = Ok (header_layout h)"
    by (simp add: bs slice_def)
  have c: "h_fragment_index h < h_fragment_count h" "h_fragment_count h \<noteq> 0"
    using v by (auto simp: header_valid_def)
  have fin: "reader_finish (reader_on pre []) = Ok ()" for pre
    by (simp add: reader_finish_on)
  show ?lhs
    using v c len unfolding decode_header_def hb
    by (simp add: reader_new_on header_layout_def wire_simps fin V2_MAGIC_def
        header_valid_def common_valid_def bs HEADER_LEN_def Let_def not_le)
qed

lemma encode_header_Ok:
  assumes "length room = HEADER_LEN" and "header_valid h"
    and "HEADER_LEN + plen \<le> MAX_PHY_FRAME_LEN" and "h_payload_len h = word_of_nat plen"
  shows "encode_header room (h_frame_type h) (h_common h) (h_fragment_index h)
           (h_fragment_count h) plen = Ok (header_layout h)"
proof -
  have c: "h_fragment_index h < h_fragment_count h" "h_fragment_count h \<noteq> 0"
    using assms(2) by (auto simp: header_valid_def)
  obtain f where room: "room = map f [0..<48]"
    using assms(1) unfolding HEADER_LEN_def by (rule length_eq_mapE)
  show ?thesis
    using assms(2-4) c unfolding encode_header_def
    by (simp add: room header_valid_def common_valid_def header_layout_def v2_lens writer_new_on
        V2_MAGIC_def u8_field.wr_enc u16_field.wr_enc u32_field.wr_enc u64_field.wr_enc
        writer_bytes_on writer_finish_on Let_def not_le)
qed

lemma encode_header_valid:
  assumes "encode_header room ft common i n plen = Ok bs"
  shows "header_valid \<lparr>h_frame_type = ft, h_common = common, h_fragment_index = i,
           h_fragment_count = n, h_payload_len = word_of_nat plen\<rparr>"
    and "HEADER_LEN + plen \<le> MAX_PHY_FRAME_LEN" and "length room = HEADER_LEN"
  using assms unfolding encode_header_def header_valid_def common_valid_def
  by (auto simp: Let_def not_le split: if_splits)

text \<open>The encoder in one equation: it succeeds exactly on valid headers of frames that fit.\<close>

lemma encode_header_iff:
  "encode_header room ft common i n plen = Ok bs \<longleftrightarrow>
     (let h = \<lparr>h_frame_type = ft, h_common = common, h_fragment_index = i,
               h_fragment_count = n, h_payload_len = word_of_nat plen\<rparr>
      in length room = HEADER_LEN \<and> header_valid h \<and> HEADER_LEN + plen \<le> MAX_PHY_FRAME_LEN
         \<and> bs = header_layout h)"
  (is "_ \<longleftrightarrow> (let h = ?h in _)")
  unfolding Let_def
proof
  assume *: "encode_header room ft common i n plen = Ok bs"
  note v = encode_header_valid [OF *]
  have "encode_header room ft common i n plen = Ok (header_layout ?h)"
    using encode_header_Ok [of room ?h plen] v by simp
  then show "length room = HEADER_LEN \<and> header_valid ?h
      \<and> HEADER_LEN + plen \<le> MAX_PHY_FRAME_LEN \<and> bs = header_layout ?h"
    using v * by simp
next
  assume "length room = HEADER_LEN \<and> header_valid ?h
      \<and> HEADER_LEN + plen \<le> MAX_PHY_FRAME_LEN \<and> bs = header_layout ?h"
  then show "encode_header room ft common i n plen = Ok bs"
    using encode_header_Ok [of room ?h plen] by simp
qed

lemma decode_header_no_panic [simp]: "\<not> panics (decode_header bs)"
  unfolding decode_header_def
  by (auto simp: panics_and_then Let_def split: prod.splits)

lemma encode_header_no_panic [simp]: "\<not> panics (encode_header room ft common i n plen)"
  unfolding encode_header_def
  by (auto simp: panics_and_then Let_def intro!: panics_write_all)

section \<open>Frames\<close>

text \<open>A header and a payload, written into an empty frame.\<close>

definition frame_of :: "bytes \<Rightarrow> bytes \<Rightarrow> encoded_frame" where
  "frame_of hb payload = encoded_frame_EMPTY
     \<lparr>ef_bytes := splice (splice (ef_bytes encoded_frame_EMPTY) HEADER_LEN payload) 0 hb,
      ef_len := word_of_nat (HEADER_LEN + length payload)\<rparr>"

lemma header_room:
  "slice (splice (ef_bytes encoded_frame_EMPTY) HEADER_LEN payload) 0 HEADER_LEN
     = (Ok (replicate HEADER_LEN 0) :: (_, v2_error) result)"
  by (simp add: slice_def splice_def encoded_frame_EMPTY_def v2_lens)

lemma as_slice_frame_of:
  assumes "length hb = HEADER_LEN" and "HEADER_LEN + length payload \<le> MAX_PHY_FRAME_LEN"
  shows "as_slice (frame_of hb payload) = hb @ payload"
proof -
  have "unat (ef_len (frame_of hb payload)) = HEADER_LEN + length payload"
    using assms(2) by (simp add: frame_of_def unat_of_nat v2_lens del: of_nat_add)
  then show ?thesis
    using assms by (simp add: as_slice_def frame_of_def encoded_frame_EMPTY_def splice_def v2_lens)
qed

text \<open>The encoders that write the header before the payload end in the same frame.\<close>

lemma empty_header_room:
  "slice (ef_bytes encoded_frame_EMPTY) 0 HEADER_LEN =
     (Ok (replicate HEADER_LEN 0) :: (_, v2_error) result)"
  by (simp add: slice_def encoded_frame_EMPTY_def v2_lens)

lemma splice_header_payload:
  assumes "length hb = HEADER_LEN" and "HEADER_LEN + length payload \<le> MAX_PHY_FRAME_LEN"
  shows "splice (splice (ef_bytes encoded_frame_EMPTY) 0 hb) HEADER_LEN payload =
         splice (splice (ef_bytes encoded_frame_EMPTY) HEADER_LEN payload) 0 hb"
    and "slice (splice (ef_bytes encoded_frame_EMPTY) 0 hb) HEADER_LEN (HEADER_LEN + length payload) =
         (Ok (replicate (length payload) 0) :: (_, v2_error) result)"
  using assms by (auto simp: splice_def slice_def encoded_frame_EMPTY_def v2_lens)

end
