(* ===== verification/V2_Config.thy ===== *)
theory V2_Config
  imports V2_Header
begin

text \<open>
  The \<^verbatim>\<open>DeviceConfig\<close> record of protocol version 2: its payload writer, the FNV-1a-64 hash that
  names a configuration, the encoder and the decoder of \<^verbatim>\<open>v2.rs\<close>. The decoder is
  characterised by the layout of the payload (\<open>config_layout\<close>) and the validator alone.
\<close>

section \<open>Hash\<close>

definition fnv1a64 :: "bytes \<Rightarrow> u64" where
  "fnv1a64 bs = foldl (\<lambda>hash b. (hash XOR ucast b) * 0x100000001b3) 0xcbf29ce484222325 bs"

section \<open>Writing the payload\<close>

definition write_heater_step :: "heater_step_config \<Rightarrow> writer \<Rightarrow> (writer, v2_error) result" where
  "write_heater_step s =
    write_all
     [writer_u16 (hs_target_temperature_celsius s),
      writer_u32 (hs_configured_duration_us s),
      writer_u8 (hs_repetition_multiplier s),
      writer_u8 (hs_readback_heater_current s),
      writer_u8 (hs_programmed_heater_resistance s),
      writer_u8 (hs_programmed_gas_wait s)]"

definition write_config_payload :: "device_config \<Rightarrow> writer \<Rightarrow> (writer, v2_error) result" where
  "write_config_payload c w =
    and_then
      (write_all
        [writer_u8 CONFIG_SCHEMA_VERSION,
         writer_u8 (dc_flags c),
         writer_bytes (dc_firmware_version c),
         writer_u8 (dc_firmware_build_flags c),
         writer_u64 (dc_firmware_build_id c),
         writer_u8 (dc_sensor_chip_id c),
         writer_u8 (dc_sensor_variant c),
         writer_u8 (dc_sensor_i2c_address c),
         writer_u8 (dc_temperature_oversampling c),
         writer_u8 (dc_humidity_oversampling c),
         writer_u8 (dc_pressure_oversampling c),
         writer_u8 (dc_iir_filter c),
         writer_u8 (dc_standby_time c),
         writer_u8 (dc_operation_mode c),
         writer_u8 (dc_heater_enabled c),
         writer_u16 (dc_parallel_requested_shared_wait_ms c),
         writer_u8 (dc_parallel_shared_wait_register c),
         writer_u32 (dc_parallel_quantized_shared_wait_us c),
         writer_u32 (dc_tphg_duration_us c),
         writer_u32 (dc_expected_profile_duration_us c),
         writer_u16 (dc_profile_id c),
         writer_u16 (dc_profile_version c),
         writer_u8 (dc_expected_step_count c),
         writer_u16 (dc_heater_readback_valid_bitmap c),
         writer_u8 (dc_calibration_hash_algorithm c),
         writer_u64 (dc_calibration_hash c),
         writer_u32 (dc_scan_interval_ms c),
         writer_u16 (dc_config_repeat_interval_scans c),
         writer_u8 (dc_output_routes c),
         writer_u32 (dc_radio_frequency_hz c),
         writer_i8 (dc_radio_tx_power_dbm c),
         writer_u8 (dc_radio_spreading_factor c),
         writer_u32 (dc_radio_bandwidth_hz c),
         writer_u8 (dc_radio_coding_rate_numerator c),
         writer_u8 (dc_radio_coding_rate_denominator c),
         writer_u16 (dc_radio_preamble_symbols c),
         writer_u8 (dc_radio_header_mode c),
         writer_u8 (dc_radio_phy_crc_enabled c),
         writer_u8 (dc_radio_iq_inverted c),
         writer_u16 (dc_radio_sync_word c),
         writer_u8 (dc_max_frame_len c),
         writer_u8 (dc_profile_steps_per_fragment c)] w) (\<lambda>w.
    and_then (slice (dc_steps c) 0 (unat (dc_expected_step_count c))) (\<lambda>steps.
    for_each steps w write_heater_step))"

definition u8_try_from :: "nat \<Rightarrow> v2_error \<Rightarrow> (u8, v2_error) result" where
  "u8_try_from n e = (if n < 256 then Ok (word_of_nat n) else fail e)"

definition config_payload_len :: "device_config \<Rightarrow> nat" where
  "config_payload_len c = CONFIG_BASE_LEN + unat (dc_expected_step_count c) * CONFIG_STEP_LEN"

definition device_config_id :: "device_config \<Rightarrow> (u64, v2_error) result" where
  "device_config_id c =
    and_then (validate_config c) (\<lambda>_.
    let payload_len = config_payload_len c;
        buffer = replicate (CONFIG_BASE_LEN + MAX_PROFILE_STEPS * CONFIG_STEP_LEN) 0 in
    and_then (slice buffer 0 payload_len) (\<lambda>room.
    and_then (write_config_payload c (writer_new room)) (\<lambda>w.
    and_then (writer_finish w) (\<lambda>payload.
    let config_id = fnv1a64 payload in
    if config_id = 0 then fail (InvalidField ''reserved_config_id'') else Ok config_id))))"

definition encode_device_config ::
  "common \<Rightarrow> device_config \<Rightarrow> bool \<Rightarrow> (encoded_frame, v2_error) result" where
  "encode_device_config common c repeated =
    and_then (validate_config c) (\<lambda>_.
    let payload_len = config_payload_len c; frame = encoded_frame_EMPTY in
    and_then (slice (ef_bytes frame) HEADER_LEN (HEADER_LEN + payload_len)) (\<lambda>room.
    and_then (write_config_payload c (writer_new room)) (\<lambda>w.
    and_then (writer_finish w) (\<lambda>payload.
    let frame = frame\<lparr>ef_bytes := splice (ef_bytes frame) HEADER_LEN payload\<rparr> in
    and_then (device_config_id c) (\<lambda>config_id.
    let common = common\<lparr>c_config_id := config_id\<rparr>;
        common = (if repeated
                  then common\<lparr>c_flags := c_flags common OR COMMON_FLAG_CONFIG_REPEAT\<rparr>
                  else common) in
    and_then (slice (ef_bytes frame) 0 HEADER_LEN) (\<lambda>room.
    and_then (encode_header room DeviceConfig common 0 1 payload_len) (\<lambda>hb.
    let frame = frame\<lparr>ef_bytes := splice (ef_bytes frame) 0 hb\<rparr> in
    and_then (u8_try_from (HEADER_LEN + payload_len) (FrameTooLong (HEADER_LEN + payload_len))) (\<lambda>len.
    Ok (frame\<lparr>ef_len := len\<rparr>)))))))))"

section \<open>Decoding the payload\<close>

definition validate_decoded_config :: "header \<Rightarrow> bytes \<Rightarrow> (unit, v2_error) result" where
  "validate_decoded_config h payload =
    (if h_fragment_index h \<noteq> 0 \<or> h_fragment_count h \<noteq> 1
     then fail (InvalidField ''unfragmented_record_coordinates'')
     else if length payload < CONFIG_BASE_LEN
     then fail (WrongLength CONFIG_BASE_LEN (length payload))
     else
     and_then (index payload 0) (\<lambda>schema.
     if schema \<noteq> CONFIG_SCHEMA_VERSION then fail (InvalidField ''config_schema_version'')
     else
     and_then (index payload 43) (\<lambda>step_count.
     if \<not> (1 \<le> step_count \<and> step_count \<le> MAX_PROFILE_STEPS_U8)
     then fail (InvalidField ''expected_step_count'')
     else
     let expected_len = CONFIG_BASE_LEN + unat step_count * CONFIG_STEP_LEN in
     if length payload \<noteq> expected_len then fail (WrongLength expected_len (length payload))
     else
     and_then (index payload 1) (\<lambda>flags.
     and_then (ensure_known_u8 ''config_flags'' flags CONFIG_FLAGS_KNOWN) (\<lambda>_.
     and_then (index payload 5) (\<lambda>build_flags.
     and_then (ensure_known_u8 ''firmware_build_flags'' build_flags BUILD_FLAGS_KNOWN) (\<lambda>_.
     if c_config_id (h_common h) = 0 then fail (InvalidField ''reserved_config_id'')
     else
     let calculated = fnv1a64 payload in
     if calculated \<noteq> c_config_id (h_common h)
     then fail (ConfigIdMismatch (c_config_id (h_common h)) calculated)
     else Ok ())))))))"

text \<open>One slot of the loop over \<^verbatim>\<open>&mut steps[..expected]\<close>, and the loop.\<close>

definition read_heater_step :: "reader \<Rightarrow> (heater_step_config \<times> reader, v2_error) result" where
  "read_heater_step r =
    (and_then (reader_u16 r) (\<lambda>(target_temperature_celsius, r).
     and_then (reader_u32 r) (\<lambda>(configured_duration_us, r).
     and_then (reader_u8 r) (\<lambda>(repetition_multiplier, r).
     and_then (reader_u8 r) (\<lambda>(readback_heater_current, r).
     and_then (reader_u8 r) (\<lambda>(programmed_heater_resistance, r).
     and_then (reader_u8 r) (\<lambda>(programmed_gas_wait, r).
     Ok (\<lparr>hs_target_temperature_celsius = target_temperature_celsius,
           hs_configured_duration_us = configured_duration_us,
           hs_repetition_multiplier = repetition_multiplier,
           hs_readback_heater_current = readback_heater_current,
           hs_programmed_heater_resistance = programmed_heater_resistance,
           hs_programmed_gas_wait = programmed_gas_wait\<rparr>, r))))))))"

fun read_heater_steps :: "nat \<Rightarrow> reader \<Rightarrow> (heater_step_config list \<times> reader, v2_error) result" where
  "read_heater_steps 0 r = Ok ([], r)"
| "read_heater_steps (Suc n) r =
     and_then (read_heater_step r) (\<lambda>(step, r).
     and_then (read_heater_steps n r) (\<lambda>(steps, r). Ok (step # steps, r)))"

definition decode_device_config :: "header \<Rightarrow> bytes \<Rightarrow> (device_config, v2_error) result" where
  "decode_device_config h payload =
    (and_then (validate_decoded_config h payload) (\<lambda>_.
     and_then (reader_u8 (reader_new payload)) (\<lambda>(schema, r).
     if schema \<noteq> CONFIG_SCHEMA_VERSION then fail (InvalidField ''config_schema_version'') else
     and_then (reader_u8 r) (\<lambda>(flags, r).
     and_then (reader_take 3 r) (\<lambda>(firmware_version, r).
     and_then (reader_u8 r) (\<lambda>(firmware_build_flags, r).
     and_then (reader_u64 r) (\<lambda>(firmware_build_id, r).
     and_then (reader_u8 r) (\<lambda>(sensor_chip_id, r).
     and_then (reader_u8 r) (\<lambda>(sensor_variant, r).
     and_then (reader_u8 r) (\<lambda>(sensor_i2c_address, r).
     and_then (reader_u8 r) (\<lambda>(temperature_oversampling, r).
     and_then (reader_u8 r) (\<lambda>(humidity_oversampling, r).
     and_then (reader_u8 r) (\<lambda>(pressure_oversampling, r).
     and_then (reader_u8 r) (\<lambda>(iir_filter, r).
     and_then (reader_u8 r) (\<lambda>(standby_time, r).
     and_then (reader_u8 r) (\<lambda>(operation_mode, r).
     and_then (reader_u8 r) (\<lambda>(heater_enabled, r).
     and_then (reader_u16 r) (\<lambda>(parallel_requested_shared_wait_ms, r).
     and_then (reader_u8 r) (\<lambda>(parallel_shared_wait_register, r).
     and_then (reader_u32 r) (\<lambda>(parallel_quantized_shared_wait_us, r).
     and_then (reader_u32 r) (\<lambda>(tphg_duration_us, r).
     and_then (reader_u32 r) (\<lambda>(expected_profile_duration_us, r).
     and_then (reader_u16 r) (\<lambda>(profile_id, r).
     and_then (reader_u16 r) (\<lambda>(profile_version, r).
     and_then (reader_u8 r) (\<lambda>(expected_step_count, r).
     and_then (reader_u16 r) (\<lambda>(heater_readback_valid_bitmap, r).
     and_then (reader_u8 r) (\<lambda>(calibration_hash_algorithm, r).
     and_then (reader_u64 r) (\<lambda>(calibration_hash, r).
     and_then (reader_u32 r) (\<lambda>(scan_interval_ms, r).
     and_then (reader_u16 r) (\<lambda>(config_repeat_interval_scans, r).
     and_then (reader_u8 r) (\<lambda>(output_routes, r).
     and_then (reader_u32 r) (\<lambda>(radio_frequency_hz, r).
     and_then (reader_i8 r) (\<lambda>(radio_tx_power_dbm, r).
     and_then (reader_u8 r) (\<lambda>(radio_spreading_factor, r).
     and_then (reader_u32 r) (\<lambda>(radio_bandwidth_hz, r).
     and_then (reader_u8 r) (\<lambda>(radio_coding_rate_numerator, r).
     and_then (reader_u8 r) (\<lambda>(radio_coding_rate_denominator, r).
     and_then (reader_u16 r) (\<lambda>(radio_preamble_symbols, r).
     and_then (reader_u8 r) (\<lambda>(radio_header_mode, r).
     and_then (reader_u8 r) (\<lambda>(radio_phy_crc_enabled, r).
     and_then (reader_u8 r) (\<lambda>(radio_iq_inverted, r).
     and_then (reader_u16 r) (\<lambda>(radio_sync_word, r).
     and_then (reader_u8 r) (\<lambda>(max_frame_len, r).
     and_then (reader_u8 r) (\<lambda>(profile_steps_per_fragment, r).
     let slots = replicate MAX_PROFILE_STEPS heater_step_config_default in
     and_then (slice slots 0 (unat expected_step_count)) (\<lambda>_.
     and_then (read_heater_steps (unat expected_step_count) r) (\<lambda>(read, r).
     let steps = splice slots 0 read in
     and_then (reader_finish r) (\<lambda>_.
     let config =
           \<lparr>dc_flags = flags,
            dc_firmware_version = firmware_version,
            dc_firmware_build_flags = firmware_build_flags,
            dc_firmware_build_id = firmware_build_id,
            dc_sensor_chip_id = sensor_chip_id,
            dc_sensor_variant = sensor_variant,
            dc_sensor_i2c_address = sensor_i2c_address,
            dc_temperature_oversampling = temperature_oversampling,
            dc_humidity_oversampling = humidity_oversampling,
            dc_pressure_oversampling = pressure_oversampling,
            dc_iir_filter = iir_filter,
            dc_standby_time = standby_time,
            dc_operation_mode = operation_mode,
            dc_heater_enabled = heater_enabled,
            dc_parallel_requested_shared_wait_ms = parallel_requested_shared_wait_ms,
            dc_parallel_shared_wait_register = parallel_shared_wait_register,
            dc_parallel_quantized_shared_wait_us = parallel_quantized_shared_wait_us,
            dc_tphg_duration_us = tphg_duration_us,
            dc_expected_profile_duration_us = expected_profile_duration_us,
            dc_profile_id = profile_id,
            dc_profile_version = profile_version,
            dc_expected_step_count = expected_step_count,
            dc_heater_readback_valid_bitmap = heater_readback_valid_bitmap,
            dc_calibration_hash_algorithm = calibration_hash_algorithm,
            dc_calibration_hash = calibration_hash,
            dc_scan_interval_ms = scan_interval_ms,
            dc_config_repeat_interval_scans = config_repeat_interval_scans,
            dc_output_routes = output_routes,
            dc_radio_frequency_hz = radio_frequency_hz,
            dc_radio_tx_power_dbm = radio_tx_power_dbm,
            dc_radio_spreading_factor = radio_spreading_factor,
            dc_radio_bandwidth_hz = radio_bandwidth_hz,
            dc_radio_coding_rate_numerator = radio_coding_rate_numerator,
            dc_radio_coding_rate_denominator = radio_coding_rate_denominator,
            dc_radio_preamble_symbols = radio_preamble_symbols,
            dc_radio_header_mode = radio_header_mode,
            dc_radio_phy_crc_enabled = radio_phy_crc_enabled,
            dc_radio_iq_inverted = radio_iq_inverted,
            dc_radio_sync_word = radio_sync_word,
            dc_max_frame_len = max_frame_len,
            dc_profile_steps_per_fragment = profile_steps_per_fragment,
            dc_steps = steps\<rparr> in
     and_then (validate_config config) (\<lambda>_. Ok config))))))))))))))))))))))))))))))))))))))))))))))))"

section \<open>The layout of the payload\<close>

definition heater_step_layout :: "heater_step_config \<Rightarrow> bytes" where
  "heater_step_layout s =
     to_be_bytes (hs_target_temperature_celsius s)
     @ to_be_bytes (hs_configured_duration_us s)
     @ [hs_repetition_multiplier s]
     @ [hs_readback_heater_current s]
     @ [hs_programmed_heater_resistance s]
     @ [hs_programmed_gas_wait s]"

definition config_base_layout :: "device_config \<Rightarrow> bytes" where
  "config_base_layout c =
     [CONFIG_SCHEMA_VERSION]
     @ [dc_flags c]
     @ dc_firmware_version c
     @ [dc_firmware_build_flags c]
     @ to_be_bytes (dc_firmware_build_id c)
     @ [dc_sensor_chip_id c]
     @ [dc_sensor_variant c]
     @ [dc_sensor_i2c_address c]
     @ [dc_temperature_oversampling c]
     @ [dc_humidity_oversampling c]
     @ [dc_pressure_oversampling c]
     @ [dc_iir_filter c]
     @ [dc_standby_time c]
     @ [dc_operation_mode c]
     @ [dc_heater_enabled c]
     @ to_be_bytes (dc_parallel_requested_shared_wait_ms c)
     @ [dc_parallel_shared_wait_register c]
     @ to_be_bytes (dc_parallel_quantized_shared_wait_us c)
     @ to_be_bytes (dc_tphg_duration_us c)
     @ to_be_bytes (dc_expected_profile_duration_us c)
     @ to_be_bytes (dc_profile_id c)
     @ to_be_bytes (dc_profile_version c)
     @ [dc_expected_step_count c]
     @ to_be_bytes (dc_heater_readback_valid_bitmap c)
     @ [dc_calibration_hash_algorithm c]
     @ to_be_bytes (dc_calibration_hash c)
     @ to_be_bytes (dc_scan_interval_ms c)
     @ to_be_bytes (dc_config_repeat_interval_scans c)
     @ [dc_output_routes c]
     @ to_be_bytes (dc_radio_frequency_hz c)
     @ to_be_bytes (dc_radio_tx_power_dbm c)
     @ [dc_radio_spreading_factor c]
     @ to_be_bytes (dc_radio_bandwidth_hz c)
     @ [dc_radio_coding_rate_numerator c]
     @ [dc_radio_coding_rate_denominator c]
     @ to_be_bytes (dc_radio_preamble_symbols c)
     @ [dc_radio_header_mode c]
     @ [dc_radio_phy_crc_enabled c]
     @ [dc_radio_iq_inverted c]
     @ to_be_bytes (dc_radio_sync_word c)
     @ [dc_max_frame_len c]
     @ [dc_profile_steps_per_fragment c]"

definition config_layout :: "device_config \<Rightarrow> bytes" where
  "config_layout c =
     config_base_layout c
     @ concat (map heater_step_layout (take (unat (dc_expected_step_count c)) (dc_steps c)))"

lemma length_heater_step_layout [simp]: "length (heater_step_layout s) = CONFIG_STEP_LEN"
  by (simp add: heater_step_layout_def CONFIG_STEP_LEN_def)

lemma length_config_base_layout:
  "length (dc_firmware_version c) = 3 \<Longrightarrow> length (config_base_layout c) = CONFIG_BASE_LEN"
  by (simp add: config_base_layout_def CONFIG_BASE_LEN_def)

lemma length_concat_heater_steps [simp]:
  "length (concat (map heater_step_layout xs)) = length xs * CONFIG_STEP_LEN"
  by (induction xs) auto

lemma length_config_layout:
  assumes "wf_config c" and "unat (dc_expected_step_count c) \<le> 10"
  shows "length (config_layout c) = config_payload_len c"
  using assms
  by (simp add: config_layout_def config_payload_len_def wf_config_def length_config_base_layout
      MAX_PROFILE_STEPS_def)

text \<open>Writing produces the layout.\<close>

lemma emits_write_heater_step: "emits (write_heater_step s) (heater_step_layout s)"
  unfolding write_heater_step_def heater_step_layout_def by (rule emits_intros)+

lemma emits_write_config_payload:
  assumes "wf_config c" and "unat (dc_expected_step_count c) \<le> 10"
  shows "emits (write_config_payload c) (config_layout c)"
proof -
  have steps: "slice (dc_steps c) 0 (unat (dc_expected_step_count c)) =
      (Ok (take (unat (dc_expected_step_count c)) (dc_steps c)) :: (_, v2_error) result)"
    using assms by (simp add: slice_def wf_config_def MAX_PROFILE_STEPS_def)
  show ?thesis
    unfolding write_config_payload_def config_layout_def steps and_then.simps
  proof (rule emits_and_then [OF _ emits_for_each [OF emits_write_heater_step]])
  qed (unfold config_base_layout_def, (rule emits_intros)+)
qed

lemma write_config_payload_fills:
  assumes "wf_config c" and "unat (dc_expected_step_count c) \<le> 10"
    and "length room = config_payload_len c"
  shows "and_then (write_config_payload c (writer_new room)) writer_finish = Ok (config_layout c)"
  using assms by (intro emits_fills emits_write_config_payload) (auto simp: length_config_layout)

text \<open>Reading the layout back.\<close>

lemma read_heater_step_iff [wire_dest]:
  "read_heater_step (reader_on pre bs) = Ok (s, r) \<longleftrightarrow>
     (\<exists>rest. bs = heater_step_layout s @ rest \<and> r = reader_on (pre @ heater_step_layout s) rest)"
  unfolding read_heater_step_def heater_step_layout_def
  by (cases s) (auto simp: wire_dest)

lemma read_heater_steps_iff [wire_dest]:
  "read_heater_steps n (reader_on pre bs) = Ok (xs, r) \<longleftrightarrow>
     length xs = n \<and> (\<exists>rest. bs = concat (map heater_step_layout xs) @ rest
        \<and> r = reader_on (pre @ concat (map heater_step_layout xs)) rest)"
proof (induction n arbitrary: pre bs xs)
  case 0
  then show ?case by auto
next
  case (Suc n)
  then show ?case by (cases xs) (auto simp: read_heater_step_iff)
qed

lemma config_layout_nth:
  assumes "wf_config c"
  shows "config_layout c ! 0 = CONFIG_SCHEMA_VERSION" "config_layout c ! 1 = dc_flags c"
    "config_layout c ! 5 = dc_firmware_build_flags c"
    "config_layout c ! 43 = dc_expected_step_count c"
  using assms
  by (simp_all add: config_layout_def config_base_layout_def wf_config_def nth_append)

lemma config_payload_len_bounds:
  assumes "unat (dc_expected_step_count c) \<le> 10"
  shows "config_payload_len c \<le> 183" "CONFIG_BASE_LEN \<le> config_payload_len c"
  using assms by (auto simp: config_payload_len_def CONFIG_BASE_LEN_def CONFIG_STEP_LEN_def)

section \<open>The decoder\<close>

lemma validate_decoded_config_layout:
  assumes "wf_config c" and "validate_config c = Ok u"
  shows "validate_decoded_config h (config_layout c) = Ok () \<longleftrightarrow>
     h_fragment_index h = 0 \<and> h_fragment_count h = 1 \<and> c_config_id (h_common h) \<noteq> 0
     \<and> fnv1a64 (config_layout c) = c_config_id (h_common h)"
proof -
  note b = validate_config_bounds [OF assms(2)]
  have len: "length (config_layout c) = config_payload_len c"
    using assms(1) b(2) by (rule length_config_layout)
  have "1 \<le> dc_expected_step_count c" "dc_expected_step_count c \<le> 10"
    using b by (auto simp: word_le_nat_alt)
  then show ?thesis
    using b config_payload_len_bounds [OF b(2)]
    unfolding validate_decoded_config_def
    by (auto simp: len index_def config_layout_nth [OF assms(1), simplified] MAX_PROFILE_STEPS_U8_def
        config_payload_len_def CONFIG_BASE_LEN_def Let_def not_less)
qed

lemma decode_device_config_layout:
  assumes "decode_device_config h payload = Ok c"
  shows "wf_config c" "validate_config c = Ok ()" "payload = config_layout c"
proof -
  show "validate_config c = Ok ()"
    using assms unfolding decode_device_config_def Let_def
    by (auto simp del: checks_eq_Ok split: prod.splits if_splits)
  show "wf_config c" "payload = config_layout c"
    using assms unfolding decode_device_config_def Let_def
    by (auto simp: reader_new_on wire_dest reader_finish_on wf_config_def config_layout_def
        config_base_layout_def slice_Ok_iff splice_def MAX_PROFILE_STEPS_def
        split: if_splits)
qed

lemma heater_slots_restored:
  assumes "length steps = 10" "n \<le> 10"
    and "\<And>i. n \<le> i \<Longrightarrow> i < length steps \<Longrightarrow> steps ! i = d"
  shows "splice (replicate 10 d) 0 (take n steps) = steps"
  by (rule nth_equalityI) (use assms in \<open>auto simp: splice_def nth_append\<close>)

lemma device_config_eta [simp]:
  "\<lparr>dc_flags = dc_flags c,
    dc_firmware_version = dc_firmware_version c,
    dc_firmware_build_flags = dc_firmware_build_flags c,
    dc_firmware_build_id = dc_firmware_build_id c,
    dc_sensor_chip_id = dc_sensor_chip_id c,
    dc_sensor_variant = dc_sensor_variant c,
    dc_sensor_i2c_address = dc_sensor_i2c_address c,
    dc_temperature_oversampling = dc_temperature_oversampling c,
    dc_humidity_oversampling = dc_humidity_oversampling c,
    dc_pressure_oversampling = dc_pressure_oversampling c,
    dc_iir_filter = dc_iir_filter c,
    dc_standby_time = dc_standby_time c,
    dc_operation_mode = dc_operation_mode c,
    dc_heater_enabled = dc_heater_enabled c,
    dc_parallel_requested_shared_wait_ms = dc_parallel_requested_shared_wait_ms c,
    dc_parallel_shared_wait_register = dc_parallel_shared_wait_register c,
    dc_parallel_quantized_shared_wait_us = dc_parallel_quantized_shared_wait_us c,
    dc_tphg_duration_us = dc_tphg_duration_us c,
    dc_expected_profile_duration_us = dc_expected_profile_duration_us c,
    dc_profile_id = dc_profile_id c,
    dc_profile_version = dc_profile_version c,
    dc_expected_step_count = dc_expected_step_count c,
    dc_heater_readback_valid_bitmap = dc_heater_readback_valid_bitmap c,
    dc_calibration_hash_algorithm = dc_calibration_hash_algorithm c,
    dc_calibration_hash = dc_calibration_hash c,
    dc_scan_interval_ms = dc_scan_interval_ms c,
    dc_config_repeat_interval_scans = dc_config_repeat_interval_scans c,
    dc_output_routes = dc_output_routes c,
    dc_radio_frequency_hz = dc_radio_frequency_hz c,
    dc_radio_tx_power_dbm = dc_radio_tx_power_dbm c,
    dc_radio_spreading_factor = dc_radio_spreading_factor c,
    dc_radio_bandwidth_hz = dc_radio_bandwidth_hz c,
    dc_radio_coding_rate_numerator = dc_radio_coding_rate_numerator c,
    dc_radio_coding_rate_denominator = dc_radio_coding_rate_denominator c,
    dc_radio_preamble_symbols = dc_radio_preamble_symbols c,
    dc_radio_header_mode = dc_radio_header_mode c,
    dc_radio_phy_crc_enabled = dc_radio_phy_crc_enabled c,
    dc_radio_iq_inverted = dc_radio_iq_inverted c,
    dc_radio_sync_word = dc_radio_sync_word c,
    dc_max_frame_len = dc_max_frame_len c,
    dc_profile_steps_per_fragment = dc_profile_steps_per_fragment c,
    dc_steps = dc_steps c\<rparr> = c"
  by (cases c) simp

lemma decode_config_layout:
  assumes "wf_config c" and "validate_config c = Ok ()"
    and "validate_decoded_config h (config_layout c) = Ok ()"
  shows "decode_device_config h (config_layout c) = Ok c"
proof -
  note b = validate_config_bounds [OF assms(2)]
  let ?n = "unat (dc_expected_step_count c)"
  let ?steps = "concat (map heater_step_layout (take ?n (dc_steps c)))"
  have len: "length (dc_steps c) = 10" "length (dc_firmware_version c) = 3"
    using assms(1) by (auto simp: wf_config_def MAX_PROFILE_STEPS_def)
  have fw: "reader_take 3 (reader_on pre (dc_firmware_version c @ rest)) =
      Ok (dc_firmware_version c, reader_on (pre @ dc_firmware_version c) rest)" for pre rest
    using len by (simp add: reader_take_on)
  have rd: "read_heater_steps ?n (reader_on pre ?steps) =
      Ok (take ?n (dc_steps c), reader_on (pre @ ?steps) [])" for pre
    using read_heater_steps_iff [of ?n pre ?steps "take ?n (dc_steps c)"] len b by simp
  have slots: "splice (replicate 10 heater_step_config_default) 0 (take ?n (dc_steps c)) = dc_steps c"
    using len b by (intro heater_slots_restored) auto
  have fin: "reader_finish (reader_on pre []) = Ok ()" for pre
    by (simp add: reader_finish_on)
  show ?thesis
    using b(2) unfolding decode_device_config_def assms(3)
    by (simp add: reader_new_on config_layout_def config_base_layout_def wire_simps fw rd slots fin
        slice_def MAX_PROFILE_STEPS_def assms(2) Let_def)
qed

text \<open>
  The decoder in one equation: it accepts the layouts of valid configurations, in an unfragmented
  record, under their own non-zero hash.
\<close>

lemma decode_device_config_iff:
  "decode_device_config h payload = Ok c \<longleftrightarrow>
     wf_config c \<and> validate_config c = Ok () \<and> payload = config_layout c
     \<and> h_fragment_index h = 0 \<and> h_fragment_count h = 1
     \<and> c_config_id (h_common h) \<noteq> 0 \<and> fnv1a64 payload = c_config_id (h_common h)"
  (is "?lhs \<longleftrightarrow> ?rhs")
proof
  assume L: ?lhs
  then have "validate_decoded_config h payload = Ok ()"
    by (auto simp: decode_device_config_def)
  then show ?rhs
    using decode_device_config_layout [OF L] validate_decoded_config_layout [of c "()" h] by simp
next
  assume R: ?rhs
  then have "validate_decoded_config h (config_layout c) = Ok ()"
    using validate_decoded_config_layout [of c "()" h] by auto
  then show ?lhs using R decode_config_layout by blast
qed

lemma read_heater_step_no_panic [simp]: "\<not> panics (read_heater_step r)"
  unfolding read_heater_step_def by (auto simp: panics_and_then split: prod.splits)

lemma read_heater_steps_no_panic [simp]: "\<not> panics (read_heater_steps n r)"
  by (induction n arbitrary: r) (auto simp: panics_and_then split: prod.splits)

lemma validate_decoded_config_no_panic [simp]: "\<not> panics (validate_decoded_config h payload)"
  unfolding validate_decoded_config_def
  by (auto simp: panics_and_then index_def CONFIG_BASE_LEN_def Let_def)

lemma validate_decoded_config_count:
  assumes "validate_decoded_config h payload = Ok u"
  shows "unat (payload ! 43) \<le> MAX_PROFILE_STEPS"
proof -
  have "payload ! 43 \<le> 10"
    using assms by (auto simp: validate_decoded_config_def index_Ok_iff MAX_PROFILE_STEPS_U8_def
        Let_def split: if_splits)
  then show ?thesis by (auto simp: MAX_PROFILE_STEPS_def dest: u8_le_10)
qed

lemma decode_device_config_no_panic [simp]: "\<not> panics (decode_device_config h payload)"
proof (cases "validate_decoded_config h payload")
  case (Inr u)
  then have "unat (payload ! 43) \<le> MAX_PROFILE_STEPS"
    by (rule validate_decoded_config_count)
  then show ?thesis
    unfolding decode_device_config_def Let_def Inr
    by (auto simp: panics_and_then slice_def validate_config_no_panic reader_new_on wire_dest
        nth_append split: prod.splits)
next
  case (Inl e)
  then show ?thesis
    using validate_decoded_config_no_panic [of h payload] by (simp add: decode_device_config_def panics_def)
qed

section \<open>The encoder\<close>

definition config_header :: "common \<Rightarrow> device_config \<Rightarrow> bool \<Rightarrow> header" where
  "config_header common c repeated =
     \<lparr>h_frame_type = DeviceConfig,
      h_common = common\<lparr>c_config_id := fnv1a64 (config_layout c),
        c_flags := (if repeated then c_flags common OR COMMON_FLAG_CONFIG_REPEAT
                    else c_flags common)\<rparr>,
      h_fragment_index = 0, h_fragment_count = 1,
      h_payload_len = word_of_nat (config_payload_len c)\<rparr>"

lemma device_config_id_eq:
  assumes "wf_config c" and "validate_config c = Ok ()"
  shows "device_config_id c =
     (if fnv1a64 (config_layout c) = 0 then fail (InvalidField ''reserved_config_id'')
      else Ok (fnv1a64 (config_layout c)))"
proof -
  note b = validate_config_bounds [OF assms(2)]
  let ?room = "take (config_payload_len c) (replicate 183 0) :: bytes"
  have "and_then (write_config_payload c (writer_new ?room)) writer_finish = Ok (config_layout c)"
    using config_payload_len_bounds [OF b(2)]
    by (intro write_config_payload_fills assms(1) b(2)) simp
  then show ?thesis
    using config_payload_len_bounds [OF b(2)] assms(2)
    by (cases "write_config_payload c (writer_new ?room)")
       (auto simp: device_config_id_def slice_def v2_lens Let_def)
qed

lemma encode_device_config_eq:
  assumes "wf_config c" and "validate_config c = Ok ()"
  shows "encode_device_config common c repeated =
     and_then (device_config_id c) (\<lambda>_.
     and_then (encode_header (replicate HEADER_LEN 0) DeviceConfig
                 (h_common (config_header common c repeated)) 0 1 (config_payload_len c)) (\<lambda>hb.
     Ok (frame_of hb (config_layout c))))"
proof -
  note b = validate_config_bounds [OF assms(2)]
  note pb = config_payload_len_bounds [OF b(2)]
  let ?room = "take (config_payload_len c) (replicate 207 0) :: bytes"
  have w: "and_then (write_config_payload c (writer_new ?room)) writer_finish = Ok (config_layout c)"
    using pb by (intro write_config_payload_fills assms(1) b(2)) simp
  have fit: "HEADER_LEN + config_payload_len c < 256"
    using pb by (simp add: v2_lens)
  have room: "slice (ef_bytes encoded_frame_EMPTY) HEADER_LEN (HEADER_LEN + config_payload_len c)
      = (Ok ?room :: (_, v2_error) result)"
    using pb by (simp add: slice_def encoded_frame_EMPTY_def v2_lens)
  show ?thesis
    using w fit assms(2)
    by (cases "write_config_payload c (writer_new ?room)")
       (auto simp: encode_device_config_def room header_room device_config_id_eq [OF assms]
         config_header_def u8_try_from_def frame_of_def length_config_layout [OF assms(1) b(2)]
         Let_def simp del: take_replicate)
qed

lemma encode_device_config_iff:
  assumes "wf_config c"
  shows "encode_device_config common c repeated = Ok f \<longleftrightarrow>
     validate_config c = Ok () \<and> fnv1a64 (config_layout c) \<noteq> 0
     \<and> header_valid (config_header common c repeated)
     \<and> f = frame_of (header_layout (config_header common c repeated)) (config_layout c)"
proof (cases "validate_config c = Ok ()")
  case True
  then have "HEADER_LEN + config_payload_len c \<le> MAX_PHY_FRAME_LEN"
    using config_payload_len_bounds(1) [OF validate_config_bounds(2), of c "()"]
    by (simp add: v2_lens)
  then show ?thesis
    using True encode_device_config_eq [OF assms True]
    by (auto simp: device_config_id_eq [OF assms True] encode_header_iff config_header_def Let_def)
next
  case False
  then show ?thesis by (auto simp: encode_device_config_def)
qed

lemma config_frame_fits:
  assumes "wf_config c" and "validate_config c = Ok ()" and "length hb = HEADER_LEN"
  shows "as_slice (frame_of hb (config_layout c)) = hb @ config_layout c"
    and "length (config_layout c) = config_payload_len c" and "config_payload_len c \<le> 183"
proof -
  note b = validate_config_bounds [OF assms(2)]
  show "length (config_layout c) = config_payload_len c"
    using assms(1) b(2) by (rule length_config_layout)
  moreover show "config_payload_len c \<le> 183"
    using config_payload_len_bounds [OF b(2)] by blast
  ultimately show "as_slice (frame_of hb (config_layout c)) = hb @ config_layout c"
    using assms(3) by (intro as_slice_frame_of) (auto simp: v2_lens)
qed

lemma encode_device_config_no_panic:
  assumes "wf_config c"
  shows "\<not> panics (encode_device_config common c repeated)"
proof (cases "validate_config c = Ok ()")
  case True
  then show ?thesis
    using assms by (simp add: encode_device_config_eq device_config_id_eq panics_and_then)
next
  case False
  then show ?thesis
    using validate_config_no_panic [of c] by (auto simp: encode_device_config_def panics_and_then)
qed

end
