(* ===== verification/V2_Health.thy ===== *)
theory V2_Health
  imports V2_Header
begin

text \<open>
  The \<^verbatim>\<open>DeviceHealth\<close> record of protocol version 2 (\<^verbatim>\<open>encode_device_health\<close>,
  \<^verbatim>\<open>validate_decoded_health\<close> and \<^verbatim>\<open>decode_device_health\<close> of \<^verbatim>\<open>v2.rs\<close>): a fixed part and
  up to two optional measurements as type-length-value extensions. Both loops over the extensions
  terminate because every round moves the cursor.
\<close>

section \<open>Encoding\<close>

definition health_extension_len :: "device_health \<Rightarrow> nat" where
  "health_extension_len health =
     of_bool (dh_calibrated_mcu_temperature_centi_celsius health \<noteq> None) * 4
     + of_bool (dh_calibrated_vdd_millivolt health \<noteq> None) * 4"

definition write_health_payload :: "device_health \<Rightarrow> writer \<Rightarrow> (writer, v2_error) result" where
  "write_health_payload health w =
    (let extension_len = health_extension_len health in
     and_then
      (write_all
        [writer_u8 HEALTH_SCHEMA_VERSION,
         writer_u8 (dh_flags health),
         writer_u32 (dh_reset_cause_raw health),
         writer_u32 (dh_successful_sensor_scans health),
         writer_u32 (dh_failed_sensor_scans health),
         writer_u32 (dh_incomplete_profiles health),
         writer_u32 (dh_i2c_errors health),
         writer_u32 (dh_radio_tx_errors health),
         writer_u32 (dh_dropped_profiles health),
         writer_u32 (dh_dropped_fragments health),
         writer_u32 (dh_overwritten_fields health),
         writer_u32 (dh_current_sample_interval_ms health),
         writer_bytes (dh_firmware_version health),
         writer_u16 (dh_profile_id health),
         writer_u16 (dh_profile_version health),
         writer_u16 (dh_last_sensor_error health),
         writer_u16 (dh_last_radio_error health)] w) (\<lambda>w.
     and_then (if extension_len < 256 then Ok (word_of_nat extension_len)
               else fail (InvalidField ''health_extension_len'')) (\<lambda>len.
     and_then (writer_u8 len w) (\<lambda>w.
     and_then
       (case dh_calibrated_mcu_temperature_centi_celsius health of
          Some value \<Rightarrow> write_all [writer_u8 1, writer_u8 2, writer_i16 value] w
        | None \<Rightarrow> Ok w) (\<lambda>w.
     case dh_calibrated_vdd_millivolt health of
       Some value \<Rightarrow> write_all [writer_u8 2, writer_u8 2, writer_u16 value] w
     | None \<Rightarrow> Ok w)))))"

definition encode_device_health :: "common \<Rightarrow> device_health \<Rightarrow> (encoded_frame, v2_error) result" where
  "encode_device_health common health =
    and_then (validate_health_flags common (dh_flags health)) (\<lambda>_.
    and_then (validate_health_config_identity common health) (\<lambda>_.
    let payload_len = HEALTH_BASE_LEN + health_extension_len health;
        frame = encoded_frame_EMPTY in
    and_then (slice (ef_bytes frame) 0 HEADER_LEN) (\<lambda>room.
    and_then (encode_header room DeviceHealth common 0 1 payload_len) (\<lambda>hb.
    let frame = frame\<lparr>ef_bytes := splice (ef_bytes frame) 0 hb\<rparr> in
    and_then (slice (ef_bytes frame) HEADER_LEN (HEADER_LEN + payload_len)) (\<lambda>room.
    and_then (write_health_payload health (writer_new room)) (\<lambda>w.
    and_then (writer_finish w) (\<lambda>payload.
    let frame = frame\<lparr>ef_bytes := splice (ef_bytes frame) HEADER_LEN payload\<rparr> in
    and_then (if HEADER_LEN + payload_len < 256 then Ok (word_of_nat (HEADER_LEN + payload_len))
              else fail (FrameTooLong (HEADER_LEN + payload_len))) (\<lambda>len.
    Ok (frame\<lparr>ef_len := len\<rparr>)))))))))"

section \<open>Decoding\<close>

text \<open>The loop that checks the extensions, from its offset and the previous type.\<close>

function validate_tlvs :: "bytes \<Rightarrow> nat \<Rightarrow> u8 \<Rightarrow> (unit, v2_error) result" where
  "validate_tlvs payload offset previous_type =
    (if offset < length payload then
       if length payload - offset < 2 then fail BufferExhausted else
       and_then (index payload offset) (\<lambda>kind.
       and_then (index payload (offset + 1)) (\<lambda>len8.
       let len = unat len8; offset' = offset + 2 in
       if kind \<le> previous_type then fail (InvalidField ''health_tlv_order'') else
       if length payload - offset' < len then fail BufferExhausted else
       if kind = 1 \<or> kind = 2 then
         if len = 2 then validate_tlvs payload (offset' + len) kind
         else fail (InvalidField ''health_tlv_length'')
       else fail (InvalidField ''health_tlv_type'')))
     else Ok ())"
  by pat_completeness auto

termination
  by (relation "measure (\<lambda>(payload, offset, p). length payload - offset)") auto

declare validate_tlvs.simps [simp del]

definition validate_decoded_health :: "header \<Rightarrow> bytes \<Rightarrow> (unit, v2_error) result" where
  "validate_decoded_health h payload =
    (if h_fragment_index h \<noteq> 0 \<or> h_fragment_count h \<noteq> 1
     then fail (InvalidField ''unfragmented_record_coordinates'')
     else if length payload < HEALTH_BASE_LEN
     then fail (WrongLength HEALTH_BASE_LEN (length payload))
     else
     and_then (index payload 0) (\<lambda>schema.
     if schema \<noteq> HEALTH_SCHEMA_VERSION then fail (InvalidField ''health_schema_version'')
     else
     and_then (index payload 1) (\<lambda>flags.
     and_then (validate_health_flags (h_common h) flags) (\<lambda>_.
     and_then (index payload 53) (\<lambda>ext.
     let expected_len = HEALTH_BASE_LEN + unat ext in
     if length payload \<noteq> expected_len then fail (WrongLength expected_len (length payload))
     else validate_tlvs payload HEALTH_BASE_LEN 0)))))"

text \<open>The loop that reads the extensions.\<close>

function read_extensions ::
  "i16 option \<Rightarrow> u16 option \<Rightarrow> reader \<Rightarrow> (i16 option \<times> u16 option \<times> reader, v2_error) result" where
  "read_extensions mcu vdd extensions =
    (if rd_offset extensions < length (rd_bytes extensions) then
       and_then (reader_u8 extensions) (\<lambda>(kind, r).
       and_then (reader_u8 r) (\<lambda>(len, r).
       if len \<noteq> 2 then fail (InvalidField ''health_tlv_length'') else
       if kind = 1 then and_then (reader_i16 r) (\<lambda>(v, r). read_extensions (Some v) vdd r) else
       if kind = 2 then and_then (reader_u16 r) (\<lambda>(v, r). read_extensions mcu (Some v) r)
       else fail (InvalidField ''health_tlv_type'')))
     else Ok (mcu, vdd, extensions))"
  by pat_completeness auto

termination
  by (relation "measure (\<lambda>(m, v, r). length (rd_bytes r) - rd_offset r)")
     (auto dest!: reader_moves)

declare read_extensions.simps [simp del]

definition decode_device_health :: "header \<Rightarrow> bytes \<Rightarrow> (device_health, v2_error) result" where
  "decode_device_health h payload =
    (and_then (validate_decoded_health h payload) (\<lambda>_.
     and_then (slice payload 0 HEALTH_BASE_LEN) (\<lambda>fixed.
     and_then (reader_u8 (reader_new fixed)) (\<lambda>(schema, r).
     if schema \<noteq> HEALTH_SCHEMA_VERSION then fail (InvalidField ''health_schema_version'') else
     and_then (reader_u8 r) (\<lambda>(flags, r).
     and_then (reader_u32 r) (\<lambda>(reset_cause_raw, r).
     and_then (reader_u32 r) (\<lambda>(successful_sensor_scans, r).
     and_then (reader_u32 r) (\<lambda>(failed_sensor_scans, r).
     and_then (reader_u32 r) (\<lambda>(incomplete_profiles, r).
     and_then (reader_u32 r) (\<lambda>(i2c_errors, r).
     and_then (reader_u32 r) (\<lambda>(radio_tx_errors, r).
     and_then (reader_u32 r) (\<lambda>(dropped_profiles, r).
     and_then (reader_u32 r) (\<lambda>(dropped_fragments, r).
     and_then (reader_u32 r) (\<lambda>(overwritten_fields, r).
     and_then (reader_u32 r) (\<lambda>(current_sample_interval_ms, r).
     and_then (reader_take 3 r) (\<lambda>(firmware_version, r).
     and_then (reader_u16 r) (\<lambda>(profile_id, r).
     and_then (reader_u16 r) (\<lambda>(profile_version, r).
     and_then (reader_u16 r) (\<lambda>(last_sensor_error, r).
     and_then (reader_u16 r) (\<lambda>(last_radio_error, r).
     and_then (reader_u8 r) (\<lambda>(extension_len, r).
     and_then (reader_finish r) (\<lambda>_.
     if unat extension_len \<noteq> length payload - HEALTH_BASE_LEN
     then fail (InvalidField ''health_extension_len'') else
     and_then (slice payload HEALTH_BASE_LEN (length payload)) (\<lambda>rest.
     and_then (read_extensions None None (reader_new rest))
       (\<lambda>(calibrated_mcu_temperature_centi_celsius, calibrated_vdd_millivolt, extensions).
     and_then (reader_finish extensions) (\<lambda>_.
     let health =
           \<lparr>dh_flags = flags,
            dh_reset_cause_raw = reset_cause_raw,
            dh_successful_sensor_scans = successful_sensor_scans,
            dh_failed_sensor_scans = failed_sensor_scans,
            dh_incomplete_profiles = incomplete_profiles,
            dh_i2c_errors = i2c_errors,
            dh_radio_tx_errors = radio_tx_errors,
            dh_dropped_profiles = dropped_profiles,
            dh_dropped_fragments = dropped_fragments,
            dh_overwritten_fields = overwritten_fields,
            dh_current_sample_interval_ms = current_sample_interval_ms,
            dh_firmware_version = firmware_version,
            dh_profile_id = profile_id,
            dh_profile_version = profile_version,
            dh_last_sensor_error = last_sensor_error,
            dh_last_radio_error = last_radio_error,
            dh_calibrated_mcu_temperature_centi_celsius = calibrated_mcu_temperature_centi_celsius,
            dh_calibrated_vdd_millivolt = calibrated_vdd_millivolt\<rparr> in
     and_then (validate_health_config_identity (h_common h) health) (\<lambda>_. Ok health))))))))))))))))))))))))))"

section \<open>The layout of the payload\<close>

definition tlv_layout :: "i16 option \<Rightarrow> u16 option \<Rightarrow> bytes" where
  "tlv_layout mcu vdd =
     (case mcu of Some v \<Rightarrow> [1] @ [2] @ to_be_bytes v | None \<Rightarrow> [])
     @ (case vdd of Some v \<Rightarrow> [2] @ [2] @ to_be_bytes v | None \<Rightarrow> [])"

definition health_fixed_layout :: "device_health \<Rightarrow> bytes" where
  "health_fixed_layout health =
     [HEALTH_SCHEMA_VERSION]
     @ [dh_flags health]
     @ to_be_bytes (dh_reset_cause_raw health)
     @ to_be_bytes (dh_successful_sensor_scans health)
     @ to_be_bytes (dh_failed_sensor_scans health)
     @ to_be_bytes (dh_incomplete_profiles health)
     @ to_be_bytes (dh_i2c_errors health)
     @ to_be_bytes (dh_radio_tx_errors health)
     @ to_be_bytes (dh_dropped_profiles health)
     @ to_be_bytes (dh_dropped_fragments health)
     @ to_be_bytes (dh_overwritten_fields health)
     @ to_be_bytes (dh_current_sample_interval_ms health)
     @ dh_firmware_version health
     @ to_be_bytes (dh_profile_id health)
     @ to_be_bytes (dh_profile_version health)
     @ to_be_bytes (dh_last_sensor_error health)
     @ to_be_bytes (dh_last_radio_error health)"

definition health_layout :: "device_health \<Rightarrow> bytes" where
  "health_layout health =
     health_fixed_layout health @ [word_of_nat (health_extension_len health)]
     @ tlv_layout (dh_calibrated_mcu_temperature_centi_celsius health)
         (dh_calibrated_vdd_millivolt health)"

lemma device_health_eta [simp]:
  "\<lparr>dh_flags = dh_flags health,
    dh_reset_cause_raw = dh_reset_cause_raw health,
    dh_successful_sensor_scans = dh_successful_sensor_scans health,
    dh_failed_sensor_scans = dh_failed_sensor_scans health,
    dh_incomplete_profiles = dh_incomplete_profiles health,
    dh_i2c_errors = dh_i2c_errors health,
    dh_radio_tx_errors = dh_radio_tx_errors health,
    dh_dropped_profiles = dh_dropped_profiles health,
    dh_dropped_fragments = dh_dropped_fragments health,
    dh_overwritten_fields = dh_overwritten_fields health,
    dh_current_sample_interval_ms = dh_current_sample_interval_ms health,
    dh_firmware_version = dh_firmware_version health,
    dh_profile_id = dh_profile_id health,
    dh_profile_version = dh_profile_version health,
    dh_last_sensor_error = dh_last_sensor_error health,
    dh_last_radio_error = dh_last_radio_error health,
    dh_calibrated_mcu_temperature_centi_celsius = dh_calibrated_mcu_temperature_centi_celsius health,
    dh_calibrated_vdd_millivolt = dh_calibrated_vdd_millivolt health\<rparr> = health"
  by (cases health) simp

lemma health_extension_len_le: "health_extension_len health \<le> MAX_HEALTH_EXTENSION_LEN"
  by (simp add: health_extension_len_def MAX_HEALTH_EXTENSION_LEN_def of_bool_def)

lemma length_tlv_layout [simp]:
  "length (tlv_layout (dh_calibrated_mcu_temperature_centi_celsius health)
     (dh_calibrated_vdd_millivolt health)) = health_extension_len health"
  by (auto simp: tlv_layout_def health_extension_len_def split: option.splits)

lemma length_health_fixed_layout:
  "wf_health health \<Longrightarrow> length (health_fixed_layout health) = HEALTH_BASE_LEN - 1"
  by (simp add: health_fixed_layout_def wf_health_def HEALTH_BASE_LEN_def)

lemma length_health_layout:
  "wf_health health \<Longrightarrow> length (health_layout health) = HEALTH_BASE_LEN + health_extension_len health"
  by (simp add: health_layout_def length_health_fixed_layout HEALTH_BASE_LEN_def)

lemma health_layout_nth:
  assumes "wf_health health"
  shows "health_layout health ! 0 = HEALTH_SCHEMA_VERSION"
    "health_layout health ! Suc 0 = dh_flags health"
    "health_layout health ! 53 = word_of_nat (health_extension_len health)"
  using assms
  by (simp_all add: health_layout_def health_fixed_layout_def wf_health_def nth_append)

lemma unat_health_extension_len:
  "unat (word_of_nat (health_extension_len health) :: u8) = health_extension_len health"
  using health_extension_len_le [of health]
  by (simp add: unat_of_nat MAX_HEALTH_EXTENSION_LEN_def)

text \<open>Writing produces the layout.\<close>

lemma emits_write_mcu:
  "emits (\<lambda>w. case m of Some value \<Rightarrow> write_all [writer_u8 1, writer_u8 2, writer_i16 value] w
      | None \<Rightarrow> Ok w) (case m of Some v \<Rightarrow> [1] @ [2] @ to_be_bytes v | None \<Rightarrow> [])"
proof (cases m)
  case None
  then show ?thesis by (simp add: emits_Nil)
next
  case (Some v)
  show ?thesis unfolding Some option.case by (rule emits_intros)+
qed

lemma emits_write_vdd:
  "emits (\<lambda>w. case m of Some value \<Rightarrow> write_all [writer_u8 2, writer_u8 2, writer_u16 value] w
      | None \<Rightarrow> Ok w) (case m of Some v \<Rightarrow> [2] @ [2] @ to_be_bytes v | None \<Rightarrow> [])"
proof (cases m)
  case None
  then show ?thesis by (simp add: emits_Nil)
next
  case (Some v)
  show ?thesis unfolding Some option.case by (rule emits_intros)+
qed

lemma emits_write_health_payload: "emits (write_health_payload health) (health_layout health)"
proof -
  have small: "health_extension_len health < 256"
    using health_extension_len_le [of health] by (simp add: MAX_HEALTH_EXTENSION_LEN_def)
  show ?thesis
    unfolding write_health_payload_def Let_def health_layout_def tlv_layout_def
      health_fixed_layout_def
    apply (simp only: small if_True and_then.simps)
    apply (intro emits_and_then)
    subgoal by (rule emits_intros)+
    subgoal by (rule emits_intros)
    subgoal by (rule emits_write_mcu)
    subgoal by (rule emits_write_vdd)
    done
qed

text \<open>The extensions: checked, then read.\<close>

lemma validate_tlvs_Ok_iff:
  "validate_tlvs payload offset p = Ok u \<longleftrightarrow>
     length payload \<le> offset
     \<or> offset + 4 \<le> length payload \<and> p < payload ! offset
       \<and> (payload ! offset = 1 \<or> payload ! offset = 2) \<and> payload ! (offset + 1) = 2
       \<and> validate_tlvs payload (offset + 4) (payload ! offset) = Ok u"
proof -
  have two: "unat x = 2 \<longleftrightarrow> x = 2" for x :: u8
    by (auto simp: word_unat_eq_iff)
  have four: "offset + 4 = Suc (Suc (Suc (Suc offset)))" by simp
  show ?thesis
    unfolding four
    by (subst validate_tlvs.simps) (auto simp: index_def Let_def two not_le split: if_splits)
qed

lemma validate_tlvs_no_panic [simp]: "\<not> panics (validate_tlvs payload offset p)"
proof (induction payload offset p rule: validate_tlvs.induct)
  case (1 payload offset p)
  show ?case
    by (subst validate_tlvs.simps) (use 1 in \<open>auto simp: panics_and_then index_def Let_def\<close>)
qed

lemma validate_tlvs_suffix:
  "validate_tlvs (pre @ ext) (length pre) p = Ok u \<longleftrightarrow>
     ext = []
     \<or> p < 1 \<and> (\<exists>c d rest. ext = [1, 2, c, d] @ rest
         \<and> validate_tlvs ((pre @ [1, 2, c, d]) @ rest) (length (pre @ [1, 2, c, d])) 1 = Ok u)
     \<or> p < 2 \<and> (\<exists>c d rest. ext = [2, 2, c, d] @ rest
         \<and> validate_tlvs ((pre @ [2, 2, c, d]) @ rest) (length (pre @ [2, 2, c, d])) 2 = Ok u)"
proof (cases "4 \<le> length ext")
  case True
  then obtain a b c d rest where "ext = a # b # c # d # rest"
    by (auto simp: numeral_eq_Suc Suc_le_length_iff)
  moreover have four: "length pre + 4 = Suc (Suc (Suc (Suc (length pre))))" by simp
  ultimately show ?thesis
    by (subst validate_tlvs_Ok_iff, unfold four) (auto simp: nth_append)
next
  case False
  then show ?thesis by (subst validate_tlvs_Ok_iff) auto
qed

lemma validate_tlvs_after_vdd:
  "validate_tlvs (pre @ ext) (length pre) 2 = Ok u \<longleftrightarrow> ext = []"
  by (subst validate_tlvs_suffix) simp

lemma validate_tlvs_after_mcu:
  "validate_tlvs (pre @ ext) (length pre) 1 = Ok u \<longleftrightarrow> ext = [] \<or> (\<exists>c d. ext = [2, 2, c, d])"
  by (subst validate_tlvs_suffix) (simp only: validate_tlvs_after_vdd, simp)

lemma be_bytes_pair: "\<exists>v :: u16. to_be_bytes v = [c, d]"
  using be_bytes_of_length(2) [of "[c, d]"] by auto

lemma to_be_bytes_u16_pair: "\<exists>c d. to_be_bytes (v :: u16) = [c, d]"
  by (simp add: to_be_bytes_def upt_rec)

lemma tlv_shapes:
  "ext = [] \<or> (\<exists>c d. ext = [1, 2, c, d]) \<or> (\<exists>c d. ext = [2, 2, c, d])
     \<or> (\<exists>a b c d. ext = [1, 2, a, b, 2, 2, c, d]) \<longleftrightarrow> (\<exists>m v. ext = tlv_layout m v)"
proof -
  have "(\<exists>m v. ext = tlv_layout m v) \<longleftrightarrow>
      ext = [] \<or> (\<exists>a. ext = [1, 2] @ to_be_bytes (a :: u16)) \<or> (\<exists>b. ext = [2, 2] @ to_be_bytes (b :: u16))
      \<or> (\<exists>a b. ext = [1, 2] @ to_be_bytes (a :: u16) @ [2, 2] @ to_be_bytes (b :: u16))"
    by (auto simp: tlv_layout_def split_option_ex)
  moreover have pair: "(\<exists>a. P (to_be_bytes (a :: u16))) \<longleftrightarrow> (\<exists>c d. P [c, d])" for P
    using be_bytes_pair to_be_bytes_u16_pair by metis
  ultimately show ?thesis
    by (simp add: pair [of "\<lambda>x. ext = 1 # 2 # x"] pair [of "\<lambda>x. ext = 2 # 2 # x"]
        pair [of "\<lambda>x. \<exists>b. ext = 1 # 2 # x @ 2 # 2 # to_be_bytes (b :: u16)"]
        pair [of "\<lambda>x. ext = 1 # 2 # c # d # 2 # 2 # x" for c d])
qed

lemma validate_tlvs_layout:
  "validate_tlvs (pre @ ext) (length pre) 0 = Ok u \<longleftrightarrow> (\<exists>m v. ext = tlv_layout m v)"
  (is "?lhs \<longleftrightarrow> ?rhs")
proof -
  have "?lhs \<longleftrightarrow> ext = [] \<or> (\<exists>c d. ext = [1, 2, c, d]) \<or> (\<exists>c d. ext = [2, 2, c, d])
     \<or> (\<exists>a b c d. ext = [1, 2, a, b, 2, 2, c, d])"
    by (subst validate_tlvs_suffix) (simp only: validate_tlvs_after_vdd validate_tlvs_after_mcu, auto)
  also have "\<dots> \<longleftrightarrow> ?rhs"
    by (rule tlv_shapes)
  finally show ?thesis .
qed

lemma read_extensions_layout:
  "read_extensions None None (reader_on pre (tlv_layout m v)) =
     Ok (m, v, reader_on (pre @ tlv_layout m v) [])"
  by (cases m; cases v) (simp_all add: tlv_layout_def read_extensions.simps wire_simps)

lemma read_extensions_no_panic [simp]: "\<not> panics (read_extensions m v r)"
proof (induction m v r rule: read_extensions.induct)
  case (1 m v r)
  show ?case
    by (subst read_extensions.simps) (use 1 in \<open>auto simp: panics_and_then split: prod.splits\<close>)
qed

section \<open>The decoder\<close>

definition health_valid :: "common \<Rightarrow> device_health \<Rightarrow> bool" where
  "health_valid common health \<longleftrightarrow>
     wf_health health \<and> validate_health_flags common (dh_flags health) = Ok ()
     \<and> validate_health_config_identity common health = Ok ()"

lemma validate_decoded_health_layout:
  assumes "wf_health health"
  shows "validate_decoded_health h (health_layout health) = Ok () \<longleftrightarrow>
     h_fragment_index h = 0 \<and> h_fragment_count h = 1
     \<and> validate_health_flags (h_common h) (dh_flags health) = Ok ()"
proof -
  have len: "length (health_fixed_layout health @ [e]) = HEALTH_BASE_LEN" for e
    using assms by (simp add: length_health_fixed_layout HEALTH_BASE_LEN_def)
  have tlvs: "validate_tlvs (health_layout health) HEALTH_BASE_LEN 0 = Ok ()"
    using validate_tlvs_layout [of "health_fixed_layout health @ [word_of_nat (health_extension_len health)]"]
    unfolding len health_layout_def append_assoc by blast
  show ?thesis
    using length_health_layout [OF assms] unfolding validate_decoded_health_def
    by (auto simp: index_def tlvs [unfolded HEALTH_BASE_LEN_def] health_layout_nth [OF assms] unat_health_extension_len
        HEALTH_BASE_LEN_def Let_def)
qed

lemma decode_health_layout:
  assumes "health_valid (h_common h) health" "h_fragment_index h = 0" "h_fragment_count h = 1"
  shows "decode_device_health h (health_layout health) = Ok health"
proof -
  have wf: "wf_health health" using assms(1) by (simp add: health_valid_def)
  have valid: "validate_decoded_health h (health_layout health) = Ok ()"
    using assms wf by (simp add: validate_decoded_health_layout health_valid_def)
  let ?e = "word_of_nat (health_extension_len health) :: u8"
  let ?t = "tlv_layout (dh_calibrated_mcu_temperature_centi_celsius health) (dh_calibrated_vdd_millivolt health)"
  have len: "length (health_layout health) = HEALTH_BASE_LEN + health_extension_len health"
    using wf by (rule length_health_layout)
  have "HEALTH_BASE_LEN - length (health_fixed_layout health) = 1"
    "length (health_fixed_layout health) \<le> HEALTH_BASE_LEN"
    using wf by (auto simp: length_health_fixed_layout HEALTH_BASE_LEN_def)
  then have fixed: "slice (health_layout health) 0 HEALTH_BASE_LEN
        = (Ok (health_fixed_layout health @ [?e]) :: (_, v2_error) result)"
    and rest: "slice (health_layout health) HEALTH_BASE_LEN (length (health_layout health))
        = (Ok ?t :: (_, v2_error) result)"
    by (auto simp: slice_def health_layout_def)
  have fw: "reader_take 3 (reader_on pre (dh_firmware_version health @ rest)) =
      Ok (dh_firmware_version health, reader_on (pre @ dh_firmware_version health) rest)" for pre rest
    using wf by (simp add: reader_take_on wf_health_def)
  have fin: "reader_finish (reader_on pre []) = Ok ()" for pre
    by (simp add: reader_finish_on)
  show ?thesis
    using assms(1) unfolding decode_device_health_def valid fixed rest
    by (simp add: reader_new_on health_fixed_layout_def wire_simps fw fin len read_extensions_layout
        unat_health_extension_len Let_def health_valid_def)
qed

lemma decode_device_health_layout:
  assumes "decode_device_health h payload = Ok health"
  shows "health_valid (h_common h) health" "payload = health_layout health"
    "h_fragment_index h = 0" "h_fragment_count h = 1"
proof -
  have valid: "validate_decoded_health h payload = Ok ()"
    and len: "HEALTH_BASE_LEN \<le> length payload"
    using assms by (auto simp: decode_device_health_def slice_Ok_iff)
  let ?fixed = "take HEALTH_BASE_LEN payload" and ?ext = "drop HEALTH_BASE_LEN payload"
  have fixed: "slice payload 0 HEALTH_BASE_LEN = (Ok ?fixed :: (_, v2_error) result)"
    and rest: "slice payload HEALTH_BASE_LEN (length payload) = (Ok ?ext :: (_, v2_error) result)"
    using len by (auto simp: slice_def)
  have "validate_tlvs payload HEALTH_BASE_LEN 0 = Ok ()"
    using valid by (auto simp: validate_decoded_health_def Let_def split: if_splits)
  then obtain m v where ext: "?ext = tlv_layout m v"
    using validate_tlvs_layout [of ?fixed ?ext "()"] len by auto
  have split: "payload = ?fixed @ tlv_layout m v"
    using ext by (metis append_take_drop_id)
  from assms obtain e where wf: "wf_health health" and fixed_eq: "?fixed = health_fixed_layout health @ [e]"
    and e: "unat e = length payload - HEALTH_BASE_LEN"
    and id: "validate_health_config_identity (h_common h) health = Ok ()"
    and mv: "dh_calibrated_mcu_temperature_centi_celsius health = m" "dh_calibrated_vdd_millivolt health = v"
    unfolding decode_device_health_def valid fixed rest ext
    by (auto simp: reader_new_on wire_dest reader_finish_on read_extensions_layout Let_def
        wf_health_def health_fixed_layout_def split: if_splits)
  have "e = word_of_nat (health_extension_len health)"
    using e length_drop [of HEALTH_BASE_LEN payload] length_tlv_layout [of health]
    unfolding ext mv by (metis unat_health_extension_len word_unat_eq_iff)
  then show payload: "payload = health_layout health"
    using split fixed_eq by (simp add: health_layout_def mv)
  then show "health_valid (h_common h) health" "h_fragment_index h = 0" "h_fragment_count h = 1"
    using valid id wf validate_decoded_health_layout [OF wf, of h] by (auto simp: health_valid_def)
qed

lemma decode_device_health_iff:
  "decode_device_health h payload = Ok health \<longleftrightarrow>
     health_valid (h_common h) health \<and> payload = health_layout health
     \<and> h_fragment_index h = 0 \<and> h_fragment_count h = 1"
  using decode_device_health_layout [of h payload health] decode_health_layout [of h health] by blast

lemma validate_decoded_health_no_panic [simp]: "\<not> panics (validate_decoded_health h payload)"
  unfolding validate_decoded_health_def
  by (auto simp: panics_and_then index_def HEALTH_BASE_LEN_def Let_def)

lemma validate_decoded_health_long:
  "validate_decoded_health h payload = Ok u \<Longrightarrow> HEALTH_BASE_LEN \<le> length payload"
  by (auto simp: validate_decoded_health_def split: if_splits)

lemma decode_device_health_no_panic [simp]: "\<not> panics (decode_device_health h payload)"
  unfolding decode_device_health_def Let_def
  by (auto simp: panics_and_then slice_def dest!: validate_decoded_health_long split: prod.splits)

section \<open>The encoder\<close>

definition health_header :: "common \<Rightarrow> device_health \<Rightarrow> header" where
  "health_header common health =
     \<lparr>h_frame_type = DeviceHealth, h_common = common, h_fragment_index = 0, h_fragment_count = 1,
      h_payload_len = word_of_nat (HEALTH_BASE_LEN + health_extension_len health)\<rparr>"

lemma encode_device_health_eq:
  assumes "wf_health health"
  shows "encode_device_health common health =
     and_then (validate_health_flags common (dh_flags health)) (\<lambda>_.
     and_then (validate_health_config_identity common health) (\<lambda>_.
     and_then (encode_header (replicate HEADER_LEN 0) DeviceHealth common 0 1
                 (HEALTH_BASE_LEN + health_extension_len health)) (\<lambda>hb.
     Ok (frame_of hb (health_layout health)))))"
proof -
  note len = length_health_layout [OF assms]
  have fit: "HEADER_LEN + (HEALTH_BASE_LEN + health_extension_len health) < 256"
    using health_extension_len_le [of health] by (simp add: v2_lens)
  then have fit': "HEADER_LEN + length (health_layout health) \<le> MAX_PHY_FRAME_LEN"
    by (simp add: len MAX_PHY_FRAME_LEN_def)
  have w: "and_then (write_health_payload health (writer_new (replicate (length (health_layout health)) 0)))
      writer_finish = Ok (health_layout health)"
    by (intro emits_fills emits_write_health_payload) simp
  show ?thesis
    unfolding encode_device_health_def Let_def empty_header_room encoded_frame.simps
    using w fit
    by (cases "write_health_payload health (writer_new (replicate (length (health_layout health)) 0))")
       (auto intro!: and_then_cong simp: splice_header_payload [OF _ fit', unfolded len] encode_header_iff
         frame_of_def len Let_def)
qed

lemma health_frame_fits:
  assumes "wf_health health" and "length hb = HEADER_LEN"
  shows "as_slice (frame_of hb (health_layout health)) = hb @ health_layout health"
    and "HEADER_LEN + length (health_layout health) \<le> 110"
proof -
  show "HEADER_LEN + length (health_layout health) \<le> 110"
    using health_extension_len_le [of health] by (simp add: length_health_layout [OF assms(1)] v2_lens)
  then show "as_slice (frame_of hb (health_layout health)) = hb @ health_layout health"
    using assms(2) by (intro as_slice_frame_of) (auto simp: v2_lens)
qed

lemma encode_device_health_iff:
  assumes "wf_health health"
  shows "encode_device_health common health = Ok f \<longleftrightarrow>
     health_valid common health \<and> header_valid (health_header common health)
     \<and> f = frame_of (header_layout (health_header common health)) (health_layout health)"
proof -
  have "HEADER_LEN + (HEALTH_BASE_LEN + health_extension_len health) \<le> MAX_PHY_FRAME_LEN"
    using health_extension_len_le [of health] by (simp add: v2_lens)
  then show ?thesis
    using assms
    by (auto simp: encode_device_health_eq encode_header_iff health_header_def health_valid_def Let_def)
qed

lemma encode_device_health_no_panic:
  "wf_health health \<Longrightarrow> \<not> panics (encode_device_health common health)"
  by (simp add: encode_device_health_eq panics_and_then)

end
