(* ===== verification/V2_Profile.thy ===== *)
theory V2_Profile
  imports V2_Header
begin

text \<open>
  Profile scans of protocol version 2: \<^verbatim>\<open>encode_profile\<close> splits a scan into up to four
  \<^verbatim>\<open>ProfileFragment\<close> frames with a fixed window of steps each, and
  \<^verbatim>\<open>decode_profile_fragment\<close> accepts a fragment only if its metadata, its window and its
  steps agree (\<^verbatim>\<open>v2.rs\<close>).
\<close>

section \<open>Steps\<close>

definition write_step :: "profile_step \<Rightarrow> writer \<Rightarrow> (writer, v2_error) result" where
  "write_step step =
    write_all
     [writer_u8 (ps_step_index step),
      writer_u8 (ps_gas_index step),
      writer_u8 (ps_measurement_index step),
      writer_u8 (ps_status step),
      writer_u8 (ps_raw_measurement_status step),
      writer_u8 (ps_raw_gas_status step),
      writer_u16 (ps_target_temperature_celsius step),
      writer_u32 (ps_configured_duration_us step),
      writer_u32 (ps_offset_us step),
      writer_i16 (ps_temperature_centi_celsius step),
      writer_u32 (ps_pressure_pascal step),
      writer_u32 (ps_humidity_milli_percent_rh step),
      writer_u32 (ps_gas_resistance_ohm step),
      writer_u32 (ps_temperature_adc step),
      writer_u32 (ps_pressure_adc step),
      writer_u16 (ps_humidity_adc step),
      writer_u16 (ps_gas_resistance_adc step),
      writer_u8 (ps_gas_range step),
      writer_u8 (ps_repetition_multiplier step),
      writer_u8 (ps_heater_resistance step),
      writer_u8 (ps_heater_current step),
      writer_u8 (ps_gas_wait step)]"

definition decode_step :: "bytes \<Rightarrow> (profile_step, v2_error) result" where
  "decode_step bs =
    (if length bs \<noteq> PROFILE_STEP_LEN then fail (WrongLength PROFILE_STEP_LEN (length bs)) else
     let r = reader_new bs in
     and_then (reader_u8 r) (\<lambda>(step_index, r).
     and_then (reader_u8 r) (\<lambda>(gas_index, r).
     and_then (reader_u8 r) (\<lambda>(measurement_index, r).
     and_then (reader_u8 r) (\<lambda>(status, r).
     and_then (reader_u8 r) (\<lambda>(raw_measurement_status, r).
     and_then (reader_u8 r) (\<lambda>(raw_gas_status, r).
     and_then (reader_u16 r) (\<lambda>(target_temperature_celsius, r).
     and_then (reader_u32 r) (\<lambda>(configured_duration_us, r).
     and_then (reader_u32 r) (\<lambda>(offset_us, r).
     and_then (reader_i16 r) (\<lambda>(temperature_centi_celsius, r).
     and_then (reader_u32 r) (\<lambda>(pressure_pascal, r).
     and_then (reader_u32 r) (\<lambda>(humidity_milli_percent_rh, r).
     and_then (reader_u32 r) (\<lambda>(gas_resistance_ohm, r).
     and_then (reader_u32 r) (\<lambda>(temperature_adc, r).
     and_then (reader_u32 r) (\<lambda>(pressure_adc, r).
     and_then (reader_u16 r) (\<lambda>(humidity_adc, r).
     and_then (reader_u16 r) (\<lambda>(gas_resistance_adc, r).
     and_then (reader_u8 r) (\<lambda>(gas_range, r).
     and_then (reader_u8 r) (\<lambda>(repetition_multiplier, r).
     and_then (reader_u8 r) (\<lambda>(heater_resistance, r).
     and_then (reader_u8 r) (\<lambda>(heater_current, r).
     and_then (reader_u8 r) (\<lambda>(gas_wait, r).
     let step =
           \<lparr>ps_step_index = step_index,
            ps_gas_index = gas_index,
            ps_measurement_index = measurement_index,
            ps_status = status,
            ps_raw_measurement_status = raw_measurement_status,
            ps_raw_gas_status = raw_gas_status,
            ps_target_temperature_celsius = target_temperature_celsius,
            ps_configured_duration_us = configured_duration_us,
            ps_offset_us = offset_us,
            ps_temperature_centi_celsius = temperature_centi_celsius,
            ps_pressure_pascal = pressure_pascal,
            ps_humidity_milli_percent_rh = humidity_milli_percent_rh,
            ps_gas_resistance_ohm = gas_resistance_ohm,
            ps_temperature_adc = temperature_adc,
            ps_pressure_adc = pressure_adc,
            ps_humidity_adc = humidity_adc,
            ps_gas_resistance_adc = gas_resistance_adc,
            ps_gas_range = gas_range,
            ps_repetition_multiplier = repetition_multiplier,
            ps_heater_resistance = heater_resistance,
            ps_heater_current = heater_current,
            ps_gas_wait = gas_wait\<rparr> in
     and_then (reader_finish r) (\<lambda>_.
     and_then (validate_profile_step step) (\<lambda>_. Ok step)))))))))))))))))))))))))"

text \<open>\<^verbatim>\<open>ProfileFragmentView::step\<close>.\<close>

definition fragment_step :: "profile_fragment_view \<Rightarrow> nat \<Rightarrow> (profile_step, v2_error) result" where
  "fragment_step v local_index =
    (if unat (fv_steps_in_fragment v) \<le> local_index then fail StepIndexOutOfBounds else
     let offset = local_index * PROFILE_STEP_LEN in
     and_then (slice (fv_step_bytes v) offset (offset + PROFILE_STEP_LEN)) decode_step)"

section \<open>Encoding\<close>

definition write_fragment_payload ::
  "profile_scan \<Rightarrow> nat \<Rightarrow> profile_step list \<Rightarrow> writer \<Rightarrow> (writer, v2_error) result" where
  "write_fragment_payload scan window_start steps w =
    (let steps_in_fragment = length steps in
     and_then (writer_u8 PROFILE_SCHEMA_VERSION w) (\<lambda>w.
     and_then (if steps_in_fragment < 256 then Ok (word_of_nat steps_in_fragment)
               else fail (InvalidField ''steps_in_fragment'')) (\<lambda>n.
     and_then (writer_u8 n w) (\<lambda>w.
     and_then (write_all
     [writer_u16 (sc_profile_id scan),
      writer_u16 (sc_profile_version scan),
      writer_u8 (sc_expected_step_count scan),
      writer_u8 (sc_observed_unique_step_count scan),
      writer_u16 (sc_observed_field_count scan),
      writer_u16 (sc_missing_steps_bitmap scan),
      writer_u16 (sc_duplicate_steps_bitmap scan),
      writer_u32 (sc_scan_duration_us scan),
      writer_u32 (sc_collection_flags scan),
      writer_u8 (sc_finish_reason scan),
      writer_u16 (sc_duplicate_count scan),
      writer_u16 (sc_overwritten_field_count scan),
      writer_u16 (sc_out_of_order_count scan),
      writer_u16 (sc_ambiguous_index_jump_count scan),
      writer_u16 (sc_invalid_gas_index_count scan),
      writer_u16 (sc_intermediate_field_count scan),
      writer_u16 (sc_profile_rollover_count scan),
      writer_u16 (sc_fields_after_rollover_count scan),
      writer_u16 (sc_poll_count scan)] w) (\<lambda>w.
     and_then (if window_start < 256 then Ok (word_of_nat window_start)
               else fail (InvalidField ''step_window_start'')) (\<lambda>start.
     and_then (writer_u8 start w) (\<lambda>w.
     for_each steps w write_step)))))))"

text \<open>
  One round of the loop over \<^verbatim>\<open>0..fragment_count\<close>: the frame it leaves in
  \<^verbatim>\<open>output.frames[fragment_index]\<close>, which is still empty when the round starts.
\<close>

definition encode_fragment ::
  "common \<Rightarrow> profile_scan \<Rightarrow> u8 \<Rightarrow> u8 \<Rightarrow> (encoded_frame, v2_error) result" where
  "encode_fragment common scan fragment_count fragment_index =
    (let window_start = unat fragment_index * STEPS_PER_FRAGMENT;
         window_end = min (window_start + STEPS_PER_FRAGMENT) (unat (sc_expected_step_count scan)) in
     and_then (slice (sc_steps scan) window_start window_end) (\<lambda>window.
     let steps = map the (filter (\<lambda>step. step \<noteq> None) window);
         payload_len = PROFILE_FRAGMENT_META_LEN + length steps * PROFILE_STEP_LEN;
         frame = encoded_frame_EMPTY in
     and_then (slice (ef_bytes frame) 0 HEADER_LEN) (\<lambda>room.
     and_then (encode_header room ProfileFragment common fragment_index fragment_count payload_len)
       (\<lambda>hb.
     let frame = frame\<lparr>ef_bytes := splice (ef_bytes frame) 0 hb\<rparr> in
     and_then (slice (ef_bytes frame) HEADER_LEN (HEADER_LEN + payload_len)) (\<lambda>room.
     and_then (write_fragment_payload scan window_start steps (writer_new room)) (\<lambda>w.
     and_then (writer_finish w) (\<lambda>payload.
     let frame = frame\<lparr>ef_bytes := splice (ef_bytes frame) HEADER_LEN payload\<rparr> in
     and_then (if HEADER_LEN + payload_len < 256 then Ok (word_of_nat (HEADER_LEN + payload_len))
               else fail (FrameTooLong (HEADER_LEN + payload_len))) (\<lambda>len.
     Ok (frame\<lparr>ef_len := len\<rparr>)))))))))"

definition encode_profile :: "common \<Rightarrow> profile_scan \<Rightarrow> (encoded_profile, v2_error) result" where
  "encode_profile common scan =
    and_then (validate_profile scan) (\<lambda>_.
    and_then (validate_profile_config_identity common (sc_collection_flags scan)
                (sc_finish_reason scan)) (\<lambda>_.
    and_then (profile_fragment_count (sc_expected_step_count scan)) (\<lambda>fragment_count.
    for_each [0..<unat fragment_count]
      \<lparr>ep_frames = replicate MAX_PROFILE_FRAGMENTS encoded_frame_EMPTY, ep_count = fragment_count\<rparr>
      (\<lambda>i output.
         and_then (index (ep_frames output) i) (\<lambda>_.
         and_then (encode_fragment common scan fragment_count (word_of_nat i)) (\<lambda>frame.
         Ok (output\<lparr>ep_frames := (ep_frames output)[i := frame]\<rparr>)))))))"

section \<open>Decoding\<close>

text \<open>
  The logical indexes the loops over \<^verbatim>\<open>required_window_start..window_end\<close> do not skip. Their
  number is the value of \<^verbatim>\<open>required_steps\<close>, at most three; the shifts by \<^verbatim>\<open>index\<close> stay below
  the expected step count, at most ten.
\<close>

definition present_in_window :: "u16 \<Rightarrow> nat \<Rightarrow> nat \<Rightarrow> nat list" where
  "present_in_window missing lo hi = filter (\<lambda>i. missing AND push_bit i 1 = 0) [lo..<hi]"

text \<open>The loop that decodes the present steps and checks their indexes.\<close>

definition check_fragment_step :: "bytes \<Rightarrow> nat \<Rightarrow> nat \<Rightarrow> (nat, v2_error) result" where
  "check_fragment_step step_bytes logical_index local =
    (let offset = local * PROFILE_STEP_LEN in
     and_then (slice step_bytes offset (offset + PROFILE_STEP_LEN)) (\<lambda>bs.
     and_then (decode_step bs) (\<lambda>step.
     if unat (ps_step_index step) \<noteq> logical_index then fail (InvalidField ''step_index'')
     else Ok (local + 1))))"

text \<open>
  The decoder in its three parts: the reads that fill the metadata of the view, the checks on
  them in source order, and the loop over the steps.
\<close>

definition read_fragment_meta ::
  "header \<Rightarrow> reader \<Rightarrow> (profile_fragment_view \<times> reader, v2_error) result" where
  "read_fragment_meta h r =
    (and_then (reader_u8 r) (\<lambda>(schema, r).
     if schema \<noteq> PROFILE_SCHEMA_VERSION then fail (InvalidField ''profile_schema_version'') else
     and_then (reader_u8 r) (\<lambda>(steps_in_fragment, r).
     and_then (reader_u16 r) (\<lambda>(profile_id, r).
     and_then (reader_u16 r) (\<lambda>(profile_version, r).
     and_then (reader_u8 r) (\<lambda>(expected_step_count, r).
     and_then (reader_u8 r) (\<lambda>(observed_unique_step_count, r).
     and_then (reader_u16 r) (\<lambda>(observed_field_count, r).
     and_then (reader_u16 r) (\<lambda>(missing_steps_bitmap, r).
     and_then (reader_u16 r) (\<lambda>(duplicate_steps_bitmap, r).
     and_then (reader_u32 r) (\<lambda>(scan_duration_us, r).
     and_then (reader_u32 r) (\<lambda>(collection_flags, r).
     and_then (reader_u8 r) (\<lambda>(finish_reason, r).
     and_then (reader_u16 r) (\<lambda>(duplicate_count, r).
     and_then (reader_u16 r) (\<lambda>(overwritten_field_count, r).
     and_then (reader_u16 r) (\<lambda>(out_of_order_count, r).
     and_then (reader_u16 r) (\<lambda>(ambiguous_index_jump_count, r).
     and_then (reader_u16 r) (\<lambda>(invalid_gas_index_count, r).
     and_then (reader_u16 r) (\<lambda>(intermediate_field_count, r).
     and_then (reader_u16 r) (\<lambda>(profile_rollover_count, r).
     and_then (reader_u16 r) (\<lambda>(fields_after_rollover_count, r).
     and_then (reader_u16 r) (\<lambda>(poll_count, r).
     and_then (reader_u8 r) (\<lambda>(step_window_start, r).
     Ok (\<lparr>fv_header = h,
           fv_profile_id = profile_id,
           fv_profile_version = profile_version,
           fv_expected_step_count = expected_step_count,
           fv_observed_unique_step_count = observed_unique_step_count,
           fv_observed_field_count = observed_field_count,
           fv_missing_steps_bitmap = missing_steps_bitmap,
           fv_duplicate_steps_bitmap = duplicate_steps_bitmap,
           fv_scan_duration_us = scan_duration_us,
           fv_collection_flags = collection_flags,
           fv_finish_reason = finish_reason,
           fv_duplicate_count = duplicate_count,
           fv_overwritten_field_count = overwritten_field_count,
           fv_out_of_order_count = out_of_order_count,
           fv_ambiguous_index_jump_count = ambiguous_index_jump_count,
           fv_invalid_gas_index_count = invalid_gas_index_count,
           fv_intermediate_field_count = intermediate_field_count,
           fv_profile_rollover_count = profile_rollover_count,
           fv_fields_after_rollover_count = fields_after_rollover_count,
           fv_poll_count = poll_count,
           fv_step_window_start = step_window_start,
           fv_steps_in_fragment = steps_in_fragment,
           fv_step_bytes = []\<rparr>, r))))))))))))))))))))))))"

definition check_fragment_meta :: "profile_fragment_view \<Rightarrow> nat \<Rightarrow> (unit, v2_error) result" where
  "check_fragment_meta v payload_len =
    (let h = fv_header v;
         required_window_start = unat (h_fragment_index h) * STEPS_PER_FRAGMENT;
         window_end = min (required_window_start + STEPS_PER_FRAGMENT) (unat (fv_expected_step_count v));
         expected_payload_len =
           PROFILE_FRAGMENT_META_LEN + unat (fv_steps_in_fragment v) * PROFILE_STEP_LEN in
     checks
       [reject_if (\<not> (1 \<le> fv_expected_step_count v \<and> fv_expected_step_count v \<le> MAX_PROFILE_STEPS_U8))
          (InvalidField ''expected_step_count''),
        ensure_known_u32 ''collection_flags'' (fv_collection_flags v) COLLECTION_FLAGS_KNOWN,
        reject_if (fv_profile_id v = 0 \<or> fv_profile_version v = 0) (InvalidField ''profile_identity''),
        validate_profile_config_identity (h_common h) (fv_collection_flags v) (fv_finish_reason v),
        reject_if (fv_finish_reason v > FINISH_REASON_PROFILE_ROLLOVER) (InvalidField ''finish_reason''),
        reject_if (fv_collection_flags v AND COLLECTION_FLAG_STALE_PRE_SCAN_FIELDS \<noteq> 0
                   \<and> fv_intermediate_field_count v = 0)
          (InvalidField ''stale_pre_scan_fields''),
        and_then (profile_fragment_count (fv_expected_step_count v)) (\<lambda>required_fragment_count.
          reject_if (h_fragment_count h \<noteq> required_fragment_count)
            (InvalidFragmentCount (h_fragment_count h))),
        reject_if (unat (fv_step_window_start v) \<noteq> required_window_start)
          (InvalidField ''step_window_start''),
        and_then (step_mask (fv_expected_step_count v)) (\<lambda>valid_mask.
          reject_if (fv_missing_steps_bitmap v AND NOT valid_mask \<noteq> 0
                     \<or> fv_duplicate_steps_bitmap v AND NOT valid_mask \<noteq> 0)
            (InvalidField ''step_bitmap'')),
        and_then (observed_steps (fv_expected_step_count v) (fv_missing_steps_bitmap v))
          (\<lambda>required_observed.
             reject_if (fv_observed_unique_step_count v \<noteq> required_observed
                        \<or> fv_observed_field_count v < ucast required_observed)
               (InvalidField ''observed_counts'')),
        reject_if (fv_steps_in_fragment v \<noteq>
            word_of_nat (length (present_in_window (fv_missing_steps_bitmap v)
                           required_window_start window_end)))
          (InvalidField ''steps_in_fragment''),
        reject_if (payload_len \<noteq> expected_payload_len)
          (WrongLength expected_payload_len payload_len)])"

definition decode_profile_fragment :: "header \<Rightarrow> bytes \<Rightarrow> (profile_fragment_view, v2_error) result"
  where
  "decode_profile_fragment h payload =
    (if length payload < PROFILE_FRAGMENT_META_LEN
     then fail (WrongLength PROFILE_FRAGMENT_META_LEN (length payload)) else
     and_then (read_fragment_meta h (reader_new payload)) (\<lambda>(v, r).
     and_then (check_fragment_meta v (length payload)) (\<lambda>_.
     and_then (slice payload PROFILE_FRAGMENT_META_LEN (length payload)) (\<lambda>step_bytes.
     let required_window_start = unat (h_fragment_index h) * STEPS_PER_FRAGMENT;
         window_end = min (required_window_start + STEPS_PER_FRAGMENT) (unat (fv_expected_step_count v)) in
     and_then
       (for_each (present_in_window (fv_missing_steps_bitmap v) required_window_start window_end) 0
          (check_fragment_step step_bytes)) (\<lambda>_.
     Ok (v\<lparr>fv_step_bytes := step_bytes\<rparr>))))))"

section \<open>Layouts\<close>

definition step_layout :: "profile_step \<Rightarrow> bytes" where
  "step_layout step =
     [ps_step_index step]
     @ [ps_gas_index step]
     @ [ps_measurement_index step]
     @ [ps_status step]
     @ [ps_raw_measurement_status step]
     @ [ps_raw_gas_status step]
     @ to_be_bytes (ps_target_temperature_celsius step)
     @ to_be_bytes (ps_configured_duration_us step)
     @ to_be_bytes (ps_offset_us step)
     @ to_be_bytes (ps_temperature_centi_celsius step)
     @ to_be_bytes (ps_pressure_pascal step)
     @ to_be_bytes (ps_humidity_milli_percent_rh step)
     @ to_be_bytes (ps_gas_resistance_ohm step)
     @ to_be_bytes (ps_temperature_adc step)
     @ to_be_bytes (ps_pressure_adc step)
     @ to_be_bytes (ps_humidity_adc step)
     @ to_be_bytes (ps_gas_resistance_adc step)
     @ [ps_gas_range step]
     @ [ps_repetition_multiplier step]
     @ [ps_heater_resistance step]
     @ [ps_heater_current step]
     @ [ps_gas_wait step]"

definition fragment_meta_layout :: "profile_fragment_view \<Rightarrow> bytes" where
  "fragment_meta_layout v =
     [PROFILE_SCHEMA_VERSION]
     @ [fv_steps_in_fragment v]
     @ to_be_bytes (fv_profile_id v)
     @ to_be_bytes (fv_profile_version v)
     @ [fv_expected_step_count v]
     @ [fv_observed_unique_step_count v]
     @ to_be_bytes (fv_observed_field_count v)
     @ to_be_bytes (fv_missing_steps_bitmap v)
     @ to_be_bytes (fv_duplicate_steps_bitmap v)
     @ to_be_bytes (fv_scan_duration_us v)
     @ to_be_bytes (fv_collection_flags v)
     @ [fv_finish_reason v]
     @ to_be_bytes (fv_duplicate_count v)
     @ to_be_bytes (fv_overwritten_field_count v)
     @ to_be_bytes (fv_out_of_order_count v)
     @ to_be_bytes (fv_ambiguous_index_jump_count v)
     @ to_be_bytes (fv_invalid_gas_index_count v)
     @ to_be_bytes (fv_intermediate_field_count v)
     @ to_be_bytes (fv_profile_rollover_count v)
     @ to_be_bytes (fv_fields_after_rollover_count v)
     @ to_be_bytes (fv_poll_count v)
     @ [fv_step_window_start v]"

definition fragment_layout :: "profile_fragment_view \<Rightarrow> bytes" where
  "fragment_layout v = fragment_meta_layout v @ fv_step_bytes v"

definition fragment_window_start :: "profile_fragment_view \<Rightarrow> nat" where
  "fragment_window_start v = unat (h_fragment_index (fv_header v)) * STEPS_PER_FRAGMENT"

definition fragment_present :: "profile_fragment_view \<Rightarrow> nat list" where
  "fragment_present v =
     present_in_window (fv_missing_steps_bitmap v) (fragment_window_start v)
       (min (fragment_window_start v + STEPS_PER_FRAGMENT) (unat (fv_expected_step_count v)))"

text \<open>What the decoder guarantees of the metadata, and of the steps behind it.\<close>

definition fragment_meta_valid :: "profile_fragment_view \<Rightarrow> bool" where
  "fragment_meta_valid v \<longleftrightarrow>
     1 \<le> unat (fv_expected_step_count v) \<and> unat (fv_expected_step_count v) \<le> 10
     \<and> fv_collection_flags v AND NOT COLLECTION_FLAGS_KNOWN = 0
     \<and> fv_profile_id v \<noteq> 0 \<and> fv_profile_version v \<noteq> 0
     \<and> validate_profile_config_identity (h_common (fv_header v)) (fv_collection_flags v)
         (fv_finish_reason v) = Ok ()
     \<and> fv_finish_reason v \<le> FINISH_REASON_PROFILE_ROLLOVER
     \<and> \<not> (fv_collection_flags v AND COLLECTION_FLAG_STALE_PRE_SCAN_FIELDS \<noteq> 0
          \<and> fv_intermediate_field_count v = 0)
     \<and> h_fragment_count (fv_header v) = div_ceil_u8 (fv_expected_step_count v) STEPS_PER_FRAGMENT_U8
     \<and> unat (fv_step_window_start v) = fragment_window_start v
     \<and> fv_missing_steps_bitmap v AND NOT (mask (unat (fv_expected_step_count v))) = 0
     \<and> fv_duplicate_steps_bitmap v AND NOT (mask (unat (fv_expected_step_count v))) = 0
     \<and> fv_observed_unique_step_count v =
         fv_expected_step_count v - word_of_nat (count_ones (fv_missing_steps_bitmap v))
     \<and> ucast (fv_observed_unique_step_count v) \<le> fv_observed_field_count v
     \<and> fv_steps_in_fragment v = word_of_nat (length (fragment_present v))"

definition steps_encode :: "profile_step list \<Rightarrow> nat list \<Rightarrow> bytes \<Rightarrow> bool" where
  "steps_encode steps idxs bs \<longleftrightarrow>
     bs = concat (map step_layout steps)
     \<and> map (unat \<circ> ps_step_index) steps = idxs
     \<and> (\<forall>s \<in> set steps. validate_profile_step s = Ok ())"

definition fragment_valid :: "profile_fragment_view \<Rightarrow> profile_step list \<Rightarrow> bool" where
  "fragment_valid v steps \<longleftrightarrow>
     fragment_meta_valid v \<and> steps_encode steps (fragment_present v) (fv_step_bytes v)"

lemma profile_step_eta [simp]:
  "\<lparr>ps_step_index = ps_step_index step,
    ps_gas_index = ps_gas_index step,
    ps_measurement_index = ps_measurement_index step,
    ps_status = ps_status step,
    ps_raw_measurement_status = ps_raw_measurement_status step,
    ps_raw_gas_status = ps_raw_gas_status step,
    ps_target_temperature_celsius = ps_target_temperature_celsius step,
    ps_configured_duration_us = ps_configured_duration_us step,
    ps_offset_us = ps_offset_us step,
    ps_temperature_centi_celsius = ps_temperature_centi_celsius step,
    ps_pressure_pascal = ps_pressure_pascal step,
    ps_humidity_milli_percent_rh = ps_humidity_milli_percent_rh step,
    ps_gas_resistance_ohm = ps_gas_resistance_ohm step,
    ps_temperature_adc = ps_temperature_adc step,
    ps_pressure_adc = ps_pressure_adc step,
    ps_humidity_adc = ps_humidity_adc step,
    ps_gas_resistance_adc = ps_gas_resistance_adc step,
    ps_gas_range = ps_gas_range step,
    ps_repetition_multiplier = ps_repetition_multiplier step,
    ps_heater_resistance = ps_heater_resistance step,
    ps_heater_current = ps_heater_current step,
    ps_gas_wait = ps_gas_wait step\<rparr> = step"
  by (cases step) simp

section \<open>The fragments of a scan\<close>

definition scan_fragment_steps :: "profile_scan \<Rightarrow> nat \<Rightarrow> profile_step list" where
  "scan_fragment_steps scan i =
     map (\<lambda>j. the (sc_steps scan ! j))
       (present_in_window (sc_missing_steps_bitmap scan) (i * STEPS_PER_FRAGMENT)
          (min (i * STEPS_PER_FRAGMENT + STEPS_PER_FRAGMENT) (unat (sc_expected_step_count scan))))"

definition scan_fragment_header :: "common \<Rightarrow> profile_scan \<Rightarrow> nat \<Rightarrow> header" where
  "scan_fragment_header common scan i =
     \<lparr>h_frame_type = ProfileFragment, h_common = common, h_fragment_index = word_of_nat i,
      h_fragment_count = div_ceil_u8 (sc_expected_step_count scan) STEPS_PER_FRAGMENT_U8,
      h_payload_len = word_of_nat (PROFILE_FRAGMENT_META_LEN
        + length (scan_fragment_steps scan i) * PROFILE_STEP_LEN)\<rparr>"

definition scan_fragment_view :: "common \<Rightarrow> profile_scan \<Rightarrow> nat \<Rightarrow> profile_fragment_view" where
  "scan_fragment_view common scan i =
     \<lparr>fv_header = scan_fragment_header common scan i,
      fv_profile_id = sc_profile_id scan,
      fv_profile_version = sc_profile_version scan,
      fv_expected_step_count = sc_expected_step_count scan,
      fv_observed_unique_step_count = sc_observed_unique_step_count scan,
      fv_observed_field_count = sc_observed_field_count scan,
      fv_missing_steps_bitmap = sc_missing_steps_bitmap scan,
      fv_duplicate_steps_bitmap = sc_duplicate_steps_bitmap scan,
      fv_scan_duration_us = sc_scan_duration_us scan,
      fv_collection_flags = sc_collection_flags scan,
      fv_finish_reason = sc_finish_reason scan,
      fv_duplicate_count = sc_duplicate_count scan,
      fv_overwritten_field_count = sc_overwritten_field_count scan,
      fv_out_of_order_count = sc_out_of_order_count scan,
      fv_ambiguous_index_jump_count = sc_ambiguous_index_jump_count scan,
      fv_invalid_gas_index_count = sc_invalid_gas_index_count scan,
      fv_intermediate_field_count = sc_intermediate_field_count scan,
      fv_profile_rollover_count = sc_profile_rollover_count scan,
      fv_fields_after_rollover_count = sc_fields_after_rollover_count scan,
      fv_poll_count = sc_poll_count scan,
      fv_step_window_start = word_of_nat (i * STEPS_PER_FRAGMENT),
      fv_steps_in_fragment = word_of_nat (length (scan_fragment_steps scan i)),
      fv_step_bytes = concat (map step_layout (scan_fragment_steps scan i))\<rparr>"

lemma length_step_layout [simp]: "length (step_layout s) = PROFILE_STEP_LEN"
  by (simp add: step_layout_def PROFILE_STEP_LEN_def)

lemma length_concat_steps [simp]:
  "length (concat (map step_layout xs)) = length xs * PROFILE_STEP_LEN"
  by (induction xs) auto

lemma length_fragment_meta_layout [simp]:
  "length (fragment_meta_layout v) = PROFILE_FRAGMENT_META_LEN"
  by (simp add: fragment_meta_layout_def PROFILE_FRAGMENT_META_LEN_def)

lemma emits_write_step: "emits (write_step s) (step_layout s)"
  unfolding write_step_def step_layout_def by (rule emits_intros)+

section \<open>Decoding steps\<close>

lemma decode_step_iff:
  "decode_step bs = Ok s \<longleftrightarrow> bs = step_layout s \<and> validate_profile_step s = Ok ()"
proof
  assume "decode_step bs = Ok s"
  then show "bs = step_layout s \<and> validate_profile_step s = Ok ()"
    unfolding decode_step_def step_layout_def Let_def
    by (auto simp: reader_new_on wire_dest reader_finish_on simp del: checks_eq_Ok split: if_splits)
next
  assume *: "bs = step_layout s \<and> validate_profile_step s = Ok ()"
  have fin: "reader_finish (reader_on pre []) = Ok ()" for pre
    by (simp add: reader_finish_on)
  from * show "decode_step bs = Ok s"
    unfolding decode_step_def Let_def
    by (simp add: reader_new_on step_layout_def wire_simps fin PROFILE_STEP_LEN_def)
qed

lemma decode_step_no_panic [simp]: "\<not> panics (decode_step bs)"
  unfolding decode_step_def by (auto simp: panics_and_then Let_def split: prod.splits)

lemma steps_encode_Nil [simp]: "steps_encode steps [] bs \<longleftrightarrow> steps = [] \<and> bs = []"
  by (auto simp: steps_encode_def)

lemma steps_encode_Cons:
  "steps_encode steps (i # idxs) bs \<longleftrightarrow>
     (\<exists>s rest bs'. steps = s # rest \<and> bs = step_layout s @ bs' \<and> unat (ps_step_index s) = i
        \<and> validate_profile_step s = Ok () \<and> steps_encode rest idxs bs')"
  by (cases steps) (auto simp: steps_encode_def)

lemma steps_encode_length:
  "steps_encode steps idxs bs \<Longrightarrow> length steps = length idxs \<and> length bs = length idxs * PROFILE_STEP_LEN"
  by (auto simp: steps_encode_def)

lemma check_fragment_step_on:
  assumes "length pre = k * PROFILE_STEP_LEN" and "length bs = PROFILE_STEP_LEN"
  shows "check_fragment_step (pre @ bs @ rest) i k =
     and_then (decode_step bs) (\<lambda>step.
       if unat (ps_step_index step) \<noteq> i then fail (InvalidField ''step_index'') else Ok (k + 1))"
  using assms by (simp add: check_fragment_step_def slice_def Let_def)

lemma split_step_bytes:
  assumes "length bs = Suc n * PROFILE_STEP_LEN"
  obtains b rest where "bs = b @ rest" "length b = PROFILE_STEP_LEN" "length rest = n * PROFILE_STEP_LEN"
proof
  show "bs = take PROFILE_STEP_LEN bs @ drop PROFILE_STEP_LEN bs" by simp
qed (use assms in auto)

lemma check_fragment_steps_iff:
  assumes "length pre = k * PROFILE_STEP_LEN" and "length bs = length idxs * PROFILE_STEP_LEN"
  shows "for_each idxs k (check_fragment_step (pre @ bs)) = Ok n \<longleftrightarrow>
     n = k + length idxs \<and> (\<exists>steps. steps_encode steps idxs bs)"
  using assms
proof (induction idxs arbitrary: pre bs k)
  case Nil
  then show ?case by auto
next
  case (Cons i idxs)
  obtain b rest where bs: "bs = b @ rest" and b: "length b = PROFILE_STEP_LEN"
    and rest: "length rest = length idxs * PROFILE_STEP_LEN"
    using split_step_bytes [of bs "length idxs"] Cons.prems(2) by auto
  have len: "length (pre @ b) = Suc k * PROFILE_STEP_LEN"
    using Cons.prems(1) b by simp
  show ?case
    using Cons.IH [OF len rest] b
    unfolding bs steps_encode_Cons
    by (auto simp: check_fragment_step_on [OF Cons.prems(1) b] decode_step_iff)
qed

lemma check_fragment_steps_no_panic:
  assumes "length pre = k * PROFILE_STEP_LEN" and "length bs = length idxs * PROFILE_STEP_LEN"
  shows "\<not> panics (for_each idxs k (check_fragment_step (pre @ bs)))"
  using assms
proof (induction idxs arbitrary: pre bs k)
  case Nil
  then show ?case by auto
next
  case (Cons i idxs)
  obtain b rest where bs: "bs = b @ rest" and b: "length b = PROFILE_STEP_LEN"
    and rest: "length rest = length idxs * PROFILE_STEP_LEN"
    using split_step_bytes [of bs "length idxs"] Cons.prems(2) by auto
  have len: "length (pre @ b) = Suc k * PROFILE_STEP_LEN"
    using Cons.prems(1) b by simp
  show ?case
    using Cons.IH [OF len rest] unfolding bs
    by (auto simp: check_fragment_step_on [OF Cons.prems(1) b] panics_and_then)
qed

text \<open>Reading a step through the view of a valid fragment.\<close>

lemma length_fragment_present: "length (fragment_present v) \<le> 3"
  unfolding fragment_present_def present_in_window_def
  by (rule order_trans [OF length_filter_le]) (simp add: STEPS_PER_FRAGMENT_def)

lemma unat_steps_in_fragment:
  "fragment_meta_valid v \<Longrightarrow> unat (fv_steps_in_fragment v) = length (fragment_present v)"
  using length_fragment_present [of v] by (auto simp: fragment_meta_valid_def unat_of_nat)

lemma nth_concat_steps:
  "i < length steps \<Longrightarrow>
     take PROFILE_STEP_LEN (drop (i * PROFILE_STEP_LEN) (concat (map step_layout steps)))
       = step_layout (steps ! i)"
proof (induction steps arbitrary: i)
  case Nil
  then show ?case by simp
next
  case (Cons s steps)
  then show ?case by (cases i) auto
qed

lemma concat_step_slice:
  assumes "i < length steps"
  shows "slice (concat (map step_layout steps)) (i * PROFILE_STEP_LEN)
           (i * PROFILE_STEP_LEN + PROFILE_STEP_LEN) = Ok (step_layout (steps ! i))"
proof -
  have "Suc i * PROFILE_STEP_LEN \<le> length steps * PROFILE_STEP_LEN"
    using assms by (intro mult_le_mono1) simp
  then show ?thesis using assms by (simp add: slice_def nth_concat_steps add.commute)
qed

lemma fragment_step_valid:
  assumes "fragment_valid v steps" and "i < length steps"
  shows "fragment_step v i = Ok (steps ! i)"
proof -
  have "unat (fv_steps_in_fragment v) = length steps"
    using assms(1) steps_encode_length [of steps] by (auto simp: fragment_valid_def unat_steps_in_fragment)
  moreover have "decode_step (step_layout (steps ! i)) = Ok (steps ! i)"
    using assms by (simp add: decode_step_iff fragment_valid_def steps_encode_def)
  moreover have "fv_step_bytes v = concat (map step_layout steps)"
    using assms(1) by (simp add: fragment_valid_def steps_encode_def)
  ultimately show ?thesis
    using assms(2) by (simp add: fragment_step_def Let_def concat_step_slice)
qed

section \<open>Decoding a fragment\<close>

lemma u8_1_10_D: "1 \<le> (n :: u8) \<Longrightarrow> n \<le> 10 \<Longrightarrow> 1 \<le> unat n \<and> unat n \<le> 10"
  by (simp add: word_le_nat_alt)

lemma read_fragment_meta_iff:
  "read_fragment_meta h (reader_on pre bs) = Ok (v, r) \<longleftrightarrow>
     fv_header v = h \<and> fv_step_bytes v = [] \<and>
     (\<exists>rest. bs = fragment_meta_layout v @ rest \<and> r = reader_on (pre @ fragment_meta_layout v) rest)"
  unfolding read_fragment_meta_def fragment_meta_layout_def
  by (cases v) (auto simp: wire_dest)

lemma read_fragment_meta_no_panic [simp]: "\<not> panics (read_fragment_meta h r)"
  unfolding read_fragment_meta_def by (auto simp: panics_and_then split: prod.splits)

lemma check_fragment_meta_iff:
  "check_fragment_meta v n = Ok () \<longleftrightarrow>
     fragment_meta_valid v
     \<and> n = PROFILE_FRAGMENT_META_LEN + length (fragment_present v) * PROFILE_STEP_LEN"
proof (cases "1 \<le> unat (fv_expected_step_count v) \<and> unat (fv_expected_step_count v) \<le> 10
     \<and> fv_missing_steps_bitmap v AND NOT (mask (unat (fv_expected_step_count v))) = 0")
  case True
  then have "1 \<le> fv_expected_step_count v" "fv_expected_step_count v \<le> 10"
    by (simp_all add: word_le_nat_alt)
  then show ?thesis
    using True length_fragment_present [of v] observed_steps_eq(1) [of "fv_expected_step_count v"]
    unfolding check_fragment_meta_def fragment_meta_valid_def fragment_present_def
      fragment_window_start_def Let_def
    by (auto simp: step_mask_Ok profile_fragment_count_def MAX_PROFILE_STEPS_U8_def not_less unat_of_nat)
next
  case False
  then show ?thesis
    unfolding check_fragment_meta_def fragment_meta_valid_def Let_def
    by (auto simp: step_mask_Ok MAX_PROFILE_STEPS_U8_def dest: u8_1_10_D)
qed

text \<open>The decoder in one equation: the layouts of valid fragments.\<close>

lemma decode_profile_fragment_iff:
  "decode_profile_fragment h payload = Ok v \<longleftrightarrow>
     fv_header v = h \<and> payload = fragment_layout v \<and> (\<exists>steps. fragment_valid v steps)"
  (is "?lhs \<longleftrightarrow> ?rhs")
proof
  assume ?lhs
  then obtain v0 r step_bytes n where
    meta: "read_fragment_meta h (reader_on [] payload) = Ok (v0, r)"
    and chk: "check_fragment_meta v0 (length payload) = Ok ()"
    and sb: "step_bytes = drop PROFILE_FRAGMENT_META_LEN payload"
    and loop: "for_each (fragment_present v0) 0 (check_fragment_step step_bytes) = Ok n"
    and v: "v = v0\<lparr>fv_step_bytes := step_bytes\<rparr>"
    unfolding decode_profile_fragment_def Let_def
    by (auto simp: reader_new_on slice_Ok_iff read_fragment_meta_iff fragment_present_def
        fragment_window_start_def split: if_splits)
  from meta have h: "fv_header v0 = h" and pl: "payload = fragment_meta_layout v0 @ step_bytes"
    by (auto simp: read_fragment_meta_iff sb)
  from chk have valid: "fragment_meta_valid v0"
    and len: "length step_bytes = length (fragment_present v0) * PROFILE_STEP_LEN"
    using pl by (auto simp: check_fragment_meta_iff)
  from loop obtain steps where "steps_encode steps (fragment_present v0) step_bytes"
    using check_fragment_steps_iff [of "[]" 0 step_bytes "fragment_present v0" n] len by auto
  then show ?rhs
    using valid h pl unfolding v
    by (auto simp: fragment_valid_def fragment_meta_valid_def fragment_present_def
        fragment_window_start_def fragment_layout_def fragment_meta_layout_def)
next
  assume ?rhs
  then obtain steps where h: "fv_header v = h" and pl: "payload = fragment_layout v"
    and steps: "fragment_valid v steps" by blast
  let ?v0 = "v\<lparr>fv_step_bytes := []\<rparr>"
  have same: "fragment_meta_layout ?v0 = fragment_meta_layout v"
    "fragment_present ?v0 = fragment_present v" "fragment_meta_valid ?v0 = fragment_meta_valid v"
    by (auto simp: fragment_meta_layout_def fragment_present_def fragment_window_start_def
        fragment_meta_valid_def)
  have meta: "read_fragment_meta h (reader_on [] payload) =
      Ok (?v0, reader_on (fragment_meta_layout v) (fv_step_bytes v))"
    using h pl by (simp add: read_fragment_meta_iff same fragment_layout_def)
  have len: "length (fv_step_bytes v) = length (fragment_present v) * PROFILE_STEP_LEN"
    using steps by (auto simp: fragment_valid_def dest: steps_encode_length)
  then have chk: "check_fragment_meta ?v0 (length payload) = Ok ()"
    using steps pl by (simp add: check_fragment_meta_iff same fragment_valid_def fragment_layout_def)
  have loop: "for_each (fragment_present v) 0 (check_fragment_step (fv_step_bytes v))
      = Ok (length (fragment_present v))"
    using check_fragment_steps_iff [of "[]" 0 "fv_step_bytes v" "fragment_present v"] len steps
    by (auto simp: fragment_valid_def)
  have "slice payload PROFILE_FRAGMENT_META_LEN (length payload) =
      (Ok (fv_step_bytes v) :: (_, v2_error) result)"
    using pl by (simp add: slice_def fragment_layout_def)
  then show ?lhs
    using meta chk loop pl h unfolding decode_profile_fragment_def
    by (simp add: reader_new_on fragment_present_def fragment_window_start_def fragment_layout_def
        Let_def)
qed

lemma check_fragment_meta_no_panic [simp]: "\<not> panics (check_fragment_meta v n)"
proof -
  have "\<not> panics (observed_steps e m)"
    if "e \<le> 10" "m AND NOT (mask (unat e)) = 0" for e :: u8 and m
    using that observed_steps_eq(1) [of e m] by (auto dest!: u8_le_10)
  then show ?thesis
    unfolding check_fragment_meta_def Let_def
    by (auto simp: panics_checks panics_and_then MAX_PROFILE_STEPS_U8_def step_mask_Ok
        dest: u8_le_10 simp del: checks.simps)
qed

lemma decode_profile_fragment_no_panic [simp]: "\<not> panics (decode_profile_fragment h payload)"
proof -
  have "\<not> panics (for_each (fragment_present v) 0
      (check_fragment_step (drop PROFILE_FRAGMENT_META_LEN payload)))"
    if "check_fragment_meta v (length payload) = Ok ()" for v
    using check_fragment_steps_no_panic [of "[]" 0] that by (simp add: check_fragment_meta_iff)
  then show ?thesis
    unfolding decode_profile_fragment_def Let_def
    by (auto simp: panics_and_then slice_def reader_new_on read_fragment_meta_iff
        fragment_present_def fragment_window_start_def split: prod.splits)
qed

section \<open>Encoding a scan\<close>

lemma validate_profile_bounds:
  assumes "validate_profile scan = Ok u"
  shows "1 \<le> unat (sc_expected_step_count scan)" "unat (sc_expected_step_count scan) \<le> 10"
    "sc_missing_steps_bitmap scan AND NOT (mask (unat (sc_expected_step_count scan))) = 0"
    "sc_duplicate_steps_bitmap scan AND NOT (mask (unat (sc_expected_step_count scan))) = 0"
    "\<And>i. i < 10 \<Longrightarrow> validate_profile_slot scan i = Ok ()"
  using assms
  by (auto simp: validate_profile_def MAX_PROFILE_STEPS_U8_def MAX_PROFILE_STEPS_def step_mask_Ok
      dest: u8_1_10_D)

lemma validate_profile_slot_present:
  assumes "validate_profile_slot scan i = Ok ()"
  shows "sc_steps scan ! i \<noteq> None \<longleftrightarrow>
      i < unat (sc_expected_step_count scan) \<and> sc_missing_steps_bitmap scan AND push_bit i 1 = 0"
    and "sc_steps scan ! i = Some s \<Longrightarrow> unat (ps_step_index s) = i \<and> validate_profile_step s = Ok ()"
  using assms
  by (auto simp: validate_profile_slot_def index_Ok_iff Let_def split: option.splits bool.splits if_splits)

lemma filter_some_window:
  assumes "hi \<le> length xs"
  shows "map the (filter (\<lambda>x. x \<noteq> None) (take (hi - lo) (drop lo xs))) =
     map (\<lambda>j. the (xs ! j)) (filter (\<lambda>j. xs ! j \<noteq> None) [lo..<hi])"
proof -
  have "take (hi - lo) (drop lo xs) = map (\<lambda>j. xs ! j) [lo..<hi]"
    by (rule nth_equalityI) (use assms in auto)
  then show ?thesis by (simp add: filter_map o_def)
qed

lemma window_steps:
  assumes "wf_scan scan" and "validate_profile scan = Ok ()" and "hi \<le> unat (sc_expected_step_count scan)"
  shows "map the (filter (\<lambda>x. x \<noteq> None) (take (hi - lo) (drop lo (sc_steps scan)))) =
     map (\<lambda>j. the (sc_steps scan ! j)) (present_in_window (sc_missing_steps_bitmap scan) lo hi)"
proof -
  note b = validate_profile_bounds [OF assms(2)]
  have "filter (\<lambda>j. sc_steps scan ! j \<noteq> None) [lo..<hi] =
      present_in_window (sc_missing_steps_bitmap scan) lo hi"
    unfolding present_in_window_def
    using validate_profile_slot_present(1) [OF b(5)] assms(3) b(2) by (intro filter_cong) auto
  moreover have "hi \<le> length (sc_steps scan)"
    using assms b(2) by (simp add: wf_scan_def MAX_PROFILE_STEPS_def)
  ultimately show ?thesis by (simp only: filter_some_window)
qed

lemma length_scan_fragment_steps: "length (scan_fragment_steps scan i) \<le> 3"
  unfolding scan_fragment_steps_def present_in_window_def length_map
  by (rule order_trans [OF length_filter_le]) (simp add: STEPS_PER_FRAGMENT_def)

lemma emits_write_fragment_payload:
  assumes "i < 4"
  shows "emits (write_fragment_payload scan (i * STEPS_PER_FRAGMENT) (scan_fragment_steps scan i))
           (fragment_layout (scan_fragment_view common scan i))"
proof -
  have small: "length (scan_fragment_steps scan i) < 256" "i * STEPS_PER_FRAGMENT < 256"
    using length_scan_fragment_steps [of scan i] assms by (auto simp: STEPS_PER_FRAGMENT_def)
  show ?thesis
    unfolding write_fragment_payload_def Let_def fragment_layout_def fragment_meta_layout_def
      scan_fragment_view_def profile_fragment_view.simps append_assoc
    apply (simp only: small if_True and_then.simps)
    apply (rule emits_and_then, rule emits_intros)
    apply (rule emits_and_then, rule emits_intros)
    apply (rule emits_then_Cons, rule field_emits)+
    apply (rule emits_then_Nil)
    apply (rule emits_and_then, rule emits_intros)
    apply (rule emits_for_each [OF emits_write_step])
    done
qed

text \<open>The number of fragments, and the window of each of them.\<close>

definition scan_fragment_count :: "profile_scan \<Rightarrow> nat" where
  "scan_fragment_count scan = (unat (sc_expected_step_count scan) + 2) div 3"

lemma scan_fragment_count_bounds:
  assumes "validate_profile scan = Ok u"
  shows "1 \<le> scan_fragment_count scan" "scan_fragment_count scan \<le> 4"
    "unat (div_ceil_u8 (sc_expected_step_count scan) STEPS_PER_FRAGMENT_U8) = scan_fragment_count scan"
  using div_ceil_u8_3 [OF validate_profile_bounds(1,2) [OF assms]]
  by (auto simp: scan_fragment_count_def STEPS_PER_FRAGMENT_U8_def)

lemma window_start_before_end:
  "i < scan_fragment_count scan \<Longrightarrow> i * STEPS_PER_FRAGMENT < unat (sc_expected_step_count scan)"
  by (simp add: scan_fragment_count_def STEPS_PER_FRAGMENT_def)

lemma fragment_payload_fits:
  "HEADER_LEN + length (fragment_layout (scan_fragment_view common scan i)) \<le> 231"
  using length_scan_fragment_steps [of scan i]
  by (simp add: fragment_layout_def scan_fragment_view_def v2_lens)

lemma encode_fragment_eq:
  assumes "wf_scan scan" and "validate_profile scan = Ok ()" and "i < scan_fragment_count scan"
  shows "encode_fragment common scan n (word_of_nat i) =
     and_then (encode_header (replicate HEADER_LEN 0) ProfileFragment common (word_of_nat i) n
                 (PROFILE_FRAGMENT_META_LEN + length (scan_fragment_steps scan i) * PROFILE_STEP_LEN))
       (\<lambda>hb. Ok (frame_of hb (fragment_layout (scan_fragment_view common scan i))))"
proof -
  let ?payload = "fragment_layout (scan_fragment_view common scan i)"
  let ?lo = "i * STEPS_PER_FRAGMENT"
  let ?hi = "min (i * STEPS_PER_FRAGMENT + STEPS_PER_FRAGMENT) (unat (sc_expected_step_count scan))"
  note cb = scan_fragment_count_bounds [OF assms(2)]
  have i: "unat (word_of_nat i :: u8) = i" and i4: "i < 4"
    using assms(3) cb(2) by (auto simp: unat_of_nat)
  have bounds: "?lo \<le> ?hi" "?hi \<le> length (sc_steps scan)"
    using window_start_before_end [OF assms(3)] validate_profile_bounds(2) [OF assms(2)] assms(1)
    by (auto simp: wf_scan_def MAX_PROFILE_STEPS_def)
  have window: "slice (sc_steps scan) ?lo ?hi =
      (Ok (take (?hi - ?lo) (drop ?lo (sc_steps scan))) :: (_, v2_error) result)"
    using bounds unfolding slice_def by simp
  have steps: "map the (filter (\<lambda>x. x \<noteq> None) (take (?hi - ?lo) (drop ?lo (sc_steps scan)))) =
      scan_fragment_steps scan i"
    unfolding scan_fragment_steps_def by (rule window_steps [OF assms(1,2)]) simp
  have len: "length ?payload =
      PROFILE_FRAGMENT_META_LEN + length (scan_fragment_steps scan i) * PROFILE_STEP_LEN"
    by (simp add: fragment_layout_def scan_fragment_view_def)
  have fit: "HEADER_LEN + length ?payload \<le> MAX_PHY_FRAME_LEN" "HEADER_LEN + length ?payload < 256"
    using fragment_payload_fits [of common scan i] by (auto simp: MAX_PHY_FRAME_LEN_def)
  have w: "and_then (write_fragment_payload scan ?lo (scan_fragment_steps scan i)
      (writer_new (replicate (length ?payload) 0))) writer_finish = Ok ?payload"
    by (intro emits_fills emits_write_fragment_payload i4) simp
  show ?thesis
    unfolding encode_fragment_def Let_def i window and_then.simps steps empty_header_room
      encoded_frame.simps
    using w fit(2)
    by (cases "write_fragment_payload scan ?lo (scan_fragment_steps scan i)
          (writer_new (replicate (length ?payload) 0))")
       (auto intro!: and_then_cong simp: splice_header_payload [OF _ fit(1), unfolded len] encode_header_iff
         frame_of_def len Let_def)
qed

lemma encode_fragment_iff:
  assumes "wf_scan scan" and "validate_profile scan = Ok ()" and "i < scan_fragment_count scan"
  shows "encode_fragment common scan
           (div_ceil_u8 (sc_expected_step_count scan) STEPS_PER_FRAGMENT_U8) (word_of_nat i) = Ok f \<longleftrightarrow>
     common_valid common
     \<and> f = frame_of (header_layout (scan_fragment_header common scan i))
             (fragment_layout (scan_fragment_view common scan i))"
proof -
  note cb = scan_fragment_count_bounds [OF assms(2)]
  have "unat (word_of_nat i :: u8) = i"
    using assms(3) cb(2) by (auto simp: unat_of_nat)
  then have lt: "(word_of_nat i :: u8) < div_ceil_u8 (sc_expected_step_count scan) STEPS_PER_FRAGMENT_U8"
    using assms(3) cb(3) by (simp add: word_less_nat_alt)
  have "HEADER_LEN + (PROFILE_FRAGMENT_META_LEN + length (scan_fragment_steps scan i) * PROFILE_STEP_LEN)
      \<le> MAX_PHY_FRAME_LEN"
    using length_scan_fragment_steps [of scan i] by (simp add: v2_lens)
  then show ?thesis
    using lt
    by (auto simp: encode_fragment_eq [OF assms] encode_header_iff header_valid_def
        scan_fragment_header_def Let_def)
qed

text \<open>Filling the array slot by slot.\<close>

lemma for_each_fill:
  assumes "\<And>i. i < n \<Longrightarrow> body i = Ok (f i)" and "n \<le> length (ep_frames out)"
  shows "for_each [0..<n] out (\<lambda>i output.
           and_then (index (ep_frames output) i) (\<lambda>_.
           and_then (body i) (\<lambda>frame. Ok (output\<lparr>ep_frames := (ep_frames output)[i := frame]\<rparr>)))) =
         Ok (out\<lparr>ep_frames := map f [0..<n] @ drop n (ep_frames out)\<rparr>)"
  using assms
proof (induction n)
  case 0
  then show ?case by simp
next
  case (Suc n)
  then have "(map f [0..<n] @ drop n (ep_frames out))[n := f n]
      = map f [0..<Suc n] @ drop (Suc n) (ep_frames out)"
    by (simp add: list_update_append Cons_nth_drop_Suc [symmetric])
  with Suc show ?case by (simp add: for_each_append index_def)
qed

definition scan_frames :: "common \<Rightarrow> profile_scan \<Rightarrow> encoded_frame list" where
  "scan_frames common scan =
     map (\<lambda>i. frame_of (header_layout (scan_fragment_header common scan i))
                (fragment_layout (scan_fragment_view common scan i)))
       [0..<scan_fragment_count scan]"

lemma encode_profile_iff:
  assumes "wf_scan scan"
  shows "encode_profile common scan = Ok p \<longleftrightarrow>
     validate_profile scan = Ok ()
     \<and> validate_profile_config_identity common (sc_collection_flags scan) (sc_finish_reason scan) = Ok ()
     \<and> common_valid common
     \<and> p = \<lparr>ep_frames = scan_frames common scan
              @ replicate (MAX_PROFILE_FRAGMENTS - scan_fragment_count scan) encoded_frame_EMPTY,
            ep_count = div_ceil_u8 (sc_expected_step_count scan) STEPS_PER_FRAGMENT_U8\<rparr>"
proof (cases "validate_profile scan = Ok ()")
  case valid: True
  note cb = scan_fragment_count_bounds [OF valid]
  note vb = validate_profile_bounds [OF valid]
  let ?n = "div_ceil_u8 (sc_expected_step_count scan) STEPS_PER_FRAGMENT_U8"
  have count: "profile_fragment_count (sc_expected_step_count scan) = Ok ?n"
    using vb(1,2) by (simp add: profile_fragment_count_def MAX_PROFILE_STEPS_U8_def word_le_nat_alt)
  show ?thesis
  proof (cases "common_valid common")
    case True
    then have frames: "encode_fragment common scan ?n (word_of_nat i) =
        Ok (frame_of (header_layout (scan_fragment_header common scan i))
                (fragment_layout (scan_fragment_view common scan i)))" if "i < scan_fragment_count scan" for i
      using that encode_fragment_iff [OF assms valid] by simp
    show ?thesis
      unfolding encode_profile_def count cb(3) valid and_then.simps
      by (subst for_each_fill [OF frames])
         (use True cb in \<open>auto simp: scan_frames_def MAX_PROFILE_FRAGMENTS_def\<close>)
  next
    case False
    then have "\<nexists>f. encode_fragment common scan ?n (word_of_nat 0) = Ok f"
      using encode_fragment_iff [OF assms valid, of 0] cb(1) by simp
    then have "\<nexists>p. encode_profile common scan = Ok p"
      unfolding encode_profile_def count cb(3) using cb(1)
      by (auto simp: cb(3) upt_conv_Cons)
    then show ?thesis using False by simp
  qed
next
  case False
  then show ?thesis by (auto simp: encode_profile_def)
qed

text \<open>The frames of a valid scan are valid fragments.\<close>

lemma scan_fragment_present:
  assumes "validate_profile scan = Ok ()" and "i < scan_fragment_count scan"
  shows "fragment_present (scan_fragment_view common scan i) =
     present_in_window (sc_missing_steps_bitmap scan) (i * STEPS_PER_FRAGMENT)
       (min (i * STEPS_PER_FRAGMENT + STEPS_PER_FRAGMENT) (unat (sc_expected_step_count scan)))"
    and "fragment_window_start (scan_fragment_view common scan i) = i * STEPS_PER_FRAGMENT"
proof -
  have "unat (word_of_nat i :: u8) = i"
    using assms(2) scan_fragment_count_bounds(2) [OF assms(1)] by (auto simp: unat_of_nat)
  then show "fragment_present (scan_fragment_view common scan i) =
     present_in_window (sc_missing_steps_bitmap scan) (i * STEPS_PER_FRAGMENT)
       (min (i * STEPS_PER_FRAGMENT + STEPS_PER_FRAGMENT) (unat (sc_expected_step_count scan)))"
    and "fragment_window_start (scan_fragment_view common scan i) = i * STEPS_PER_FRAGMENT"
    by (auto simp: fragment_present_def fragment_window_start_def scan_fragment_view_def
        scan_fragment_header_def)
qed

lemma scan_fragment_steps_encode:
  assumes "validate_profile scan = Ok ()" and "i < scan_fragment_count scan"
  shows "steps_encode (scan_fragment_steps scan i) (fragment_present (scan_fragment_view common scan i))
           (fv_step_bytes (scan_fragment_view common scan i))"
proof -
  note b = validate_profile_bounds [OF assms(1)]
  have slot: "\<exists>s. sc_steps scan ! j = Some s \<and> unat (ps_step_index s) = j \<and> validate_profile_step s = Ok ()"
    if "j \<in> set (fragment_present (scan_fragment_view common scan i))" for j
  proof -
    have j: "j < unat (sc_expected_step_count scan)" "sc_missing_steps_bitmap scan AND push_bit j 1 = 0"
      using that unfolding scan_fragment_present(1) [OF assms] present_in_window_def by auto
    then have "validate_profile_slot scan j = Ok ()" using b(2,5) by simp
    then show ?thesis
      using validate_profile_slot_present [of scan j] j by (cases "sc_steps scan ! j") auto
  qed
  then have "map (\<lambda>j. unat (ps_step_index (the (sc_steps scan ! j))))
      (fragment_present (scan_fragment_view common scan i))
    = fragment_present (scan_fragment_view common scan i)"
    by (intro map_idI) force
  moreover have "fv_step_bytes (scan_fragment_view common scan i) = concat (map step_layout (scan_fragment_steps scan i))"
    by (simp add: scan_fragment_view_def)
  moreover have "scan_fragment_steps scan i = map (\<lambda>j. the (sc_steps scan ! j))
      (fragment_present (scan_fragment_view common scan i))"
    unfolding scan_fragment_steps_def scan_fragment_present(1) [OF assms] ..
  ultimately show ?thesis
    using slot unfolding steps_encode_def by (fastforce simp: o_def)
qed

lemma scan_fragment_valid:
  assumes "validate_profile scan = Ok ()" and "i < scan_fragment_count scan"
    and "validate_profile_config_identity common (sc_collection_flags scan) (sc_finish_reason scan) = Ok ()"
  shows "fragment_valid (scan_fragment_view common scan i) (scan_fragment_steps scan i)"
proof -
  note b = validate_profile_bounds [OF assms(1)]
  have "unat (word_of_nat (i * STEPS_PER_FRAGMENT) :: u8) = i * STEPS_PER_FRAGMENT"
    using assms(2) scan_fragment_count_bounds(2) [OF assms(1)]
    by (simp add: unat_of_nat STEPS_PER_FRAGMENT_def del: of_nat_mult)
  moreover have "length (scan_fragment_steps scan i) = length (fragment_present (scan_fragment_view common scan i))"
    unfolding scan_fragment_steps_def scan_fragment_present(1) [OF assms(1,2)] by simp
  moreover have "sc_observed_unique_step_count scan =
      sc_expected_step_count scan - word_of_nat (count_ones (sc_missing_steps_bitmap scan))"
    "ucast (sc_observed_unique_step_count scan) \<le> sc_observed_field_count scan"
    using assms(1) observed_steps_eq(1) [OF b(2,3)] by (auto simp: validate_profile_def not_less)
  ultimately have "fragment_meta_valid (scan_fragment_view common scan i)"
    using assms b(1-4) scan_fragment_present(2) [OF assms(1,2), of common]
    unfolding fragment_meta_valid_def
    by (auto simp: scan_fragment_view_def scan_fragment_header_def validate_profile_def not_less)
  then show ?thesis
    using scan_fragment_steps_encode [OF assms(1,2)] by (simp add: fragment_valid_def)
qed

lemma encode_profile_no_panic:
  assumes "wf_scan scan"
  shows "\<not> panics (encode_profile common scan)"
proof (cases "validate_profile scan = Ok ()")
  case True
  note cb = scan_fragment_count_bounds [OF True]
  let ?n = "div_ceil_u8 (sc_expected_step_count scan) STEPS_PER_FRAGMENT_U8"
  have loop: "\<not> panics (for_each is out (\<lambda>i output.
           and_then (index (ep_frames output) i) (\<lambda>_.
           and_then (encode_fragment common scan ?n (word_of_nat i))
             (\<lambda>frame. Ok (output\<lparr>ep_frames := (ep_frames output)[i := frame]\<rparr>)))))"
    if "set is \<subseteq> {..<scan_fragment_count scan}" "length (ep_frames out) = 4" for "is" out
    using that
  proof (induction "is" arbitrary: out)
    case (Cons i "is")
    then show ?case
      using cb(2)
      by (auto simp: panics_and_then index_def encode_fragment_eq [OF assms True])
  qed simp
  show ?thesis
    unfolding encode_profile_def True and_then.simps
    using loop [of "[0..<unat ?n]" "\<lparr>ep_frames = replicate 4 encoded_frame_EMPTY, ep_count = ?n\<rparr>"] cb(3)
    by (auto simp: panics_and_then profile_fragment_count_def MAX_PROFILE_FRAGMENTS_def
        lessThan_atLeast0)
next
  case False
  then show ?thesis
    using validate_profile_no_panic [OF assms] by (auto simp: encode_profile_def panics_and_then)
qed

end
