(* ===== verification/V2_Samples.thy ===== *)
theory V2_Samples
  imports V2_Config V2_Health V2_Profile
begin

text \<open>
  Concrete records of protocol version 2 that the encoders accept: a header, a configuration with
  one heater step, a health record with one extension, and a four-step scan that lost its second
  step. They show that the hypotheses of the codec theorems can be met.
\<close>

definition sample_common :: common where
  "sample_common = common_production 0xa1 0xb2 7 123456 0xc3 1"

definition sample_heater_step :: heater_step_config where
  "sample_heater_step =
     \<lparr>hs_target_temperature_celsius = 320, hs_configured_duration_us = 139770,
      hs_repetition_multiplier = 1, hs_readback_heater_current = 50,
      hs_programmed_heater_resistance = 100, hs_programmed_gas_wait = 89\<rparr>"

definition sample_config :: device_config where
  "sample_config =
     \<lparr>dc_flags = 3,
      dc_firmware_version = [0, 3, 1],
      dc_firmware_build_flags = 1,
      dc_firmware_build_id = 72623859790382856,
      dc_sensor_chip_id = 97,
      dc_sensor_variant = 1,
      dc_sensor_i2c_address = 119,
      dc_temperature_oversampling = 2,
      dc_humidity_oversampling = 5,
      dc_pressure_oversampling = 1,
      dc_iir_filter = 0,
      dc_standby_time = 8,
      dc_operation_mode = 3,
      dc_heater_enabled = 1,
      dc_parallel_requested_shared_wait_ms = 140,
      dc_parallel_shared_wait_register = 112,
      dc_parallel_quantized_shared_wait_us = 139770,
      dc_tphg_duration_us = 42000,
      dc_expected_profile_duration_us = 181000,
      dc_profile_id = 1,
      dc_profile_version = 1,
      dc_expected_step_count = 1,
      dc_heater_readback_valid_bitmap = 1,
      dc_calibration_hash_algorithm = 1,
      dc_calibration_hash = 1234605616436508552,
      dc_scan_interval_ms = 60000,
      dc_config_repeat_interval_scans = 60,
      dc_output_routes = 1,
      dc_radio_frequency_hz = 868100000,
      dc_radio_tx_power_dbm = 14,
      dc_radio_spreading_factor = 7,
      dc_radio_bandwidth_hz = 125000,
      dc_radio_coding_rate_numerator = 4,
      dc_radio_coding_rate_denominator = 5,
      dc_radio_preamble_symbols = 8,
      dc_radio_header_mode = 0,
      dc_radio_phy_crc_enabled = 1,
      dc_radio_iq_inverted = 0,
      dc_radio_sync_word = 5156,
      dc_max_frame_len = 231,
      dc_profile_steps_per_fragment = 3,
      dc_steps = sample_heater_step # replicate 9 heater_step_config_default\<rparr>"

definition sample_health :: device_health where
  "sample_health =
     \<lparr>dh_flags = 0,
      dh_reset_cause_raw = 1,
      dh_successful_sensor_scans = 10,
      dh_failed_sensor_scans = 1,
      dh_incomplete_profiles = 2,
      dh_i2c_errors = 0,
      dh_radio_tx_errors = 0,
      dh_dropped_profiles = 0,
      dh_dropped_fragments = 0,
      dh_overwritten_fields = 3,
      dh_current_sample_interval_ms = 60000,
      dh_firmware_version = [0, 3, 1],
      dh_profile_id = 1,
      dh_profile_version = 1,
      dh_last_sensor_error = 0,
      dh_last_radio_error = 0,
      dh_calibrated_mcu_temperature_centi_celsius = Some (2150),
      dh_calibrated_vdd_millivolt = None\<rparr>"

definition sample_step :: "u8 \<Rightarrow> profile_step" where
  "sample_step i =
     \<lparr>ps_step_index = i,
      ps_gas_index = i,
      ps_measurement_index = 1,
      ps_status = 176,
      ps_raw_measurement_status = 0x80 OR i,
      ps_raw_gas_status = 53,
      ps_target_temperature_celsius = 320,
      ps_configured_duration_us = 140000,
      ps_offset_us = 181000,
      ps_temperature_centi_celsius = 2345,
      ps_pressure_pascal = 101325,
      ps_humidity_milli_percent_rh = 45000,
      ps_gas_resistance_ohm = 120000,
      ps_temperature_adc = 500000,
      ps_pressure_adc = 400000,
      ps_humidity_adc = 20000,
      ps_gas_resistance_adc = 512,
      ps_gas_range = 5,
      ps_repetition_multiplier = 1,
      ps_heater_resistance = 100,
      ps_heater_current = 50,
      ps_gas_wait = 89\<rparr>"

definition sample_scan :: profile_scan where
  "sample_scan =
     \<lparr>sc_profile_id = 1,
      sc_profile_version = 1,
      sc_expected_step_count = 4,
      sc_observed_unique_step_count = 3,
      sc_observed_field_count = 3,
      sc_missing_steps_bitmap = 2,
      sc_duplicate_steps_bitmap = 0,
      sc_scan_duration_us = 900000,
      sc_collection_flags = 0,
      sc_finish_reason = 2,
      sc_duplicate_count = 0,
      sc_overwritten_field_count = 0,
      sc_out_of_order_count = 0,
      sc_ambiguous_index_jump_count = 0,
      sc_invalid_gas_index_count = 0,
      sc_intermediate_field_count = 0,
      sc_profile_rollover_count = 0,
      sc_fields_after_rollover_count = 0,
      sc_poll_count = 20,
      sc_steps = [Some (sample_step 0), None, Some (sample_step 2), Some (sample_step 3)] @ replicate 6 None\<rparr>"

lemma sample_wf: "wf_config sample_config" "wf_health sample_health" "wf_scan sample_scan"
  by (simp_all add: wf_config_def wf_health_def wf_scan_def sample_config_def sample_health_def
      sample_scan_def MAX_PROFILE_STEPS_def)

lemma sample_common_valid: "common_valid sample_common"
  by code_simp

lemma sample_config_accepted: "validate_config sample_config = Ok ()"
  by code_simp

lemma sample_config_hash: "fnv1a64 (config_layout sample_config) \<noteq> 0"
  by code_simp

lemma sample_health_accepted:
  "validate_health_flags sample_common (dh_flags sample_health) = Ok ()"
  "validate_health_config_identity sample_common sample_health = Ok ()"
  by code_simp+

lemma sample_scan_accepted: "validate_profile sample_scan = Ok ()"
  by code_simp

lemma sample_scan_identity:
  "validate_profile_config_identity sample_common (sc_collection_flags sample_scan)
     (sc_finish_reason sample_scan) = Ok ()"
  by code_simp

lemma sample_config_encodes: "\<exists>f. encode_device_config sample_common sample_config True = Ok f"
proof -
  have "common_valid (h_common (config_header sample_common sample_config True))"
    using sample_common_valid
    by (auto simp: config_header_def common_valid_def sample_common_def common_production_def v2_flags)
  then show ?thesis
    using sample_wf sample_config_accepted sample_config_hash
    by (auto simp: encode_device_config_iff header_valid_def config_header_def)
qed

lemma sample_health_encodes: "\<exists>f. encode_device_health sample_common sample_health = Ok f"
  using sample_wf sample_common_valid sample_health_accepted
  by (auto simp: encode_device_health_iff header_valid_def health_header_def health_valid_def)

lemma sample_scan_encodes: "\<exists>p. encode_profile sample_common sample_scan = Ok p"
  using sample_wf sample_common_valid sample_scan_accepted sample_scan_identity
  by (auto simp: encode_profile_iff)

end
