(* ===== verification/V2_Codec.thy ===== *)
theory V2_Codec
  imports V2_Samples
begin

text \<open>
  The protocol-v2 codec as a whole: \<^verbatim>\<open>decode\<close> of \<^verbatim>\<open>v2.rs\<close>, and the properties that tie it
  to the three encoders. What an encoder produces is what the decoder returns; a frame the
  decoder accepts is the only one with this meaning, and the encoders reproduce it byte for byte;
  no input makes either side panic; no accepted frame is longer than 231 bytes.
\<close>

definition decode :: "bytes \<Rightarrow> (decoded_frame, v2_error) result" where
  "decode bs =
    and_then (decode_header bs) (\<lambda>h.
    and_then (slice bs HEADER_LEN (length bs)) (\<lambda>payload.
    case h_frame_type h of
      DeviceConfig \<Rightarrow>
        and_then (decode_device_config h payload) (\<lambda>config. Ok (DF_DeviceConfig h config))
    | ProfileFragment \<Rightarrow>
        map_ok DF_ProfileFragment (decode_profile_fragment h payload)
    | DeviceHealth \<Rightarrow>
        and_then (decode_device_health h payload) (\<lambda>health. Ok (DF_DeviceHealth h health))))"

section \<open>The decoder on a header and a payload\<close>

fun decoded_header :: "decoded_frame \<Rightarrow> header" where
  "decoded_header (DF_DeviceConfig h c) = h"
| "decoded_header (DF_ProfileFragment v) = fv_header v"
| "decoded_header (DF_DeviceHealth h d) = h"

fun decoded_payload :: "decoded_frame \<Rightarrow> bytes" where
  "decoded_payload (DF_DeviceConfig h c) = config_layout c"
| "decoded_payload (DF_ProfileFragment v) = fragment_layout v"
| "decoded_payload (DF_DeviceHealth h d) = health_layout d"

fun decoded_valid :: "decoded_frame \<Rightarrow> bool" where
  "decoded_valid (DF_DeviceConfig h c) \<longleftrightarrow>
     h_frame_type h = DeviceConfig \<and> wf_config c \<and> validate_config c = Ok ()
     \<and> h_fragment_index h = 0 \<and> h_fragment_count h = 1
     \<and> c_config_id (h_common h) \<noteq> 0 \<and> fnv1a64 (config_layout c) = c_config_id (h_common h)"
| "decoded_valid (DF_ProfileFragment v) \<longleftrightarrow>
     h_frame_type (fv_header v) = ProfileFragment \<and> (\<exists>steps. fragment_valid v steps)"
| "decoded_valid (DF_DeviceHealth h d) \<longleftrightarrow>
     h_frame_type h = DeviceHealth \<and> health_valid (h_common h) d
     \<and> h_fragment_index h = 0 \<and> h_fragment_count h = 1"

lemma payload_slice:
  "slice (header_layout h @ payload) HEADER_LEN (length (header_layout h @ payload)) = Ok payload"
  by (simp add: slice_def)

lemma decode_on_layout:
  assumes "header_valid h" and "length payload = unat (h_payload_len h)"
  shows "decode (header_layout h @ payload) =
    (case h_frame_type h of
       DeviceConfig \<Rightarrow> map_ok (DF_DeviceConfig h) (decode_device_config h payload)
     | ProfileFragment \<Rightarrow> map_ok DF_ProfileFragment (decode_profile_fragment h payload)
     | DeviceHealth \<Rightarrow> map_ok (DF_DeviceHealth h) (decode_device_health h payload))"
proof -
  have h: "decode_header (header_layout h @ payload) = Ok h"
    using assms decode_header_iff by blast
  have map: "and_then r (\<lambda>x. Ok (g x)) = map_ok g r" for g and r :: "('a, v2_error) result"
    by (cases r) auto
  show ?thesis
    unfolding decode_def h payload_slice by (simp add: map split: frame_type.split)
qed

lemma decode_iff:
  "decode bs = Ok d \<longleftrightarrow>
     header_valid (decoded_header d) \<and> decoded_valid d
     \<and> length (decoded_payload d) = unat (h_payload_len (decoded_header d))
     \<and> bs = header_layout (decoded_header d) @ decoded_payload d"
  (is "?lhs \<longleftrightarrow> ?rhs")
proof
  assume L: ?lhs
  then obtain h where "decode_header bs = Ok h"
    by (auto simp: decode_def)
  then obtain payload where h: "header_valid h" "bs = header_layout h @ payload"
    "length payload = unat (h_payload_len h)"
    by (auto simp: decode_header_iff)
  with L show ?rhs
    by (cases "h_frame_type h")
       (auto simp: decode_on_layout decode_device_config_iff decode_profile_fragment_iff
         decode_device_health_iff)
next
  assume ?rhs
  then show ?lhs
    by (cases d)
       (auto simp: decode_on_layout decode_device_config_iff decode_profile_fragment_iff
         decode_device_health_iff)
qed

lemma frame_of_decodes:
  assumes "header_valid (decoded_header d)" and "decoded_valid d"
    and "length (decoded_payload d) = unat (h_payload_len (decoded_header d))"
    and "HEADER_LEN + length (decoded_payload d) \<le> MAX_PHY_FRAME_LEN"
  shows "decode (as_slice (frame_of (header_layout (decoded_header d)) (decoded_payload d))) = Ok d"
  using assms by (simp add: decode_iff as_slice_frame_of)

lemma config_frame_decodes:
  assumes "wf_config c" and "encode_device_config common c repeated = Ok f"
  shows "decode (as_slice f) = Ok (DF_DeviceConfig (config_header common c repeated) c)"
proof -
  let ?h = "config_header common c repeated"
  have e: "validate_config c = Ok ()" "fnv1a64 (config_layout c) \<noteq> 0" "header_valid ?h"
    "f = frame_of (header_layout ?h) (config_layout c)"
    using assms by (auto simp: encode_device_config_iff)
  note fits = config_frame_fits [OF assms(1) e(1) length_header_layout [of ?h]]
  have "unat (h_payload_len ?h) = length (config_layout c)"
    using fits(2,3) by (simp add: config_header_def unat_of_nat)
  then show ?thesis
    using frame_of_decodes [of "DF_DeviceConfig ?h c"] e assms(1) fits(2,3)
    by (simp add: config_header_def v2_lens)
qed

lemma health_frame_decodes:
  assumes "wf_health health" and "encode_device_health common health = Ok f"
  shows "decode (as_slice f) = Ok (DF_DeviceHealth (health_header common health) health)"
proof -
  let ?h = "health_header common health"
  have e: "health_valid common health" "header_valid ?h" "f = frame_of (header_layout ?h) (health_layout health)"
    using assms by (auto simp: encode_device_health_iff)
  note fits = health_frame_fits [OF assms(1) length_header_layout [of ?h]]
  have "unat (h_payload_len ?h) = length (health_layout health)"
    using health_extension_len_le [of health]
    by (simp add: health_header_def length_health_layout [OF assms(1)] unat_of_nat v2_lens del: of_nat_add)
  then show ?thesis
    using frame_of_decodes [of "DF_DeviceHealth ?h health"] e fits(2)
    by (simp add: health_header_def v2_lens)
qed

lemma fragment_frame_decodes:
  assumes "wf_scan scan" and "encode_profile common scan = Ok p" and "i < scan_fragment_count scan"
  shows "decode (as_slice (encoded_profile_frames p ! i)) =
      Ok (DF_ProfileFragment (scan_fragment_view common scan i))"
    and "fragment_valid (scan_fragment_view common scan i) (scan_fragment_steps scan i)"
    and "length (encoded_profile_frames p) = scan_fragment_count scan"
proof -
  have e: "validate_profile scan = Ok ()"
    "validate_profile_config_identity common (sc_collection_flags scan) (sc_finish_reason scan) = Ok ()"
    "common_valid common"
    and p: "p = \<lparr>ep_frames = scan_frames common scan
              @ replicate (MAX_PROFILE_FRAGMENTS - scan_fragment_count scan) encoded_frame_EMPTY,
            ep_count = div_ceil_u8 (sc_expected_step_count scan) STEPS_PER_FRAGMENT_U8\<rparr>"
    using assms(2) by (simp_all only: encode_profile_iff [OF assms(1)])
  note cb = scan_fragment_count_bounds [OF e(1)]
  have frames: "encoded_profile_frames p = scan_frames common scan"
    using cb by (simp add: encoded_profile_frames_def p scan_frames_def)
  then show "length (encoded_profile_frames p) = scan_fragment_count scan"
    by (simp add: scan_frames_def)
  let ?h = "scan_fragment_header common scan i" and ?v = "scan_fragment_view common scan i"
  show valid: "fragment_valid ?v (scan_fragment_steps scan i)"
    by (rule scan_fragment_valid [OF e(1) assms(3) e(2)])
  have frame: "encoded_profile_frames p ! i = frame_of (header_layout ?h) (fragment_layout ?v)"
    using assms(3) by (simp add: frames scan_frames_def)
  have "unat (word_of_nat i :: u8) = i"
    using assms(3) cb(2) by (auto simp: unat_of_nat)
  then have "header_valid ?h"
    using e(3) assms(3) cb(3) by (simp add: header_valid_def scan_fragment_header_def word_less_nat_alt)
  moreover have "length (fragment_layout ?v) = unat (h_payload_len ?h)"
    using length_scan_fragment_steps [of scan i]
    by (simp add: fragment_layout_def scan_fragment_view_def scan_fragment_header_def unat_of_nat
        v2_lens del: of_nat_add of_nat_mult)
  moreover have "fv_header ?v = ?h" by (simp add: scan_fragment_view_def)
  moreover have "h_frame_type ?h = ProfileFragment" by (simp add: scan_fragment_header_def)
  ultimately show "decode (as_slice (encoded_profile_frames p ! i)) = Ok (DF_ProfileFragment ?v)"
    using frame_of_decodes [of "DF_ProfileFragment ?v"] valid fragment_payload_fits [of common scan i]
    unfolding frame by (auto simp: MAX_PHY_FRAME_LEN_def)
qed

section \<open>Panics and bounds\<close>

lemma decode_never_panics [simp]: "\<not> panics (decode bs)"
proof -
  have "HEADER_LEN \<le> length bs" if "decode_header bs = Ok h" for h
    using that by (auto simp: decode_header_iff)
  then show ?thesis
    by (auto simp: decode_def panics_and_then split: frame_type.splits)
qed

text \<open>
  C1. No byte string makes the decoder panic: it returns a record or an error. In particular the
  slice behind the header, and every index, shift and subtraction of the record decoders, is in
  range.
\<close>

theorem decode_no_panic: "(\<exists>d. decode bs = Ok d) \<or> (\<exists>e. decode bs = fail e)"
  using decode_never_panics [of bs] by (cases "decode bs") (auto simp: panics_def, metis fault.exhaust)

text \<open>None of the three encoders panics on a record of the right shape.\<close>

theorem encoders_no_panic:
  assumes "wf_config config" and "wf_scan scan" and "wf_health health"
  shows "\<not> panics (encode_device_config common config repeated)
    \<and> \<not> panics (encode_profile common scan)
    \<and> \<not> panics (encode_device_health common health)"
  using assms
  by (auto simp: encode_device_config_no_panic encode_profile_no_panic encode_device_health_no_panic)

theorem encoders_no_panic_witness:
  "\<not> panics (encode_device_config sample_common sample_config True)
    \<and> \<not> panics (encode_profile sample_common sample_scan)
    \<and> \<not> panics (encode_device_health sample_common sample_health)"
  by (rule encoders_no_panic [OF sample_wf(1,3,2)])

text \<open>A frame the decoder accepts is longer than its 48-byte header and at most 231 bytes long.\<close>

theorem decode_length_bounds:
  assumes "decode bs = Ok d"
  shows "HEADER_LEN < length bs \<and> length bs \<le> MAX_V2_FRAME_LEN"
proof (cases d)
  case (DF_DeviceConfig h c)
  then have "wf_config c" "validate_config c = Ok ()" "bs = header_layout h @ config_layout c"
    using assms by (auto simp: decode_iff)
  moreover from this have "length (config_layout c) = config_payload_len c" "config_payload_len c \<le> 183"
    using config_frame_fits [of c "replicate HEADER_LEN 0"] by auto
  ultimately show ?thesis by (auto simp: v2_lens config_payload_len_def)
next
  case (DF_ProfileFragment v)
  then obtain steps where "fragment_valid v steps" "bs = header_layout (fv_header v) @ fragment_layout v"
    using assms by (auto simp: decode_iff)
  moreover from this have "length (fv_step_bytes v) = length (fragment_present v) * PROFILE_STEP_LEN"
    by (auto simp: fragment_valid_def dest: steps_encode_length)
  ultimately show ?thesis
    using length_fragment_present [of v] by (auto simp: fragment_layout_def v2_lens)
next
  case (DF_DeviceHealth h dh)
  then have "wf_health dh" "bs = header_layout h @ health_layout dh"
    using assms by (auto simp: decode_iff health_valid_def)
  then show ?thesis
    using health_extension_len_le [of dh] by (simp add: length_health_layout v2_lens)
qed

theorem decode_length_bounds_witness:
  "\<exists>f. encode_device_health sample_common sample_health = Ok f
     \<and> HEADER_LEN < length (as_slice f) \<and> length (as_slice f) \<le> MAX_V2_FRAME_LEN"
  using sample_health_encodes health_frame_decodes [OF sample_wf(2)] decode_length_bounds by blast

section \<open>Round trips\<close>

text \<open>
  A configuration the encoder accepts comes back from the decoder unchanged, under a header
  that carries its hash as configuration id.
\<close>

theorem config_roundtrip:
  assumes "wf_config c" and "encode_device_config common c repeated = Ok f"
  shows "decode (as_slice f) = Ok (DF_DeviceConfig (config_header common c repeated) c)
    \<and> device_config_id c = Ok (c_config_id (h_common (config_header common c repeated)))"
proof -
  have "validate_config c = Ok ()" "fnv1a64 (config_layout c) \<noteq> 0"
    using assms by (auto simp: encode_device_config_iff)
  then show ?thesis
    using config_frame_decodes [OF assms] by (simp add: device_config_id_eq [OF assms(1)] config_header_def)
qed

theorem config_roundtrip_witness:
  "\<exists>f. encode_device_config sample_common sample_config True = Ok f
     \<and> decode (as_slice f) =
         Ok (DF_DeviceConfig (config_header sample_common sample_config True) sample_config)"
  using sample_config_encodes config_roundtrip [OF sample_wf(1)] by blast

text \<open>A health record the encoder accepts comes back from the decoder unchanged.\<close>

theorem health_roundtrip:
  assumes "wf_health health" and "encode_device_health common health = Ok f"
  shows "decode (as_slice f) = Ok (DF_DeviceHealth (health_header common health) health)"
  using assms by (rule health_frame_decodes)

theorem health_roundtrip_witness:
  "\<exists>f. encode_device_health sample_common sample_health = Ok f
     \<and> decode (as_slice f) =
         Ok (DF_DeviceHealth (health_header sample_common sample_health) sample_health)"
  using sample_health_encodes health_roundtrip [OF sample_wf(2)] by blast

text \<open>
  C31. A configuration and a health record that the encoder accepts come back from the decoder unchanged,
  every field and every extension of them: the configuration under a header with its hash as
  configuration id, the health record under the header of its node.
\<close>

theorem records_roundtrip:
  "(wf_config c \<and> encode_device_config common c repeated = Ok f \<longrightarrow>
      decode (as_slice f) = Ok (DF_DeviceConfig (config_header common c repeated) c)
      \<and> device_config_id c = Ok (c_config_id (h_common (config_header common c repeated))))
    \<and> (wf_health health \<and> encode_device_health common health = Ok g \<longrightarrow>
      decode (as_slice g) = Ok (DF_DeviceHealth (health_header common health) health))"
  using config_roundtrip health_roundtrip by blast

theorem records_roundtrip_witness:
  "\<exists>f g. encode_device_config sample_common sample_config True = Ok f
     \<and> decode (as_slice f) = Ok (DF_DeviceConfig (config_header sample_common sample_config True) sample_config)
     \<and> encode_device_health sample_common sample_health = Ok g
     \<and> decode (as_slice g) = Ok (DF_DeviceHealth (health_header sample_common sample_health) sample_health)"
  using sample_config_encodes sample_health_encodes records_roundtrip sample_wf(1,2) by blast

text \<open>
  C30. A scan the encoder accepts becomes one frame for each three expected steps, and every frame
  decodes to the fragment of this scan at its position: the scan's metadata, and exactly the
  steps of its window that were observed.
\<close>

theorem profile_roundtrip:
  assumes "wf_scan scan" and "encode_profile common scan = Ok p"
  shows "length (encoded_profile_frames p) = scan_fragment_count scan
    \<and> (\<forall>i < scan_fragment_count scan.
         decode (as_slice (encoded_profile_frames p ! i)) =
           Ok (DF_ProfileFragment (scan_fragment_view common scan i))
         \<and> (\<forall>j < length (scan_fragment_steps scan i).
              fragment_step (scan_fragment_view common scan i) j = Ok (scan_fragment_steps scan i ! j)))"
proof -
  have "0 < scan_fragment_count scan"
    using assms encode_profile_iff scan_fragment_count_bounds(1) by fastforce
  then have "length (encoded_profile_frames p) = scan_fragment_count scan"
    by (rule fragment_frame_decodes(3) [OF assms])
  then show ?thesis
    using fragment_frame_decodes [OF assms] fragment_step_valid by blast
qed

theorem profile_roundtrip_witness:
  "\<exists>p. encode_profile sample_common sample_scan = Ok p
     \<and> length (encoded_profile_frames p) = 2
     \<and> decode (as_slice (encoded_profile_frames p ! 1)) =
         Ok (DF_ProfileFragment (scan_fragment_view sample_common sample_scan 1))"
proof -
  obtain p where p: "encode_profile sample_common sample_scan = Ok p"
    using sample_scan_encodes by blast
  have "scan_fragment_count sample_scan = 2"
    by (simp add: scan_fragment_count_def sample_scan_def)
  then show ?thesis using p profile_roundtrip [OF sample_wf(3) p] by auto
qed

section \<open>Canonical frames\<close>

text \<open>C32. Two different byte strings never decode to the same record.\<close>

theorem decode_injective:
  assumes "decode a = Ok d" and "decode b = Ok d"
  shows "a = b"
  using assms by (simp add: decode_iff)

theorem decode_injective_witness:
  "\<exists>f. encode_device_health sample_common sample_health = Ok f
     \<and> (\<forall>b. decode b = decode (as_slice f) \<longleftrightarrow> b = as_slice f)"
proof -
  obtain f where f: "encode_device_health sample_common sample_health = Ok f"
    using sample_health_encodes by blast
  note d = health_frame_decodes [OF sample_wf(2) f]
  have "decode b = decode (as_slice f) \<longleftrightarrow> b = as_slice f" for b
    using decode_injective [of b _ "as_slice f", OF _ d] unfolding d by (metis d)
  then show ?thesis using f by blast
qed

text \<open>
  A configuration frame the decoder accepts is the encoding of what it returned: the encoder accepts
  the configuration and reproduces the frame byte for byte.
\<close>

theorem config_canonical:
  assumes "decode bs = Ok (DF_DeviceConfig h c)"
  shows "\<exists>f. encode_device_config (h_common h) c False = Ok f \<and> as_slice f = bs"
proof -
  have d: "header_valid h" "wf_config c" "validate_config c = Ok ()" "h_frame_type h = DeviceConfig"
    "h_fragment_index h = 0" "h_fragment_count h = 1" "c_config_id (h_common h) \<noteq> 0"
    "fnv1a64 (config_layout c) = c_config_id (h_common h)"
    "length (config_layout c) = unat (h_payload_len h)" "bs = header_layout h @ config_layout c"
    using assms by (auto simp: decode_iff)
  note fits = config_frame_fits [OF d(2,3) length_header_layout [of h]]
  have "word_of_nat (config_payload_len c) = h_payload_len h"
    using d(9) fits(2) by simp
  then have "config_header (h_common h) c False = h"
    using d by (cases h) (auto simp: config_header_def)
  then show ?thesis
    using d fits(1) by (auto simp: encode_device_config_iff)
qed

theorem config_canonical_witness:
  "\<exists>bs h f. decode bs = Ok (DF_DeviceConfig h sample_config)
     \<and> encode_device_config (h_common h) sample_config False = Ok f \<and> as_slice f = bs"
  using sample_config_encodes config_frame_decodes [OF sample_wf(1)] config_canonical by blast

text \<open>The same for health records.\<close>

theorem health_canonical:
  assumes "decode bs = Ok (DF_DeviceHealth h health)"
  shows "\<exists>f. encode_device_health (h_common h) health = Ok f \<and> as_slice f = bs"
proof -
  have d: "header_valid h" "health_valid (h_common h) health" "h_frame_type h = DeviceHealth"
    "h_fragment_index h = 0" "h_fragment_count h = 1"
    "length (health_layout health) = unat (h_payload_len h)" "bs = header_layout h @ health_layout health"
    using assms by (auto simp: decode_iff)
  then have wf: "wf_health health" by (simp add: health_valid_def)
  have "word_of_nat (HEALTH_BASE_LEN + health_extension_len health) = h_payload_len h"
    using d(6) unfolding length_health_layout [OF wf] by simp
  then have "health_header (h_common h) health = h"
    using d by (cases h) (auto simp: health_header_def)
  then show ?thesis
    using d wf health_frame_fits(1) [OF wf length_header_layout [of h]]
    by (auto simp: encode_device_health_iff)
qed

theorem health_canonical_witness:
  "\<exists>bs h f. decode bs = Ok (DF_DeviceHealth h sample_health)
     \<and> encode_device_health (h_common h) sample_health = Ok f \<and> as_slice f = bs"
  using sample_health_encodes health_frame_decodes [OF sample_wf(2)] health_canonical by blast

end
