(* ===== verification/Dispatch.thy ===== *)
theory Dispatch
  imports Protocol_V1 V2_Codec
begin

text \<open>
  \<^verbatim>\<open>decode_any\<close> of \<^verbatim>\<open>crates/vesta-protocol/src/lib.rs\<close>: it selects a protocol version by the
  discriminator and the version byte, never by the length.
\<close>

datatype decoded_telemetry = DT_V1 telemetry_v1 | DT_V2 decoded_frame

datatype protocol_decode_error =
  PD_TruncatedDiscriminator nat
| PD_InvalidMagic bytes
| PD_UnsupportedVersion u8
| PD_V1 decode_error
| PD_V2 v2_error

definition decode_any :: "bytes \<Rightarrow> (decoded_telemetry, protocol_decode_error) result" where
  "decode_any bs =
    (if length bs < 3 then fail (PD_TruncatedDiscriminator (length bs)) else
     and_then (index bs 0) (\<lambda>b0.
     and_then (index bs 1) (\<lambda>b1.
     if [b0, b1] \<noteq> MAGIC then fail (PD_InvalidMagic [b0, b1]) else
     and_then (index bs 2) (\<lambda>version.
     if version = VERSION then map_err PD_V1 (map_ok DT_V1 (telemetry_v1_decode bs))
     else if version = VERSION_V2 then map_err PD_V2 (map_ok DT_V2 (decode bs))
     else fail (PD_UnsupportedVersion version)))))"

lemma decode_any_cases:
  assumes "3 \<le> length bs"
  shows "decode_any bs =
     (if take 2 bs \<noteq> MAGIC then fail (PD_InvalidMagic (take 2 bs))
      else if bs ! 2 = VERSION then map_err PD_V1 (map_ok DT_V1 (telemetry_v1_decode bs))
      else if bs ! 2 = VERSION_V2 then map_err PD_V2 (map_ok DT_V2 (decode bs))
      else fail (PD_UnsupportedVersion (bs ! 2)))"
proof -
  have "take 2 bs = [bs ! 0, bs ! 1]"
    using assms by (cases bs rule: list.exhaust; cases "tl bs") auto
  moreover have "bs \<noteq> []" using assms by auto
  ultimately show ?thesis using assms by (simp add: decode_any_def index_def)
qed

text \<open>No byte string makes \<^verbatim>\<open>decode_any\<close> panic.\<close>

theorem decode_any_no_panic: "\<not> panics (decode_any bs)"
  by (auto simp: decode_any_def panics_and_then index_def)

lemma v1_frame_discriminator:
  assumes "telemetry_v1_decode bs = Ok t"
  shows "3 \<le> length bs \<and> take 2 bs = MAGIC \<and> bs ! 2 = VERSION"
proof -
  have "\<exists>t. telemetry_v1_decode bs = Ok t" using assms by blast
  then show ?thesis unfolding telemetry_v1_decode_Ok_iff by (auto simp: FRAME_LEN_def)
qed

lemma v2_frame_discriminator:
  assumes "decode bs = Ok d"
  shows "3 \<le> length bs \<and> take 2 bs = MAGIC \<and> bs ! 2 = VERSION_V2"
  using assms
  by (auto simp: decode_iff header_layout_def V2_MAGIC_def MAGIC_def numeral_2_eq_2)

text \<open>
  The selection loses nothing and confuses nothing: \<^verbatim>\<open>decode_any\<close> returns a version 1
  reading exactly when the version 1 decoder accepts the bytes, and a version 2 record exactly
  when the version 2 decoder does.
\<close>

theorem decode_any_selects:
  "(decode_any bs = Ok (DT_V1 t) \<longleftrightarrow> telemetry_v1_decode bs = Ok t)
   \<and> (decode_any bs = Ok (DT_V2 d) \<longleftrightarrow> decode bs = Ok d)"
proof (cases "3 \<le> length bs")
  case True
  have "VERSION \<noteq> VERSION_V2" by (simp add: VERSION_def VERSION_V2_def)
  then show ?thesis
    using v1_frame_discriminator [of bs t] v2_frame_discriminator [of bs d]
    by (auto simp: decode_any_cases [OF True])
next
  case False
  then show ?thesis
    using v1_frame_discriminator [of bs t] v2_frame_discriminator [of bs d]
    by (auto simp: decode_any_def)
qed

end
