(* ===== verification/V2_Airtime.thy ===== *)
theory V2_Airtime
  imports Complex_Main V2_Model
begin

text \<open>
  \<^verbatim>\<open>lora_time_on_air_us\<close> of \<^verbatim>\<open>v2.rs\<close>, in the 64-bit arithmetic of the source, and its
  agreement with Semtech's time-on-air equation over the real numbers: for every parameter set it
  accepts, the result is the exact duration rounded up to the next microsecond, and no
  intermediate value overflows.
\<close>

section \<open>The function\<close>

text \<open>Arithmetic on \<^verbatim>\<open>u64\<close> and \<^verbatim>\<open>i64\<close> that panics on overflow.\<close>

definition u64_of :: "nat \<Rightarrow> (u64, 'e) result" where
  "u64_of n = (if n < 2 ^ 64 then Ok (word_of_nat n) else panic)"

definition u64_mul :: "u64 \<Rightarrow> u64 \<Rightarrow> (u64, 'e) result" where
  "u64_mul a b = u64_of (unat a * unat b)"

definition u64_add :: "u64 \<Rightarrow> u64 \<Rightarrow> (u64, 'e) result" where
  "u64_add a b = u64_of (unat a + unat b)"

definition i64_of :: "int \<Rightarrow> (int, 'e) result" where
  "i64_of i = (if - (2 ^ 63) \<le> i \<and> i < 2 ^ 63 then Ok i else panic)"

text \<open>
  The \<^verbatim>\<open>i64\<close> statements are evaluated as integers with one range check on the result: their
  operands are a payload length of at most 255, a spreading factor of at most 12 and three bits,
  so no intermediate sum leaves the range either.
\<close>

definition lora_time_on_air_us ::
  "nat \<Rightarrow> u8 \<Rightarrow> u32 \<Rightarrow> u8 \<Rightarrow> u16 \<Rightarrow> bool \<Rightarrow> bool \<Rightarrow> (u64, v2_error) result" where
  "lora_time_on_air_us payload_len spreading_factor bandwidth_hz coding_rate_denominator
     preamble_symbols explicit_header crc_enabled =
    (if payload_len > MAX_PHY_FRAME_LEN then fail (FrameTooLong payload_len)
     else if \<not> (5 \<le> spreading_factor \<and> spreading_factor \<le> 12)
     then fail (InvalidField ''spreading_factor'')
     else if bandwidth_hz = 0 then fail (InvalidField ''bandwidth_hz'')
     else if \<not> (5 \<le> coding_rate_denominator \<and> coding_rate_denominator \<le> 8)
     then fail (InvalidField ''coding_rate_denominator'')
     else
     and_then (u64_mul (push_bit (unat spreading_factor) 1) 1000000) (\<lambda>symbol_numerator.
     and_then (u64_mul 16000 (ucast bandwidth_hz)) (\<lambda>threshold.
     let low_data_rate_optimization = threshold \<le> symbol_numerator;
         ih = of_bool (\<not> explicit_header) :: int;
         crc = of_bool crc_enabled :: int;
         de = of_bool low_data_rate_optimization :: int in
     and_then (i64_of (8 * int payload_len - 4 * int (unat spreading_factor) + 28 + 16 * crc - 20 * ih))
       (\<lambda>numerator.
     and_then (i64_of (4 * (int (unat spreading_factor) - 2 * de))) (\<lambda>denominator.
     and_then (if numerator \<le> 0 then Ok 0
               else if denominator = 0 then panic
               else i64_of ((numerator + denominator - 1) div denominator)) (\<lambda>coded_blocks.
     and_then (if 0 \<le> coded_blocks then u64_of (nat coded_blocks)
               else fail (InvalidField ''coded_blocks'')) (\<lambda>blocks.
     and_then (u64_mul blocks (ucast coding_rate_denominator)) (\<lambda>coded.
     and_then (u64_add 8 coded) (\<lambda>payload_symbols.
     and_then (u64_add (ucast preamble_symbols) payload_symbols) (\<lambda>symbols.
     and_then (u64_mul 4 symbols) (\<lambda>quarters.
     and_then (u64_add quarters 17) (\<lambda>total_quarter_symbols.
     and_then (u64_mul total_quarter_symbols symbol_numerator) (\<lambda>airtime_numerator.
     and_then (u64_mul 4 (ucast bandwidth_hz)) (\<lambda>airtime_denominator.
     Ok (if airtime_numerator mod airtime_denominator > 0
         then airtime_numerator div airtime_denominator + 1
         else airtime_numerator div airtime_denominator)))))))))))))))"

section \<open>Semtech's equation\<close>

definition symbol_time_us :: "nat \<Rightarrow> nat \<Rightarrow> real" where
  "symbol_time_us sf bw = 2 ^ sf * 1000000 / real bw"

definition payload_symbols :: "nat \<Rightarrow> nat \<Rightarrow> nat \<Rightarrow> bool \<Rightarrow> bool \<Rightarrow> bool \<Rightarrow> int" where
  "payload_symbols pl sf cr explicit crc ldro =
     8 + max 0 \<lceil>(8 * real pl - 4 * real sf + 28 + 16 * of_bool crc - 20 * of_bool (\<not> explicit))
                  / (4 * (real sf - 2 * of_bool ldro))\<rceil> * int cr"

definition time_on_air_us :: "nat \<Rightarrow> nat \<Rightarrow> nat \<Rightarrow> nat \<Rightarrow> nat \<Rightarrow> bool \<Rightarrow> bool \<Rightarrow> real" where
  "time_on_air_us pl sf bw cr preamble explicit crc =
     (real preamble + 4.25
        + of_int (payload_symbols pl sf cr explicit crc (16000 \<le> symbol_time_us sf bw)))
     * symbol_time_us sf bw"

section \<open>Rounded-up division\<close>

lemma ceiling_div_int:
  fixes n d :: int
  assumes "0 < d"
  shows "\<lceil>of_int n / (of_int d :: real)\<rceil> = (n + d - 1) div d"
proof (rule ceiling_unique)
  define m r where "m = n + d - 1" and "r = m mod d"
  let ?z = "(n + d - 1) div d"
  have "m = ?z * d + r" "0 \<le> r" "r < d"
    using assms by (auto simp: m_def r_def)
  then have "(?z - 1) * d < n" "n \<le> ?z * d"
    using m_def by (auto simp: algebra_simps)
  then have "of_int ((?z - 1) * d) < (of_int n :: real)" "(of_int n :: real) \<le> of_int (?z * d)"
    by linarith+
  then show "of_int ?z - 1 < of_int n / (of_int d :: real)" "of_int n / of_int d \<le> (of_int ?z :: real)"
    using assms by (auto simp: field_simps)
qed

lemma ceiling_div_nat:
  fixes n d :: nat
  assumes "0 < d"
  shows "\<lceil>real n / real d\<rceil> = int (if n mod d > 0 then n div d + 1 else n div d)"
proof -
  have "\<lceil>real n / real d\<rceil> = (int n + int d - 1) div int d"
    using ceiling_div_int [of "int d" "int n"] assms by simp
  also have "\<dots> = int (if n mod d > 0 then n div d + 1 else n div d)"
  proof (cases "n mod d = 0")
    case True
    then have "int n = int (n div d) * int d"
      by (metis add.right_neutral div_mult_mod_eq of_nat_mult)
    then have "int n + int d - 1 = int (n div d) * int d + (int d - 1)" by simp
    then have "(int n + int d - 1) div int d = int (n div d) + (int d - 1) div int d"
      using assms by (simp only: div_mult_self3)
    then show ?thesis using True assms by (simp add: div_pos_pos_trivial)
  next
    case False
    have "int n = int (n div d) * int d + int (n mod d)"
      by (metis div_mult_mod_eq of_nat_add of_nat_mult)
    then have "int n + int d - 1 = int (n div d + 1) * int d + int (n mod d - 1)"
      using False by (simp add: algebra_simps of_nat_diff)
    moreover have "int (n mod d - 1) div int d = 0"
      using assms by (intro div_pos_pos_trivial) (auto simp: less_imp_diff_less)
    ultimately have "(int n + int d - 1) div int d = int (n div d + 1) + 0"
      using assms by (simp only: div_mult_self3)
    then show ?thesis using False by simp
  qed
  finally show ?thesis .
qed

section \<open>No overflow\<close>

lemma u64_of_Ok: "n < 2 ^ 64 \<Longrightarrow> u64_of n = Ok (word_of_nat n)"
  by (simp add: u64_of_def)

lemma unat_u64_of: "n < 2 ^ 64 \<Longrightarrow> unat (word_of_nat n :: u64) = n"
  by (simp add: unat_of_nat)

lemma u64_mul_Ok:
  "unat a = m \<Longrightarrow> unat b = k \<Longrightarrow> m * k < 2 ^ 64 \<Longrightarrow> u64_mul a b = Ok (word_of_nat (m * k))"
  by (simp only: u64_mul_def u64_of_def if_True)

lemma u64_add_Ok:
  "unat a = m \<Longrightarrow> unat b = k \<Longrightarrow> m + k < 2 ^ 64 \<Longrightarrow> u64_add a b = Ok (word_of_nat (m + k))"
  by (simp only: u64_add_def u64_of_def if_True)

lemma i64_operands:
  assumes "pl \<le> 255" "5 \<le> sf" "sf \<le> 12"
  shows "i64_of (8 * int pl - 4 * int sf + 28 + 16 * of_bool crc - 20 * of_bool (\<not> explicit)) =
      Ok (8 * int pl - 4 * int sf + 28 + 16 * of_bool crc - 20 * of_bool (\<not> explicit))"
    and "i64_of (4 * (int sf - 2 * of_bool ldro)) = Ok (4 * (int sf - 2 * of_bool ldro))"
    and "0 < 4 * (int sf - 2 * of_bool ldro)"
  using assms by (auto simp: i64_of_def of_bool_def)

definition coded_blocks :: "nat \<Rightarrow> nat \<Rightarrow> bool \<Rightarrow> bool \<Rightarrow> bool \<Rightarrow> int" where
  "coded_blocks pl sf explicit crc ldro =
     (let numerator = 8 * int pl - 4 * int sf + 28 + 16 * of_bool crc - 20 * of_bool (\<not> explicit);
          denominator = 4 * (int sf - 2 * of_bool ldro)
      in if numerator \<le> 0 then 0 else (numerator + denominator - 1) div denominator)"

lemma coded_blocks_bounds:
  assumes "pl \<le> 255" "5 \<le> sf" "sf \<le> 12"
  shows "0 \<le> coded_blocks pl sf explicit crc ldro" "coded_blocks pl sf explicit crc ldro \<le> 2064"
proof -
  define n where "n = 8 * int pl - 4 * int sf + 28 + 16 * of_bool crc - 20 * of_bool (\<not> explicit)"
  define d where "d = 4 * (int sf - 2 * of_bool ldro)"
  have d: "0 < d" and n: "n \<le> 2064"
    using assms by (auto simp: d_def n_def of_bool_def)
  have "(n + d - 1) div d \<le> n" if "0 < n"
  proof -
    have "1 * (d - 1) \<le> n * (d - 1)" using that d by (intro mult_right_mono) auto
    then have "n + d - 1 \<le> n * d" by (simp add: algebra_simps)
    then have "(n + d - 1) div d \<le> (n * d) div d" using d by (intro zdiv_mono1) auto
    then show ?thesis using d by simp
  qed
  then show "0 \<le> coded_blocks pl sf explicit crc ldro" "coded_blocks pl sf explicit crc ldro \<le> 2064"
    using d n unfolding coded_blocks_def Let_def n_def [symmetric] d_def [symmetric]
    by (auto simp: pos_imp_zdiv_nonneg_iff intro: order_trans)
qed

lemma payload_symbols_eq:
  assumes "5 \<le> sf"
  shows "payload_symbols pl sf cr explicit crc ldro = 8 + coded_blocks pl sf explicit crc ldro * int cr"
proof -
  define n where "n = 8 * int pl - 4 * int sf + 28 + 16 * of_bool crc - 20 * of_bool (\<not> explicit)"
  define d where "d = 4 * (int sf - 2 * of_bool ldro)"
  have d: "0 < d" using assms by (auto simp: d_def of_bool_def)
  have "8 * real pl - 4 * real sf + 28 + 16 * of_bool crc - 20 * of_bool (\<not> explicit) = of_int n"
    "4 * (real sf - 2 * of_bool ldro) = of_int d"
    by (auto simp: n_def d_def of_bool_def)
  moreover have "max 0 \<lceil>of_int n / (of_int d :: real)\<rceil> = coded_blocks pl sf explicit crc ldro"
  proof (cases "n \<le> 0")
    case True
    then have "\<lceil>of_int n / (of_int d :: real)\<rceil> \<le> 0"
      using d by (simp add: ceiling_le_zero divide_nonpos_pos)
    then show ?thesis
      using True unfolding coded_blocks_def Let_def n_def [symmetric] d_def [symmetric] by simp
  next
    case False
    then have "0 \<le> (n + d - 1) div d" using d by (simp add: pos_imp_zdiv_nonneg_iff)
    then show ?thesis
      using False d unfolding coded_blocks_def Let_def n_def [symmetric] d_def [symmetric]
      by (simp add: ceiling_div_int)
  qed
  ultimately show ?thesis by (simp add: payload_symbols_def)
qed

text \<open>The values the function passes through, as natural numbers.\<close>

definition quarter_symbols :: "nat \<Rightarrow> nat \<Rightarrow> nat \<Rightarrow> nat \<Rightarrow> nat \<Rightarrow> bool \<Rightarrow> bool \<Rightarrow> nat" where
  "quarter_symbols pl sf bw cr preamble explicit crc =
     4 * (preamble + (8 + nat (coded_blocks pl sf explicit crc (16000 * bw \<le> 2 ^ sf * 1000000)) * cr)) + 17"

lemma quarter_symbols_bound:
  assumes "pl \<le> 255" "5 \<le> sf" "sf \<le> 12" "cr \<le> 8" "preamble < 65536"
  shows "quarter_symbols pl sf bw cr preamble explicit crc \<le> 400000"
proof -
  let ?l = "16000 * bw \<le> 2 ^ sf * 1000000"
  have "nat (coded_blocks pl sf explicit crc ?l) * cr \<le> 2064 * 8"
    using coded_blocks_bounds(2) [OF assms(1-3), of explicit crc ?l] assms(4)
    by (intro mult_le_mono) auto
  moreover have "4 * (p + (8 + x)) + 17 \<le> 400000" if "x \<le> 2064 * 8" "p < 65536" for x p :: nat
    using that by simp
  ultimately show ?thesis
    using assms(5) unfolding quarter_symbols_def by blast
qed

lemma airtime_real:
  assumes "5 \<le> sf" "sf \<le> 12" "0 < bw" "pl \<le> 255"
  shows "time_on_air_us pl sf bw cr preamble explicit crc =
     real (quarter_symbols pl sf bw cr preamble explicit crc * (2 ^ sf * 1000000)) / real (4 * bw)"
proof -
  have ldro: "16000 \<le> symbol_time_us sf bw \<longleftrightarrow> 16000 * bw \<le> 2 ^ sf * 1000000"
  proof -
    have "16000 \<le> symbol_time_us sf bw \<longleftrightarrow> real (16000 * bw) \<le> real (2 ^ sf * 1000000)"
      using assms(3) by (simp add: symbol_time_us_def field_simps)
    then show ?thesis by (simp only: of_nat_le_iff)
  qed
  have "real_of_int (payload_symbols pl sf cr explicit crc l) =
      8 + real (nat (coded_blocks pl sf explicit crc l)) * real cr" for l
    using coded_blocks_bounds(1) [OF assms(4,1,2)] by (simp add: payload_symbols_eq [OF assms(1)])
  then show ?thesis
    using assms(3) unfolding time_on_air_us_def ldro
    by (simp add: quarter_symbols_def symbol_time_us_def field_simps)
qed

lemma small_quotient:
  fixes n d :: nat
  assumes "n \<le> 400000 * 4096000000"
  shows "n < 2 ^ 64" "n div d + 1 < 2 ^ 64" "(if n mod d > 0 then n div d + 1 else n div d) < 2 ^ 64"
proof -
  have "n div d \<le> 400000 * 4096000000"
    by (rule order_trans [OF div_le_dividend assms])
  then show "n < 2 ^ 64" "n div d + 1 < 2 ^ 64" "(if n mod d > 0 then n div d + 1 else n div d) < 2 ^ 64"
    using assms by auto
qed

lemma u64_div_ceil:
  fixes n d :: nat
  assumes "n < 2 ^ 64" "d < 2 ^ 64" "n div d + 1 < 2 ^ 64"
  shows "(if (word_of_nat n :: u64) mod word_of_nat d > 0
          then word_of_nat n div word_of_nat d + 1 else word_of_nat n div word_of_nat d)
      = (word_of_nat (if n mod d > 0 then n div d + 1 else n div d) :: u64)"
proof -
  have "n div d < 2 ^ 64" using assms(3) by linarith
  note u = unat_u64_of [OF assms(1)] unat_u64_of [OF assms(2)] unat_u64_of [OF assms(3)]
    unat_u64_of [OF this]
  have q: "(word_of_nat n :: u64) div word_of_nat d = word_of_nat (n div d)"
    by (rule word_unat_eq_iff [THEN iffD2]) (simp only: unat_div u)
  have "(word_of_nat n :: u64) mod word_of_nat d > 0 \<longleftrightarrow> n mod d > 0"
    unfolding word_less_nat_alt by (simp only: unat_mod u unat_0)
  then show ?thesis unfolding q by (simp only: of_nat_add of_nat_1 split: if_split) simp
qed

lemma two_power_12: "5 \<le> n \<Longrightarrow> n \<le> 12 \<Longrightarrow> (2 :: nat) ^ n \<le> 4096"
  using power_increasing [of n 12 "2 :: nat"] by simp

lemma lora_time_on_air_us_eq:
  assumes "pl \<le> MAX_PHY_FRAME_LEN" "5 \<le> sf" "sf \<le> 12" "0 < bw" "5 \<le> cr" "cr \<le> 8"
  shows "lora_time_on_air_us pl sf bw cr preamble explicit crc =
     (let n = quarter_symbols pl (unat sf) (unat bw) (unat cr) (unat preamble) explicit crc
              * (2 ^ unat sf * 1000000);
          d = 4 * unat bw
      in Ok (word_of_nat (if n mod d > 0 then n div d + 1 else n div d)))"
proof -
  let ?sf = "unat sf" and ?bw = "unat bw" and ?cr = "unat cr" and ?pre = "unat preamble"
  let ?sn = "2 ^ ?sf * 1000000 :: nat"
  let ?de = "16000 * ?bw \<le> ?sn"
  let ?cb = "coded_blocks pl ?sf explicit crc ?de"
  let ?q = "quarter_symbols pl ?sf ?bw ?cr ?pre explicit crc"
  have r: "pl \<le> 255" "5 \<le> ?sf" "?sf \<le> 12" "5 \<le> ?cr" "?cr \<le> 8" "0 < ?bw"
    using assms by (auto simp: MAX_PHY_FRAME_LEN_def word_le_nat_alt unat_gt_0 word_neq_0_conv)
  have bw: "?bw < 2 ^ 32" "?pre < 65536"
    using unsigned_less [of bw, where 'a = nat] unsigned_less [of preamble, where 'a = nat] by auto
  have sn: "?sn \<le> 4096000000" using two_power_12 [OF r(2,3)] by simp
  have q: "?q \<le> 400000" using quarter_symbols_bound [OF r(1-3,5) bw(2)] .
  have cb: "0 \<le> ?cb" "?cb \<le> 2064" using coded_blocks_bounds [OF r(1-3)] by auto
  have qs: "?q * ?sn \<le> 400000 * 4096000000" using q sn by (intro mult_le_mono)
  have "push_bit ?sf 1 = (word_of_nat (2 ^ ?sf) :: u64)"
    by (simp add: push_bit_of_1)
  then have one: "unat (push_bit ?sf 1 :: u64) = 2 ^ ?sf"
    using two_power_12 [OF r(2,3)] by (simp only:, intro unat_u64_of) simp
  have cr: "unat (ucast cr :: u64) = ?cr" "unat (ucast preamble :: u64) = ?pre" "unat (ucast bw :: u64) = ?bw"
    by (simp_all add: unat_ucast_widen)
  have s1: "u64_mul (push_bit ?sf 1) 1000000 = (Ok (word_of_nat ?sn) :: (u64, v2_error) result)"
    by (rule u64_mul_Ok [OF one]) (use sn in simp_all)
  have s2: "u64_mul 16000 (ucast bw) = (Ok (word_of_nat (16000 * ?bw)) :: (u64, v2_error) result)"
    by (rule u64_mul_Ok) (use bw(1) cr in simp_all)
  have ldro: "(word_of_nat (16000 * ?bw) :: u64) \<le> word_of_nat ?sn \<longleftrightarrow> ?de"
    using bw(1) sn by (simp add: word_le_nat_alt unat_u64_of del: of_nat_mult)
  define n where "n = 8 * int pl - 4 * int ?sf + 28 + 16 * of_bool crc - 20 * of_bool (\<not> explicit)"
  define d where "d = 4 * (int ?sf - 2 * of_bool ?de)"
  have nd: "i64_of n = (Ok n :: (int, v2_error) result)" "i64_of d = (Ok d :: (int, v2_error) result)"
    unfolding n_def d_def by (rule i64_operands [OF r(1-3)])+
  have d0: "d \<noteq> 0"
    using i64_operands(3) [OF r(1-3), of ?de] unfolding d_def by linarith
  have cbn: "?cb = (if n \<le> 0 then 0 else (n + d - 1) div d)"
    by (simp only: coded_blocks_def Let_def n_def d_def)
  have s3: "(if n \<le> 0 then Ok 0 else if d = 0 then panic else i64_of ((n + d - 1) div d))
      = (Ok ?cb :: (int, v2_error) result)"
    using cb d0 unfolding cbn by (auto simp: i64_of_def split: if_splits)
  define b where "b = nat ?cb"
  have bcr: "b * ?cr \<le> 2064 * 8" using cb r(5) by (intro mult_le_mono) (auto simp: b_def)
  have b: "b \<le> 2064" using cb by (simp add: b_def)
  have s4: "(if 0 \<le> ?cb then u64_of (nat ?cb) else fail (InvalidField ''coded_blocks''))
      = (Ok (word_of_nat b) :: (u64, v2_error) result)"
    using cb by (simp add: u64_of_Ok b_def)
  have s5: "u64_mul (word_of_nat b) (ucast cr) = (Ok (word_of_nat (b * ?cr)) :: (u64, v2_error) result)"
    by (rule u64_mul_Ok) (use b bcr cr in \<open>simp_all add: unat_u64_of del: of_nat_mult of_nat_add of_nat_power\<close>)
  have s6: "u64_add 8 (word_of_nat (b * ?cr)) = (Ok (word_of_nat (8 + b * ?cr)) :: (u64, v2_error) result)"
    by (rule u64_add_Ok) (use bcr in \<open>simp_all add: unat_u64_of del: of_nat_mult of_nat_add of_nat_power\<close>)
  have s7: "u64_add (ucast preamble) (word_of_nat (8 + b * ?cr)) =
      (Ok (word_of_nat (?pre + (8 + b * ?cr))) :: (u64, v2_error) result)"
    by (rule u64_add_Ok) (use bcr bw(2) cr in \<open>simp_all add: unat_u64_of del: of_nat_mult of_nat_add of_nat_power\<close>)
  have s8: "u64_mul 4 (word_of_nat (?pre + (8 + b * ?cr))) =
      (Ok (word_of_nat (4 * (?pre + (8 + b * ?cr)))) :: (u64, v2_error) result)"
    by (rule u64_mul_Ok) (use bcr bw(2) in \<open>simp_all add: unat_u64_of del: of_nat_mult of_nat_add of_nat_power\<close>)
  have qd: "?q = 4 * (?pre + (8 + b * ?cr)) + 17"
    by (simp only: quarter_symbols_def b_def)
  have s9: "u64_add (word_of_nat (4 * (?pre + (8 + b * ?cr)))) 17 =
      (Ok (word_of_nat ?q) :: (u64, v2_error) result)"
    unfolding qd by (rule u64_add_Ok) (use bcr bw(2) in \<open>simp_all add: unat_u64_of del: of_nat_mult of_nat_add of_nat_power\<close>)
  have s10: "u64_mul (word_of_nat ?q) (word_of_nat ?sn) = (Ok (word_of_nat (?q * ?sn)) :: (u64, v2_error) result)"
    by (rule u64_mul_Ok) (use q sn qs in \<open>simp_all add: unat_u64_of del: of_nat_mult of_nat_add of_nat_power\<close>)
  have s11: "u64_mul 4 (ucast bw) = (Ok (word_of_nat (4 * ?bw)) :: (u64, v2_error) result)"
    by (rule u64_mul_Ok) (use bw(1) cr in \<open>simp_all add: unat_u64_of del: of_nat_mult of_nat_add of_nat_power\<close>)
  let ?n = "?q * ?sn" and ?d = "4 * ?bw"
  have small: "?n < 2 ^ 64" "?d < 2 ^ 64" "?n div ?d + 1 < 2 ^ 64"
    using small_quotient(1) [OF qs] small_quotient(2) [OF qs, of ?d] bw(1) by (blast, simp, blast)
  note div_words = u64_div_ceil [OF small]
  show ?thesis
    unfolding lora_time_on_air_us_def s1 s2 and_then.simps ldro Let_def n_def [symmetric] d_def [symmetric]
      nd s3 s4 s5 s6 s7 s8 s9 s10 s11
    using assms by (simp add: Let_def div_words del: of_nat_mult of_nat_add)
qed

section \<open>Correctness\<close>

definition lora_parameters_ok :: "nat \<Rightarrow> u8 \<Rightarrow> u32 \<Rightarrow> u8 \<Rightarrow> bool" where
  "lora_parameters_ok pl sf bw cr \<longleftrightarrow>
     pl \<le> MAX_PHY_FRAME_LEN \<and> 5 \<le> sf \<and> sf \<le> 12 \<and> 0 < bw \<and> 5 \<le> cr \<and> cr \<le> 8"

text \<open>
  C36. For every payload of at most 255 bytes, spreading factor 5 to 12, non-zero bandwidth and
  coding rate 4/5 to 4/8, the computed airtime is the exact duration of Semtech's equation rounded
  up to the next microsecond: no step of the 64-bit computation overflows. For every other
  parameter set it returns an error.
\<close>

theorem lora_time_on_air_exact:
  "if lora_parameters_ok pl sf bw cr
   then (\<exists>t. lora_time_on_air_us pl sf bw cr preamble explicit crc = Ok t
          \<and> int (unat t) =
              \<lceil>time_on_air_us pl (unat sf) (unat bw) (unat cr) (unat preamble) explicit crc\<rceil>)
   else (\<exists>e. lora_time_on_air_us pl sf bw cr preamble explicit crc = fail e)"
proof (cases "lora_parameters_ok pl sf bw cr")
  case True
  let ?n = "quarter_symbols pl (unat sf) (unat bw) (unat cr) (unat preamble) explicit crc
              * (2 ^ unat sf * 1000000)"
  let ?d = "4 * unat bw"
  have r: "pl \<le> 255" "5 \<le> unat sf" "unat sf \<le> 12" "unat cr \<le> 8" "0 < unat bw"
    using True by (auto simp: lora_parameters_ok_def MAX_PHY_FRAME_LEN_def word_le_nat_alt unat_gt_0
        word_neq_0_conv)
  have "unat preamble < 65536" using unsigned_less [of preamble, where 'a = nat] by simp
  from quarter_symbols_bound [OF r(1-4) this] two_power_12 [OF r(2,3)]
  have "?n \<le> 400000 * 4096000000" by (intro mult_le_mono) auto
  note small = small_quotient(3) [OF this, of ?d]
  define m where "m = (if ?n mod ?d > 0 then ?n div ?d + 1 else ?n div ?d)"
  have "\<lceil>time_on_air_us pl (unat sf) (unat bw) (unat cr) (unat preamble) explicit crc\<rceil> = int m"
    unfolding airtime_real [OF r(2,3,5,1)] m_def using r(5) by (intro ceiling_div_nat) simp
  moreover have "lora_time_on_air_us pl sf bw cr preamble explicit crc = Ok (word_of_nat m)"
    using True lora_time_on_air_us_eq [of pl sf bw cr preamble explicit crc]
    unfolding lora_parameters_ok_def Let_def m_def by blast
  moreover have "unat (word_of_nat m :: u64) = m"
    using small unfolding m_def by (rule unat_u64_of)
  ultimately show ?thesis using True by (metis (mono_tags))
next
  case False
  then show ?thesis
    by (auto simp: lora_time_on_air_us_def lora_parameters_ok_def word_neq_0_conv)
qed

end
