(* ===== verification/Records.thy ===== *)
theory Records
  imports V2_Profile
begin

text \<open>
  The protocol-independent records of \<^verbatim>\<open>crates/vesta-receiver/src/records.rs\<close>: device
  configurations, profile scans and health records as the server stores them, with the validators
  of configurations and scans. \<open>scan_validate_iff\<close> says what an accepted scan satisfies, in terms
  of its bitmaps and the set of its step indexes.
\<close>

section \<open>Records\<close>

definition MAX_HEATER_STEPS :: u8 where "MAX_HEATER_STEPS = 10"

record record_identity =
  ri_common_flags :: u8
  ri_node_id :: u64
  ri_boot_id :: u64
  ri_scan_sequence :: u32
  ri_uptime_ms :: u64
  ri_config_id :: u64
  ri_reset_cause_flags :: u16

record heater_step_configuration =
  hc_step_index :: u8
  hc_target_temperature_celsius :: u16
  hc_configured_duration_us :: u32
  hc_repetition_multiplier :: u8
  hc_readback_heater_current :: u8
  hc_programmed_heater_resistance :: u8
  hc_programmed_gas_wait :: u8

record device_configuration =
  cf_identity :: record_identity
  cf_repeated :: bool
  cf_config_flags :: u8
  cf_firmware_version :: bytes
  cf_firmware_build_flags :: u8
  cf_firmware_build_id :: u64
  cf_sensor_chip_id :: u8
  cf_sensor_variant :: u8
  cf_sensor_i2c_address :: u8
  cf_temperature_oversampling :: u8
  cf_humidity_oversampling :: u8
  cf_pressure_oversampling :: u8
  cf_iir_filter :: u8
  cf_standby_time :: u8
  cf_operation_mode :: u8
  cf_heater_enabled :: u8
  cf_parallel_requested_shared_wait_ms :: u16
  cf_parallel_shared_wait_register :: u8
  cf_parallel_quantized_shared_wait_us :: u32
  cf_tphg_duration_us :: u32
  cf_expected_profile_duration_us :: u32
  cf_profile_id :: u16
  cf_profile_version :: u16
  cf_expected_step_count :: u8
  cf_heater_readback_valid_bitmap :: u16
  cf_calibration_hash_algorithm :: u8
  cf_calibration_hash :: u64
  cf_scan_interval_ms :: u32
  cf_config_repeat_interval_scans :: u16
  cf_output_routes :: u8
  cf_radio_frequency_hz :: u32
  cf_radio_tx_power_dbm :: i8
  cf_radio_spreading_factor :: u8
  cf_radio_bandwidth_hz :: u32
  cf_radio_coding_rate_numerator :: u8
  cf_radio_coding_rate_denominator :: u8
  cf_radio_preamble_symbols :: u16
  cf_radio_header_mode :: u8
  cf_radio_phy_crc_enabled :: u8
  cf_radio_iq_inverted :: u8
  cf_radio_sync_word :: u16
  cf_max_frame_len :: u8
  cf_profile_steps_per_fragment :: u8
  cf_heater_steps :: "heater_step_configuration list"

record step_record =
  st_step_index :: u8
  st_gas_index :: u8
  st_measurement_index :: u8
  st_status_bits :: u8
  st_raw_measurement_status :: u8
  st_raw_gas_status :: u8
  st_target_temperature_celsius :: u16
  st_configured_duration_us :: u32
  st_relative_offset_us :: u32
  st_temperature_centi_celsius :: i16
  st_pressure_pascal :: u32
  st_humidity_milli_percent_rh :: u32
  st_gas_resistance_ohm :: u32
  st_raw_temperature_adc :: u32
  st_raw_pressure_adc :: u32
  st_raw_humidity_adc :: u16
  st_raw_gas_resistance_adc :: u16
  st_raw_gas_range :: u8
  st_repetition_multiplier :: u8
  st_raw_heater_resistance :: u8
  st_raw_heater_current :: u8
  st_raw_gas_wait :: u8

record scan_record =
  pf_identity :: record_identity
  pf_profile_id :: u16
  pf_profile_version :: u16
  pf_expected_steps :: u8
  pf_observed_unique_steps :: u8
  pf_observed_field_count :: u16
  pf_reported_missing_steps :: u16
  pf_duplicate_steps :: u16
  pf_duration_us :: u32
  pf_collection_flags :: u32
  pf_finish_reason :: u8
  pf_duplicate_count :: u16
  pf_overwritten_field_count :: u16
  pf_out_of_order_count :: u16
  pf_ambiguous_index_jump_count :: u16
  pf_invalid_gas_index_count :: u16
  pf_intermediate_field_count :: u16
  pf_profile_rollover_count :: u16
  pf_fields_after_rollover_count :: u16
  pf_poll_count :: u16
  pf_expected_fragment_count :: u8
  pf_received_fragment_bitmap :: u16
  pf_duplicate_fragment_count :: u16
  pf_conflicting_fragment_count :: u16
  pf_steps :: "step_record list"

record health_record =
  hr_identity :: record_identity
  hr_health_flags :: u8
  hr_reset_cause_raw :: u32
  hr_successful_sensor_scans :: u32
  hr_failed_sensor_scans :: u32
  hr_incomplete_profiles :: u32
  hr_i2c_errors :: u32
  hr_radio_tx_errors :: u32
  hr_dropped_profiles :: u32
  hr_dropped_fragments :: u32
  hr_overwritten_fields :: u32
  hr_current_sample_interval_ms :: u32
  hr_firmware_version :: bytes
  hr_profile_id :: u16
  hr_profile_version :: u16
  hr_last_sensor_error :: u16
  hr_last_radio_error :: u16
  hr_calibrated_mcu_temperature_centi_celsius :: "i16 option"
  hr_calibrated_vdd_millivolt :: "u16 option"

datatype record_error =
  InvalidExpectedSteps u8
| ConfigurationStepCount u8 nat
| ConfigurationStepOrder u8 u8
| BitmapOutOfRange string u16 u8
| RecordFragmentCount u8 u8
| FragmentBitmapOutOfRange u16 u8
| ObservedCountMismatch u8 u8
| ObservedFieldCountTooSmall u16 u8
| StepIndexOutOfRange u8 u8
| DuplicateStepIndex u8
| StatusRawMismatch u8 u8 u8
| GasIndexRawMismatch u8 u8 u8
| GasRangeRawMismatch u8 u8 u8
| GasIndexStepMismatch u8 u8
| StepFromMissingFragment u8 u8
| ReceivedFragmentMissingStep u8
| MissingBitmapMismatch u16 u16

section \<open>Operations\<close>

definition expected_step_mask :: "u8 \<Rightarrow> (u16, 'e) result" where
  "expected_step_mask expected_steps = map_ok (\<lambda>w. w - 1) (shl1_u16 (unat expected_steps))"

definition expected_fragment_mask :: "u8 \<Rightarrow> (u16, 'e) result" where
  "expected_fragment_mask expected_fragments =
     map_ok (\<lambda>w. w - 1) (shl1_u16 (unat expected_fragments))"

definition configuration_validate :: "device_configuration \<Rightarrow> (unit, record_error) result" where
  "configuration_validate c =
     checks
      [reject_if (\<not> (1 \<le> cf_expected_step_count c \<and> cf_expected_step_count c \<le> MAX_HEATER_STEPS))
         (InvalidExpectedSteps (cf_expected_step_count c)),
       reject_if (unat (cf_expected_step_count c) \<noteq> length (cf_heater_steps c))
         (ConfigurationStepCount (cf_expected_step_count c) (length (cf_heater_steps c))),
       checks (map (\<lambda>(step, position).
           reject_if (hc_step_index step \<noteq> position)
             (ConfigurationStepOrder position (hc_step_index step)))
         (zip (cf_heater_steps c) (map word_of_nat [0..<unat (cf_expected_step_count c)]))),
       and_then (expected_step_mask (cf_expected_step_count c)) (\<lambda>valid_mask.
         reject_if (cf_heater_readback_valid_bitmap c AND NOT valid_mask \<noteq> 0)
           (BitmapOutOfRange ''heater_readback_valid_bitmap'' (cf_heater_readback_valid_bitmap c)
              (cf_expected_step_count c)))]"

definition STATUS_NEW_DATA :: u8 where "STATUS_NEW_DATA = push_bit 7 1"
definition STATUS_GAS_VALID :: u8 where "STATUS_GAS_VALID = push_bit 5 1"
definition STATUS_HEATER_STABLE :: u8 where "STATUS_HEATER_STABLE = push_bit 4 1"

definition step_is_new_data :: "step_record \<Rightarrow> bool" where
  "step_is_new_data s \<longleftrightarrow> st_status_bits s AND STATUS_NEW_DATA \<noteq> 0"

definition step_is_gas_valid :: "step_record \<Rightarrow> bool" where
  "step_is_gas_valid s \<longleftrightarrow> st_status_bits s AND STATUS_GAS_VALID \<noteq> 0"

definition step_is_heater_stable :: "step_record \<Rightarrow> bool" where
  "step_is_heater_stable s \<longleftrightarrow> st_status_bits s AND STATUS_HEATER_STABLE \<noteq> 0"

definition step_unknown_status_bits :: "step_record \<Rightarrow> u8" where
  "step_unknown_status_bits s =
     st_status_bits s AND NOT (STATUS_NEW_DATA OR STATUS_GAS_VALID OR STATUS_HEATER_STABLE)"

definition validate_raw_consistency :: "step_record \<Rightarrow> (unit, record_error) result" where
  "validate_raw_consistency s =
     (let raw_known_status =
            (st_raw_measurement_status s AND 0x80) OR (st_raw_gas_status s AND 0x30);
          raw_gas_index = st_raw_measurement_status s AND 0x0f;
          raw_gas_range = st_raw_gas_status s AND 0x0f
      in checks
          [reject_if (st_status_bits s AND 0xb0 \<noteq> raw_known_status)
             (StatusRawMismatch (st_step_index s) (st_status_bits s) raw_known_status),
           reject_if (st_gas_index s \<noteq> raw_gas_index)
             (GasIndexRawMismatch (st_step_index s) (st_gas_index s) raw_gas_index),
           reject_if (st_raw_gas_range s \<noteq> raw_gas_range)
             (GasRangeRawMismatch (st_step_index s) (st_raw_gas_range s) raw_gas_range),
           reject_if (st_gas_index s \<noteq> st_step_index s)
             (GasIndexStepMismatch (st_step_index s) (st_gas_index s))])"

definition missing_fragment_bitmap :: "scan_record \<Rightarrow> (u16, 'e) result" where
  "missing_fragment_bitmap s =
     map_ok (\<lambda>mask. mask AND NOT (pf_received_fragment_bitmap s))
       (expected_fragment_mask (pf_expected_fragment_count s))"

definition is_transport_complete :: "scan_record \<Rightarrow> (bool, 'e) result" where
  "is_transport_complete s = map_ok (\<lambda>m. m = 0) (missing_fragment_bitmap s)"

text \<open>\<^verbatim>\<open>1_u16.checked_shl(n).unwrap_or(0)\<close>\<close>

definition checked_bit :: "nat \<Rightarrow> u16" where
  "checked_bit n = (if n < 16 then push_bit n 1 else 0)"

definition observed_mask :: "step_record list \<Rightarrow> u16" where
  "observed_mask steps = foldl (\<lambda>m step. m OR checked_bit (unat (st_step_index step))) 0 steps"

definition computed_unavailable_steps :: "scan_record \<Rightarrow> (u16, 'e) result" where
  "computed_unavailable_steps s =
     map_ok (\<lambda>mask. mask AND NOT (observed_mask (pf_steps s))) (expected_step_mask (pf_expected_steps s))"

definition validate_scan_step :: "scan_record \<Rightarrow> step_record \<Rightarrow> u16 \<Rightarrow> (u16, record_error) result" where
  "validate_scan_step s step observed =
    (if pf_expected_steps s \<le> st_step_index step
     then fail (StepIndexOutOfRange (st_step_index step) (pf_expected_steps s)) else
     and_then (shl1_u16 (unat (st_step_index step))) (\<lambda>b.
     if observed AND b \<noteq> 0 then fail (DuplicateStepIndex (st_step_index step)) else
     and_then (validate_raw_consistency step) (\<lambda>_.
     let fragment_index = st_step_index step div 3 in
     and_then (shl1_u16 (unat fragment_index)) (\<lambda>fb.
     if pf_received_fragment_bitmap s AND fb = 0
     then fail (StepFromMissingFragment (st_step_index step) fragment_index)
     else Ok (observed OR b)))))"

definition validate_scan_position :: "scan_record \<Rightarrow> u16 \<Rightarrow> nat \<Rightarrow> (unit, record_error) result" where
  "validate_scan_position s observed i =
    (and_then (shl1_u16 i) (\<lambda>b.
     and_then (shl1_u16 (i div 3)) (\<lambda>fb.
     let fragment_received = pf_received_fragment_bitmap s AND fb \<noteq> 0;
         sensor_present = pf_reported_missing_steps s AND b = 0 in
     reject_if (fragment_received \<and> sensor_present \<and> observed AND b = 0)
       (ReceivedFragmentMissingStep (word_of_nat i)))))"

definition validate_scan_counts :: "scan_record \<Rightarrow> (unit, record_error) result" where
  "validate_scan_counts s =
     checks
      [reject_if (\<not> (1 \<le> pf_expected_steps s \<and> pf_expected_steps s \<le> MAX_HEATER_STEPS))
         (InvalidExpectedSteps (pf_expected_steps s)),
       (let required_fragments = div_ceil_u8 (pf_expected_steps s) 3 in
        reject_if (pf_expected_fragment_count s \<noteq> required_fragments)
          (RecordFragmentCount required_fragments (pf_expected_fragment_count s))),
       and_then (expected_step_mask (pf_expected_steps s)) (\<lambda>expected_mask.
         checks (map (\<lambda>(field, bitmap).
             reject_if (bitmap AND NOT expected_mask \<noteq> 0)
               (BitmapOutOfRange field bitmap (pf_expected_steps s)))
           [(''reported_missing_steps'', pf_reported_missing_steps s),
            (''duplicate_steps'', pf_duplicate_steps s)])),
       and_then (expected_fragment_mask (pf_expected_fragment_count s)) (\<lambda>fragment_mask.
         reject_if (pf_received_fragment_bitmap s AND NOT fragment_mask \<noteq> 0)
           (FragmentBitmapOutOfRange (pf_received_fragment_bitmap s) (pf_expected_fragment_count s))),
       and_then (sub_u8 (pf_expected_steps s)
                   (if count_ones (pf_reported_missing_steps s) < 256
                    then word_of_nat (count_ones (pf_reported_missing_steps s)) else - 1))
         (\<lambda>sensor_observed.
            reject_if (sensor_observed \<noteq> pf_observed_unique_steps s)
              (ObservedCountMismatch (pf_observed_unique_steps s) sensor_observed)),
       reject_if (pf_observed_field_count s < ucast (pf_observed_unique_steps s))
         (ObservedFieldCountTooSmall (pf_observed_field_count s) (pf_observed_unique_steps s))]"

definition scan_validate :: "scan_record \<Rightarrow> (unit, record_error) result" where
  "scan_validate s =
    (and_then (validate_scan_counts s) (\<lambda>_.
     and_then (for_each (pf_steps s) 0 (validate_scan_step s)) (\<lambda>observed.
     and_then (checks (map (validate_scan_position s observed) [0..<unat (pf_expected_steps s)])) (\<lambda>_.
     and_then (is_transport_complete s) (\<lambda>complete.
     if complete then
       and_then (computed_unavailable_steps s) (\<lambda>computed.
       reject_if (computed \<noteq> pf_reported_missing_steps s)
         (MissingBitmapMismatch (pf_reported_missing_steps s) computed))
     else Ok ())))))"

section \<open>What an accepted scan satisfies\<close>

definition step_positions :: "step_record list \<Rightarrow> nat set" where
  "step_positions steps = (\<lambda>s. unat (st_step_index s)) ` set steps"

definition scan_sound :: "scan_record \<Rightarrow> bool" where
  "scan_sound s \<longleftrightarrow>
    (let n = unat (pf_expected_steps s); missing = pf_reported_missing_steps s;
         received = pf_received_fragment_bitmap s in
     1 \<le> n \<and> n \<le> 10
     \<and> unat (pf_expected_fragment_count s) = (n + 2) div 3
     \<and> (\<forall>i. bit missing i \<longrightarrow> i < n)
     \<and> (\<forall>i. bit (pf_duplicate_steps s) i \<longrightarrow> i < n)
     \<and> (\<forall>j. bit received j \<longrightarrow> j < (n + 2) div 3)
     \<and> unat (pf_observed_unique_steps s) = n - count_ones missing
     \<and> unat (pf_observed_unique_steps s) \<le> unat (pf_observed_field_count s)
     \<and> distinct (map st_step_index (pf_steps s))
     \<and> (\<forall>st \<in> set (pf_steps s). unat (st_step_index st) < n
          \<and> validate_raw_consistency st = Ok () \<and> bit received (unat (st_step_index st) div 3))
     \<and> (\<forall>i < n. bit received (i div 3) \<and> \<not> bit missing i \<longrightarrow> i \<in> step_positions (pf_steps s))
     \<and> ((\<forall>j < (n + 2) div 3. bit received j) \<longrightarrow>
          (\<forall>i < n. bit missing i \<longleftrightarrow> i \<notin> step_positions (pf_steps s))))"

lemma expected_masks_Ok:
  "expected_step_mask n = Ok m \<longleftrightarrow> unat n < 16 \<and> m = mask (unat n)"
  "expected_fragment_mask n = Ok m \<longleftrightarrow> unat n < 16 \<and> m = mask (unat n)"
  by (auto simp: expected_step_mask_def expected_fragment_mask_def shl1_u16_def mask_eq_exp_minus_1)

lemma panics_expected_masks [simp]:
  "panics (expected_step_mask n) \<longleftrightarrow> 16 \<le> unat n"
  "panics (expected_fragment_mask n) \<longleftrightarrow> 16 \<le> unat n"
  by (simp_all add: expected_step_mask_def expected_fragment_mask_def)

lemma panics_validate_raw [simp]: "\<not> panics (validate_raw_consistency s)"
  by (simp add: validate_raw_consistency_def Let_def panics_checks del: checks.simps)

lemma bit_checked_bit: "bit (checked_bit n) i \<longleftrightarrow> n < 16 \<and> i = n"
  by (auto simp: checked_bit_def bit_simps)

lemma bit_observed_mask:
  "bit (observed_mask steps) i \<longleftrightarrow> i < 16 \<and> i \<in> step_positions steps"
proof (induction steps rule: rev_induct)
  case Nil
  then show ?case by (simp add: observed_mask_def step_positions_def)
next
  case (snoc x xs)
  have "observed_mask (xs @ [x]) = observed_mask xs OR checked_bit (unat (st_step_index x))"
    by (simp add: observed_mask_def)
  then show ?case
    using snoc by (auto simp: bit_or_iff bit_checked_bit step_positions_def)
qed

lemma validate_scan_step_Ok:
  assumes "unat (pf_expected_steps s) \<le> 10"
  shows "validate_scan_step s st observed = Ok out \<longleftrightarrow>
     unat (st_step_index st) < unat (pf_expected_steps s)
     \<and> \<not> bit observed (unat (st_step_index st))
     \<and> validate_raw_consistency st = Ok ()
     \<and> bit (pf_received_fragment_bitmap s) (unat (st_step_index st) div 3)
     \<and> out = observed OR checked_bit (unat (st_step_index st))"
  using assms
  by (auto simp: validate_scan_step_def shl1_u16_def Let_def checked_bit_def and_exp_eq_0_iff_not_bit
      word_le_nat_alt unat_div split: if_splits)

lemma validate_scan_step_no_panic:
  assumes "unat (pf_expected_steps s) \<le> 10"
  shows "\<not> panics (validate_scan_step s st observed)"
  using assms
  by (auto simp: validate_scan_step_def panics_and_then Let_def word_le_nat_alt unat_div)

text \<open>The first loop: every step is in range, consistent, received and new.\<close>

lemma validate_scan_steps_Ok:
  assumes "unat (pf_expected_steps s) \<le> 10"
  shows "for_each steps observed (validate_scan_step s) = Ok out \<longleftrightarrow>
     (\<forall>st \<in> set steps. unat (st_step_index st) < unat (pf_expected_steps s)
        \<and> validate_raw_consistency st = Ok ()
        \<and> bit (pf_received_fragment_bitmap s) (unat (st_step_index st) div 3)
        \<and> \<not> bit observed (unat (st_step_index st)))
     \<and> distinct (map st_step_index steps)
     \<and> out = observed OR observed_mask steps"
proof (induction steps arbitrary: observed)
  case Nil
  then show ?case by (auto simp: observed_mask_def)
next
  case (Cons st steps)
  have mask: "observed_mask (st # steps) = checked_bit (unat (st_step_index st)) OR observed_mask steps"
    by (rule bit_word_eqI) (auto simp: bit_observed_mask bit_or_iff bit_checked_bit step_positions_def)
  have eq: "unat a = unat b \<longleftrightarrow> a = b" for a b :: u8 by (simp add: word_unat_eq_iff)
  show ?case
    unfolding for_each.simps and_then_eq_Ok validate_scan_step_Ok [OF assms] Cons.IH mask
    using assms by (auto simp: bit_or_iff bit_checked_bit eq or.assoc image_iff)
qed

lemma validate_scan_position_Ok:
  assumes "i < 10"
  shows "validate_scan_position s observed i = Ok () \<longleftrightarrow>
     \<not> (bit (pf_received_fragment_bitmap s) (i div 3) \<and> \<not> bit (pf_reported_missing_steps s) i
         \<and> \<not> bit observed i)"
proof -
  have "i div 3 < 16" using assms by simp
  then show ?thesis
    using assms by (auto simp: validate_scan_position_def shl1_u16_def Let_def and_exp_eq_0_iff_not_bit)
qed

lemma is_transport_complete_Ok:
  "is_transport_complete s = Ok b \<longleftrightarrow> unat (pf_expected_fragment_count s) < 16
     \<and> b = (\<forall>j < unat (pf_expected_fragment_count s). bit (pf_received_fragment_bitmap s) j)"
proof -
  have "(mask n AND NOT w = 0) \<longleftrightarrow> (\<forall>j<n. bit w j)" if "n < 16" for n and w :: u16
    using that by (auto simp: bit_eq_iff bit_simps)
  then show ?thesis
    by (auto simp: is_transport_complete_def missing_fragment_bitmap_def expected_masks_Ok)
qed

lemma computed_unavailable_Ok:
  assumes "\<And>i. bit m i \<Longrightarrow> i < unat (pf_expected_steps s)" "unat (pf_expected_steps s) \<le> 10"
  shows "computed_unavailable_steps s = Ok m \<longleftrightarrow>
     (\<forall>i < unat (pf_expected_steps s). bit m i \<longleftrightarrow> i \<notin> step_positions (pf_steps s))"
proof -
  have "mask n AND NOT (observed_mask steps) = m \<longleftrightarrow> (\<forall>i<n. bit m i \<longleftrightarrow> i \<notin> step_positions steps)"
    if "n \<le> 10" "\<And>i. bit m i \<Longrightarrow> i < n" for n and steps
  proof -
    have b: "bit (mask n AND NOT (observed_mask steps)) i \<longleftrightarrow> i < n \<and> i \<notin> step_positions steps" for i
      using that(1) by (auto simp: bit_simps bit_observed_mask)
    show ?thesis
      using b that(2) by (auto intro!: bit_word_eqI)
  qed
  from this [OF assms(2,1), of "pf_steps s"] show ?thesis
    using assms(2)
    by (simp only: computed_unavailable_steps_def map_ok_eq_Ok expected_masks_Ok) (auto simp: eq_commute [of m])
qed

lemma scan_counts_Ok:
  assumes "1 \<le> unat (pf_expected_steps s)" "unat (pf_expected_steps s) \<le> 10"
    and "\<And>i. bit (pf_reported_missing_steps s) i \<Longrightarrow> i < unat (pf_expected_steps s)"
  shows "sub_u8 (pf_expected_steps s)
           (if count_ones (pf_reported_missing_steps s) < 256
            then word_of_nat (count_ones (pf_reported_missing_steps s)) else - 1) = Ok k \<longleftrightarrow>
         unat k = unat (pf_expected_steps s) - count_ones (pf_reported_missing_steps s)"
proof -
  let ?c = "count_ones (pf_reported_missing_steps s)"
  have m: "pf_reported_missing_steps s AND NOT (mask (unat (pf_expected_steps s))) = 0"
    using assms(3) by (simp add: and_not_mask_eq_0_iff)
  note o = observed_steps_eq [OF assms(2) m]
  have c: "?c < 256" using count_ones_within [OF m] assms(2) by simp
  have "sub_u8 (pf_expected_steps s) (word_of_nat ?c) =
      (Ok (pf_expected_steps s - word_of_nat ?c) :: (_, v2_error) result)"
    using o(1) c by (simp add: observed_steps_def Let_def)
  then have "(word_of_nat ?c :: u8) \<le> pf_expected_steps s"
    by (auto simp: sub_u8_def split: if_splits)
  then show ?thesis
    using c o(2) by (auto simp: sub_u8_def word_unat_eq_iff)
qed

lemma validate_scan_counts_Ok:
  "validate_scan_counts s = Ok () \<longleftrightarrow>
    (let n = unat (pf_expected_steps s); missing = pf_reported_missing_steps s in
     1 \<le> n \<and> n \<le> 10
     \<and> unat (pf_expected_fragment_count s) = (n + 2) div 3
     \<and> (\<forall>i. bit missing i \<longrightarrow> i < n)
     \<and> (\<forall>i. bit (pf_duplicate_steps s) i \<longrightarrow> i < n)
     \<and> (\<forall>j. bit (pf_received_fragment_bitmap s) j \<longrightarrow> j < (n + 2) div 3)
     \<and> unat (pf_observed_unique_steps s) = n - count_ones missing
     \<and> unat (pf_observed_unique_steps s) \<le> unat (pf_observed_field_count s))"
  (is "_ \<longleftrightarrow> ?rhs")
proof -
  let ?n = "unat (pf_expected_steps s)"
  have range: "1 \<le> pf_expected_steps s \<and> pf_expected_steps s \<le> MAX_HEATER_STEPS \<longleftrightarrow> 1 \<le> ?n \<and> ?n \<le> 10"
    by (simp add: word_le_nat_alt MAX_HEATER_STEPS_def)
  have field: "\<not> pf_observed_field_count s < ucast (pf_observed_unique_steps s) \<longleftrightarrow>
      unat (pf_observed_unique_steps s) \<le> unat (pf_observed_field_count s)"
    by (simp add: not_less word_le_nat_alt unat_ucast_widen)
  show ?thesis
  proof (cases "1 \<le> ?n \<and> ?n \<le> 10 \<and> (\<forall>i. bit (pf_reported_missing_steps s) i \<longrightarrow> i < ?n)")
    case True
    then have r: "1 \<le> ?n" "?n \<le> 10" "\<And>i. bit (pf_reported_missing_steps s) i \<Longrightarrow> i < ?n" by auto
    have fc: "pf_expected_fragment_count s = div_ceil_u8 (pf_expected_steps s) 3 \<longleftrightarrow>
        unat (pf_expected_fragment_count s) = (?n + 2) div 3" "(?n + 2) div 3 < 16"
      using div_ceil_u8_3 [OF r(1,2)] r(2) by (auto simp: word_unat_eq_iff)
    show ?thesis
      unfolding validate_scan_counts_def Let_def checks_eq_Ok
      using True range fc(2)
      by (auto simp: field fc(1) expected_masks_Ok scan_counts_Ok [OF r] and_not_mask_eq_0_iff)
  next
    case False
    then show ?thesis
      unfolding validate_scan_counts_def Let_def checks_eq_Ok
      using range by (auto simp: expected_masks_Ok and_not_mask_eq_0_iff)
  qed
qed

text \<open>Acceptance, in one equation.\<close>

lemma scan_validate_eq_sound: "scan_validate s = Ok () \<longleftrightarrow> scan_sound s"
proof (cases "validate_scan_counts s = Ok ()")
  case True
  let ?n = "unat (pf_expected_steps s)"
  from True have r: "1 \<le> ?n" "?n \<le> 10" "\<And>i. bit (pf_reported_missing_steps s) i \<Longrightarrow> i < ?n"
    and fc: "unat (pf_expected_fragment_count s) = (?n + 2) div 3"
    by (auto simp: validate_scan_counts_Ok Let_def)
  have pos: "(\<forall>c \<in> set (map (validate_scan_position s (observed_mask (pf_steps s))) [0..<?n]). c = Ok ()) \<longleftrightarrow>
      (\<forall>i < ?n. bit (pf_received_fragment_bitmap s) (i div 3) \<and> \<not> bit (pf_reported_missing_steps s) i
         \<longrightarrow> i \<in> step_positions (pf_steps s))"
    using r(2) validate_scan_position_Ok [of _ s] by (auto simp: bit_observed_mask)
  have fin: "(if complete then and_then (computed_unavailable_steps s) (\<lambda>computed.
        reject_if (computed \<noteq> pf_reported_missing_steps s)
          (MissingBitmapMismatch (pf_reported_missing_steps s) computed)) else Ok ()) = Ok () \<longleftrightarrow>
      (complete \<longrightarrow> computed_unavailable_steps s = (Ok (pf_reported_missing_steps s) :: (_, record_error) result))"
    for complete by auto
  have "scan_validate s = Ok () \<longleftrightarrow>
     (\<exists>out. for_each (pf_steps s) 0 (validate_scan_step s) = Ok out
       \<and> (\<forall>c \<in> set (map (validate_scan_position s out) [0..<?n]). c = Ok ())
       \<and> (\<exists>complete. is_transport_complete s = (Ok complete :: (_, record_error) result)
          \<and> (complete \<longrightarrow> computed_unavailable_steps s = (Ok (pf_reported_missing_steps s) :: (_, record_error) result))))"
    unfolding scan_validate_def True and_then.simps and_then_eq_Ok fin checks_eq_Ok by blast
  also have "\<dots> \<longleftrightarrow> scan_sound s"
    using True r(2) fc unfolding validate_scan_steps_Ok [OF r(2)] is_transport_complete_Ok scan_sound_def
      validate_scan_counts_Ok Let_def
    by (auto simp: pos computed_unavailable_Ok [OF r(3,2)] simp del: set_map set_upt)
  finally show ?thesis .
next
  case False
  then show ?thesis
    by (auto simp: scan_validate_def scan_sound_def validate_scan_counts_Ok Let_def)
qed

lemma scan_validate_no_panic_lemma: "\<not> panics (scan_validate s)"
proof -
  have counts: "\<not> panics (validate_scan_counts s)"
  proof -
    let ?n = "unat (pf_expected_steps s)"
    have sub: "\<not> panics (sub_u8 (pf_expected_steps s)
        (if count_ones (pf_reported_missing_steps s) < 256
         then word_of_nat (count_ones (pf_reported_missing_steps s)) else - 1))"
      if "1 \<le> pf_expected_steps s" "pf_expected_steps s \<le> 10"
        "pf_reported_missing_steps s AND NOT (mask ?n) = 0"
    proof -
      have n: "1 \<le> ?n" "?n \<le> 10" using that by (auto simp: word_le_nat_alt)
      have "count_ones (pf_reported_missing_steps s) < 256"
        using count_ones_within [OF that(3)] n(2) by simp
      then show ?thesis
        using observed_steps_eq(1) [OF n(2) that(3)]
        by (auto simp: observed_steps_def Let_def sub_u8_def split: if_splits)
    qed
    have frag: "unat (div_ceil_u8 (pf_expected_steps s) 3) \<le> 4"
      if "1 \<le> pf_expected_steps s" "pf_expected_steps s \<le> 10"
      using div_ceil_u8_3(3) [of "pf_expected_steps s"] that by (simp add: word_le_nat_alt)
    show ?thesis
      unfolding validate_scan_counts_def Let_def
      using sub frag
      by (auto simp: panics_checks panics_and_then MAX_HEATER_STEPS_def expected_masks_Ok
          dest: u8_le_10 simp del: checks.simps)
  qed
  show ?thesis
  proof (cases "validate_scan_counts s = Ok ()")
    case True
    then have n: "unat (pf_expected_steps s) \<le> 10" "unat (pf_expected_fragment_count s) < 16"
      by (auto simp: validate_scan_counts_Ok Let_def)
    have steps: "\<not> panics (for_each (pf_steps s) 0 (validate_scan_step s))"
      using validate_scan_step_no_panic [OF n(1)] by (intro for_each_no_panic)
    have "\<not> panics (checks (map (validate_scan_position s out) [0..<unat (pf_expected_steps s)]))" for out
      using n(1)
      by (intro panics_checks_all) (auto simp: validate_scan_position_def panics_and_then Let_def)
    with steps show ?thesis
      using True n
      by (auto simp: scan_validate_def panics_and_then is_transport_complete_def
          missing_fragment_bitmap_def computed_unavailable_steps_def)
  next
    case False
    then show ?thesis using counts by (auto simp: scan_validate_def panics_and_then)
  qed
qed


text \<open>Configurations.\<close>

lemma zip_agrees_iff:
  "length xs = length ps \<Longrightarrow> (\<forall>p \<in> set (zip xs ps). f (fst p) = snd p) \<longleftrightarrow> map f xs = ps"
  by (induction rule: list_induct2) auto

lemma configuration_validate_eq:
  "configuration_validate c = Ok () \<longleftrightarrow>
     1 \<le> length (cf_heater_steps c) \<and> length (cf_heater_steps c) \<le> 10
     \<and> unat (cf_expected_step_count c) = length (cf_heater_steps c)
     \<and> map hc_step_index (cf_heater_steps c) = map word_of_nat [0..<length (cf_heater_steps c)]
     \<and> (\<forall>i. bit (cf_heater_readback_valid_bitmap c) i \<longrightarrow> i < length (cf_heater_steps c))"
proof -
  let ?n = "unat (cf_expected_step_count c)" and ?hs = "cf_heater_steps c"
  have range: "1 \<le> cf_expected_step_count c \<and> cf_expected_step_count c \<le> MAX_HEATER_STEPS \<longleftrightarrow> 1 \<le> ?n \<and> ?n \<le> 10"
    by (simp add: word_le_nat_alt MAX_HEATER_STEPS_def)
  have order: "(\<forall>p \<in> set (zip ?hs (map word_of_nat [0..<?n])). hc_step_index (fst p) = snd p) \<longleftrightarrow>
      map hc_step_index ?hs = map word_of_nat [0..<length ?hs]" if "?n = length ?hs"
    using zip_agrees_iff [of ?hs "map word_of_nat [0..<?n]" hc_step_index] that by simp
  show ?thesis
  proof (cases "?n = length ?hs")
    case True
    have "configuration_validate c = Ok () \<longleftrightarrow> (1 \<le> ?n \<and> ?n \<le> 10) \<and> ?n = length ?hs
        \<and> (\<forall>p \<in> set (zip ?hs (map word_of_nat [0..<?n])). hc_step_index (fst p) = snd p)
        \<and> (\<exists>m. unat (cf_expected_step_count c) < 16 \<and> m = mask ?n
              \<and> cf_heater_readback_valid_bitmap c AND NOT m = 0)"
      unfolding configuration_validate_def range [symmetric]
      by (simp add: expected_masks_Ok case_prod_beta)
    then show ?thesis using order [OF True] True by (auto simp: and_not_mask_eq_0_iff)
  next
    case False
    then show ?thesis by (simp add: configuration_validate_def)
  qed
qed

text \<open>
  A stored configuration is accepted exactly when it has 1 to 10 heater steps, as many as it
  announces, numbered from 0 in order, and no register read-back bit beyond them.
\<close>

theorem configuration_validate_iff:
  "configuration_validate c = Ok () \<longleftrightarrow>
     1 \<le> length (cf_heater_steps c) \<and> length (cf_heater_steps c) \<le> 10
     \<and> unat (cf_expected_step_count c) = length (cf_heater_steps c)
     \<and> map hc_step_index (cf_heater_steps c) = map word_of_nat [0..<length (cf_heater_steps c)]
     \<and> {i. bit (cf_heater_readback_valid_bitmap c) i} \<subseteq> {..<length (cf_heater_steps c)}"
  unfolding configuration_validate_eq by auto

section \<open>A gap\<close>

text \<open>
  The documentation of \<^verbatim>\<open>ProfileScan::validate\<close> says that disagreement inside a received
  fragment window is an error. The validator compares the two bitmaps only in one direction until
  every fragment has arrived: here the first of two fragments was received, step 1 is reported
  missing by the sensor and is present all the same, and the scan is accepted.
\<close>

definition record_step :: "u8 \<Rightarrow> step_record" where
  "record_step i =
     \<lparr>st_step_index = i,
      st_gas_index = i,
      st_measurement_index = 0,
      st_status_bits = 0xb0,
      st_raw_measurement_status = 0x80 OR i,
      st_raw_gas_status = 0x35,
      st_target_temperature_celsius = 0,
      st_configured_duration_us = 0,
      st_relative_offset_us = 0,
      st_temperature_centi_celsius = 0,
      st_pressure_pascal = 0,
      st_humidity_milli_percent_rh = 0,
      st_gas_resistance_ohm = 0,
      st_raw_temperature_adc = 0,
      st_raw_pressure_adc = 0,
      st_raw_humidity_adc = 0,
      st_raw_gas_resistance_adc = 0,
      st_raw_gas_range = 5,
      st_repetition_multiplier = 0,
      st_raw_heater_resistance = 0,
      st_raw_heater_current = 0,
      st_raw_gas_wait = 0\<rparr>"

definition disagreeing_scan :: scan_record where
  "disagreeing_scan =
     \<lparr>pf_identity = \<lparr>ri_common_flags = 0, ri_node_id = 0, ri_boot_id = 0, ri_scan_sequence = 0,
        ri_uptime_ms = 0, ri_config_id = 0, ri_reset_cause_flags = 0\<rparr>,
      pf_profile_id = 1,
      pf_profile_version = 1,
      pf_expected_steps = 4,
      pf_observed_unique_steps = 3,
      pf_observed_field_count = 3,
      pf_reported_missing_steps = 2,
      pf_duplicate_steps = 0,
      pf_duration_us = 0,
      pf_collection_flags = 0,
      pf_finish_reason = 0,
      pf_duplicate_count = 0,
      pf_overwritten_field_count = 0,
      pf_out_of_order_count = 0,
      pf_ambiguous_index_jump_count = 0,
      pf_invalid_gas_index_count = 0,
      pf_intermediate_field_count = 0,
      pf_profile_rollover_count = 0,
      pf_fields_after_rollover_count = 0,
      pf_poll_count = 0,
      pf_expected_fragment_count = 2,
      pf_received_fragment_bitmap = 1,
      pf_duplicate_fragment_count = 0,
      pf_conflicting_fragment_count = 0,
      pf_steps = [record_step 0, record_step 1, record_step 2]\<rparr>"

text \<open>
  An incomplete scan whose received window contains a step that the sensor reported missing is
  accepted by the validator.
\<close>

theorem scan_validate_accepts_disagreement:
  "scan_validate disagreeing_scan = Ok ()
   \<and> bit (pf_received_fragment_bitmap disagreeing_scan) (1 div 3)
   \<and> bit (pf_reported_missing_steps disagreeing_scan) 1
   \<and> 1 \<in> step_positions (pf_steps disagreeing_scan)"
proof -
  have "scan_validate disagreeing_scan = Ok ()" by code_simp
  moreover have "1 \<in> step_positions (pf_steps disagreeing_scan)"
    by (simp add: step_positions_def disagreeing_scan_def record_step_def)
  ultimately show ?thesis by (simp add: disagreeing_scan_def bit_numeral_rec)
qed

end
