(* ===== verification/Convert.thy ===== *)
theory Convert
  imports V2_Codec Records
begin

text \<open>
  From decoded frames to server records: the conversions at the end of
  \<^verbatim>\<open>crates/vesta-receiver/src/reassembly.rs\<close>. Every integer is carried over unchanged; what a
  valid frame converts to passes the validators of the records.
\<close>

definition record_identity_of :: "header \<Rightarrow> record_identity" where
  "record_identity_of h =
     \<lparr>ri_common_flags = c_flags (h_common h), ri_node_id = c_node_id (h_common h),
      ri_boot_id = c_boot_id (h_common h), ri_scan_sequence = c_scan_sequence (h_common h),
      ri_uptime_ms = c_uptime_ms (h_common h), ri_config_id = c_config_id (h_common h),
      ri_reset_cause_flags = c_reset_cause_flags (h_common h)\<rparr>"

definition heater_step_record :: "nat \<times> heater_step_config \<Rightarrow> heater_step_configuration" where
  "heater_step_record p =
     (case p of (i, step) \<Rightarrow>
       \<lparr>hc_step_index = (if i < 256 then word_of_nat i else - 1),
        hc_target_temperature_celsius = hs_target_temperature_celsius step,
        hc_configured_duration_us = hs_configured_duration_us step,
        hc_repetition_multiplier = hs_repetition_multiplier step,
        hc_readback_heater_current = hs_readback_heater_current step,
        hc_programmed_heater_resistance = hs_programmed_heater_resistance step,
        hc_programmed_gas_wait = hs_programmed_gas_wait step\<rparr>)"

definition device_configuration :: "header \<Rightarrow> device_config \<Rightarrow> (device_configuration, 'e) result" where
  "device_configuration h c =
    and_then (slice (dc_steps c) 0 (unat (dc_expected_step_count c))) (\<lambda>used.
    let heater_steps = map heater_step_record (enumerate 0 used) in
    Ok
     \<lparr>cf_identity = record_identity_of h,
      cf_repeated = (c_flags (h_common h) AND COMMON_FLAG_CONFIG_REPEAT \<noteq> 0),
      cf_config_flags = dc_flags c,
      cf_firmware_version = dc_firmware_version c,
      cf_firmware_build_flags = dc_firmware_build_flags c,
      cf_firmware_build_id = dc_firmware_build_id c,
      cf_sensor_chip_id = dc_sensor_chip_id c,
      cf_sensor_variant = dc_sensor_variant c,
      cf_sensor_i2c_address = dc_sensor_i2c_address c,
      cf_temperature_oversampling = dc_temperature_oversampling c,
      cf_humidity_oversampling = dc_humidity_oversampling c,
      cf_pressure_oversampling = dc_pressure_oversampling c,
      cf_iir_filter = dc_iir_filter c,
      cf_standby_time = dc_standby_time c,
      cf_operation_mode = dc_operation_mode c,
      cf_heater_enabled = dc_heater_enabled c,
      cf_parallel_requested_shared_wait_ms = dc_parallel_requested_shared_wait_ms c,
      cf_parallel_shared_wait_register = dc_parallel_shared_wait_register c,
      cf_parallel_quantized_shared_wait_us = dc_parallel_quantized_shared_wait_us c,
      cf_tphg_duration_us = dc_tphg_duration_us c,
      cf_expected_profile_duration_us = dc_expected_profile_duration_us c,
      cf_profile_id = dc_profile_id c,
      cf_profile_version = dc_profile_version c,
      cf_expected_step_count = dc_expected_step_count c,
      cf_heater_readback_valid_bitmap = dc_heater_readback_valid_bitmap c,
      cf_calibration_hash_algorithm = dc_calibration_hash_algorithm c,
      cf_calibration_hash = dc_calibration_hash c,
      cf_scan_interval_ms = dc_scan_interval_ms c,
      cf_config_repeat_interval_scans = dc_config_repeat_interval_scans c,
      cf_output_routes = dc_output_routes c,
      cf_radio_frequency_hz = dc_radio_frequency_hz c,
      cf_radio_tx_power_dbm = dc_radio_tx_power_dbm c,
      cf_radio_spreading_factor = dc_radio_spreading_factor c,
      cf_radio_bandwidth_hz = dc_radio_bandwidth_hz c,
      cf_radio_coding_rate_numerator = dc_radio_coding_rate_numerator c,
      cf_radio_coding_rate_denominator = dc_radio_coding_rate_denominator c,
      cf_radio_preamble_symbols = dc_radio_preamble_symbols c,
      cf_radio_header_mode = dc_radio_header_mode c,
      cf_radio_phy_crc_enabled = dc_radio_phy_crc_enabled c,
      cf_radio_iq_inverted = dc_radio_iq_inverted c,
      cf_radio_sync_word = dc_radio_sync_word c,
      cf_max_frame_len = dc_max_frame_len c,
      cf_profile_steps_per_fragment = dc_profile_steps_per_fragment c,
      cf_heater_steps = heater_steps\<rparr>)"

definition device_health_record :: "header \<Rightarrow> device_health \<Rightarrow> health_record" where
  "device_health_record h health =
     \<lparr>hr_identity = record_identity_of h,
      hr_health_flags = dh_flags health,
      hr_reset_cause_raw = dh_reset_cause_raw health,
      hr_successful_sensor_scans = dh_successful_sensor_scans health,
      hr_failed_sensor_scans = dh_failed_sensor_scans health,
      hr_incomplete_profiles = dh_incomplete_profiles health,
      hr_i2c_errors = dh_i2c_errors health,
      hr_radio_tx_errors = dh_radio_tx_errors health,
      hr_dropped_profiles = dh_dropped_profiles health,
      hr_dropped_fragments = dh_dropped_fragments health,
      hr_overwritten_fields = dh_overwritten_fields health,
      hr_current_sample_interval_ms = dh_current_sample_interval_ms health,
      hr_firmware_version = dh_firmware_version health,
      hr_profile_id = dh_profile_id health,
      hr_profile_version = dh_profile_version health,
      hr_last_sensor_error = dh_last_sensor_error health,
      hr_last_radio_error = dh_last_radio_error health,
      hr_calibrated_mcu_temperature_centi_celsius = dh_calibrated_mcu_temperature_centi_celsius health,
      hr_calibrated_vdd_millivolt = dh_calibrated_vdd_millivolt health\<rparr>"

definition profile_step :: "profile_step \<Rightarrow> step_record" where
  "profile_step step =
     \<lparr>st_step_index = ps_step_index step,
      st_gas_index = ps_gas_index step,
      st_measurement_index = ps_measurement_index step,
      st_status_bits = ps_status step,
      st_raw_measurement_status = ps_raw_measurement_status step,
      st_raw_gas_status = ps_raw_gas_status step,
      st_target_temperature_celsius = ps_target_temperature_celsius step,
      st_configured_duration_us = ps_configured_duration_us step,
      st_relative_offset_us = ps_offset_us step,
      st_temperature_centi_celsius = ps_temperature_centi_celsius step,
      st_pressure_pascal = ps_pressure_pascal step,
      st_humidity_milli_percent_rh = ps_humidity_milli_percent_rh step,
      st_gas_resistance_ohm = ps_gas_resistance_ohm step,
      st_raw_temperature_adc = ps_temperature_adc step,
      st_raw_pressure_adc = ps_pressure_adc step,
      st_raw_humidity_adc = ps_humidity_adc step,
      st_raw_gas_resistance_adc = ps_gas_resistance_adc step,
      st_raw_gas_range = ps_gas_range step,
      st_repetition_multiplier = ps_repetition_multiplier step,
      st_raw_heater_resistance = ps_heater_resistance step,
      st_raw_heater_current = ps_heater_current step,
      st_raw_gas_wait = ps_gas_wait step\<rparr>"

definition fragment_steps :: "profile_fragment_view \<Rightarrow> (step_record list, v2_error) result" where
  "fragment_steps v =
     for_each [0..<unat (fv_steps_in_fragment v)] [] (\<lambda>i steps.
       and_then (fragment_step v i) (\<lambda>step. Ok (steps @ [profile_step step])))"

datatype converted_record =
  CR_DeviceConfiguration device_configuration
| CR_DeviceHealth health_record

fun convert_non_profile :: "decoded_frame \<Rightarrow> (converted_record option, 'e) result" where
  "convert_non_profile (DF_DeviceConfig h c) =
     map_ok (\<lambda>r. Some (CR_DeviceConfiguration r)) (device_configuration h c)"
| "convert_non_profile (DF_DeviceHealth h health) =
     Ok (Some (CR_DeviceHealth (device_health_record h health)))"
| "convert_non_profile (DF_ProfileFragment v) = Ok None"

section \<open>Steps of a fragment\<close>

lemma fragment_steps_loop:
  assumes "fragment_valid v steps" and "k \<le> length steps"
  shows "for_each [k..<length steps] acc (\<lambda>i out.
           and_then (fragment_step v i) (\<lambda>step. Ok (out @ [profile_step step]))) =
         Ok (acc @ map profile_step (drop k steps))"
  using assms(2)
proof (induction "length steps - k" arbitrary: k acc)
  case 0
  then show ?case by simp
next
  case (Suc n)
  then have k: "k < length steps" "n = length steps - Suc k" by auto
  have upt: "[k..<length steps] = k # [Suc k..<length steps]"
    using k(1) by (simp add: upt_conv_Cons)
  have "drop k steps = steps ! k # drop (Suc k) steps"
    using k(1) by (simp add: Cons_nth_drop_Suc)
  then show ?case
    unfolding upt using Suc.hyps(1) [OF k(2)] k(1) fragment_step_valid [OF assms(1) k(1)] by simp
qed

lemma fragment_steps_valid:
  assumes "fragment_valid v steps"
  shows "fragment_steps v = Ok (map profile_step steps)"
proof -
  have "unat (fv_steps_in_fragment v) = length steps"
    using assms steps_encode_length [of steps] by (auto simp: fragment_valid_def unat_steps_in_fragment)
  then show ?thesis
    using fragment_steps_loop [OF assms, of 0 "[]"] by (simp add: fragment_steps_def)
qed

lemma profile_step_sel [simp]:
  "st_step_index (profile_step s) = ps_step_index s"
  by (simp add: profile_step_def)

lemma validate_raw_profile_step:
  "validate_raw_consistency (profile_step s) = Ok () \<longleftrightarrow> validate_profile_step s = Ok ()"
  by (simp add: validate_raw_consistency_def validate_profile_step_def profile_step_def Let_def)

section \<open>Configurations\<close>

lemma device_configuration_Ok:
  assumes "wf_config c" and "validate_config c = Ok ()"
  shows "\<exists>r. (device_configuration h c :: (_, 'e) result) = Ok r
     \<and> configuration_validate r = Ok () \<and> cf_identity r = record_identity_of h"
proof -
  note b = validate_config_bounds [OF assms(2)]
  let ?n = "unat (dc_expected_step_count c)"
  have len: "length (dc_steps c) = 10" using assms(1) by (simp add: wf_config_def MAX_PROFILE_STEPS_def)
  have used: "slice (dc_steps c) 0 ?n = (Ok (take ?n (dc_steps c)) :: (_, 'e) result)"
    using len b(2) by (simp add: slice_def)
  obtain r where r: "(device_configuration h c :: (_, 'e) result) = Ok r"
    by (simp add: device_configuration_def used Let_def)
  have steps: "cf_heater_steps r = map heater_step_record (enumerate 0 (take ?n (dc_steps c)))"
    and rest: "cf_expected_step_count r = dc_expected_step_count c"
      "cf_heater_readback_valid_bitmap r = dc_heater_readback_valid_bitmap c" "cf_identity r = record_identity_of h"
    using r by (auto simp: device_configuration_def used Let_def)
  have "map hc_step_index (cf_heater_steps r) = map word_of_nat [0..<?n]"
    unfolding steps using len b(2)
    by (intro nth_equalityI) (auto simp: heater_step_record_def nth_enumerate_eq)
  moreover have "bit (dc_heater_readback_valid_bitmap c) i \<Longrightarrow> i < ?n" for i
    using assms(2) by (auto simp: validate_config_def step_mask_Ok and_not_mask_eq_0_iff)
  moreover have "length (cf_heater_steps r) = ?n" using len b(2) by (simp add: steps)
  ultimately show ?thesis
    using r rest b(1,2) by (simp add: configuration_validate_eq)
qed

text \<open>
  C34. A configuration frame that the decoder accepts converts without a panic to a server record
  under the identity of its header, and the server's own validation accepts that record.
\<close>

theorem decoded_configuration_valid:
  assumes "decode bs = Ok (DF_DeviceConfig h c)"
  shows "\<exists>r. (convert_non_profile (DF_DeviceConfig h c) :: (_, 'e) result)
        = Ok (Some (CR_DeviceConfiguration r))
     \<and> configuration_validate r = Ok () \<and> cf_identity r = record_identity_of h"
proof -
  have "wf_config c" "validate_config c = Ok ()"
    using assms by (auto simp: decode_iff)
  from device_configuration_Ok [OF this, of h] show ?thesis by auto
qed

theorem decoded_configuration_valid_witness:
  "\<exists>r. (convert_non_profile (DF_DeviceConfig (config_header sample_common sample_config True) sample_config)
        :: (_, v2_error) result) = Ok (Some (CR_DeviceConfiguration r))
     \<and> configuration_validate r = Ok ()"
  using sample_config_encodes config_frame_decodes [OF sample_wf(1)] decoded_configuration_valid by blast

end
