(* ===== verification/Reassembly.thy ===== *)
theory Reassembly
  imports Convert "HOL-Library.Multiset"
begin

text \<open>
  The profile-fragment reassembler of \<^verbatim>\<open>crates/vesta-receiver/src/reassembly.rs\<close>: a bounded
  table of incomplete scans, a bounded queue of recently completed ones, and the operations on
  them.

  The \<^verbatim>\<open>HashMap\<close> of active scans is an association list. Where the source iterates over it, the
  order is the parameter \<open>it\<close>, a function of the entries; the standard library promises only that
  an iteration visits every entry once (\<open>visits_all\<close>). An \<^verbatim>\<open>Instant\<close> is a number of ticks of the
  monotonic clock.
\<close>

section \<open>State\<close>

record profile_key =
  pk_node_id :: u64
  pk_boot_id_valid :: bool
  pk_boot_id :: u64
  pk_scan_sequence :: u32
  pk_uptime_ms :: u64
  pk_config_id :: u64

definition profile_key_of :: "header \<Rightarrow> profile_key" where
  "profile_key_of h =
     \<lparr>pk_node_id = c_node_id (h_common h),
      pk_boot_id_valid = (c_flags (h_common h) AND COMMON_FLAG_BOOT_ID_VALID \<noteq> 0),
      pk_boot_id = c_boot_id (h_common h),
      pk_scan_sequence = c_scan_sequence (h_common h),
      pk_uptime_ms = c_uptime_ms (h_common h),
      pk_config_id = c_config_id (h_common h)\<rparr>"

record radio_metadata =
  rm_packet_rssi_centi_dbm :: i16
  rm_snr_centi_db :: i16
  rm_signal_rssi_centi_dbm :: i16

record source_fragment =
  sf_packet_id :: int
  sf_fragment_index :: u8
  sf_received_at_unix_ms :: int
  sf_radio :: radio_metadata

record reassembled_profile =
  rp_scan :: scan_record
  rp_fragments :: "source_fragment list"

fun first_received_at_unix_ms :: "reassembled_profile \<Rightarrow> int option" where
  "first_received_at_unix_ms p =
     (case map sf_received_at_unix_ms (rp_fragments p) of
        [] \<Rightarrow> None | t # ts \<Rightarrow> Some (foldl min t ts))"

fun last_received_at_unix_ms :: "reassembled_profile \<Rightarrow> int option" where
  "last_received_at_unix_ms p =
     (case map sf_received_at_unix_ms (rp_fragments p) of
        [] \<Rightarrow> None | t # ts \<Rightarrow> Some (foldl max t ts))"

record reassembly_progress =
  pg_key :: profile_key
  pg_received_fragment_bitmap :: u16
  pg_missing_fragment_bitmap :: u16

datatype fragment_event =
  Pending reassembly_progress
| Complete reassembled_profile
| Duplicate profile_key u8
| Conflict profile_key u8

record ingest_result =
  ig_event :: fragment_event
  ig_evicted :: "reassembled_profile option"
  ig_integrity_snapshot :: "reassembled_profile option"

datatype reassembly_error =
  InvalidCapacity
| SourceFragmentIndex u8 u8
| Codec v2_error
| InternalState

record profile_metadata =
  pm_key :: profile_key
  pm_identity :: record_identity
  pm_profile_id :: u16
  pm_profile_version :: u16
  pm_expected_steps :: u8
  pm_observed_unique_steps :: u8
  pm_observed_field_count :: u16
  pm_reported_missing_steps :: u16
  pm_duplicate_steps :: u16
  pm_duration_us :: u32
  pm_collection_flags :: u32
  pm_finish_reason :: u8
  pm_duplicate_count :: u16
  pm_overwritten_field_count :: u16
  pm_out_of_order_count :: u16
  pm_ambiguous_index_jump_count :: u16
  pm_invalid_gas_index_count :: u16
  pm_intermediate_field_count :: u16
  pm_profile_rollover_count :: u16
  pm_fields_after_rollover_count :: u16
  pm_poll_count :: u16
  pm_expected_fragment_count :: u8

record owned_fragment =
  of_metadata :: profile_metadata
  of_fragment_index :: u8
  of_steps :: "step_record list"

definition metadata_of_view :: "profile_fragment_view \<Rightarrow> profile_metadata" where
  "metadata_of_view view =
     \<lparr>pm_key = profile_key_of (fv_header view),
      pm_identity = record_identity_of (fv_header view),
      pm_profile_id = fv_profile_id view,
      pm_profile_version = fv_profile_version view,
      pm_expected_steps = fv_expected_step_count view,
      pm_observed_unique_steps = fv_observed_unique_step_count view,
      pm_observed_field_count = fv_observed_field_count view,
      pm_reported_missing_steps = fv_missing_steps_bitmap view,
      pm_duplicate_steps = fv_duplicate_steps_bitmap view,
      pm_duration_us = fv_scan_duration_us view,
      pm_collection_flags = fv_collection_flags view,
      pm_finish_reason = fv_finish_reason view,
      pm_duplicate_count = fv_duplicate_count view,
      pm_overwritten_field_count = fv_overwritten_field_count view,
      pm_out_of_order_count = fv_out_of_order_count view,
      pm_ambiguous_index_jump_count = fv_ambiguous_index_jump_count view,
      pm_invalid_gas_index_count = fv_invalid_gas_index_count view,
      pm_intermediate_field_count = fv_intermediate_field_count view,
      pm_profile_rollover_count = fv_profile_rollover_count view,
      pm_fields_after_rollover_count = fv_fields_after_rollover_count view,
      pm_poll_count = fv_poll_count view,
      pm_expected_fragment_count = h_fragment_count (fv_header view)\<rparr>"

definition owned_fragment_from_view :: "profile_fragment_view \<Rightarrow> (owned_fragment, v2_error) result" where
  "owned_fragment_from_view view =
     and_then (fragment_steps view) (\<lambda>steps.
     Ok \<lparr>of_metadata = metadata_of_view view,
         of_fragment_index = h_fragment_index (fv_header view),
         of_steps = steps\<rparr>)"

record active_profile =
  ap_metadata :: profile_metadata
  ap_fragments :: "owned_fragment option list"
  ap_sources :: "source_fragment list"
  ap_received_fragment_bitmap :: u16
  ap_duplicate_fragment_count :: u16
  ap_conflicting_fragment_count :: u16
  ap_last_observed_at :: nat

definition active_profile_new :: "owned_fragment \<Rightarrow> nat \<Rightarrow> active_profile" where
  "active_profile_new fragment observed_at =
     \<lparr>ap_metadata = of_metadata fragment,
      ap_fragments = replicate (unat (pm_expected_fragment_count (of_metadata fragment))) None,
      ap_sources = [],
      ap_received_fragment_bitmap = 0,
      ap_duplicate_fragment_count = 0,
      ap_conflicting_fragment_count = 0,
      ap_last_observed_at = observed_at\<rparr>"

text \<open>\<^verbatim>\<open>iter().flatten()\<close> on a list of options.\<close>

definition flatten :: "'a option list \<Rightarrow> 'a list" where
  "flatten xs = map the (filter (\<lambda>x. x \<noteq> None) xs)"

text \<open>
  \<^verbatim>\<open>sort_unstable_by_key\<close> leaves the order of equal keys open; \<open>sort_key\<close> keeps it. The steps of an
  active profile have different indexes (\<open>finish_steps\<close> in \<open>Reassembly_Profile\<close>), so the two agree.
\<close>

definition finish :: "active_profile \<Rightarrow> reassembled_profile" where
  "finish a =
     (let steps = sort_key st_step_index (concat (map of_steps (flatten (ap_fragments a))));
          m = ap_metadata a
      in \<lparr>rp_scan =
        \<lparr>pf_identity = pm_identity m,
         pf_profile_id = pm_profile_id m,
         pf_profile_version = pm_profile_version m,
         pf_expected_steps = pm_expected_steps m,
         pf_observed_unique_steps = pm_observed_unique_steps m,
         pf_observed_field_count = pm_observed_field_count m,
         pf_reported_missing_steps = pm_reported_missing_steps m,
         pf_duplicate_steps = pm_duplicate_steps m,
         pf_duration_us = pm_duration_us m,
         pf_collection_flags = pm_collection_flags m,
         pf_finish_reason = pm_finish_reason m,
         pf_duplicate_count = pm_duplicate_count m,
         pf_overwritten_field_count = pm_overwritten_field_count m,
         pf_out_of_order_count = pm_out_of_order_count m,
         pf_ambiguous_index_jump_count = pm_ambiguous_index_jump_count m,
         pf_invalid_gas_index_count = pm_invalid_gas_index_count m,
         pf_intermediate_field_count = pm_intermediate_field_count m,
         pf_profile_rollover_count = pm_profile_rollover_count m,
         pf_fields_after_rollover_count = pm_fields_after_rollover_count m,
         pf_poll_count = pm_poll_count m,
         pf_expected_fragment_count = pm_expected_fragment_count m,
         pf_received_fragment_bitmap = ap_received_fragment_bitmap a,
         pf_duplicate_fragment_count = ap_duplicate_fragment_count a,
         pf_conflicting_fragment_count = ap_conflicting_fragment_count a,
         pf_steps = steps\<rparr>,
       rp_fragments = ap_sources a\<rparr>)"

definition snapshot :: "active_profile \<Rightarrow> reassembled_profile" where
  "snapshot a = finish a"

record completed_profile =
  cp_key :: profile_key
  cp_fragments :: "owned_fragment option list"
  cp_completed_at :: nat

record profile_reassembler =
  pr_active :: "(profile_key \<times> active_profile) list"
  pr_completed :: "completed_profile list"
  pr_max_active :: nat

definition fragment_mask :: "u8 \<Rightarrow> (u16, 'e) result" where
  "fragment_mask fragment_count = map_ok (\<lambda>w. w - 1) (shl1_u16 (unat fragment_count))"

section \<open>Operations\<close>

definition DEFAULT_MAX_ACTIVE_SCANS :: nat where "DEFAULT_MAX_ACTIVE_SCANS = 128"

definition reassembler_default :: profile_reassembler where
  "reassembler_default =
     \<lparr>pr_active = [], pr_completed = [], pr_max_active = DEFAULT_MAX_ACTIVE_SCANS\<rparr>"

definition with_capacity :: "nat \<Rightarrow> (profile_reassembler, reassembly_error) result" where
  "with_capacity max_active =
     (if max_active = 0 then fail InvalidCapacity
      else Ok \<lparr>pr_active = [], pr_completed = [], pr_max_active = max_active\<rparr>)"

text \<open>\<^verbatim>\<open>Iterator::min_by_key\<close>: the first element with the smallest key.\<close>

fun min_by_key :: "('a \<Rightarrow> 'k::linorder) \<Rightarrow> 'a list \<Rightarrow> 'a option" where
  "min_by_key f [] = None"
| "min_by_key f (x # xs) =
     (case min_by_key f xs of
        None \<Rightarrow> Some x
      | Some y \<Rightarrow> Some (if f y < f x then y else x))"

type_synonym active_entries = "(profile_key \<times> active_profile) list"

text \<open>What the standard library promises of an iteration over a \<^verbatim>\<open>HashMap\<close>: every entry once.\<close>

definition visits_all :: "(active_entries \<Rightarrow> active_entries) \<Rightarrow> bool" where
  "visits_all it \<longleftrightarrow> (\<forall>xs. mset (it xs) = mset xs)"

text \<open>
  The eviction before a new key enters a full table: the entry with the oldest observation time is
  removed and handed out.
\<close>

definition evict ::
  "(active_entries \<Rightarrow> active_entries) \<Rightarrow> profile_key \<Rightarrow> profile_reassembler
     \<Rightarrow> reassembled_profile option \<times> active_entries" where
  "evict it key r =
    (if map_of (pr_active r) key = None \<and> pr_max_active r \<le> length (pr_active r) then
       (case map_option fst (min_by_key (\<lambda>e. ap_last_observed_at (snd e)) (it (pr_active r))) of
          None \<Rightarrow> (None, pr_active r)
        | Some oldest_key \<Rightarrow>
            (case map_of (pr_active r) oldest_key of
               None \<Rightarrow> (None, pr_active r)
             | Some oldest \<Rightarrow> (Some (finish oldest), AList.delete oldest_key (pr_active r))))
     else (None, pr_active r))"

text \<open>
  The end of a complete scan: its entry leaves the table and joins the queue of recently completed
  scans, from which the oldest are dropped down to the capacity. An entry that is not in the table
  is the internal error of the source.
\<close>

definition complete_entry ::
  "profile_key \<Rightarrow> profile_reassembler \<Rightarrow> (reassembled_profile \<times> profile_reassembler, reassembly_error) result" where
  "complete_entry key r =
    and_then (ok_or (map_of (pr_active r) key) InternalState) (\<lambda>entry.
    let completed = pr_completed r @
          [\<lparr>cp_key = key, cp_fragments = ap_fragments entry, cp_completed_at = ap_last_observed_at entry\<rparr>]
    in Ok (finish entry,
           r\<lparr>pr_active := AList.delete key (pr_active r),
             pr_completed := drop (length completed - pr_max_active r) completed\<rparr>))"

definition ingest_at ::
  "(active_entries \<Rightarrow> active_entries) \<Rightarrow> profile_fragment_view \<Rightarrow> source_fragment \<Rightarrow> nat
     \<Rightarrow> profile_reassembler \<Rightarrow> (ingest_result \<times> profile_reassembler, reassembly_error) result" where
  "ingest_at it fragment source observed_at r =
    and_then (map_err Codec (owned_fragment_from_view fragment)) (\<lambda>owned.
    if sf_fragment_index source \<noteq> of_fragment_index owned
    then fail (SourceFragmentIndex (sf_fragment_index source) (of_fragment_index owned)) else
    let key = pm_key (of_metadata owned); index_u8 = of_fragment_index owned; i = unat index_u8 in
    case find (\<lambda>entry. cp_key entry = key) (pr_completed r) of
      Some completed \<Rightarrow>
        let event =
              (if i < length (cp_fragments completed) \<and> cp_fragments completed ! i = Some owned
               then Duplicate key index_u8 else Conflict key index_u8)
        in Ok (\<lparr>ig_event = event, ig_evicted = None, ig_integrity_snapshot = None\<rparr>, r)
    | None \<Rightarrow>
        let (evicted, active) = evict it key r;
            entry = (case map_of active key of
                       Some a \<Rightarrow> a | None \<Rightarrow> active_profile_new owned observed_at)
        in
        if ap_metadata entry \<noteq> of_metadata owned then
          let entry = entry\<lparr>ap_conflicting_fragment_count :=
                              saturating_add (ap_conflicting_fragment_count entry) 1\<rparr>
          in Ok (\<lparr>ig_event = Conflict key index_u8, ig_evicted = evicted,
                  ig_integrity_snapshot = Some (snapshot entry)\<rparr>,
                 r\<lparr>pr_active := AList.update key entry active\<rparr>)
        else
        and_then (index (ap_fragments entry) i) (\<lambda>slot.
        case slot of
          Some previous \<Rightarrow>
            let (event, entry) =
                  (if previous = owned
                   then (Duplicate key index_u8,
                         entry\<lparr>ap_duplicate_fragment_count :=
                                 saturating_add (ap_duplicate_fragment_count entry) 1\<rparr>)
                   else (Conflict key index_u8,
                         entry\<lparr>ap_conflicting_fragment_count :=
                                 saturating_add (ap_conflicting_fragment_count entry) 1\<rparr>))
            in Ok (\<lparr>ig_event = event, ig_evicted = evicted,
                    ig_integrity_snapshot = Some (snapshot entry)\<rparr>,
                   r\<lparr>pr_active := AList.update key entry active\<rparr>)
        | None \<Rightarrow>
            and_then (shl1_u16 i) (\<lambda>b.
            let entry = entry\<lparr>ap_received_fragment_bitmap := ap_received_fragment_bitmap entry OR b,
                              ap_last_observed_at := max (ap_last_observed_at entry) observed_at,
                              ap_sources := ap_sources entry @ [source],
                              ap_fragments := (ap_fragments entry)[i := Some owned]\<rparr>;
                r = r\<lparr>pr_active := AList.update key entry active\<rparr>
            in
            and_then (fragment_mask (pm_expected_fragment_count (ap_metadata entry))) (\<lambda>expected_mask.
            if ap_received_fragment_bitmap entry = expected_mask then
              and_then (complete_entry key r) (\<lambda>(profile, r).
              Ok (\<lparr>ig_event = Complete profile, ig_evicted = evicted, ig_integrity_snapshot = None\<rparr>, r))
            else
              Ok (\<lparr>ig_event = Pending
                     \<lparr>pg_key = key,
                      pg_received_fragment_bitmap = ap_received_fragment_bitmap entry,
                      pg_missing_fragment_bitmap =
                        expected_mask AND NOT (ap_received_fragment_bitmap entry)\<rparr>,
                   ig_evicted = evicted, ig_integrity_snapshot = None\<rparr>, r)))))"

text \<open>\<^verbatim>\<open>ingest\<close> reads the clock and calls \<^verbatim>\<open>ingest_at\<close>.\<close>

definition ingest ::
  "(active_entries \<Rightarrow> active_entries) \<Rightarrow> nat \<Rightarrow> profile_fragment_view \<Rightarrow> source_fragment
     \<Rightarrow> profile_reassembler \<Rightarrow> (ingest_result \<times> profile_reassembler, reassembly_error) result" where
  "ingest it now fragment source r = ingest_at it fragment source now r"

definition expire_before ::
  "(active_entries \<Rightarrow> active_entries) \<Rightarrow> nat \<Rightarrow> profile_reassembler
     \<Rightarrow> reassembled_profile list \<times> profile_reassembler" where
  "expire_before it cutoff r =
    (let expired_keys =
           map fst (filter (\<lambda>(key, scan). ap_last_observed_at scan < cutoff) (it (pr_active r)));
         (expired, active) =
           foldl (\<lambda>(expired, active) key.
                    case map_of active key of
                      Some scan \<Rightarrow> (expired @ [finish scan], AList.delete key active)
                    | None \<Rightarrow> (expired, active))
             ([], pr_active r) expired_keys
     in (expired,
         r\<lparr>pr_active := active,
           pr_completed := filter (\<lambda>entry. cutoff \<le> cp_completed_at entry) (pr_completed r)\<rparr>))"

definition expire_older_than ::
  "(active_entries \<Rightarrow> active_entries) \<Rightarrow> nat \<Rightarrow> nat \<Rightarrow> profile_reassembler
     \<Rightarrow> reassembled_profile list \<times> profile_reassembler" where
  "expire_older_than it now maximum_age r =
    (if maximum_age \<le> now then expire_before it (now - maximum_age) r else ([], r))"

definition drain_incomplete ::
  "(active_entries \<Rightarrow> active_entries) \<Rightarrow> profile_reassembler
     \<Rightarrow> reassembled_profile list \<times> profile_reassembler" where
  "drain_incomplete it r = (map (\<lambda>(_, scan). finish scan) (it (pr_active r)), r\<lparr>pr_active := []\<rparr>)"

definition active_len :: "profile_reassembler \<Rightarrow> nat" where
  "active_len r = length (pr_active r)"

definition contains_active :: "profile_key \<Rightarrow> profile_reassembler \<Rightarrow> bool" where
  "contains_active key r \<longleftrightarrow> map_of (pr_active r) key \<noteq> None"

definition discard :: "profile_key \<Rightarrow> profile_reassembler \<Rightarrow> profile_reassembler" where
  "discard key r =
     r\<lparr>pr_active := AList.delete key (pr_active r),
       pr_completed := filter (\<lambda>profile. cp_key profile \<noteq> key) (pr_completed r)\<rparr>"

definition restore_receiver_counts ::
  "profile_key \<Rightarrow> u16 \<Rightarrow> u16 \<Rightarrow> profile_reassembler \<Rightarrow> (profile_reassembler, reassembly_error) result" where
  "restore_receiver_counts key duplicate_fragment_count conflicting_fragment_count r =
     and_then (ok_or (map_of (pr_active r) key) InternalState) (\<lambda>entry.
     Ok (r\<lparr>pr_active := AList.update key
            (entry\<lparr>ap_duplicate_fragment_count :=
                     saturating_add (ap_duplicate_fragment_count entry) duplicate_fragment_count,
                   ap_conflicting_fragment_count :=
                     saturating_add (ap_conflicting_fragment_count entry) conflicting_fragment_count\<rparr>)
            (pr_active r)\<rparr>))"

end
