(* ===== verification/Reassembly_Profile.thy ===== *)
theory Reassembly_Profile
  imports Reassembly
begin

text \<open>
  What the reassembler keeps of one scan: the facts a decoded fragment brings with it, the
  invariant of an active profile, and the proof that whatever leaves the reassembler, complete or
  not, is a scan that the record validator accepts.
\<close>

section \<open>Decoded fragments\<close>

definition metadata_ok :: "profile_metadata \<Rightarrow> bool" where
  "metadata_ok m \<longleftrightarrow>
    (let n = unat (pm_expected_steps m); missing = pm_reported_missing_steps m in
     1 \<le> n \<and> n \<le> 10
     \<and> unat (pm_expected_fragment_count m) = (n + 2) div 3
     \<and> (\<forall>i. bit missing i \<longrightarrow> i < n)
     \<and> (\<forall>i. bit (pm_duplicate_steps m) i \<longrightarrow> i < n)
     \<and> unat (pm_observed_unique_steps m) = n - count_ones missing
     \<and> unat (pm_observed_unique_steps m) \<le> unat (pm_observed_field_count m))"

text \<open>The positions fragment \<open>i\<close> of a scan carries.\<close>

definition window :: "profile_metadata \<Rightarrow> nat \<Rightarrow> nat list" where
  "window m i =
     filter (\<lambda>j. \<not> bit (pm_reported_missing_steps m) j) [3 * i..<min (3 * i + 3) (unat (pm_expected_steps m))]"

definition owned_ok :: "owned_fragment \<Rightarrow> bool" where
  "owned_ok f \<longleftrightarrow>
     metadata_ok (of_metadata f)
     \<and> of_fragment_index f < pm_expected_fragment_count (of_metadata f)
     \<and> map (\<lambda>s. unat (st_step_index s)) (of_steps f) = window (of_metadata f) (unat (of_fragment_index f))
     \<and> (\<forall>s \<in> set (of_steps f). validate_raw_consistency s = Ok ())"

lemma metadata_ok_view:
  assumes "fragment_meta_valid v"
  shows "metadata_ok (metadata_of_view v)"
proof -
  have n: "1 \<le> unat (fv_expected_step_count v)" "unat (fv_expected_step_count v) \<le> 10"
    and m: "fv_missing_steps_bitmap v AND NOT (mask (unat (fv_expected_step_count v))) = 0"
    using assms by (auto simp: fragment_meta_valid_def)
  have "unat (fv_observed_unique_step_count v) \<le> unat (fv_observed_field_count v)"
    using assms by (auto simp: fragment_meta_valid_def word_le_nat_alt unat_ucast_widen)
  moreover have "unat (fv_observed_unique_step_count v) =
      unat (fv_expected_step_count v) - count_ones (fv_missing_steps_bitmap v)"
    using assms observed_steps_eq(2) [OF n(2) m] by (simp add: fragment_meta_valid_def)
  ultimately show ?thesis
    using assms div_ceil_u8_3(1) [OF n]
    by (auto simp: metadata_ok_def metadata_of_view_def fragment_meta_valid_def and_not_mask_eq_0_iff
        STEPS_PER_FRAGMENT_U8_def Let_def)
qed

lemma fragment_present_window:
  assumes "fragment_meta_valid v"
  shows "fragment_present v = window (metadata_of_view v) (unat (h_fragment_index (fv_header v)))"
proof -
  have "unat (fv_expected_step_count v) \<le> 10" using assms by (simp add: fragment_meta_valid_def)
  then show ?thesis
    unfolding fragment_present_def window_def present_in_window_def fragment_window_start_def
    by (auto simp: metadata_of_view_def STEPS_PER_FRAGMENT_def mult.commute and_exp_eq_0_iff_not_bit
        intro!: filter_cong)
qed

text \<open>Extracting an owned fragment from a decoded view succeeds and keeps all of it.\<close>

lemma owned_fragment_from_view_Ok:
  assumes "fragment_valid v steps" and "header_valid (fv_header v)"
  shows "\<exists>f. owned_fragment_from_view v = Ok f \<and> owned_ok f \<and> of_metadata f = metadata_of_view v
     \<and> of_fragment_index f = h_fragment_index (fv_header v) \<and> of_steps f = map profile_step steps"
proof -
  have valid: "fragment_meta_valid v" "steps_encode steps (fragment_present v) (fv_step_bytes v)"
    using assms(1) by (auto simp: fragment_valid_def)
  have "map (\<lambda>s. unat (st_step_index s)) (map profile_step steps) = fragment_present v"
    using valid(2) by (simp add: steps_encode_def o_def)
  moreover have "\<forall>s \<in> set (map profile_step steps). validate_raw_consistency s = Ok ()"
    using valid(2) by (auto simp: steps_encode_def validate_raw_profile_step)
  ultimately show ?thesis
    using assms(2) metadata_ok_view [OF valid(1)] fragment_present_window [OF valid(1)]
    by (auto simp: owned_fragment_from_view_def fragment_steps_valid [OF assms(1)] owned_ok_def
        header_valid_def metadata_of_view_def)
qed

section \<open>Active profiles\<close>

definition slot_ok :: "profile_metadata \<Rightarrow> u16 \<Rightarrow> nat \<Rightarrow> owned_fragment option \<Rightarrow> bool" where
  "slot_ok m received i slot \<longleftrightarrow>
     (case slot of
        None \<Rightarrow> \<not> bit received i
      | Some f \<Rightarrow> bit received i \<and> owned_ok f \<and> of_metadata f = m \<and> unat (of_fragment_index f) = i)"

definition profile_ok :: "active_profile \<Rightarrow> bool" where
  "profile_ok a \<longleftrightarrow>
     metadata_ok (ap_metadata a)
     \<and> length (ap_fragments a) = unat (pm_expected_fragment_count (ap_metadata a))
     \<and> (\<forall>i < length (ap_fragments a).
          slot_ok (ap_metadata a) (ap_received_fragment_bitmap a) i (ap_fragments a ! i))
     \<and> (\<forall>i. bit (ap_received_fragment_bitmap a) i \<longrightarrow> i < length (ap_fragments a))
     \<and> distinct (map sf_fragment_index (ap_sources a))
     \<and> (\<lambda>s. unat (sf_fragment_index s)) ` set (ap_sources a) = {i. bit (ap_received_fragment_bitmap a) i}"

lemma profile_okD:
  assumes "profile_ok a"
  shows "metadata_ok (ap_metadata a)"
    and "length (ap_fragments a) = unat (pm_expected_fragment_count (ap_metadata a))"
    and "i < length (ap_fragments a) \<Longrightarrow>
      slot_ok (ap_metadata a) (ap_received_fragment_bitmap a) i (ap_fragments a ! i)"
    and "bit (ap_received_fragment_bitmap a) i \<Longrightarrow> i < length (ap_fragments a)"
    and "distinct (map sf_fragment_index (ap_sources a))"
    and "(\<lambda>s. unat (sf_fragment_index s)) ` set (ap_sources a) = {i. bit (ap_received_fragment_bitmap a) i}"
  using assms unfolding profile_ok_def by blast+

lemma slot_free:
  assumes "profile_ok a" and "i < length (ap_fragments a)"
  shows "ap_fragments a ! i = None \<longleftrightarrow> \<not> bit (ap_received_fragment_bitmap a) i"
  using profile_okD(3) [OF assms] by (cases "ap_fragments a ! i") (simp_all add: slot_ok_def)

lemma slot_taken:
  assumes "profile_ok a" and "i < length (ap_fragments a)" and "ap_fragments a ! i = Some f"
  shows "owned_ok f" and "of_metadata f = ap_metadata a" and "unat (of_fragment_index f) = i"
  using profile_okD(3) [OF assms(1,2)] assms(3) by (simp_all add: slot_ok_def)

text \<open>The step lists of the received fragments, laid end to end, are the received positions in order.\<close>

lemma concat_windows:
  "concat (map (\<lambda>i. if P i then filter Q [3 * i..<min (3 * i + 3) n] else []) [0..<c]) =
     filter (\<lambda>j. P (j div 3) \<and> Q j) [0..<min (3 * c) n]"
proof (induction c)
  case 0
  then show ?case by simp
next
  case (Suc c)
  have split: "[0..<min (3 * Suc c) n] = [0..<min (3 * c) n] @ [3 * c..<min (3 * c + 3) n]"
  proof (cases "3 * c \<le> n")
    case True
    then obtain k where k: "min (3 * c + 3) n = 3 * c + k"
      using le_Suc_ex [of "3 * c" "min (3 * c + 3) n"] by auto
    have "[0..<3 * c + k] = [0..<3 * c] @ [3 * c..<3 * c + k]"
      by (rule upt_add_eq_append) simp
    then show ?thesis using True k by (simp add: add.commute)
  next
    case False
    then show ?thesis by simp
  qed
  have "filter (\<lambda>j. P (j div 3) \<and> Q j) [3 * c..<min (3 * c + 3) n] =
      (if P c then filter Q [3 * c..<min (3 * c + 3) n] else [])"
  proof -
    have "j div 3 = c" if "j \<in> set [3 * c..<min (3 * c + 3) n]" for j
      using that by auto
    then show ?thesis by (auto intro: filter_cong simp: filter_empty_conv)
  qed
  then show ?case unfolding split by (simp add: Suc.IH)
qed

definition received_positions :: "active_profile \<Rightarrow> nat list" where
  "received_positions a =
     filter (\<lambda>j. bit (ap_received_fragment_bitmap a) (j div 3)
              \<and> \<not> bit (pm_reported_missing_steps (ap_metadata a)) j)
       [0..<unat (pm_expected_steps (ap_metadata a))]"

lemma concat_flatten:
  "concat (map g (flatten xs)) = concat (map (\<lambda>x. case x of None \<Rightarrow> [] | Some y \<Rightarrow> g y) xs)"
  by (induction xs) (auto simp: flatten_def split: option.splits)

lemma map_as_nth: "map h xs = map (\<lambda>i. h (xs ! i)) [0..<length xs]"
  by (rule nth_equalityI) auto

lemma active_positions:
  assumes "profile_ok a"
  shows "map (\<lambda>s. unat (st_step_index s)) (concat (map of_steps (flatten (ap_fragments a)))) =
     received_positions a"
proof -
  let ?m = "ap_metadata a" and ?c = "length (ap_fragments a)" and ?n = "unat (pm_expected_steps (ap_metadata a))"
  have c: "?n \<le> 3 * ?c" "?c = (?n + 2) div 3"
    using assms by (auto simp: profile_ok_def metadata_ok_def Let_def)
  have "map (\<lambda>s. unat (st_step_index s)) (concat (map of_steps (flatten (ap_fragments a)))) =
      concat (map (\<lambda>i. map (\<lambda>s. unat (st_step_index s))
        (case ap_fragments a ! i of None \<Rightarrow> [] | Some f \<Rightarrow> of_steps f)) [0..<?c])"
    unfolding concat_flatten
    by (subst map_as_nth [of _ "ap_fragments a"]) (simp only: map_concat map_map o_def)
  also have "\<dots> = concat (map (\<lambda>i. if bit (ap_received_fragment_bitmap a) i
        then filter (\<lambda>j. \<not> bit (pm_reported_missing_steps ?m) j) [3 * i..<min (3 * i + 3) ?n] else []) [0..<?c])"
  proof (intro arg_cong [where f = concat] map_cong refl)
    fix i
    assume "i \<in> set [0..<?c]"
    then have "slot_ok ?m (ap_received_fragment_bitmap a) i (ap_fragments a ! i)"
      using assms by (auto simp: profile_ok_def)
    then show "map (\<lambda>s. unat (st_step_index s)) (case ap_fragments a ! i of None \<Rightarrow> [] | Some f \<Rightarrow> of_steps f) =
        (if bit (ap_received_fragment_bitmap a) i
         then filter (\<lambda>j. \<not> bit (pm_reported_missing_steps ?m) j) [3 * i..<min (3 * i + 3) ?n] else [])"
      by (auto simp: slot_ok_def owned_ok_def window_def split: option.splits)
  qed
  also have "\<dots> = received_positions a"
    unfolding concat_windows received_positions_def using c(1) by (simp add: min_def)
  finally show ?thesis .
qed

lemma sort_key_sorted:
  assumes "sorted (map f xs)"
  shows "sort_key f xs = xs"
  using assms by (induction xs) (auto simp: insort_is_Cons)

lemma sorted_step_indexes:
  assumes "profile_ok a"
  shows "sorted (map st_step_index (concat (map of_steps (flatten (ap_fragments a)))))"
    and "distinct (map st_step_index (concat (map of_steps (flatten (ap_fragments a)))))"
proof -
  let ?xs = "concat (map of_steps (flatten (ap_fragments a)))"
  have pos: "map unat (map st_step_index ?xs) = received_positions a"
    using active_positions [OF assms] by (simp only: map_map o_def)
  have "sorted (received_positions a)" "distinct (received_positions a)"
    unfolding received_positions_def
    using sorted_filter [of "\<lambda>x. x" "[0..<unat (pm_expected_steps (ap_metadata a))]"] by simp_all
  then show "sorted (map st_step_index ?xs)" "distinct (map st_step_index ?xs)"
    unfolding pos [symmetric] by (auto simp: sorted_map word_le_nat_alt distinct_map dest: inj_on_imageI2)
qed

text \<open>
  The steps of a reassembled profile: sorting has nothing left to do, so the order does not depend
  on the stability of the sort.
\<close>

lemma finish_steps:
  assumes "profile_ok a"
  shows "pf_steps (rp_scan (finish a)) = concat (map of_steps (flatten (ap_fragments a)))"
    and "map (\<lambda>s. unat (st_step_index s)) (pf_steps (rp_scan (finish a))) = received_positions a"
    and "distinct (map st_step_index (pf_steps (rp_scan (finish a))))"
proof -
  show steps: "pf_steps (rp_scan (finish a)) = concat (map of_steps (flatten (ap_fragments a)))"
    unfolding finish_def Let_def by (simp add: sort_key_sorted [OF sorted_step_indexes(1) [OF assms]])
  show "map (\<lambda>s. unat (st_step_index s)) (pf_steps (rp_scan (finish a))) = received_positions a"
    unfolding steps by (rule active_positions [OF assms])
  show "distinct (map st_step_index (pf_steps (rp_scan (finish a))))"
    unfolding steps by (rule sorted_step_indexes(2) [OF assms])
qed

lemma finish_step_ok:
  assumes "profile_ok a" and "s \<in> set (pf_steps (rp_scan (finish a)))"
  shows "validate_raw_consistency s = Ok ()"
proof -
  have "s \<in> set (concat (map of_steps (flatten (ap_fragments a))))"
    using assms(2) by (simp only: finish_steps(1) [OF assms(1)])
  then obtain f where f: "f \<in> set (flatten (ap_fragments a))" "s \<in> set (of_steps f)"
    unfolding set_concat set_map by blast
  then have "Some f \<in> set (ap_fragments a)" unfolding flatten_def by force
  then obtain i where "i < length (ap_fragments a)" "ap_fragments a ! i = Some f"
    unfolding in_set_conv_nth by blast
  then have "owned_ok f" by (rule slot_taken(1) [OF assms(1)])
  then show ?thesis using f(2) by (simp add: owned_ok_def)
qed

lemma finish_sel [simp]:
  "pf_expected_steps (rp_scan (finish a)) = pm_expected_steps (ap_metadata a)"
  "pf_expected_fragment_count (rp_scan (finish a)) = pm_expected_fragment_count (ap_metadata a)"
  "pf_reported_missing_steps (rp_scan (finish a)) = pm_reported_missing_steps (ap_metadata a)"
  "pf_duplicate_steps (rp_scan (finish a)) = pm_duplicate_steps (ap_metadata a)"
  "pf_observed_unique_steps (rp_scan (finish a)) = pm_observed_unique_steps (ap_metadata a)"
  "pf_observed_field_count (rp_scan (finish a)) = pm_observed_field_count (ap_metadata a)"
  "pf_received_fragment_bitmap (rp_scan (finish a)) = ap_received_fragment_bitmap a"
  "pf_identity (rp_scan (finish a)) = pm_identity (ap_metadata a)"
  "rp_fragments (finish a) = ap_sources a"
  by (simp_all add: finish_def Let_def)

text \<open>Whatever is finished, complete or not, is accepted by the validator of scans.\<close>

lemma finish_sound:
  assumes "profile_ok a"
  shows "scan_sound (rp_scan (finish a))"
proof -
  let ?n = "unat (pm_expected_steps (ap_metadata a))"
  have m: "metadata_ok (ap_metadata a)"
    and len: "length (ap_fragments a) = unat (pm_expected_fragment_count (ap_metadata a))"
    and bits: "\<And>i. bit (ap_received_fragment_bitmap a) i \<Longrightarrow> i < length (ap_fragments a)"
    using assms by (auto simp: profile_ok_def)
  have "step_positions (pf_steps (rp_scan (finish a))) =
      set (map (\<lambda>s. unat (st_step_index s)) (pf_steps (rp_scan (finish a))))"
    by (simp add: step_positions_def)
  then have pos: "step_positions (pf_steps (rp_scan (finish a))) =
      {j. j < ?n \<and> bit (ap_received_fragment_bitmap a) (j div 3)
        \<and> \<not> bit (pm_reported_missing_steps (ap_metadata a)) j}"
    unfolding finish_steps(2) [OF assms] received_positions_def by auto
  have mem: "unat (st_step_index s) < ?n \<and> bit (ap_received_fragment_bitmap a) (unat (st_step_index s) div 3)"
    if "s \<in> set (pf_steps (rp_scan (finish a)))" for s
  proof -
    have "unat (st_step_index s) \<in> step_positions (pf_steps (rp_scan (finish a)))"
      using that by (simp add: step_positions_def)
    then show ?thesis unfolding pos by blast
  qed
  have div: "j div 3 < (?n + 2) div 3" if "j < ?n" for j
    using that by (simp add: less_Suc_eq_le div_le_mono)
  show ?thesis
    using m len bits mem finish_step_ok [OF assms] finish_steps(3) [OF assms] div
    unfolding scan_sound_def metadata_ok_def Let_def pos
    by (auto simp del: distinct_map)
qed

section \<open>Accepting a fragment\<close>

text \<open>What \<^verbatim>\<open>ingest_at\<close> does to the entry when the slot of the fragment is free.\<close>

definition accept :: "owned_fragment \<Rightarrow> source_fragment \<Rightarrow> nat \<Rightarrow> active_profile \<Rightarrow> active_profile" where
  "accept f source observed_at a =
     a\<lparr>ap_received_fragment_bitmap :=
         ap_received_fragment_bitmap a OR push_bit (unat (of_fragment_index f)) 1,
       ap_last_observed_at := max (ap_last_observed_at a) observed_at,
       ap_sources := ap_sources a @ [source],
       ap_fragments := (ap_fragments a)[unat (of_fragment_index f) := Some f]\<rparr>"

lemma profile_ok_new:
  assumes "owned_ok f"
  shows "profile_ok (active_profile_new f t)"
  using assms by (simp add: profile_ok_def active_profile_new_def slot_ok_def owned_ok_def)

lemma owned_index_bound:
  assumes "profile_ok a" and "owned_ok f" and "of_metadata f = ap_metadata a"
  shows "unat (of_fragment_index f) < length (ap_fragments a)" "length (ap_fragments a) \<le> 4"
proof -
  show "unat (of_fragment_index f) < length (ap_fragments a)"
    using assms by (simp add: profile_ok_def owned_ok_def word_less_nat_alt)
  show "length (ap_fragments a) \<le> 4"
    using assms(1) by (auto simp: profile_ok_def metadata_ok_def Let_def)
qed

lemma profile_ok_accept:
  assumes "profile_ok a" and "owned_ok f" and "of_metadata f = ap_metadata a"
    and "ap_fragments a ! unat (of_fragment_index f) = None"
    and "sf_fragment_index source = of_fragment_index f"
  shows "profile_ok (accept f source t a)"
proof -
  let ?i = "unat (of_fragment_index f)"
  note b = owned_index_bound [OF assms(1-3)]
  have i16: "?i < 16" using b by simp
  have free: "\<not> bit (ap_received_fragment_bitmap a) ?i"
    using slot_free [OF assms(1) b(1)] assms(4) by simp
  have sel: "ap_metadata (accept f source t a) = ap_metadata a"
    "ap_fragments (accept f source t a) = (ap_fragments a)[?i := Some f]"
    "ap_sources (accept f source t a) = ap_sources a @ [source]"
    by (simp_all add: accept_def)
  have bits: "bit (ap_received_fragment_bitmap (accept f source t a)) j \<longleftrightarrow>
      bit (ap_received_fragment_bitmap a) j \<or> j = ?i" for j
    using i16 by (auto simp: accept_def bit_simps)
  have slots: "slot_ok (ap_metadata a) (ap_received_fragment_bitmap (accept f source t a)) j
      ((ap_fragments a)[?i := Some f] ! j)" if "j < length (ap_fragments a)" for j
  proof (cases "j = ?i")
    case True
    then show ?thesis using assms(2,3) that bits by (simp add: slot_ok_def)
  next
    case False
    then show ?thesis
      using profile_okD(3) [OF assms(1) that] bits [of j] unfolding slot_ok_def
      by (cases "ap_fragments a ! j") simp_all
  qed
  have src: "sf_fragment_index source \<notin> sf_fragment_index ` set (ap_sources a)"
  proof
    assume "sf_fragment_index source \<in> sf_fragment_index ` set (ap_sources a)"
    then have "?i \<in> (\<lambda>s. unat (sf_fragment_index s)) ` set (ap_sources a)"
      using assms(5) by (metis (no_types, lifting) image_iff)
    then show False using free unfolding profile_okD(6) [OF assms(1)] by simp
  qed
  have img: "(\<lambda>s. unat (sf_fragment_index s)) ` set (ap_sources a @ [source]) =
      {j. bit (ap_received_fragment_bitmap (accept f source t a)) j}"
    using profile_okD(6) [OF assms(1)] bits assms(5) by auto
  have bound: "j < length (ap_fragments a)"
    if "bit (ap_received_fragment_bitmap (accept f source t a)) j" for j
    using that bits [of j] profile_okD(4) [OF assms(1)] b(1) by blast
  show ?thesis
    unfolding profile_ok_def sel
    using profile_okD(1,2,5) [OF assms(1)] slots src img bound by simp
qed

text \<open>Counting duplicates and conflicts changes nothing else.\<close>

lemma profile_ok_counts [simp]:
  "profile_ok (a\<lparr>ap_duplicate_fragment_count := d\<rparr>) = profile_ok a"
  "profile_ok (a\<lparr>ap_conflicting_fragment_count := c\<rparr>) = profile_ok a"
  by (simp_all add: profile_ok_def)

text \<open>Completeness, read off the bitmap.\<close>

definition profile_complete :: "active_profile \<Rightarrow> bool" where
  "profile_complete a \<longleftrightarrow> None \<notin> set (ap_fragments a)"

lemma fragment_mask_Ok: "fragment_mask n = Ok m \<longleftrightarrow> unat n < 16 \<and> m = mask (unat n)"
  by (auto simp: fragment_mask_def shl1_u16_def mask_eq_exp_minus_1)

lemma bitmap_full_iff:
  assumes "profile_ok a"
  shows "ap_received_fragment_bitmap a = mask (length (ap_fragments a)) \<longleftrightarrow> profile_complete a"
proof -
  have len: "length (ap_fragments a) \<le> 4"
    using assms by (auto simp: profile_ok_def metadata_ok_def Let_def)
  have slot: "bit (ap_received_fragment_bitmap a) i \<longleftrightarrow> ap_fragments a ! i \<noteq> None"
    if "i < length (ap_fragments a)" for i
    using slot_free [OF assms that] by simp
  have "ap_received_fragment_bitmap a = mask (length (ap_fragments a)) \<longleftrightarrow>
      (\<forall>i < length (ap_fragments a). bit (ap_received_fragment_bitmap a) i)"
    using profile_okD(4) [OF assms] len by (auto simp: bit_eq_iff bit_mask_iff)
  also have "\<dots> \<longleftrightarrow> profile_complete a"
    using slot by (auto simp: profile_complete_def in_set_conv_nth)
  finally show ?thesis .
qed

end
