(* ===== verification/Reassembly_Table.thy ===== *)
theory Reassembly_Table
  imports Reassembly_Profile
begin

text \<open>
  The table of active scans seen through the interface the reassembler uses: lookup, insertion and
  removal by key. The laws are a locale, interpreted on the association list of the model. On top
  of it: the invariant of the whole reassembler, and what an eviction does to the table.
\<close>

section \<open>Keyed tables\<close>

locale keyed_table =
  fixes lookup :: "'t \<Rightarrow> 'k \<Rightarrow> 'v option"
    and enter :: "'k \<Rightarrow> 'v \<Rightarrow> 't \<Rightarrow> 't"
    and remove :: "'k \<Rightarrow> 't \<Rightarrow> 't"
    and entries :: "'t \<Rightarrow> nat"
    and ok :: "'t \<Rightarrow> bool"
  assumes lookup_enter: "lookup (enter k v t) = (lookup t)(k \<mapsto> v)"
    and lookup_remove: "lookup (remove k t) = (lookup t)(k := None)"
    and entries_card: "ok t \<Longrightarrow> finite (dom (lookup t)) \<and> entries t = card (dom (lookup t))"
    and ok_enter: "ok t \<Longrightarrow> ok (enter k v t)"
    and ok_remove: "ok t \<Longrightarrow> ok (remove k t)"
begin

lemma entries_enter:
  assumes "ok t"
  shows "entries (enter k v t) = (if lookup t k = None then Suc (entries t) else entries t)"
proof -
  have "dom (lookup (enter k v t)) = insert k (dom (lookup t))"
    by (auto simp: lookup_enter)
  then show ?thesis
    using entries_card [OF assms] entries_card [OF ok_enter [OF assms, of k v]]
    by (auto simp: card_insert_if domIff)
qed

lemma entries_remove:
  assumes "ok t"
  shows "entries (remove k t) = (if lookup t k = None then entries t else entries t - 1)"
proof -
  have "dom (lookup (remove k t)) = dom (lookup t) - {k}"
    by (auto simp: lookup_remove)
  then show ?thesis
    using entries_card [OF assms] entries_card [OF ok_remove [OF assms, of k]]
    by (auto simp: card_Diff_singleton_if domIff)
qed

lemma all_enter:
  assumes "\<And>k v. lookup t k = Some v \<Longrightarrow> P k v" and "P k0 v0"
    and "lookup (enter k0 v0 t) k = Some v"
  shows "P k v"
  using assms by (auto simp: lookup_enter split: if_splits)

lemma all_remove:
  assumes "\<And>k v. lookup t k = Some v \<Longrightarrow> P k v" and "lookup (remove k0 t) k = Some v"
  shows "P k v"
  using assms by (auto simp: lookup_remove split: if_splits)

end

lemma distinct_keys_card:
  assumes "distinct (map fst xs)"
  shows "length xs = card (dom (map_of xs))"
  using distinct_card [OF assms] by (simp add: dom_map_of_conv_image_fst)

interpretation active_table:
  keyed_table map_of AList.update AList.delete length "\<lambda>xs. distinct (map fst xs)"
  by unfold_locales
     (simp_all add: AList.update_conv' AList.delete_conv' distinct_keys_card finite_dom_map_of
       AList.distinct_update AList.distinct_delete)

section \<open>The invariant\<close>

definition entry_ok :: "profile_key \<Rightarrow> active_profile \<Rightarrow> bool" where
  "entry_ok key a \<longleftrightarrow>
     pm_key (ap_metadata a) = key \<and> profile_ok a \<and> \<not> profile_complete a
     \<and> ap_received_fragment_bitmap a \<noteq> 0"

text \<open>A completed scan keeps a copy of each of its fragments.\<close>

definition completed_ok :: "completed_profile \<Rightarrow> bool" where
  "completed_ok c \<longleftrightarrow>
     (\<exists>m. metadata_ok m \<and> pm_key m = cp_key c
        \<and> length (cp_fragments c) = unat (pm_expected_fragment_count m)
        \<and> (\<forall>i < length (cp_fragments c). \<exists>f. cp_fragments c ! i = Some f
             \<and> owned_ok f \<and> of_metadata f = m \<and> unat (of_fragment_index f) = i))"

definition reassembler_inv :: "profile_reassembler \<Rightarrow> bool" where
  "reassembler_inv r \<longleftrightarrow>
     0 < pr_max_active r
     \<and> distinct (map fst (pr_active r))
     \<and> length (pr_active r) \<le> pr_max_active r
     \<and> (\<forall>key a. map_of (pr_active r) key = Some a \<longrightarrow> entry_ok key a)
     \<and> distinct (map cp_key (pr_completed r))
     \<and> length (pr_completed r) \<le> pr_max_active r
     \<and> (\<forall>c \<in> set (pr_completed r). completed_ok c \<and> map_of (pr_active r) (cp_key c) = None)"

lemma reassembler_invD:
  assumes "reassembler_inv r"
  shows "0 < pr_max_active r"
    and "distinct (map fst (pr_active r))"
    and "length (pr_active r) \<le> pr_max_active r"
    and "map_of (pr_active r) key = Some a \<Longrightarrow> entry_ok key a"
    and "distinct (map cp_key (pr_completed r))"
    and "length (pr_completed r) \<le> pr_max_active r"
    and "c \<in> set (pr_completed r) \<Longrightarrow> completed_ok c"
    and "c \<in> set (pr_completed r) \<Longrightarrow> map_of (pr_active r) (cp_key c) = None"
  using assms unfolding reassembler_inv_def by blast+

lemma with_capacity_inv:
  assumes "with_capacity n = Ok r"
  shows "reassembler_inv r" "pr_active r = []" "pr_completed r = []" "pr_max_active r = n"
  using assms by (auto simp: with_capacity_def reassembler_inv_def split: if_splits)

lemma reassembler_default_inv: "reassembler_inv reassembler_default"
  by (simp add: reassembler_inv_def reassembler_default_def DEFAULT_MAX_ACTIVE_SCANS_def)

text \<open>Replacing one entry, and removing one, keep the invariant.\<close>

lemma inv_enter:
  assumes "reassembler_inv r" and "entry_ok key a"
    and "map_of (pr_active r) key = None \<Longrightarrow> length (pr_active r) < pr_max_active r"
    and "key \<notin> cp_key ` set (pr_completed r)"
  shows "reassembler_inv (r\<lparr>pr_active := AList.update key a (pr_active r)\<rparr>)"
proof -
  note D = reassembler_invD [OF assms(1)]
  have "length (AList.update key a (pr_active r)) \<le> pr_max_active r"
    using active_table.entries_enter [OF D(2), of key a] D(3) assms(3) by auto
  moreover have "entry_ok k b" if "map_of (AList.update key a (pr_active r)) k = Some b" for k b
    using D(4) assms(2) that by (rule active_table.all_enter [where P = entry_ok])
  moreover have "map_of (AList.update key a (pr_active r)) (cp_key c) = None"
    if "c \<in> set (pr_completed r)" for c
    using D(8) [OF that] that assms(4) by (auto simp: AList.update_conv')
  ultimately show ?thesis
    unfolding reassembler_inv_def
    using D(1,2,5,6,7) active_table.ok_enter [OF D(2)] by simp
qed

lemma inv_remove:
  assumes "reassembler_inv r"
  shows "reassembler_inv (r\<lparr>pr_active := AList.delete key (pr_active r)\<rparr>)"
proof -
  note D = reassembler_invD [OF assms]
  have "length (AList.delete key (pr_active r)) \<le> pr_max_active r"
    using AList.length_delete_le [of key "pr_active r"] D(3) by simp
  moreover have "entry_ok k b" if "map_of (AList.delete key (pr_active r)) k = Some b" for k b
    using D(4) that by (rule active_table.all_remove [where P = entry_ok])
  moreover have "map_of (AList.delete key (pr_active r)) (cp_key c) = None"
    if "c \<in> set (pr_completed r)" for c
    using D(8) [OF that] by (simp add: AList.delete_conv')
  ultimately show ?thesis
    unfolding reassembler_inv_def
    using D(1,2,5,6,7) active_table.ok_remove [OF D(2)] by simp
qed

lemma inv_filter_completed:
  assumes "reassembler_inv r"
  shows "reassembler_inv (r\<lparr>pr_completed := filter P (pr_completed r)\<rparr>)"
  using assms le_trans [OF length_filter_le [of P "pr_completed r"]]
  unfolding reassembler_inv_def by (simp add: distinct_map_filter)

section \<open>Eviction\<close>

lemma min_by_key_Some:
  "xs \<noteq> [] \<Longrightarrow> \<exists>x. min_by_key f xs = Some x \<and> x \<in> set xs \<and> (\<forall>y \<in> set xs. f x \<le> f y)"
proof (induction xs)
  case Nil
  then show ?case by simp
next
  case (Cons a xs)
  show ?case
  proof (cases "xs = []")
    case True
    then show ?thesis by simp
  next
    case False
    with Cons obtain x where x: "min_by_key f xs = Some x" "x \<in> set xs" "\<forall>y \<in> set xs. f x \<le> f y"
      by blast
    then show ?thesis by (force simp: not_less)
  qed
qed

lemma visits_set: "visits_all it \<Longrightarrow> set (it xs) = set xs"
  unfolding visits_all_def by (metis mset_eq_setD)

text \<open>
  A full table gives up its least recently observed entry when a new key arrives; in every other
  case nothing is evicted.
\<close>

lemma evict_room:
  "map_of (pr_active r) key \<noteq> None \<or> length (pr_active r) < pr_max_active r \<Longrightarrow>
     evict it key r = (None, pr_active r)"
  by (auto simp: evict_def)

lemma evict_full:
  assumes "reassembler_inv r" and "visits_all it"
    and "map_of (pr_active r) key = None" and "length (pr_active r) = pr_max_active r"
  obtains old a where "map_of (pr_active r) old = Some a"
    "\<And>k b. map_of (pr_active r) k = Some b \<Longrightarrow> ap_last_observed_at a \<le> ap_last_observed_at b"
    "evict it key r = (Some (finish a), AList.delete old (pr_active r))"
proof -
  note D = reassembler_invD [OF assms(1)]
  let ?f = "\<lambda>e :: profile_key \<times> active_profile. ap_last_observed_at (snd e)"
  have set: "set (it (pr_active r)) = set (pr_active r)" by (rule visits_set [OF assms(2)])
  have "it (pr_active r) \<noteq> []"
    using set D(1) assms(4) by (metis length_0_conv less_nat_zero_code set_empty2)
  then obtain x where x: "min_by_key ?f (it (pr_active r)) = Some x" "x \<in> set (pr_active r)"
    "\<forall>y \<in> set (pr_active r). ?f x \<le> ?f y"
    using min_by_key_Some [of "it (pr_active r)" ?f] unfolding set by blast
  have m: "map_of (pr_active r) (fst x) = Some (snd x)"
    using x(2) D(2) by (simp add: map_of_is_SomeI)
  have least: "ap_last_observed_at (snd x) \<le> ap_last_observed_at b"
    if "map_of (pr_active r) k = Some b" for k b
    using x(3) map_of_SomeD [OF that] by fastforce
  have "evict it key r = (Some (finish (snd x)), AList.delete (fst x) (pr_active r))"
    using assms(3,4) x(1) m by (simp add: evict_def)
  with m least show ?thesis by (rule that)
qed

text \<open>What is known of the table after the eviction step.\<close>

lemma evict_sound:
  assumes "reassembler_inv r" and "visits_all it" and "evict it key r = (evicted, active)"
  shows "reassembler_inv (r\<lparr>pr_active := active\<rparr>)"
    and "map_of active key = None \<Longrightarrow> length active < pr_max_active r"
    and "map_of active key = map_of (pr_active r) key"
    and "evicted = Some p \<Longrightarrow> \<exists>a. p = finish a \<and> profile_ok a"
proof -
  note D = reassembler_invD [OF assms(1)]
  have *: "reassembler_inv (r\<lparr>pr_active := active\<rparr>)
      \<and> (map_of active key = None \<longrightarrow> length active < pr_max_active r)
      \<and> map_of active key = map_of (pr_active r) key
      \<and> (\<forall>p. evicted = Some p \<longrightarrow> (\<exists>a. p = finish a \<and> profile_ok a))"
  proof (cases "map_of (pr_active r) key \<noteq> None \<or> length (pr_active r) < pr_max_active r")
    case True
    then show ?thesis using evict_room [OF True, of it] assms(1,3) by auto
  next
    case False
    then have full: "map_of (pr_active r) key = None" "length (pr_active r) = pr_max_active r"
      using D(3) by auto
    obtain old a where e: "map_of (pr_active r) old = Some a"
      "evict it key r = (Some (finish a), AList.delete old (pr_active r))"
      using evict_full [OF assms(1,2) full] by metis
    then have r: "evicted = Some (finish a)" "active = AList.delete old (pr_active r)"
      using assms(3) by simp_all
    have "length active < pr_max_active r"
      using active_table.entries_remove [OF D(2), of old] e(1) full(2) D(1) r(2) by simp
    moreover have "profile_ok a" using D(4) [OF e(1)] by (simp add: entry_ok_def)
    moreover have "map_of active key = None" using full(1) r(2) by (simp add: AList.delete_conv')
    ultimately show ?thesis using inv_remove [OF assms(1), of old] r full(1) by auto
  qed
  show "reassembler_inv (r\<lparr>pr_active := active\<rparr>)" using * by blast
  show "map_of active key = None \<Longrightarrow> length active < pr_max_active r" using * by blast
  show "map_of active key = map_of (pr_active r) key" using * by blast
  show "evicted = Some p \<Longrightarrow> \<exists>a. p = finish a \<and> profile_ok a" using * by blast
qed

end
