(* ===== verification/Reassembly_Ingest.thy ===== *)
theory Reassembly_Ingest
  imports Reassembly_Table
begin

text \<open>
  Ingesting one fragment: the outcome on each branch of \<^verbatim>\<open>ingest_at\<close>, that none of its panics and
  internal errors can happen on a decoded fragment, and that the invariant of the reassembler is
  kept.
\<close>

section \<open>The branches\<close>

lemma find_completed_None:
  "find (\<lambda>entry. cp_key entry = key) cs = None \<longleftrightarrow> key \<notin> cp_key ` set cs"
  by (auto simp: find_None_iff)

lemma ingest_completed:
  assumes "owned_fragment_from_view v = Ok f" and "sf_fragment_index source = of_fragment_index f"
    and "find (\<lambda>entry. cp_key entry = pm_key (of_metadata f)) (pr_completed r) = Some c"
  shows "ingest_at it v source t r =
    Ok (\<lparr>ig_event =
           (if unat (of_fragment_index f) < length (cp_fragments c)
               \<and> cp_fragments c ! unat (of_fragment_index f) = Some f
            then Duplicate (pm_key (of_metadata f)) (of_fragment_index f)
            else Conflict (pm_key (of_metadata f)) (of_fragment_index f)),
         ig_evicted = None, ig_integrity_snapshot = None\<rparr>, r)"
  using assms by (simp add: ingest_at_def Let_def)

text \<open>The entry a fragment is offered to: the one in the table, or a new one.\<close>

definition entry_for :: "owned_fragment \<Rightarrow> nat \<Rightarrow> active_entries \<Rightarrow> active_profile" where
  "entry_for f t active =
     (case map_of active (pm_key (of_metadata f)) of Some a \<Rightarrow> a | None \<Rightarrow> active_profile_new f t)"

definition count_conflict :: "active_profile \<Rightarrow> active_profile" where
  "count_conflict a =
     a\<lparr>ap_conflicting_fragment_count := saturating_add (ap_conflicting_fragment_count a) 1\<rparr>"

definition count_duplicate :: "active_profile \<Rightarrow> active_profile" where
  "count_duplicate a =
     a\<lparr>ap_duplicate_fragment_count := saturating_add (ap_duplicate_fragment_count a) 1\<rparr>"

lemma ingest_other_metadata:
  assumes "owned_fragment_from_view v = Ok f" and "sf_fragment_index source = of_fragment_index f"
    and "find (\<lambda>entry. cp_key entry = pm_key (of_metadata f)) (pr_completed r) = None"
    and "evict it (pm_key (of_metadata f)) r = (evicted, active)"
    and "ap_metadata (entry_for f t active) \<noteq> of_metadata f"
  shows "ingest_at it v source t r =
    Ok (\<lparr>ig_event = Conflict (pm_key (of_metadata f)) (of_fragment_index f), ig_evicted = evicted,
         ig_integrity_snapshot = Some (snapshot (count_conflict (entry_for f t active)))\<rparr>,
        r\<lparr>pr_active := AList.update (pm_key (of_metadata f)) (count_conflict (entry_for f t active)) active\<rparr>)"
  using assms by (simp add: ingest_at_def Let_def entry_for_def [symmetric] count_conflict_def)

lemma ingest_taken:
  assumes "owned_fragment_from_view v = Ok f" and "sf_fragment_index source = of_fragment_index f"
    and "find (\<lambda>entry. cp_key entry = pm_key (of_metadata f)) (pr_completed r) = None"
    and "evict it (pm_key (of_metadata f)) r = (evicted, active)"
    and "ap_metadata (entry_for f t active) = of_metadata f"
    and "unat (of_fragment_index f) < length (ap_fragments (entry_for f t active))"
    and "ap_fragments (entry_for f t active) ! unat (of_fragment_index f) = Some g"
  shows "ingest_at it v source t r =
    (let a = entry_for f t active; key = pm_key (of_metadata f);
         a' = (if g = f then count_duplicate a else count_conflict a)
     in Ok (\<lparr>ig_event = (if g = f then Duplicate key (of_fragment_index f)
                         else Conflict key (of_fragment_index f)),
             ig_evicted = evicted, ig_integrity_snapshot = Some (snapshot a')\<rparr>,
            r\<lparr>pr_active := AList.update key a' active\<rparr>))"
  using assms
  by (simp add: ingest_at_def Let_def entry_for_def [symmetric] count_conflict_def count_duplicate_def
      index_def)

lemma ingest_free:
  assumes "owned_fragment_from_view v = Ok f" and "sf_fragment_index source = of_fragment_index f"
    and "find (\<lambda>entry. cp_key entry = pm_key (of_metadata f)) (pr_completed r) = None"
    and "evict it (pm_key (of_metadata f)) r = (evicted, active)"
    and "ap_metadata (entry_for f t active) = of_metadata f"
    and "profile_ok (entry_for f t active)" and "owned_ok f"
    and "ap_fragments (entry_for f t active) ! unat (of_fragment_index f) = None"
  shows "ingest_at it v source t r =
    (let a = accept f source t (entry_for f t active); key = pm_key (of_metadata f);
         r' = r\<lparr>pr_active := AList.update key a active\<rparr>
     in if profile_complete a then
          and_then (complete_entry key r') (\<lambda>(profile, r'').
          Ok (\<lparr>ig_event = Complete profile, ig_evicted = evicted, ig_integrity_snapshot = None\<rparr>, r''))
        else
          Ok (\<lparr>ig_event = Pending
                 \<lparr>pg_key = key, pg_received_fragment_bitmap = ap_received_fragment_bitmap a,
                  pg_missing_fragment_bitmap =
                    mask (length (ap_fragments a)) AND NOT (ap_received_fragment_bitmap a)\<rparr>,
               ig_evicted = evicted, ig_integrity_snapshot = None\<rparr>, r'))"
proof -
  let ?e = "entry_for f t active" and ?i = "unat (of_fragment_index f)"
  let ?a = "accept f source t ?e"
  note b = owned_index_bound [OF assms(6,7) assms(5) [symmetric]]
  have "profile_ok ?a"
    by (rule profile_ok_accept [OF assms(6,7) assms(5) [symmetric] assms(8,2)])
  note full = bitmap_full_iff [OF this]
  have len: "length (ap_fragments ?a) = unat (pm_expected_fragment_count (ap_metadata ?e))"
    using profile_okD(2) [OF assms(6)] by (simp add: accept_def)
  have mask: "fragment_mask (pm_expected_fragment_count (ap_metadata ?e)) = Ok (mask (length (ap_fragments ?a)))"
    using len b(2) profile_okD(2) [OF assms(6)] by (simp add: fragment_mask_Ok)
  have shl: "shl1_u16 ?i = Ok (push_bit ?i 1)" using b by (simp add: shl1_u16_def)
  have acc: "?e\<lparr>ap_received_fragment_bitmap := ap_received_fragment_bitmap ?e OR push_bit ?i 1,
        ap_last_observed_at := max (ap_last_observed_at ?e) t,
        ap_sources := ap_sources ?e @ [source],
        ap_fragments := (ap_fragments ?e)[?i := Some f]\<rparr> = ?a"
    by (simp add: accept_def)
  have meta: "ap_metadata ?a = ap_metadata ?e" by (simp add: accept_def)
  show ?thesis
    unfolding ingest_at_def assms(1) entry_for_def [symmetric]
    using assms(2-5,8) b(1)
    by (simp only: Let_def and_then.simps map_err.simps assms(3,4) entry_for_def [symmetric] index_def
        shl acc meta mask [unfolded assms(5)] assms(5) full prod.case option.case if_True if_False simp_thms)
qed

section \<open>Keeping the invariant\<close>

text \<open>What leaves the reassembler is a finished profile.\<close>

definition finished :: "reassembled_profile \<Rightarrow> bool" where
  "finished p \<longleftrightarrow> (\<exists>a. profile_ok a \<and> p = finish a)"

lemma finished_valid: "finished p \<Longrightarrow> scan_validate (rp_scan p) = Ok ()"
  by (auto simp: finished_def scan_validate_eq_sound finish_sound)

definition handed_out :: "ingest_result \<Rightarrow> reassembled_profile list" where
  "handed_out res =
     (case ig_event res of Complete p \<Rightarrow> [p] | _ \<Rightarrow> [])
     @ flatten [ig_evicted res, ig_integrity_snapshot res]"

definition ingest_sound :: "(ingest_result \<times> profile_reassembler, reassembly_error) result \<Rightarrow> bool" where
  "ingest_sound out \<longleftrightarrow>
     (\<exists>res r. out = Ok (res, r) \<and> reassembler_inv r \<and> (\<forall>p \<in> set (handed_out res). finished p))"

lemma ingest_soundI:
  assumes "reassembler_inv r" and "\<And>p. e = Complete p \<Longrightarrow> finished p"
    and "\<And>p. ev = Some p \<Longrightarrow> finished p" and "\<And>p. sn = Some p \<Longrightarrow> finished p"
  shows "ingest_sound (Ok (\<lparr>ig_event = e, ig_evicted = ev, ig_integrity_snapshot = sn\<rparr>, r))"
  using assms by (auto simp: ingest_sound_def handed_out_def flatten_def split: fragment_event.splits)

lemma entry_counts [simp]:
  "entry_ok key (count_conflict a) = entry_ok key a"
  "entry_ok key (count_duplicate a) = entry_ok key a"
  "profile_ok (count_conflict a) = profile_ok a"
  "profile_ok (count_duplicate a) = profile_ok a"
  by (simp_all add: entry_ok_def count_conflict_def count_duplicate_def profile_complete_def)

text \<open>The entry an owned fragment is offered to, once the table has room.\<close>

lemma entry_for_ok:
  assumes "reassembler_inv (r\<lparr>pr_active := active\<rparr>)" and "owned_ok f"
  shows "profile_ok (entry_for f t active)"
    and "pm_key (ap_metadata (entry_for f t active)) = pm_key (of_metadata f)"
    and "ap_metadata (entry_for f t active) \<noteq> of_metadata f
           \<or> ap_fragments (entry_for f t active) ! unat (of_fragment_index f) \<noteq> None
         \<Longrightarrow> entry_ok (pm_key (of_metadata f)) (entry_for f t active)"
proof -
  have D: "entry_ok key a" if "map_of active key = Some a" for key a
    using reassembler_invD(4) [OF assms(1)] that by simp
  have "profile_ok (entry_for f t active)
      \<and> pm_key (ap_metadata (entry_for f t active)) = pm_key (of_metadata f)
      \<and> (ap_metadata (entry_for f t active) \<noteq> of_metadata f
           \<or> ap_fragments (entry_for f t active) ! unat (of_fragment_index f) \<noteq> None
         \<longrightarrow> entry_ok (pm_key (of_metadata f)) (entry_for f t active))"
  proof (cases "map_of active (pm_key (of_metadata f))")
    case None
    have "of_fragment_index f < pm_expected_fragment_count (of_metadata f)"
      using assms(2) by (simp add: owned_ok_def)
    then have "ap_fragments (active_profile_new f t) ! unat (of_fragment_index f) = None"
      by (simp add: active_profile_new_def word_less_nat_alt)
    then show ?thesis
      using None profile_ok_new [OF assms(2), of t] by (simp add: entry_for_def active_profile_new_def)
  next
    case (Some a)
    then show ?thesis using D [OF Some] by (simp add: entry_for_def entry_ok_def)
  qed
  then show "profile_ok (entry_for f t active)"
    and "pm_key (ap_metadata (entry_for f t active)) = pm_key (of_metadata f)"
    and "ap_metadata (entry_for f t active) \<noteq> of_metadata f
           \<or> ap_fragments (entry_for f t active) ! unat (of_fragment_index f) \<noteq> None
         \<Longrightarrow> entry_ok (pm_key (of_metadata f)) (entry_for f t active)"
    by blast+
qed

lemma entry_ok_accept:
  assumes "profile_ok (accept f source t a)" and "pm_key (ap_metadata a) = key"
    and "\<not> profile_complete (accept f source t a)" and "unat (of_fragment_index f) < 16"
  shows "entry_ok key (accept f source t a)"
proof -
  have "bit (ap_received_fragment_bitmap (accept f source t a)) (unat (of_fragment_index f))"
    using assms(4) by (simp add: accept_def bit_simps)
  then have "ap_received_fragment_bitmap (accept f source t a) \<noteq> 0" by auto
  then show ?thesis using assms by (simp add: entry_ok_def accept_def)
qed

text \<open>Moving a complete scan to the queue of completed scans.\<close>

lemma complete_entry_sound:
  assumes "reassembler_inv (r\<lparr>pr_active := active\<rparr>)" and "key \<notin> cp_key ` set (pr_completed r)"
    and "profile_ok a" and "profile_complete a" and "pm_key (ap_metadata a) = key"
  defines "r' \<equiv> r\<lparr>pr_active := AList.update key a active\<rparr>"
  shows "\<exists>r''. complete_entry key r' = Ok (finish a, r'') \<and> reassembler_inv r''
    \<and> pr_active r'' = AList.delete key active
    \<and> \<lparr>cp_key = key, cp_fragments = ap_fragments a, cp_completed_at = ap_last_observed_at a\<rparr>
        \<in> set (pr_completed r'')"
proof -
  note D = reassembler_invD [OF assms(1), simplified]
  let ?c = "\<lparr>cp_key = key, cp_fragments = ap_fragments a, cp_completed_at = ap_last_observed_at a\<rparr>"
  let ?q = "pr_completed r @ [?c]"
  let ?n = "length ?q - pr_max_active r"
  have slots: "\<exists>f. ap_fragments a ! i = Some f \<and> owned_ok f \<and> of_metadata f = ap_metadata a
      \<and> unat (of_fragment_index f) = i" if "i < length (ap_fragments a)" for i
  proof -
    have "ap_fragments a ! i \<noteq> None"
      using assms(4) nth_mem [OF that] unfolding profile_complete_def by metis
    then obtain f where "ap_fragments a ! i = Some f" by blast
    then show ?thesis using slot_taken [OF assms(3) that] by blast
  qed
  have c: "completed_ok ?c"
    unfolding completed_ok_def
    using slots profile_okD(1,2) [OF assms(3)] assms(5) by (intro exI [of _ "ap_metadata a"]) simp
  have sub: "set (drop ?n ?q) \<subseteq> set ?q" by (rule set_drop_subset)
  have "completed_ok d \<and> map_of (AList.delete key active) (cp_key d) = None" if "d \<in> set (drop ?n ?q)" for d
  proof -
    have "d = ?c \<or> d \<in> set (pr_completed r)" using sub that by auto
    then show ?thesis using c D(7,8) by (auto simp: AList.delete_conv')
  qed
  moreover have "distinct (map cp_key (drop ?n ?q))"
  proof -
    have "distinct (map cp_key ?q)" using D(5) assms(2) by simp
    then show ?thesis unfolding drop_map [symmetric] by (rule distinct_drop)
  qed
  moreover have "length (drop ?n ?q) \<le> pr_max_active r" by simp
  moreover have "reassembler_inv (r\<lparr>pr_active := AList.delete key active\<rparr>)"
    using inv_remove [OF assms(1), of key] by simp
  ultimately have "reassembler_inv (r\<lparr>pr_active := AList.delete key active, pr_completed := drop ?n ?q\<rparr>)"
    unfolding reassembler_inv_def by (simp add: AList.delete_conv')
  moreover have "?c \<in> set (drop ?n ?q)"
    using D(1,6) by (simp add: drop_append)
  ultimately show ?thesis
    by (simp add: complete_entry_def r'_def AList.update_conv' AList.delete_update_same Let_def)
qed

text \<open>Every fragment that decodes is ingested, and the invariant is kept.\<close>

lemma ingest_at_sound:
  assumes "reassembler_inv r" and "visits_all it"
    and "owned_fragment_from_view v = Ok f" and "owned_ok f"
    and "sf_fragment_index source = of_fragment_index f"
  shows "ingest_sound (ingest_at it v source t r)"
proof (cases "find (\<lambda>entry. cp_key entry = pm_key (of_metadata f)) (pr_completed r)")
  case (Some c)
  show ?thesis
    unfolding ingest_completed [OF assms(3,5) Some]
    by (rule ingest_soundI [OF assms(1)]) (auto split: if_splits)
next
  case None
  let ?key = "pm_key (of_metadata f)"
  obtain evicted active where ev: "evict it ?key r = (evicted, active)" by fastforce
  note E = evict_sound [OF assms(1,2) ev]
  let ?e = "entry_for f t active"
  note en = entry_for_ok [OF E(1) assms(4), of t]
  have new: "?key \<notin> cp_key ` set (pr_completed r)" using None unfolding find_completed_None .
  have out: "finished p" if "evicted = Some p" for p
    using E(4) [OF that] by (auto simp: finished_def)
  have enter: "reassembler_inv (r\<lparr>pr_active := AList.update ?key a active\<rparr>)" if "entry_ok ?key a" for a
    using inv_enter [OF E(1) that] E(2) new by simp
  have snap: "finished (snapshot a)" if "profile_ok a" for a
    using that by (auto simp: snapshot_def finished_def)
  consider (meta) "ap_metadata ?e \<noteq> of_metadata f"
    | (taken) g where "ap_metadata ?e = of_metadata f" "ap_fragments ?e ! unat (of_fragment_index f) = Some g"
    | (free) "ap_metadata ?e = of_metadata f" "ap_fragments ?e ! unat (of_fragment_index f) = None"
    by (cases "ap_fragments ?e ! unat (of_fragment_index f)") auto
  then show ?thesis
  proof cases
    case meta
    show ?thesis
      unfolding ingest_other_metadata [OF assms(3,5) None ev meta]
      using meta en(1,3) by (intro ingest_soundI) (auto simp: enter out snap)
  next
    case taken
    note b = owned_index_bound [OF en(1) assms(4) taken(1) [symmetric]]
    show ?thesis
      unfolding ingest_taken [OF assms(3,5) None ev taken(1) b(1) taken(2)] Let_def
      using taken en(1,3) by (intro ingest_soundI) (auto simp: enter out snap split: if_splits)
  next
    case free
    note b = owned_index_bound [OF en(1) assms(4) free(1) [symmetric]]
    have a: "profile_ok (accept f source t ?e)"
      by (rule profile_ok_accept [OF en(1) assms(4) free(1) [symmetric] free(2) assms(5)])
    have key: "pm_key (ap_metadata (accept f source t ?e)) = ?key" using en(2) by (simp add: accept_def)
    show ?thesis
    proof (cases "profile_complete (accept f source t ?e)")
      case True
      obtain r'' where "complete_entry ?key (r\<lparr>pr_active := AList.update ?key (accept f source t ?e) active\<rparr>)
          = Ok (finish (accept f source t ?e), r'')" "reassembler_inv r''"
        using complete_entry_sound [OF E(1) new a True key] by blast
      then show ?thesis
        using a out unfolding ingest_free [OF assms(3,5) None ev free(1) en(1) assms(4) free(2)]
        by (auto simp: True Let_def finished_def intro!: ingest_soundI)
    next
      case False
      have "entry_ok ?key (accept f source t ?e)"
        using entry_ok_accept [OF a en(2) False] b by simp
      then show ?thesis
        unfolding ingest_free [OF assms(3,5) None ev free(1) en(1) assms(4) free(2)]
        by (auto simp: False Let_def out intro!: ingest_soundI enter)
    qed
  qed
qed

end
