(* ===== verification/Reassembly_Machine.thy ===== *)
theory Reassembly_Machine
  imports Reassembly_Ingest
begin

text \<open>
  The reassembler as a state machine: its operations as a step relation labelled with what each
  operation hands out, the invariant of every reachable state, and the behaviour of the operations
  one by one.
\<close>

section \<open>Expiry\<close>

lemma foldl_expire:
  assumes "distinct (map fst active)" and "distinct ks" and "set ks \<subseteq> dom (map_of active)"
  shows "foldl (\<lambda>(expired, active) key.
                  case map_of active key of
                    Some scan \<Rightarrow> (expired @ [finish scan], AList.delete key active)
                  | None \<Rightarrow> (expired, active)) (acc, active) ks =
    (acc @ map (\<lambda>key. finish (the (map_of active key))) ks, filter (\<lambda>(key, _). key \<notin> set ks) active)"
  using assms
proof (induction ks arbitrary: acc active)
  case Nil
  then show ?case by (simp add: case_prod_beta)
next
  case (Cons k ks)
  then obtain a where a: "map_of active k = Some a" by auto
  have "set ks \<subseteq> dom (map_of (AList.delete k active))"
    using Cons.prems(2,3) by (auto simp: AList.delete_conv')
  note IH = Cons.IH [OF AList.distinct_delete [OF Cons.prems(1)] _ this]
  have "map (\<lambda>key. finish (the (map_of (AList.delete k active) key))) ks =
      map (\<lambda>key. finish (the (map_of active key))) ks"
    using Cons.prems(2) by (auto simp: AList.delete_conv')
  then show ?case
    using IH a Cons.prems(2) by (auto simp: AList.delete_eq case_prod_beta intro!: filter_cong)
qed

lemma visited_distinct:
  assumes "visits_all it" and "distinct (map fst xs)"
  shows "distinct (map fst (it xs))"
proof -
  have "mset (map fst (it xs)) = mset (map fst xs)"
    using assms(1) by (simp add: visits_all_def)
  then show ?thesis using assms(2) by (metis mset_eq_imp_distinct_iff)
qed

text \<open>
  Expiry splits the table at the cutoff: the older entries are handed out, each once, and exactly
  the others stay.
\<close>

lemma expire_before_eq:
  assumes "reassembler_inv r" and "visits_all it"
  shows "expire_before it cutoff r =
    (map (\<lambda>(_, a). finish a) (filter (\<lambda>(_, a). ap_last_observed_at a < cutoff) (it (pr_active r))),
     r\<lparr>pr_active := filter (\<lambda>(_, a). cutoff \<le> ap_last_observed_at a) (pr_active r),
       pr_completed := filter (\<lambda>c. cutoff \<le> cp_completed_at c) (pr_completed r)\<rparr>)"
proof -
  note D = reassembler_invD [OF assms(1)]
  let ?old = "filter (\<lambda>(key, scan). ap_last_observed_at scan < cutoff) (it (pr_active r))"
  have set: "set (it (pr_active r)) = set (pr_active r)" by (rule visits_set [OF assms(2)])
  have look: "map_of (pr_active r) k = Some a" if "(k, a) \<in> set (pr_active r)" for k a
    using that D(2) by simp
  have ks: "distinct (map fst ?old)" "set (map fst ?old) \<subseteq> dom (map_of (pr_active r))"
    using visited_distinct [OF assms(2) D(2)] look set by (auto simp: distinct_map_filter)
  have "map (\<lambda>key. finish (the (map_of (pr_active r) key))) (map fst ?old) = map (\<lambda>(_, a). finish a) ?old"
    using look set by auto
  moreover have "filter (\<lambda>(key, _). key \<notin> set (map fst ?old)) (pr_active r) =
      filter (\<lambda>(_, a). cutoff \<le> ap_last_observed_at a) (pr_active r)"
  proof (rule filter_cong [OF refl])
    fix e
    assume e: "e \<in> set (pr_active r)"
    obtain k a where ka: "e = (k, a)" by fastforce
    have "k \<in> set (map fst ?old) \<longleftrightarrow> ap_last_observed_at a < cutoff"
    proof
      assume "k \<in> set (map fst ?old)"
      then obtain b where "(k, b) \<in> set (pr_active r)" "ap_last_observed_at b < cutoff"
        using set by auto
      then show "ap_last_observed_at a < cutoff" using look [of k a] look [of k b] e ka by simp
    next
      assume "ap_last_observed_at a < cutoff"
      then show "k \<in> set (map fst ?old)" using e ka set by force
    qed
    then show "(case e of (key, _) \<Rightarrow> key \<notin> set (map fst ?old)) =
        (case e of (_, a) \<Rightarrow> cutoff \<le> ap_last_observed_at a)"
      by (simp add: ka not_less)
  qed
  ultimately show ?thesis
    unfolding expire_before_def Let_def foldl_expire [OF D(2) ks] by simp
qed

lemma inv_filter_active:
  assumes "reassembler_inv r"
  shows "reassembler_inv (r\<lparr>pr_active := filter P (pr_active r)\<rparr>)"
proof -
  note D = reassembler_invD [OF assms]
  have sub: "map_of (pr_active r) k = Some v" if "map_of (filter P (pr_active r)) k = Some v" for k v
  proof -
    have "(k, v) \<in> set (pr_active r)" using map_of_SomeD [OF that] by simp
    then show ?thesis using D(2) by simp
  qed
  have "entry_ok k a" if "map_of (filter P (pr_active r)) k = Some a" for k a
    using D(4) [OF sub [OF that]] .
  moreover have "map_of (filter P (pr_active r)) (cp_key c) = None" if "c \<in> set (pr_completed r)" for c
    using sub [of "cp_key c"] D(8) [OF that] by (metis not_None_eq)
  ultimately show ?thesis
    unfolding reassembler_inv_def
    using D(1,2,5,6,7) le_trans [OF length_filter_le [of P "pr_active r"] D(3)]
    by (simp add: distinct_map_filter)
qed

lemma active_finished:
  assumes "reassembler_inv r" and "(k, a) \<in> set (pr_active r)"
  shows "finished (finish a)"
proof -
  have "entry_ok k a" using reassembler_invD(2,4) [OF assms(1)] assms(2) by simp
  then show ?thesis by (auto simp: finished_def entry_ok_def)
qed

lemma expire_before_sound:
  assumes "reassembler_inv r" and "visits_all it" and "expire_before it cutoff r = (out, r')"
  shows "reassembler_inv r' \<and> (\<forall>p \<in> set out. finished p)"
proof -
  have e: "out = map (\<lambda>(_, a). finish a) (filter (\<lambda>(_, a). ap_last_observed_at a < cutoff) (it (pr_active r)))"
    "r' = r\<lparr>pr_active := filter (\<lambda>(_, a). cutoff \<le> ap_last_observed_at a) (pr_active r),
            pr_completed := filter (\<lambda>c. cutoff \<le> cp_completed_at c) (pr_completed r)\<rparr>"
    using assms(3) unfolding expire_before_eq [OF assms(1,2)] by simp_all
  have "\<forall>p \<in> set out. finished p"
    unfolding e(1) using active_finished [OF assms(1)] visits_set [OF assms(2)] by auto
  moreover have "reassembler_inv r'"
    unfolding e(2)
    using inv_filter_completed [OF inv_filter_active [OF assms(1)]] by simp
  ultimately show ?thesis by blast
qed

lemma drain_incomplete_sound:
  assumes "reassembler_inv r" and "visits_all it" and "drain_incomplete it r = (out, r')"
  shows "reassembler_inv r' \<and> (\<forall>p \<in> set out. finished p)"
proof -
  have e: "out = map (\<lambda>(_, a). finish a) (it (pr_active r))" "r' = r\<lparr>pr_active := filter (\<lambda>_. False) (pr_active r)\<rparr>"
    using assms(3) by (simp_all add: drain_incomplete_def)
  have "\<forall>p \<in> set out. finished p"
    unfolding e(1) using active_finished [OF assms(1)] visits_set [OF assms(2)] by auto
  then show ?thesis unfolding e(2) using inv_filter_active [OF assms(1)] by blast
qed

lemma discard_sound:
  assumes "reassembler_inv r"
  shows "reassembler_inv (discard key r)"
  unfolding discard_def using inv_filter_completed [OF inv_remove [OF assms]] by simp

lemma restore_sound:
  assumes "reassembler_inv r" and "restore_receiver_counts key d c r = Ok r'"
  shows "reassembler_inv r'"
proof -
  obtain a where a: "map_of (pr_active r) key = Some a"
    "r' = r\<lparr>pr_active := AList.update key
            (a\<lparr>ap_duplicate_fragment_count := saturating_add (ap_duplicate_fragment_count a) d,
               ap_conflicting_fragment_count := saturating_add (ap_conflicting_fragment_count a) c\<rparr>)
            (pr_active r)\<rparr>"
    using assms(2) by (auto simp: restore_receiver_counts_def)
  have "entry_ok key a" using reassembler_invD(4) [OF assms(1) a(1)] .
  then have "entry_ok key (a\<lparr>ap_duplicate_fragment_count := saturating_add (ap_duplicate_fragment_count a) d,
               ap_conflicting_fragment_count := saturating_add (ap_conflicting_fragment_count a) c\<rparr>)"
    by (simp add: entry_ok_def profile_complete_def)
  moreover have "key \<notin> cp_key ` set (pr_completed r)"
    using reassembler_invD(8) [OF assms(1)] a(1) by force
  ultimately show ?thesis unfolding a(2) using a(1) by (intro inv_enter [OF assms(1)]) simp_all
qed

section \<open>Steps and runs\<close>

text \<open>A fragment the decoder returns yields a well-formed owned fragment.\<close>

lemma decoded_owned:
  assumes "decode bs = Ok (DF_ProfileFragment v)"
  obtains f where "owned_fragment_from_view v = Ok f" "owned_ok f" "of_metadata f = metadata_of_view v"
    "of_fragment_index f = h_fragment_index (fv_header v)"
proof -
  have "header_valid (fv_header v)" "\<exists>steps. fragment_valid v steps"
    using assms by (simp_all add: decode_iff)
  then show ?thesis using owned_fragment_from_view_Ok that by metis
qed

datatype operation =
  Op_Ingest profile_fragment_view source_fragment nat
| Op_ExpireBefore nat
| Op_ExpireOlderThan nat nat
| Op_Drain
| Op_Discard profile_key
| Op_Restore profile_key u16 u16

text \<open>
  \<open>serves it r (op, out) r'\<close>: operation \<open>op\<close> in state \<open>r\<close> hands out the profiles \<open>out\<close> and leaves
  \<open>r'\<close>. The fields of a \<^verbatim>\<open>ProfileFragmentView\<close> are partly private, so a view comes from the decoder.
  An ingestion that returns an error leaves the state as it was: both errors are raised before the
  first change.
\<close>

inductive serves ::
  "(active_entries \<Rightarrow> active_entries) \<Rightarrow> profile_reassembler \<Rightarrow> operation \<times> reassembled_profile list
     \<Rightarrow> profile_reassembler \<Rightarrow> bool" for it where
  ingested: "decode bs = Ok (DF_ProfileFragment v) \<Longrightarrow> ingest_at it v source t r = Ok (res, r') \<Longrightarrow>
    serves it r (Op_Ingest v source t, handed_out res) r'"
| rejected: "decode bs = Ok (DF_ProfileFragment v) \<Longrightarrow> ingest_at it v source t r = fail e \<Longrightarrow>
    serves it r (Op_Ingest v source t, []) r"
| expired: "expire_before it cutoff r = (out, r') \<Longrightarrow> serves it r (Op_ExpireBefore cutoff, out) r'"
| aged: "expire_older_than it now age r = (out, r') \<Longrightarrow> serves it r (Op_ExpireOlderThan now age, out) r'"
| drained: "drain_incomplete it r = (out, r') \<Longrightarrow> serves it r (Op_Drain, out) r'"
| discarded: "serves it r (Op_Discard key, []) (discard key r)"
| restored: "restore_receiver_counts key d c r = Ok r' \<Longrightarrow> serves it r (Op_Restore key d c, []) r'"
| not_restored: "restore_receiver_counts key d c r = fail e \<Longrightarrow> serves it r (Op_Restore key d c, []) r"

inductive_cases serves_ingestE: "serves it r (Op_Ingest v source t, out) r'"
inductive_cases serves_expireE: "serves it r (Op_ExpireBefore cutoff, out) r'"

inductive run :: "('s \<Rightarrow> 'e \<Rightarrow> 's \<Rightarrow> bool) \<Rightarrow> 's \<Rightarrow> 'e list \<Rightarrow> 's \<Rightarrow> bool" for step where
  run_Nil: "run step s [] s"
| run_snoc: "run step s es s' \<Longrightarrow> step s' e s'' \<Longrightarrow> run step s (es @ [e]) s''"

locale machine =
  fixes step :: "'s \<Rightarrow> 'e \<Rightarrow> 's \<Rightarrow> bool"
    and inv :: "'s \<Rightarrow> bool"
    and good :: "'e \<Rightarrow> bool"
  assumes step_inv: "inv s \<Longrightarrow> step s e s' \<Longrightarrow> inv s'"
    and step_good: "inv s \<Longrightarrow> step s e s' \<Longrightarrow> good e"
begin

lemma run_sound:
  assumes "run step s es s'" and "inv s"
  shows "inv s' \<and> (\<forall>e \<in> set es. good e)"
  using assms by (induction rule: run.induct) (auto dest: step_inv step_good)

end

lemma serves_sound:
  assumes "visits_all it" and "serves it r (op, out) r'" and "reassembler_inv r"
  shows "reassembler_inv r' \<and> (\<forall>p \<in> set out. finished p)"
  using assms(2)
proof cases
  case (ingested bs v source t res)
  obtain f where f: "owned_fragment_from_view v = Ok f" "owned_ok f"
    using decoded_owned [OF ingested(3)] by metis
  have "sf_fragment_index source = of_fragment_index f"
    using ingested(4) f(1) by (auto simp: ingest_at_def split: if_splits)
  then have "ingest_sound (ingest_at it v source t r)"
    by (rule ingest_at_sound [OF assms(3,1) f])
  then show ?thesis using ingested(2,4) by (simp add: ingest_sound_def)
next
  case (expired cutoff)
  then show ?thesis using expire_before_sound [OF assms(3,1)] by blast
next
  case (aged now age)
  then show ?thesis
    using expire_before_sound [OF assms(3,1)] assms(3)
    by (auto simp: expire_older_than_def split: if_splits)
next
  case drained
  then show ?thesis using drain_incomplete_sound [OF assms(3,1)] by blast
next
  case (discarded key)
  then show ?thesis using discard_sound [OF assms(3)] by simp
next
  case (restored key d c)
  then show ?thesis using restore_sound [OF assms(3)] by simp
qed (use assms(3) in auto)

text \<open>
  Over every order of iteration, the reassembler is a machine that keeps its invariant and hands
  out finished profiles only. (Under an order that is not one, nothing is claimed.)
\<close>

interpretation reassembler:
  machine "\<lambda>r e r'. visits_all it \<and> serves it r e r'" reassembler_inv
    "\<lambda>(op, out). \<forall>p \<in> set out. finished p" for it
proof
  fix r e r'
  assume "reassembler_inv r" "visits_all it \<and> serves it r e r'"
  moreover obtain op out where "e = (op, out)" by fastforce
  ultimately show "reassembler_inv r'" "case e of (op, out) \<Rightarrow> \<forall>p \<in> set out. finished p"
    using serves_sound by auto
qed

lemma run_mono:
  assumes "run step s es s'" and "\<And>s e s'. step s e s' \<Longrightarrow> step' s e s'"
  shows "run step' s es s'"
  using assms by (induction rule: run.induct) (auto intro: run.intros)

end
