(* ===== verification/Reassembly_Delivery.thy ===== *)
theory Reassembly_Delivery
  imports Reassembly_Machine
begin

text \<open>
  From the encoder of the sensor node to the record of the server: the frames of an encoded scan,
  received in any order, are reassembled into the scan.
\<close>

section \<open>Delivering frames\<close>

text \<open>Each frame is decoded and, when it is a profile fragment, ingested.\<close>

fun deliver ::
  "(active_entries \<Rightarrow> active_entries) \<Rightarrow> (bytes \<times> source_fragment \<times> nat) list \<Rightarrow> profile_reassembler
     \<Rightarrow> (ingest_result list \<times> profile_reassembler, reassembly_error) result" where
  "deliver it [] r = Ok ([], r)"
| "deliver it ((bs, source, t) # frames) r =
     and_then (map_err Codec (decode bs)) (\<lambda>d.
     case d of
       DF_ProfileFragment v \<Rightarrow>
         and_then (ingest_at it v source t r) (\<lambda>(res, r).
         map_ok (\<lambda>(rs, r). (res # rs, r)) (deliver it frames r))
     | _ \<Rightarrow> deliver it frames r)"

lemma deliver_snoc:
  assumes "deliver it xs r = Ok (rs, r')" and "decode bs = Ok (DF_ProfileFragment v)"
    and "ingest_at it v source t r' = Ok (res, r'')"
  shows "deliver it (xs @ [(bs, source, t)]) r = Ok (rs @ [res], r'')"
  using assms(1)
proof (induction xs arbitrary: r rs)
  case Nil
  then show ?case using assms(2,3) by simp
next
  case (Cons x xs)
  obtain b s u where x: "x = (b, s, u)" by (cases x)
  obtain d where d: "decode b = Ok d" using Cons.prems by (auto simp: x)
  show ?case
  proof (cases d)
    case (DF_ProfileFragment w)
    then obtain q r1 where q: "ingest_at it w s u r = Ok (q, r1)"
      using Cons.prems d by (auto simp: x)
    then obtain rs1 where "deliver it xs r1 = Ok (rs1, r')" "rs = q # rs1"
      using Cons.prems d DF_ProfileFragment by (auto simp: x)
    then show ?thesis using Cons.IH [of r1 rs1] d q DF_ProfileFragment by (simp add: x)
  qed (use Cons d in \<open>auto simp: x\<close>)
qed

section \<open>The fragments of one scan\<close>

definition scan_metadata :: "common \<Rightarrow> profile_scan \<Rightarrow> profile_metadata" where
  "scan_metadata common scan = metadata_of_view (scan_fragment_view common scan 0)"

definition scan_owned :: "common \<Rightarrow> profile_scan \<Rightarrow> nat \<Rightarrow> owned_fragment" where
  "scan_owned common scan i =
     \<lparr>of_metadata = scan_metadata common scan, of_fragment_index = word_of_nat i,
      of_steps = map profile_step (scan_fragment_steps scan i)\<rparr>"

definition scan_key :: "common \<Rightarrow> profile_scan \<Rightarrow> profile_key" where
  "scan_key common scan = profile_key_of (scan_fragment_header common scan 0)"

lemma scan_key_metadata: "pm_key (scan_metadata common scan) = scan_key common scan"
  by (simp add: scan_metadata_def metadata_of_view_def scan_key_def scan_fragment_view_def)

lemma metadata_scan_view: "metadata_of_view (scan_fragment_view common scan i) = scan_metadata common scan"
  by (simp add: scan_metadata_def metadata_of_view_def scan_fragment_view_def scan_fragment_header_def
      profile_key_of_def record_identity_of_def)

lemma scan_owned_view:
  assumes "wf_scan scan" and "encode_profile common scan = Ok p" and "i < scan_fragment_count scan"
  shows "owned_fragment_from_view (scan_fragment_view common scan i) = Ok (scan_owned common scan i)"
    and "owned_ok (scan_owned common scan i)"
proof -
  note d = fragment_frame_decodes [OF assms]
  have "header_valid (fv_header (scan_fragment_view common scan i))"
    using d(1) by (simp add: decode_iff)
  then obtain f where f: "owned_fragment_from_view (scan_fragment_view common scan i) = Ok f" "owned_ok f"
    "of_metadata f = metadata_of_view (scan_fragment_view common scan i)"
    "of_fragment_index f = h_fragment_index (fv_header (scan_fragment_view common scan i))"
    "of_steps f = map profile_step (scan_fragment_steps scan i)"
    using owned_fragment_from_view_Ok [OF d(2)] by blast
  have "h_fragment_index (fv_header (scan_fragment_view common scan i)) = word_of_nat i"
    by (simp add: scan_fragment_view_def scan_fragment_header_def)
  then have "f = scan_owned common scan i"
    using f(3-5) unfolding metadata_scan_view scan_owned_def by (cases f) simp
  then show "owned_fragment_from_view (scan_fragment_view common scan i) = Ok (scan_owned common scan i)"
    "owned_ok (scan_owned common scan i)"
    using f(1,2) by simp_all
qed

lemma scan_index:
  assumes "encode_profile common scan = Ok p" and "wf_scan scan" and "i < scan_fragment_count scan"
  shows "unat (word_of_nat i :: u8) = i"
proof -
  have "scan_fragment_count scan \<le> 4"
    using assms(1) scan_fragment_count_bounds(2) by (auto simp: encode_profile_iff [OF assms(2)])
  then show ?thesis using assms(3) by (simp add: unat_of_nat)
qed

text \<open>The windows of the fragments, one after the other, hold every observed step once, in order.\<close>

lemma scan_steps_concat:
  assumes "wf_scan scan" and "validate_profile scan = Ok ()"
  shows "concat (map (scan_fragment_steps scan) [0..<scan_fragment_count scan]) = flatten (sc_steps scan)"
proof -
  note b = validate_profile_bounds [OF assms(2)]
  let ?n = "unat (sc_expected_step_count scan)" and ?m = "sc_missing_steps_bitmap scan"
  have len: "length (sc_steps scan) = 10" using assms(1) by (simp add: wf_scan_def MAX_PROFILE_STEPS_def)
  have n: "?n \<le> 3 * scan_fragment_count scan" by (simp add: scan_fragment_count_def)
  have "concat (map (scan_fragment_steps scan) [0..<scan_fragment_count scan]) =
      map (\<lambda>j. the (sc_steps scan ! j)) (concat (map (\<lambda>i. if True then
        filter (\<lambda>j. ?m AND push_bit j 1 = 0) [3 * i..<min (3 * i + 3) ?n] else []) [0..<scan_fragment_count scan]))"
    unfolding map_concat map_map o_def scan_fragment_steps_def [abs_def] present_in_window_def
    by (simp add: STEPS_PER_FRAGMENT_def mult.commute)
  also have "\<dots> = map (\<lambda>j. the (sc_steps scan ! j)) (filter (\<lambda>j. ?m AND push_bit j 1 = 0) [0..<?n])"
    unfolding concat_windows using n by (simp add: min_def)
  also have "filter (\<lambda>j. ?m AND push_bit j 1 = 0) [0..<?n] = filter (\<lambda>j. sc_steps scan ! j \<noteq> None) [0..<10]"
  proof -
    have "[0..<10] = [0..<?n] @ [?n..<10]"
      using b(2) upt_add_eq_append [of 0 ?n "10 - ?n"] by simp
    moreover have "filter (\<lambda>j. sc_steps scan ! j \<noteq> None) [?n..<10] = []"
      using validate_profile_slot_present(1) [OF b(5)] by (auto simp: filter_empty_conv)
    moreover have "filter (\<lambda>j. sc_steps scan ! j \<noteq> None) [0..<?n] = filter (\<lambda>j. ?m AND push_bit j 1 = 0) [0..<?n]"
      using validate_profile_slot_present(1) [OF b(5)] b(2) by (intro filter_cong) auto
    ultimately show ?thesis by simp
  qed
  also have "map (\<lambda>j. the (sc_steps scan ! j)) (filter (\<lambda>j. sc_steps scan ! j \<noteq> None) [0..<10]) =
      flatten (sc_steps scan)"
    using filter_some_window [of 10 "sc_steps scan" 0] len by (simp add: flatten_def)
  finally show ?thesis .
qed

section \<open>Building up the entry\<close>

definition building ::
  "common \<Rightarrow> profile_scan \<Rightarrow> (nat \<Rightarrow> source_fragment) \<Rightarrow> nat list \<Rightarrow> active_profile \<Rightarrow> bool" where
  "building common scan src received a \<longleftrightarrow>
     profile_ok a \<and> ap_metadata a = scan_metadata common scan
     \<and> ap_fragments a = map (\<lambda>i. if i \<in> set received then Some (scan_owned common scan i) else None)
         [0..<scan_fragment_count scan]
     \<and> ap_sources a = map src received
     \<and> ap_duplicate_fragment_count a = 0 \<and> ap_conflicting_fragment_count a = 0"

lemma building_complete:
  assumes "building common scan src received a"
  shows "profile_complete a \<longleftrightarrow> {..<scan_fragment_count scan} \<subseteq> set received"
  using assms by (auto simp: building_def profile_complete_def image_iff)

lemma building_new:
  assumes "wf_scan scan" and "encode_profile common scan = Ok p" and "i < scan_fragment_count scan"
  shows "building common scan src [] (active_profile_new (scan_owned common scan i) t)"
proof -
  have "unat (pm_expected_fragment_count (scan_metadata common scan)) = scan_fragment_count scan"
    using assms(2) scan_fragment_count_bounds(3)
    by (auto simp: encode_profile_iff [OF assms(1)] scan_metadata_def metadata_of_view_def
        scan_fragment_view_def scan_fragment_header_def)
  then show ?thesis
    using profile_ok_new [OF scan_owned_view(2) [OF assms], of t]
    by (simp add: building_def active_profile_new_def scan_owned_def map_replicate_trivial
        map_replicate_const)
qed

lemma building_accept:
  assumes "wf_scan scan" and "encode_profile common scan = Ok p" and "i < scan_fragment_count scan"
    and "building common scan src received a" and "i \<notin> set received"
    and "sf_fragment_index (src i) = word_of_nat i"
  shows "building common scan src (received @ [i]) (accept (scan_owned common scan i) (src i) t a)"
    and "ap_fragments a ! unat (of_fragment_index (scan_owned common scan i)) = None"
proof -
  let ?f = "scan_owned common scan i"
  have i: "unat (of_fragment_index ?f) = i"
    using scan_index [OF assms(2,1,3)] by (simp add: scan_owned_def)
  have a: "profile_ok a" "ap_metadata a = of_metadata ?f"
    using assms(4) by (simp_all add: building_def scan_owned_def)
  show free: "ap_fragments a ! unat (of_fragment_index ?f) = None"
    using assms(3,4,5) unfolding i by (simp add: building_def)
  have "profile_ok (accept ?f (src i) t a)"
    using profile_ok_accept [OF a(1) scan_owned_view(2) [OF assms(1-3)] a(2) [symmetric] free] assms(6)
    by (simp add: scan_owned_def)
  moreover have "(map (\<lambda>j. if j \<in> set received then Some (scan_owned common scan j) else None)
        [0..<scan_fragment_count scan])[i := Some ?f] =
      map (\<lambda>j. if j \<in> set (received @ [i]) then Some (scan_owned common scan j) else None)
        [0..<scan_fragment_count scan]"
    by (rule nth_equalityI) (auto simp: nth_list_update assms(3))
  ultimately show "building common scan src (received @ [i]) (accept ?f (src i) t a)"
    using assms(4) i by (simp add: building_def accept_def)
qed

section \<open>Delivery in any order\<close>

text \<open>The table while a scan is being received next to the scans that were there before.\<close>

definition ready ::
  "(active_entries \<Rightarrow> active_entries) \<Rightarrow> common \<Rightarrow> profile_scan \<Rightarrow> (nat \<Rightarrow> source_fragment) \<Rightarrow> nat list
     \<Rightarrow> profile_reassembler \<Rightarrow> active_entries \<Rightarrow> bool" where
  "ready it common scan src received r active \<longleftrightarrow>
     reassembler_inv (r\<lparr>pr_active := active\<rparr>)
     \<and> (\<forall>i < scan_fragment_count scan. \<forall>t.
          building common scan src received (entry_for (scan_owned common scan i) t active))
     \<and> evict it (scan_key common scan) (r\<lparr>pr_active := active\<rparr>) = (None, active)
     \<and> AList.delete (scan_key common scan) active = pr_active r"

lemma ready_start:
  assumes "wf_scan scan" and "encode_profile common scan = Ok p" and "reassembler_inv r"
    and "\<not> contains_active (scan_key common scan) r" and "active_len r < pr_max_active r"
  shows "ready it common scan src [] r (pr_active r)"
proof -
  have none: "map_of (pr_active r) (scan_key common scan) = None"
    using assms(4) by (simp add: contains_active_def)
  then have "AList.delete (scan_key common scan) (pr_active r) = pr_active r"
    by (simp add: map_of_eq_None_iff)
  moreover have "evict it (scan_key common scan) r = (None, pr_active r)"
    using assms(5) by (intro evict_room) (simp add: active_len_def)
  moreover have "entry_for (scan_owned common scan i) t (pr_active r) =
      active_profile_new (scan_owned common scan i) t" for i t
    using none by (simp add: entry_for_def scan_owned_def scan_key_metadata)
  ultimately show ?thesis
    using assms(3) building_new [OF assms(1,2)] by (simp add: ready_def)
qed

text \<open>One more fragment: the scan stays pending, or is complete and leaves the table as it was.\<close>

lemma ready_step:
  fixes t :: nat
  assumes "wf_scan scan" and "encode_profile common scan = Ok p" and "i < scan_fragment_count scan"
    and "visits_all it" and "ready it common scan src received r active" and "i \<notin> set received"
    and "sf_fragment_index (src i) = word_of_nat i"
    and "scan_key common scan \<notin> cp_key ` set (pr_completed r)"
  defines "a \<equiv> accept (scan_owned common scan i) (src i) t (entry_for (scan_owned common scan i) t active)"
    and "out \<equiv> ingest_at it (scan_fragment_view common scan i) (src i) t (r\<lparr>pr_active := active\<rparr>)"
  shows "building common scan src (received @ [i]) a"
    and "\<not> profile_complete a \<Longrightarrow>
      \<exists>pg. out = Ok (\<lparr>ig_event = Pending pg, ig_evicted = None, ig_integrity_snapshot = None\<rparr>,
                     r\<lparr>pr_active := AList.update (scan_key common scan) a active\<rparr>)
         \<and> ready it common scan src (received @ [i]) r (AList.update (scan_key common scan) a active)"
    and "profile_complete a \<Longrightarrow>
      \<exists>r'. out = Ok (\<lparr>ig_event = Complete (finish a), ig_evicted = None, ig_integrity_snapshot = None\<rparr>, r')
         \<and> reassembler_inv r' \<and> pr_active r' = pr_active r
         \<and> \<lparr>cp_key = scan_key common scan, cp_fragments = ap_fragments a,
             cp_completed_at = ap_last_observed_at a\<rparr> \<in> set (pr_completed r')"
proof -
  let ?f = "scan_owned common scan i" and ?key = "scan_key common scan"
  let ?e = "entry_for ?f t active"
  note f = scan_owned_view [OF assms(1-3)]
  have key: "pm_key (of_metadata ?f) = ?key" by (simp add: scan_owned_def scan_key_metadata)
  have src: "sf_fragment_index (src i) = of_fragment_index ?f" using assms(7) by (simp add: scan_owned_def)
  have rd: "reassembler_inv (r\<lparr>pr_active := active\<rparr>)" "building common scan src received ?e"
    "evict it ?key (r\<lparr>pr_active := active\<rparr>) = (None, active)" "AList.delete ?key active = pr_active r"
    using assms(3,5) unfolding ready_def by blast+
  have e: "profile_ok ?e" "ap_metadata ?e = of_metadata ?f"
    using rd(2) by (simp_all add: building_def scan_owned_def)
  note acc = building_accept [OF assms(1-3) rd(2) assms(6,7)]
  show b: "building common scan src (received @ [i]) a" unfolding a_def by (rule acc(1))
  have none: "find (\<lambda>entry. cp_key entry = pm_key (of_metadata ?f)) (pr_completed (r\<lparr>pr_active := active\<rparr>)) = None"
    unfolding key find_completed_None using assms(8) by simp
  note free = ingest_free [OF f(1) src none rd(3) [folded key] e(2,1) f(2) acc(2),
      unfolded Let_def key, folded a_def out_def, simplified]
  have sound: "ingest_sound out"
    unfolding out_def by (rule ingest_at_sound [OF rd(1) assms(4) f src])
  show "\<exists>pg. out = Ok (\<lparr>ig_event = Pending pg, ig_evicted = None, ig_integrity_snapshot = None\<rparr>,
                     r\<lparr>pr_active := AList.update ?key a active\<rparr>)
         \<and> ready it common scan src (received @ [i]) r (AList.update ?key a active)"
    if incomplete: "\<not> profile_complete a"
  proof -
    obtain pg where out: "out = Ok (\<lparr>ig_event = Pending pg, ig_evicted = None, ig_integrity_snapshot = None\<rparr>,
        r\<lparr>pr_active := AList.update ?key a active\<rparr>)"
      using free incomplete by simp
    have "reassembler_inv (r\<lparr>pr_active := AList.update ?key a active\<rparr>)"
      using sound unfolding out ingest_sound_def by simp
    moreover have "entry_for (scan_owned common scan j) u (AList.update ?key a active) = a" for j u
      by (simp add: entry_for_def scan_owned_def scan_key_metadata AList.update_conv')
    moreover have "evict it ?key (r\<lparr>pr_active := AList.update ?key a active\<rparr>) = (None, AList.update ?key a active)"
      using evict_room [of "r\<lparr>pr_active := AList.update ?key a active\<rparr>" ?key it]
      by (simp add: AList.update_conv')
    ultimately show ?thesis
      using out b rd(4) by (simp add: ready_def AList.delete_update_same)
  qed
  show "\<exists>r'. out = Ok (\<lparr>ig_event = Complete (finish a), ig_evicted = None, ig_integrity_snapshot = None\<rparr>, r')
         \<and> reassembler_inv r' \<and> pr_active r' = pr_active r
         \<and> \<lparr>cp_key = ?key, cp_fragments = ap_fragments a, cp_completed_at = ap_last_observed_at a\<rparr>
             \<in> set (pr_completed r')"
    if "profile_complete a"
  proof -
    have "profile_ok a" "pm_key (ap_metadata a) = ?key"
      using b by (simp_all add: building_def scan_key_metadata)
    then show ?thesis
      using complete_entry_sound [OF rd(1) assms(8) _ that] free that rd(4) by auto
  qed
qed

text \<open>The frames of an encoded scan with their reception data.\<close>

definition scan_packet ::
  "encoded_profile \<Rightarrow> (nat \<Rightarrow> source_fragment) \<Rightarrow> (nat \<Rightarrow> nat) \<Rightarrow> nat \<Rightarrow> bytes \<times> source_fragment \<times> nat" where
  "scan_packet p src time i = (as_slice (encoded_profile_frames p ! i), src i, time i)"

lemma deliver_pending:
  assumes "wf_scan scan" and "encode_profile common scan = Ok p" and "visits_all it"
    and "ready it common scan src [] r (pr_active r)"
    and "\<And>i. i < scan_fragment_count scan \<Longrightarrow> sf_fragment_index (src i) = word_of_nat i"
    and "scan_key common scan \<notin> cp_key ` set (pr_completed r)"
    and "distinct received" and "set received \<subset> {..<scan_fragment_count scan}"
  shows "\<exists>rs active. deliver it (map (scan_packet p src time) received) r = Ok (rs, r\<lparr>pr_active := active\<rparr>)
    \<and> ready it common scan src received r active
    \<and> (\<forall>res \<in> set rs. \<exists>pg. res = \<lparr>ig_event = Pending pg, ig_evicted = None, ig_integrity_snapshot = None\<rparr>)"
  using assms(7,8)
proof (induction received rule: rev_induct)
  case Nil
  then show ?case using assms(4) by auto
next
  case (snoc i received)
  have i: "i < scan_fragment_count scan" "i \<notin> set received" using snoc.prems by auto
  obtain rs active where IH: "deliver it (map (scan_packet p src time) received) r = Ok (rs, r\<lparr>pr_active := active\<rparr>)"
    "ready it common scan src received r active"
    "\<forall>res \<in> set rs. \<exists>pg. res = \<lparr>ig_event = Pending pg, ig_evicted = None, ig_integrity_snapshot = None\<rparr>"
    using snoc by auto
  note step = ready_step [OF assms(1,2) i(1) assms(3) IH(2) i(2) assms(5) [OF i(1)] assms(6), of "time i"]
  have "\<not> {..<scan_fragment_count scan} \<subseteq> set (received @ [i])" using snoc.prems by auto
  then have "\<not> profile_complete (accept (scan_owned common scan i) (src i) (time i)
      (entry_for (scan_owned common scan i) (time i) active))"
    unfolding building_complete [OF step(1)] .
  from step(2) [OF this] obtain pg active' where out:
    "ingest_at it (scan_fragment_view common scan i) (src i) (time i) (r\<lparr>pr_active := active\<rparr>) =
       Ok (\<lparr>ig_event = Pending pg, ig_evicted = None, ig_integrity_snapshot = None\<rparr>, r\<lparr>pr_active := active'\<rparr>)"
    "ready it common scan src (received @ [i]) r active'"
    by blast
  have "deliver it (map (scan_packet p src time) (received @ [i])) r =
      Ok (rs @ [\<lparr>ig_event = Pending pg, ig_evicted = None, ig_integrity_snapshot = None\<rparr>],
          r\<lparr>pr_active := active'\<rparr>)"
    using deliver_snoc [OF IH(1) fragment_frame_decodes(1) [OF assms(1,2) i(1)] out(1)]
    by (simp add: scan_packet_def)
  then show ?case using out(2) IH(3) by auto
qed

text \<open>The record the server should hold of a scan once all of it has arrived.\<close>

definition delivered_scan :: "common \<Rightarrow> profile_scan \<Rightarrow> scan_record" where
  "delivered_scan common scan =
     \<lparr>pf_identity = record_identity_of (scan_fragment_header common scan 0),
      pf_profile_id = sc_profile_id scan,
      pf_profile_version = sc_profile_version scan,
      pf_expected_steps = sc_expected_step_count scan,
      pf_observed_unique_steps = sc_observed_unique_step_count scan,
      pf_observed_field_count = sc_observed_field_count scan,
      pf_reported_missing_steps = sc_missing_steps_bitmap scan,
      pf_duplicate_steps = sc_duplicate_steps_bitmap scan,
      pf_duration_us = sc_scan_duration_us scan,
      pf_collection_flags = sc_collection_flags scan,
      pf_finish_reason = sc_finish_reason scan,
      pf_duplicate_count = sc_duplicate_count scan,
      pf_overwritten_field_count = sc_overwritten_field_count scan,
      pf_out_of_order_count = sc_out_of_order_count scan,
      pf_ambiguous_index_jump_count = sc_ambiguous_index_jump_count scan,
      pf_invalid_gas_index_count = sc_invalid_gas_index_count scan,
      pf_intermediate_field_count = sc_intermediate_field_count scan,
      pf_profile_rollover_count = sc_profile_rollover_count scan,
      pf_fields_after_rollover_count = sc_fields_after_rollover_count scan,
      pf_poll_count = sc_poll_count scan,
      pf_expected_fragment_count = div_ceil_u8 (sc_expected_step_count scan) STEPS_PER_FRAGMENT_U8,
      pf_received_fragment_bitmap = mask (scan_fragment_count scan),
      pf_duplicate_fragment_count = 0,
      pf_conflicting_fragment_count = 0,
      pf_steps = map profile_step (flatten (sc_steps scan))\<rparr>"

lemma building_finish:
  assumes "wf_scan scan" and "encode_profile common scan = Ok p"
    and "building common scan src order a" and "set order = {..<scan_fragment_count scan}"
  shows "finish a = \<lparr>rp_scan = delivered_scan common scan, rp_fragments = map src order\<rparr>"
proof -
  have valid: "validate_profile scan = Ok ()" using assms(2) by (simp add: encode_profile_iff [OF assms(1)])
  have a: "profile_ok a" "ap_metadata a = scan_metadata common scan" "ap_sources a = map src order"
    "ap_duplicate_fragment_count a = 0" "ap_conflicting_fragment_count a = 0"
    using assms(3) by (simp_all add: building_def)
  have frs: "ap_fragments a = map (\<lambda>i. Some (scan_owned common scan i)) [0..<scan_fragment_count scan]"
    using assms(3,4) by (simp add: building_def)
  have "flatten (ap_fragments a) = map (scan_owned common scan) [0..<scan_fragment_count scan]"
    unfolding frs by (simp add: flatten_def filter_map o_def)
  then have "concat (map of_steps (flatten (ap_fragments a))) = map profile_step (flatten (sc_steps scan))"
    by (simp add: scan_steps_concat [OF assms(1) valid, symmetric] map_concat o_def scan_owned_def)
  then have "sort_key st_step_index (concat (map of_steps (flatten (ap_fragments a)))) =
      map profile_step (flatten (sc_steps scan))"
    using sort_key_sorted [OF sorted_step_indexes(1) [OF a(1)]] by simp
  moreover have "ap_received_fragment_bitmap a = mask (scan_fragment_count scan)"
    using bitmap_full_iff [OF a(1)] building_complete [OF assms(3)] assms(4) by (simp add: frs)
  ultimately show ?thesis
    unfolding finish_def Let_def a(2-5) delivered_scan_def
    by (simp add: scan_metadata_def metadata_of_view_def scan_fragment_view_def scan_fragment_header_def)
qed

lemma deliver_all:
  assumes "visits_all it" and "wf_scan scan" and "encode_profile common scan = Ok p"
    and "reassembler_inv r" and "active_len r < pr_max_active r"
    and "\<not> contains_active (scan_key common scan) r"
    and "scan_key common scan \<notin> cp_key ` set (pr_completed r)"
    and "mset order = mset [0..<length (encoded_profile_frames p)]"
    and "\<And>i. i < length (encoded_profile_frames p) \<Longrightarrow> sf_fragment_index (src i) = word_of_nat i"
  shows "\<exists>rs r' t. deliver it (map (scan_packet p src time) order) r =
      Ok (rs @ [\<lparr>ig_event = Complete \<lparr>rp_scan = delivered_scan common scan, rp_fragments = map src order\<rparr>,
                 ig_evicted = None, ig_integrity_snapshot = None\<rparr>], r')
    \<and> (\<forall>res \<in> set rs. \<exists>pg. res = \<lparr>ig_event = Pending pg, ig_evicted = None, ig_integrity_snapshot = None\<rparr>)
    \<and> reassembler_inv r' \<and> pr_active r' = pr_active r
    \<and> scan_validate (delivered_scan common scan) = Ok ()
    \<and> \<lparr>cp_key = scan_key common scan,
        cp_fragments = map (\<lambda>i. Some (scan_owned common scan i)) [0..<scan_fragment_count scan],
        cp_completed_at = t\<rparr> \<in> set (pr_completed r')"
proof -
  let ?c = "scan_fragment_count scan"
  have "0 < ?c"
    using assms(3) scan_fragment_count_bounds(1) by (fastforce simp: encode_profile_iff [OF assms(2)])
  then have len: "length (encoded_profile_frames p) = ?c" by (rule fragment_frame_decodes(3) [OF assms(2,3)])
  have order: "distinct order" using mset_eq_imp_distinct_iff [OF assms(8)] by (simp only: distinct_upt)
  have all: "set order = {..<?c}" using mset_eq_setD [OF assms(8)] by (simp only: len set_upt lessThan_atLeast0)
  then obtain received i where split: "order = received @ [i]"
    using all \<open>0 < ?c\<close> by (cases order rule: rev_cases) auto
  have i: "i < ?c" "i \<notin> set received" and sub: "set received \<subset> {..<?c}" and dist: "distinct received"
    using order all split by auto
  have src: "sf_fragment_index (src j) = word_of_nat j" if "j < ?c" for j
    using assms(9) that len by simp
  obtain rs active where d: "deliver it (map (scan_packet p src time) received) r = Ok (rs, r\<lparr>pr_active := active\<rparr>)"
    "ready it common scan src received r active"
    "\<forall>res \<in> set rs. \<exists>pg. res = \<lparr>ig_event = Pending pg, ig_evicted = None, ig_integrity_snapshot = None\<rparr>"
    using deliver_pending [OF assms(2,3,1) ready_start [OF assms(2-4,6,5)] src assms(7) dist sub] by blast
  let ?a = "accept (scan_owned common scan i) (src i) (time i) (entry_for (scan_owned common scan i) (time i) active)"
  note step = ready_step [OF assms(2,3) i(1) assms(1) d(2) i(2) src [OF i(1)] assms(7), of "time i"]
  have built: "building common scan src order ?a" using step(1) unfolding split .
  have complete: "profile_complete ?a" using building_complete [OF built] all by simp
  note fin = building_finish [OF assms(2,3) built all]
  have frs: "ap_fragments ?a = map (\<lambda>i. Some (scan_owned common scan i)) [0..<?c]"
    using built all by (simp add: building_def)
  obtain r' where out: "ingest_at it (scan_fragment_view common scan i) (src i) (time i) (r\<lparr>pr_active := active\<rparr>) =
      Ok (\<lparr>ig_event = Complete (finish ?a), ig_evicted = None, ig_integrity_snapshot = None\<rparr>, r')"
    "reassembler_inv r'" "pr_active r' = pr_active r"
    "\<lparr>cp_key = scan_key common scan, cp_fragments = ap_fragments ?a, cp_completed_at = ap_last_observed_at ?a\<rparr>
       \<in> set (pr_completed r')"
    using step(3) [OF complete] by blast
  have "scan_validate (rp_scan (finish ?a)) = Ok ()"
    using built finish_sound by (simp add: building_def scan_validate_eq_sound)
  then have "scan_validate (delivered_scan common scan) = Ok ()" by (simp add: fin)
  moreover have "deliver it (map (scan_packet p src time) order) r =
      Ok (rs @ [\<lparr>ig_event = Complete (finish ?a), ig_evicted = None, ig_integrity_snapshot = None\<rparr>], r')"
    using deliver_snoc [OF d(1) fragment_frame_decodes(1) [OF assms(2,3) i(1)] out(1)]
    by (simp add: split scan_packet_def)
  ultimately show ?thesis using d(3) out(2-4) unfolding fin frs by blast
qed

end
