(* ===== verification/Reassembly_Behaviour.thy ===== *)
theory Reassembly_Behaviour
  imports Reassembly_Delivery
begin

text \<open>
  What the reassembler promises its callers: every reachable state and everything handed out is
  sound, ingestion of a decoded fragment always succeeds, the first copy of a fragment wins, the
  least recently observed scan gives way, expiry and draining lose nothing, and a scan whose frames
  all arrive is delivered as it was encoded.
\<close>

section \<open>What ingestion does to the table\<close>

lemma accept_keeps:
  assumes "i < length (ap_fragments a)" and "ap_fragments a ! i = Some g"
    and "ap_fragments a ! unat (of_fragment_index f) = None"
  shows "ap_fragments (accept f source t a) ! i = Some g"
  using assms by (cases "i = unat (of_fragment_index f)") (auto simp: accept_def)

definition keeps_slots :: "active_profile \<Rightarrow> active_profile \<Rightarrow> bool" where
  "keeps_slots a a' \<longleftrightarrow>
     (\<forall>i g. i < length (ap_fragments a) \<longrightarrow> ap_fragments a ! i = Some g \<longrightarrow> ap_fragments a' ! i = Some g)"

lemma keeps_slots_counts [simp]: "keeps_slots a (count_conflict a)" "keeps_slots a (count_duplicate a)"
  by (simp_all add: keeps_slots_def count_conflict_def count_duplicate_def)

text \<open>Either the scan is complete already and nothing changes, or one entry changes.\<close>

lemma ingest_table:
  assumes "reassembler_inv r" and "visits_all it"
    and "owned_fragment_from_view v = Ok f" and "owned_ok f"
    and "ingest_at it v source t r = Ok (res, r')"
  defines "key \<equiv> pm_key (of_metadata f)"
  obtains (completed) "key \<in> cp_key ` set (pr_completed r)" "r' = r"
  | (active) evicted active a where "key \<notin> cp_key ` set (pr_completed r)"
      "evict it key r = (evicted, active)" "ig_evicted res = evicted"
      "keeps_slots (entry_for f t active) a"
      "pr_active r' = AList.update key a active \<and> pr_completed r' = pr_completed r
       \<or> pr_active r' = AList.delete key active
         \<and> (\<exists>c \<in> set (pr_completed r'). cp_key c = key \<and> cp_fragments c = ap_fragments a)"
proof (cases "find (\<lambda>entry. cp_key entry = key) (pr_completed r)")
  have src: "sf_fragment_index source = of_fragment_index f"
    using assms(5,3) by (auto simp: ingest_at_def split: if_splits)
  {
    case (Some c)
    then have "r' = r" using ingest_completed [OF assms(3) src, of r c it t] assms(5) by (simp add: key_def)
    moreover have "key \<in> cp_key ` set (pr_completed r)"
      using Some find_completed_None [of key "pr_completed r"] by (metis option.distinct(1))
    ultimately show ?thesis using completed by blast
  next
    case None
    obtain evicted act where ev: "evict it key r = (evicted, act)" by fastforce
    note E = evict_sound [OF assms(1,2) ev]
    let ?e = "entry_for f t act"
    note en = entry_for_ok [OF E(1) assms(4), of t]
    have new: "key \<notin> cp_key ` set (pr_completed r)" using None unfolding find_completed_None .
    note None' = None [unfolded key_def] and ev' = ev [unfolded key_def]
    consider (meta) "ap_metadata ?e \<noteq> of_metadata f"
      | (taken) g where "ap_metadata ?e = of_metadata f" "ap_fragments ?e ! unat (of_fragment_index f) = Some g"
      | (free) "ap_metadata ?e = of_metadata f" "ap_fragments ?e ! unat (of_fragment_index f) = None"
      by (cases "ap_fragments ?e ! unat (of_fragment_index f)") auto
    then show ?thesis
    proof cases
      case meta
      then have "r' = r\<lparr>pr_active := AList.update key (count_conflict ?e) act\<rparr>" "ig_evicted res = evicted"
        using ingest_other_metadata [OF assms(3) src None' ev' meta] assms(5) by (simp_all add: key_def)
      then show ?thesis by (intro active [OF new ev, of "count_conflict ?e"]) simp_all
    next
      case taken
      note b = owned_index_bound [OF en(1) assms(4) taken(1) [symmetric]]
      let ?a = "if g = f then count_duplicate ?e else count_conflict ?e"
      have "r' = r\<lparr>pr_active := AList.update key ?a act\<rparr>" "ig_evicted res = evicted"
        using ingest_taken [OF assms(3) src None' ev' taken(1) b(1) taken(2)] assms(5)
        by (auto simp: key_def Let_def)
      then show ?thesis by (intro active [OF new ev, of ?a]) simp_all
    next
      case free
      let ?a = "accept f source t ?e"
      have keep: "keeps_slots ?e ?a" using accept_keeps free(2) by (simp add: keeps_slots_def)
      have a: "profile_ok ?a"
        by (rule profile_ok_accept [OF en(1) assms(4) free(1) [symmetric] free(2) src])
      have akey: "pm_key (ap_metadata ?a) = key" using en(2) by (simp add: accept_def key_def)
      note eq = ingest_free [OF assms(3) src None' ev' free(1) en(1) assms(4) free(2), unfolded Let_def, folded key_def]
      show ?thesis
      proof (cases "profile_complete ?a")
        case True
        obtain r'' where c: "complete_entry key (r\<lparr>pr_active := AList.update key ?a act\<rparr>) = Ok (finish ?a, r'')"
          "pr_active r'' = AList.delete key act"
          "\<lparr>cp_key = key, cp_fragments = ap_fragments ?a, cp_completed_at = ap_last_observed_at ?a\<rparr>
             \<in> set (pr_completed r'')"
          using complete_entry_sound [OF E(1) new a True akey] by blast
        then have "r' = r''" "ig_evicted res = evicted" using eq assms(5) True by auto
        then show ?thesis using c(2,3) by (intro active [OF new ev _ keep]) force+
      next
        case False
        then have "r' = r\<lparr>pr_active := AList.update key ?a act\<rparr>" "ig_evicted res = evicted"
          using eq assms(5) by auto
        then show ?thesis by (intro active [OF new ev _ keep]) simp_all
      qed
    qed
  }
qed

section \<open>Sample fragments\<close>

definition sample_source :: "nat \<Rightarrow> source_fragment" where
  "sample_source i =
     \<lparr>sf_packet_id = int i, sf_fragment_index = word_of_nat i, sf_received_at_unix_ms = 1000 + int i,
      sf_radio = \<lparr>rm_packet_rssi_centi_dbm = 0, rm_snr_centi_db = 0, rm_signal_rssi_centi_dbm = 0\<rparr>\<rparr>"

definition sample_view :: "nat \<Rightarrow> profile_fragment_view" where
  "sample_view i = scan_fragment_view sample_common sample_scan i"

definition sample_key :: profile_key where
  "sample_key = scan_key sample_common sample_scan"

lemma sample_count: "scan_fragment_count sample_scan = 2"
  by (simp add: scan_fragment_count_def sample_scan_def)

lemma sample_view_decodes: "i < 2 \<Longrightarrow> \<exists>bs. decode bs = Ok (DF_ProfileFragment (sample_view i))"
  using sample_scan_encodes fragment_frame_decodes(1) [OF sample_wf(3)]
  by (metis sample_count sample_view_def)

lemma sample_view_index:
  "sf_fragment_index (sample_source i) = h_fragment_index (fv_header (sample_view i))"
  by (simp add: sample_source_def sample_view_def scan_fragment_view_def scan_fragment_header_def)

lemma visits_all_rev: "visits_all rev"
  by (simp add: visits_all_def)

definition sample_room :: "nat \<Rightarrow> profile_reassembler" where
  "sample_room n = \<lparr>pr_active = [], pr_completed = [], pr_max_active = Suc n\<rparr>"

lemma sample_room_ok: "with_capacity (Suc n) = Ok (sample_room n)" "reassembler_inv (sample_room n)"
  by (simp_all add: with_capacity_def sample_room_def reassembler_inv_def)

text \<open>The table after the first fragment of the sample scan.\<close>

lemma sample_first:
  obtains res a where
    "ingest_at rev (sample_view 0) (sample_source 0) 5 (sample_room n) =
       Ok (res, (sample_room n)\<lparr>pr_active := [(sample_key, a)]\<rparr>)"
    "reassembler_inv ((sample_room n)\<lparr>pr_active := [(sample_key, a)]\<rparr>)"
    "building sample_common sample_scan sample_source [0] a"
proof -
  obtain p where p: "encode_profile sample_common sample_scan = Ok p" using sample_scan_encodes by blast
  let ?r = "sample_room n"
  have active: "?r\<lparr>pr_active := []\<rparr> = ?r" "pr_active ?r = []" "pr_completed ?r = []"
    by (simp_all add: sample_room_def)
  have "ready rev sample_common sample_scan sample_source [] ?r []"
    using ready_start [OF sample_wf(3) p sample_room_ok(2)]
    by (simp add: sample_room_def contains_active_def active_len_def)
  moreover have "sf_fragment_index (sample_source 0) = word_of_nat 0" by (simp add: sample_source_def)
  ultimately have step: "building sample_common sample_scan sample_source ([] @ [0]) a"
    "\<not> profile_complete a \<Longrightarrow>
      \<exists>pg. ingest_at rev (sample_view 0) (sample_source 0) 5 (?r\<lparr>pr_active := []\<rparr>) =
        Ok (\<lparr>ig_event = Pending pg, ig_evicted = None, ig_integrity_snapshot = None\<rparr>,
            ?r\<lparr>pr_active := AList.update sample_key a []\<rparr>)
        \<and> ready rev sample_common sample_scan sample_source ([] @ [0]) ?r (AList.update sample_key a [])"
    if "a = accept (scan_owned sample_common sample_scan 0) (sample_source 0) 5
        (entry_for (scan_owned sample_common sample_scan 0) 5 [])" for a
    using ready_step [OF sample_wf(3) p, of 0 rev sample_source "[]" ?r "[]" 5] visits_all_rev active(3)
    unfolding that sample_view_def sample_key_def by (simp_all add: sample_count)
  obtain a where a: "building sample_common sample_scan sample_source ([] @ [0]) a"
    "\<not> profile_complete a \<Longrightarrow>
      \<exists>pg. ingest_at rev (sample_view 0) (sample_source 0) 5 (?r\<lparr>pr_active := []\<rparr>) =
        Ok (\<lparr>ig_event = Pending pg, ig_evicted = None, ig_integrity_snapshot = None\<rparr>,
            ?r\<lparr>pr_active := AList.update sample_key a []\<rparr>)
        \<and> ready rev sample_common sample_scan sample_source ([] @ [0]) ?r (AList.update sample_key a [])"
    using step by blast
  have "\<not> profile_complete a"
    unfolding building_complete [OF a(1)] sample_count by (simp add: lessThan_Suc numeral_2_eq_2)
  then obtain res where "ingest_at rev (sample_view 0) (sample_source 0) 5 ?r =
        Ok (res, ?r\<lparr>pr_active := [(sample_key, a)]\<rparr>)"
      "ready rev sample_common sample_scan sample_source ([] @ [0]) ?r [(sample_key, a)]"
    using a(2) active(1) by auto
  then show ?thesis using a(1) that unfolding ready_def by auto
qed

lemma sample_owned:
  assumes "i < 2"
  shows "owned_fragment_from_view (sample_view i) = Ok (scan_owned sample_common sample_scan i)"
    and "owned_ok (scan_owned sample_common sample_scan i)"
  using sample_scan_encodes scan_owned_view [OF sample_wf(3)] assms
  by (metis sample_count sample_view_def)+

section \<open>Reachable states\<close>

lemma serves_max:
  assumes "serves it r (op, out) r'"
  shows "pr_max_active r' = pr_max_active r"
  using assms
proof cases
  case (ingested bs v source t res)
  then show ?thesis
    by (auto simp: ingest_at_def complete_entry_def Let_def split: option.splits if_splits prod.splits)
qed (auto simp: expire_before_def expire_older_than_def drain_incomplete_def discard_def
       restore_receiver_counts_def Let_def case_prod_beta split: if_splits)

lemma run_max: "run (serves it) r es r' \<Longrightarrow> pr_max_active r' = pr_max_active r"
  by (induction rule: run.induct) (auto dest: serves_max)

text \<open>
  C7. Whatever sequence of operations a reassembler of capacity \<open>n\<close> serves, its tables never exceed
  their capacity, its invariant holds, and every profile it hands out, complete, evicted, expired,
  drained or as a snapshot, is a scan the validator of the records accepts.
\<close>

theorem reassembler_run_sound:
  assumes "visits_all it" and "with_capacity n = Ok r0" and "run (serves it) r0 es r"
  shows "reassembler_inv r \<and> active_len r \<le> n \<and> length (pr_completed r) \<le> n
    \<and> (\<forall>(op, out) \<in> set es. \<forall>p \<in> set out. scan_validate (rp_scan p) = Ok ())"
proof -
  note start = with_capacity_inv [OF assms(2)]
  have "run (\<lambda>r e r'. visits_all it \<and> serves it r e r') r0 es r"
    by (rule run_mono [OF assms(3)]) (simp add: assms(1))
  then have "reassembler_inv r \<and> (\<forall>e \<in> set es. case e of (op, out) \<Rightarrow> \<forall>p \<in> set out. finished p)"
    using start(1) by (rule reassembler.run_sound)
  moreover have "pr_max_active r = n" using run_max [OF assms(3)] start(4) by simp
  ultimately show ?thesis
    using reassembler_invD(3,6) [of r] finished_valid by (fastforce simp: active_len_def)
qed

theorem reassembler_run_sound_witness:
  "\<exists>res r out r'. run (serves rev) (sample_room 1)
       [(Op_Ingest (sample_view 0) (sample_source 0) 5, handed_out res), (Op_Drain, out)] r'
     \<and> length out = 1 \<and> active_len r' \<le> 2 \<and> (\<forall>p \<in> set out. scan_validate (rp_scan p) = Ok ())
     \<and> ingest_at rev (sample_view 0) (sample_source 0) 5 (sample_room 1) = Ok (res, r)"
proof -
  obtain res a where i: "ingest_at rev (sample_view 0) (sample_source 0) 5 (sample_room 1) =
      Ok (res, (sample_room 1)\<lparr>pr_active := [(sample_key, a)]\<rparr>)"
    by (rule sample_first)
  obtain bs where "decode bs = Ok (DF_ProfileFragment (sample_view 0))"
    using sample_view_decodes [of 0] by auto
  then have s1: "serves rev (sample_room 1) (Op_Ingest (sample_view 0) (sample_source 0) 5, handed_out res)
      ((sample_room 1)\<lparr>pr_active := [(sample_key, a)]\<rparr>)"
    using i by (rule serves.ingested)
  have "serves rev ((sample_room 1)\<lparr>pr_active := [(sample_key, a)]\<rparr>) (Op_Drain, [finish a]) (sample_room 1)"
    by (rule serves.drained) (simp add: drain_incomplete_def sample_room_def)
  from run_snoc [of "serves rev", OF run_snoc [of "serves rev", OF run_Nil s1] this]
  have r: "run (serves rev) (sample_room 1)
      [(Op_Ingest (sample_view 0) (sample_source 0) 5, handed_out res), (Op_Drain, [finish a])] (sample_room 1)"
    by simp
  show ?thesis
    using reassembler_run_sound [OF visits_all_rev sample_room_ok(1) r] r i by fastforce
qed

section \<open>Ingestion\<close>



text \<open>
  C9. The first copy of a fragment is never replaced and never lost: after any ingestion a fragment
  that was stored is still stored, in the table or among the completed scans, unless its scan was
  the one evicted, and then it is part of what was handed out.
\<close>

theorem first_copy_wins:
  assumes "reassembler_inv r" and "visits_all it" and "decode bs = Ok (DF_ProfileFragment v)"
    and "ingest_at it v source t r = Ok (res, r')"
    and "map_of (pr_active r) key = Some a" and "i < length (ap_fragments a)"
    and "ap_fragments a ! i = Some g"
  shows "(\<exists>a'. map_of (pr_active r') key = Some a' \<and> ap_fragments a' ! i = Some g)
    \<or> (\<exists>c \<in> set (pr_completed r'). cp_key c = key \<and> cp_fragments c ! i = Some g)
    \<or> ig_evicted res = Some (finish a)"
proof -
  obtain f where f: "owned_fragment_from_view v = Ok f" "owned_ok f"
    using decoded_owned [OF assms(3)] by metis
  show ?thesis
  proof (rule ingest_table [OF assms(1,2) f assms(4)])
    assume "r' = r"
    then show ?thesis using assms(5,7) by blast
  next
    fix evicted active b
    let ?k = "pm_key (of_metadata f)"
    assume A: "evict it ?k r = (evicted, active)" "ig_evicted res = evicted" "keeps_slots (entry_for f t active) b"
      "pr_active r' = AList.update ?k b active \<and> pr_completed r' = pr_completed r
       \<or> pr_active r' = AList.delete ?k active
         \<and> (\<exists>c \<in> set (pr_completed r'). cp_key c = ?k \<and> cp_fragments c = ap_fragments b)"
    show ?thesis
    proof (cases "key = ?k")
      case True
      then have "map_of active key = Some a" using evict_sound(3) [OF assms(1,2) A(1)] assms(5) by simp
      then have "entry_for f t active = a" using True by (simp add: entry_for_def)
      then have "ap_fragments b ! i = Some g" using A(3) assms(6,7) by (simp add: keeps_slots_def)
      then show ?thesis using A(4) True by (auto simp: AList.update_conv')
    next
      case False
      then have same: "map_of (pr_active r') key = map_of active key"
        using A(4) by (auto simp: AList.update_conv' AList.delete_conv')
      show ?thesis
      proof (cases "map_of (pr_active r) ?k \<noteq> None \<or> length (pr_active r) < pr_max_active r")
        case True
        then have "active = pr_active r" using evict_room [OF True, of it] A(1) by simp
        then show ?thesis using same assms(5,7) by simp
      next
        case full: False
        then obtain old c where e: "map_of (pr_active r) old = Some c"
          "evict it ?k r = (Some (finish c), AList.delete old (pr_active r))"
          using evict_full [OF assms(1,2)] reassembler_invD(3) [OF assms(1)] by (metis le_neq_implies_less)
        show ?thesis
        proof (cases "key = old")
          case True
          then show ?thesis using e A(1,2) assms(5) by simp
        next
          case False
          then show ?thesis using same e(2) A(1) assms(5,7) by (simp add: AList.delete_conv')
        qed
      qed
    qed
  qed
qed

lemma sample_again:
  assumes "reassembler_inv ((sample_room 0)\<lparr>pr_active := [(sample_key, a)]\<rparr>)"
  obtains res r' where
    "ingest_at rev (sample_view 0) (sample_source 0) 9 ((sample_room 0)\<lparr>pr_active := [(sample_key, a)]\<rparr>) = Ok (res, r')"
proof -
  have "sf_fragment_index (sample_source 0) = of_fragment_index (scan_owned sample_common sample_scan 0)"
    by (simp add: sample_source_def scan_owned_def)
  then show ?thesis
    using ingest_at_sound [OF assms visits_all_rev sample_owned [OF zero_less_numeral]] that
    unfolding ingest_sound_def by blast
qed

theorem first_copy_wins_witness:
  "\<exists>a g res r'. ap_fragments a ! 0 = Some g
     \<and> ingest_at rev (sample_view 0) (sample_source 0) 9 ((sample_room 0)\<lparr>pr_active := [(sample_key, a)]\<rparr>) = Ok (res, r')
     \<and> ((\<exists>a'. map_of (pr_active r') sample_key = Some a' \<and> ap_fragments a' ! 0 = Some g)
       \<or> (\<exists>c \<in> set (pr_completed r'). cp_key c = sample_key \<and> cp_fragments c ! 0 = Some g)
       \<or> ig_evicted res = Some (finish a))"
proof -
  obtain a where a: "reassembler_inv ((sample_room 0)\<lparr>pr_active := [(sample_key, a)]\<rparr>)"
    "building sample_common sample_scan sample_source [0] a"
    by (rule sample_first)
  obtain bs where bs: "decode bs = Ok (DF_ProfileFragment (sample_view 0))"
    using sample_view_decodes [of 0] by auto
  obtain res r' where i: "ingest_at rev (sample_view 0) (sample_source 0) 9
      ((sample_room 0)\<lparr>pr_active := [(sample_key, a)]\<rparr>) = Ok (res, r')"
    by (rule sample_again [OF a(1)])
  have g: "0 < length (ap_fragments a)" "ap_fragments a ! 0 = Some (scan_owned sample_common sample_scan 0)"
    using a(2) by (simp_all add: building_def sample_count)
  have "(\<exists>a'. map_of (pr_active r') sample_key = Some a' \<and> ap_fragments a' ! 0 = Some (scan_owned sample_common sample_scan 0))
      \<or> (\<exists>c \<in> set (pr_completed r'). cp_key c = sample_key \<and> cp_fragments c ! 0 = Some (scan_owned sample_common sample_scan 0))
      \<or> ig_evicted res = Some (finish a)"
    by (rule first_copy_wins [OF a(1) visits_all_rev bs i _ g]) simp
  then show ?thesis using g(2) i by blast
qed

text \<open>
  When the table is full and a fragment of a new scan arrives, the least recently observed scan,
  and no other, leaves the table, and it is handed out.
\<close>

theorem eviction_least_recent:
  assumes "reassembler_inv r" and "visits_all it" and "decode bs = Ok (DF_ProfileFragment v)"
    and "sf_fragment_index source = h_fragment_index (fv_header v)"
    and "\<not> contains_active (profile_key_of (fv_header v)) r"
    and "profile_key_of (fv_header v) \<notin> cp_key ` set (pr_completed r)"
    and "active_len r = pr_max_active r"
  shows "\<exists>old a res r'. map_of (pr_active r) old = Some a
    \<and> (\<forall>k b. map_of (pr_active r) k = Some b \<longrightarrow> ap_last_observed_at a \<le> ap_last_observed_at b)
    \<and> ingest_at it v source t r = Ok (res, r') \<and> ig_evicted res = Some (finish a)
    \<and> map_of (pr_active r') old = None
    \<and> (\<forall>k. k \<noteq> old \<longrightarrow> k \<noteq> profile_key_of (fv_header v) \<longrightarrow> map_of (pr_active r') k = map_of (pr_active r) k)"
proof -
  obtain f where f: "owned_fragment_from_view v = Ok f" "owned_ok f" "of_metadata f = metadata_of_view v"
    "of_fragment_index f = h_fragment_index (fv_header v)"
    using decoded_owned [OF assms(3)] by metis
  let ?k = "profile_key_of (fv_header v)"
  have key: "pm_key (of_metadata f) = ?k" by (simp add: f(3) metadata_of_view_def)
  have new: "map_of (pr_active r) ?k = None" and full: "length (pr_active r) = pr_max_active r"
    using assms(5,7) by (simp_all add: contains_active_def active_len_def)
  obtain old a where e: "map_of (pr_active r) old = Some a"
    "\<And>k b. map_of (pr_active r) k = Some b \<Longrightarrow> ap_last_observed_at a \<le> ap_last_observed_at b"
    "evict it ?k r = (Some (finish a), AList.delete old (pr_active r))"
    using evict_full [OF assms(1,2) new full] by metis
  have old: "old \<noteq> ?k" using e(1) new by auto
  have "ingest_sound (ingest_at it v source t r)"
    using ingest_at_sound [OF assms(1,2) f(1,2)] assms(4) f(4) by simp
  then obtain res r' where out: "ingest_at it v source t r = Ok (res, r')" by (auto simp: ingest_sound_def)
  show ?thesis
  proof (rule ingest_table [OF assms(1,2) f(1,2) out, unfolded key])
    assume "?k \<in> cp_key ` set (pr_completed r)"
    then show ?thesis using assms(6) by blast
  next
    fix evicted active b
    assume A: "evict it ?k r = (evicted, active)" "ig_evicted res = evicted"
      "pr_active r' = AList.update ?k b active \<and> pr_completed r' = pr_completed r
       \<or> pr_active r' = AList.delete ?k active
         \<and> (\<exists>c \<in> set (pr_completed r'). cp_key c = ?k \<and> cp_fragments c = ap_fragments b)"
    then have "map_of (pr_active r') k = map_of (AList.delete old (pr_active r)) k" if "k \<noteq> ?k" for k
      using e(3) that by (auto simp: AList.update_conv' AList.delete_conv')
    then show ?thesis using e A(1,2) out old by (auto simp: AList.delete_conv')
  qed
qed

definition other_common :: common where
  "other_common = sample_common\<lparr>c_scan_sequence := 8\<rparr>"

lemma other_encodes: "\<exists>p. encode_profile other_common sample_scan = Ok p"
proof -
  have "common_valid other_common" by code_simp
  moreover have "validate_profile_config_identity other_common (sc_collection_flags sample_scan)
      (sc_finish_reason sample_scan) = Ok ()" by code_simp
  ultimately show ?thesis using sample_wf sample_scan_accepted by (auto simp: encode_profile_iff)
qed

theorem eviction_least_recent_witness:
  "\<exists>a res r'. ingest_at rev (scan_fragment_view other_common sample_scan 0) (sample_source 0) 9
       ((sample_room 0)\<lparr>pr_active := [(sample_key, a)]\<rparr>) = Ok (res, r')
     \<and> ig_evicted res = Some (finish a) \<and> map_of (pr_active r') sample_key = None"
proof -
  obtain a where a: "reassembler_inv ((sample_room 0)\<lparr>pr_active := [(sample_key, a)]\<rparr>)"
    by (rule sample_first)
  let ?v = "scan_fragment_view other_common sample_scan 0"
  obtain bs where bs: "decode bs = Ok (DF_ProfileFragment ?v)"
    using other_encodes fragment_frame_decodes(1) [OF sample_wf(3)] sample_count by (metis zero_less_numeral)
  have "profile_key_of (fv_header ?v) \<noteq> sample_key"
    by (simp add: sample_key_def scan_key_def scan_fragment_view_def scan_fragment_header_def
        profile_key_of_def other_common_def sample_common_def common_production_def)
  moreover have "sf_fragment_index (sample_source 0) = h_fragment_index (fv_header ?v)"
    by (simp add: sample_source_def scan_fragment_view_def scan_fragment_header_def)
  ultimately show ?thesis
    using eviction_least_recent [OF a visits_all_rev bs, of "sample_source 0" 9]
    by (auto simp: contains_active_def active_len_def sample_room_def split: if_splits)
qed

section \<open>Repeated fragments\<close>

text \<open>
  A fragment that arrives again while its scan is incomplete changes nothing but one counter,
  which saturates: the duplicate counter when the copy is identical, the conflict counter when it
  is not. The caller gets the scan as it is known, for an integrity report.
\<close>

theorem redelivery_counted:
  assumes "reassembler_inv r" and "decode bs = Ok (DF_ProfileFragment v)"
    and "sf_fragment_index source = h_fragment_index (fv_header v)"
    and "map_of (pr_active r) (profile_key_of (fv_header v)) = Some a"
    and "ap_metadata a = metadata_of_view v"
    and "ap_fragments a ! unat (h_fragment_index (fv_header v)) = Some g"
  shows "\<exists>f a'. owned_fragment_from_view v = Ok f
    \<and> ingest_at it v source t r =
        Ok (\<lparr>ig_event =
               (if g = f then Duplicate (profile_key_of (fv_header v)) (h_fragment_index (fv_header v))
                else Conflict (profile_key_of (fv_header v)) (h_fragment_index (fv_header v))),
             ig_evicted = None, ig_integrity_snapshot = Some (finish a')\<rparr>,
            r\<lparr>pr_active := AList.update (profile_key_of (fv_header v)) a' (pr_active r)\<rparr>)
    \<and> unat (ap_duplicate_fragment_count a') =
        (if g = f then min 65535 (unat (ap_duplicate_fragment_count a) + 1)
         else unat (ap_duplicate_fragment_count a))
    \<and> unat (ap_conflicting_fragment_count a') =
        (if g = f then unat (ap_conflicting_fragment_count a)
         else min 65535 (unat (ap_conflicting_fragment_count a) + 1))
    \<and> ap_fragments a' = ap_fragments a \<and> ap_sources a' = ap_sources a
    \<and> ap_received_fragment_bitmap a' = ap_received_fragment_bitmap a
    \<and> ap_last_observed_at a' = ap_last_observed_at a"
proof -
  obtain f where f: "owned_fragment_from_view v = Ok f" "owned_ok f" "of_metadata f = metadata_of_view v"
    "of_fragment_index f = h_fragment_index (fv_header v)"
    using decoded_owned [OF assms(2)] by metis
  let ?k = "profile_key_of (fv_header v)"
  have key: "pm_key (of_metadata f) = ?k" by (simp add: f(3) metadata_of_view_def)
  have src: "sf_fragment_index source = of_fragment_index f" using assms(3) f(4) by simp
  have "?k \<notin> cp_key ` set (pr_completed r)"
    using reassembler_invD(8) [OF assms(1)] assms(4) by force
  then have none: "find (\<lambda>entry. cp_key entry = pm_key (of_metadata f)) (pr_completed r) = None"
    unfolding key find_completed_None .
  have ev: "evict it (pm_key (of_metadata f)) r = (None, pr_active r)"
    unfolding key using assms(4) by (intro evict_room) simp
  have e: "entry_for f t (pr_active r) = a" using assms(4) by (simp add: entry_for_def key)
  have a: "profile_ok a" using reassembler_invD(4) [OF assms(1,4)] by (simp add: entry_ok_def)
  note b = owned_index_bound [OF a f(2)]
  have out: "ingest_at it v source t r =
      (let a' = (if g = f then count_duplicate a else count_conflict a)
       in Ok (\<lparr>ig_event = (if g = f then Duplicate ?k (of_fragment_index f) else Conflict ?k (of_fragment_index f)),
               ig_evicted = None, ig_integrity_snapshot = Some (snapshot a')\<rparr>,
              r\<lparr>pr_active := AList.update ?k a' (pr_active r)\<rparr>))"
    using ingest_taken [OF f(1) src none ev, where t = t and g = g, unfolded e key Let_def] f(3,4) assms(5,6) b
    by (simp add: Let_def)
  show ?thesis
    by (intro exI [of _ f] exI [of _ "if g = f then count_duplicate a else count_conflict a"])
       (simp add: f(1,4) out Let_def snapshot_def count_duplicate_def count_conflict_def unat_saturating_add)
qed

theorem redelivery_counted_witness:
  "\<exists>a res r'. ingest_at rev (sample_view 0) (sample_source 0) 9 ((sample_room 0)\<lparr>pr_active := [(sample_key, a)]\<rparr>) =
       Ok (res, r')
     \<and> ig_event res = Duplicate sample_key 0
     \<and> (\<exists>a'. map_of (pr_active r') sample_key = Some a' \<and> unat (ap_duplicate_fragment_count a') = 1)"
proof -
  obtain a where a: "reassembler_inv ((sample_room 0)\<lparr>pr_active := [(sample_key, a)]\<rparr>)"
    "building sample_common sample_scan sample_source [0] a"
    by (rule sample_first)
  obtain bs where bs: "decode bs = Ok (DF_ProfileFragment (sample_view 0))"
    using sample_view_decodes [of 0] by auto
  have idx: "h_fragment_index (fv_header (sample_view 0)) = 0"
    by (simp add: sample_view_def scan_fragment_view_def scan_fragment_header_def)
  have key: "profile_key_of (fv_header (sample_view 0)) = sample_key"
    by (simp add: sample_view_def sample_key_def scan_key_def scan_fragment_view_def)
  have ap: "ap_metadata a = metadata_of_view (sample_view 0)"
    "ap_fragments a ! unat (h_fragment_index (fv_header (sample_view 0))) = Some (scan_owned sample_common sample_scan 0)"
    "ap_duplicate_fragment_count a = 0"
    using a(2) unfolding idx
    by (simp_all add: building_def sample_view_def scan_metadata_def sample_count)
  have "map_of (pr_active ((sample_room 0)\<lparr>pr_active := [(sample_key, a)]\<rparr>)) (profile_key_of (fv_header (sample_view 0)))
      = Some a" by (simp add: key)
  from redelivery_counted [OF a(1) bs sample_view_index this ap(1,2), of rev 9]
  obtain res a' where i: "ingest_at rev (sample_view 0) (sample_source 0) 9
        ((sample_room 0)\<lparr>pr_active := [(sample_key, a)]\<rparr>) = Ok (res, (sample_room 0)\<lparr>pr_active := [(sample_key, a')]\<rparr>)"
      "ig_event res = Duplicate sample_key 0" "unat (ap_duplicate_fragment_count a') = 1"
    using sample_owned(1) [of 0] ap(3) by (auto simp: key idx)
  show ?thesis
    by (rule exI [of _ a], rule exI, rule exI, intro conjI, rule i(1), rule i(2)) (simp add: i(3))
qed

lemma find_completed:
  "distinct (map cp_key cs) \<Longrightarrow> c \<in> set cs \<Longrightarrow> find (\<lambda>entry. cp_key entry = cp_key c) cs = Some c"
  by (induction cs) auto

text \<open>
  A fragment of a scan that is complete already never reopens it: the state does not change, and
  the answer says whether it is a copy of the fragment that was received.
\<close>

theorem completed_redelivery:
  assumes "reassembler_inv r" and "decode bs = Ok (DF_ProfileFragment v)"
    and "sf_fragment_index source = h_fragment_index (fv_header v)"
    and "c \<in> set (pr_completed r)" and "cp_key c = profile_key_of (fv_header v)"
  shows "\<exists>f. owned_fragment_from_view v = Ok f
    \<and> ingest_at it v source t r =
        Ok (\<lparr>ig_event =
               (if f \<in> set (flatten (cp_fragments c))
                then Duplicate (cp_key c) (h_fragment_index (fv_header v))
                else Conflict (cp_key c) (h_fragment_index (fv_header v))),
             ig_evicted = None, ig_integrity_snapshot = None\<rparr>, r)"
proof -
  obtain f where f: "owned_fragment_from_view v = Ok f" "of_metadata f = metadata_of_view v"
    "of_fragment_index f = h_fragment_index (fv_header v)"
    using decoded_owned [OF assms(2)] by metis
  have key: "pm_key (of_metadata f) = cp_key c" using assms(5) by (simp add: f(2) metadata_of_view_def)
  have "find (\<lambda>entry. cp_key entry = cp_key c) (pr_completed r) = Some c"
    by (rule find_completed [OF reassembler_invD(5) [OF assms(1)] assms(4)])
  then have find: "find (\<lambda>entry. cp_key entry = pm_key (of_metadata f)) (pr_completed r) = Some c"
    by (simp add: key)
  have slots: "\<exists>g. cp_fragments c ! i = Some g \<and> unat (of_fragment_index g) = i" if "i < length (cp_fragments c)" for i
    using reassembler_invD(7) [OF assms(1,4)] that unfolding completed_ok_def by blast
  have "f \<in> set (flatten (cp_fragments c)) \<longleftrightarrow> Some f \<in> set (cp_fragments c)"
    by (force simp: flatten_def)
  also have "\<dots> \<longleftrightarrow> unat (of_fragment_index f) < length (cp_fragments c)
      \<and> cp_fragments c ! unat (of_fragment_index f) = Some f"
    using slots unfolding in_set_conv_nth by (metis option.inject)
  finally show ?thesis
    using ingest_completed [OF f(1) _ find, of source it t] f(1,3) assms(3) by (simp add: key)
qed

text \<open>The sample scan, delivered last fragment first into an empty reassembler.\<close>

lemma sample_room_free:
  "active_len (sample_room n) < pr_max_active (sample_room n)"
  "\<not> contains_active key (sample_room n)" "key \<notin> cp_key ` set (pr_completed (sample_room n))"
  by (simp_all add: sample_room_def active_len_def contains_active_def)

lemma sample_sources: "sf_fragment_index (sample_source i) = word_of_nat i"
  by (simp add: sample_source_def)

lemma sample_order:
  assumes "encode_profile sample_common sample_scan = Ok p"
  shows "mset [1, 0] = mset [0..<length (encoded_profile_frames p)]"
  using fragment_frame_decodes(3) [OF sample_wf(3) assms, of 0]
  by (simp add: sample_count upt_rec)

theorem completed_redelivery_witness:
  "\<exists>r. reassembler_inv r \<and> sample_key \<in> cp_key ` set (pr_completed r)
     \<and> ingest_at rev (sample_view 0) (sample_source 0) 20 r =
         Ok (\<lparr>ig_event = Duplicate sample_key 0, ig_evicted = None, ig_integrity_snapshot = None\<rparr>, r)"
proof -
  obtain p where p: "encode_profile sample_common sample_scan = Ok p" using sample_scan_encodes by blast
  obtain bs where bs: "decode bs = Ok (DF_ProfileFragment (sample_view 0))"
    using sample_view_decodes [of 0] by auto
  obtain r t where r: "reassembler_inv r"
    "\<lparr>cp_key = sample_key, cp_fragments = map (\<lambda>i. Some (scan_owned sample_common sample_scan i)) [0..<2],
      cp_completed_at = t\<rparr> \<in> set (pr_completed r)" (is "?c \<in> _")
    using deliver_all [OF visits_all_rev sample_wf(3) p sample_room_ok(2) [of 0] sample_room_free(1-3)
        sample_order [OF p] sample_sources, where time = "\<lambda>i. i"]
    unfolding sample_key_def sample_count by blast
  have key: "cp_key ?c = profile_key_of (fv_header (sample_view 0))"
    by (simp add: sample_view_def sample_key_def scan_key_def scan_fragment_view_def)
  have idx: "h_fragment_index (fv_header (sample_view 0)) = 0"
    using sample_view_index [of 0] by (simp add: sample_source_def)
  have mem: "scan_owned sample_common sample_scan 0 \<in> set (flatten (cp_fragments ?c))"
    by (simp add: flatten_def upt_rec)
  have "ingest_at rev (sample_view 0) (sample_source 0) 20 r =
         Ok (\<lparr>ig_event = Duplicate sample_key 0, ig_evicted = None, ig_integrity_snapshot = None\<rparr>, r)"
    using completed_redelivery [OF r(1) bs sample_view_index r(2) key, of rev 20] sample_owned(1) [of 0] mem
    by (simp add: idx)
  then show ?thesis using r by force
qed

section \<open>Delivery\<close>

text \<open>
  C6. End to end: the frames of a scan the sensor node encoded, received in any order next to other
  scans in progress, decode, are pending until the last of them and then complete, with no
  eviction, the record of exactly that scan: every field of it, every observed step once and in
  order, and the sources in order of arrival. The record is valid and the other scans are as
  before.
\<close>

theorem scan_delivered:
  assumes "visits_all it" and "wf_scan scan" and "encode_profile common scan = Ok p"
    and "reassembler_inv r" and "active_len r < pr_max_active r"
    and "\<not> contains_active (scan_key common scan) r"
    and "scan_key common scan \<notin> cp_key ` set (pr_completed r)"
    and "mset order = mset [0..<length (encoded_profile_frames p)]"
    and "\<And>i. i < length (encoded_profile_frames p) \<Longrightarrow> sf_fragment_index (src i) = word_of_nat i"
  shows "\<exists>rs r'. deliver it (map (scan_packet p src time) order) r =
      Ok (rs @ [\<lparr>ig_event = Complete \<lparr>rp_scan = delivered_scan common scan, rp_fragments = map src order\<rparr>,
                 ig_evicted = None, ig_integrity_snapshot = None\<rparr>], r')
    \<and> (\<forall>res \<in> set rs. \<exists>pg. res = \<lparr>ig_event = Pending pg, ig_evicted = None, ig_integrity_snapshot = None\<rparr>)
    \<and> reassembler_inv r' \<and> pr_active r' = pr_active r
    \<and> scan_validate (delivered_scan common scan) = Ok ()"
  using deliver_all [OF assms] by blast

theorem scan_delivered_witness:
  "\<exists>p rs r'. encode_profile sample_common sample_scan = Ok p
     \<and> deliver rev (map (scan_packet p sample_source (\<lambda>i. i)) [1, 0]) (sample_room 3) =
         Ok (rs @ [\<lparr>ig_event = Complete \<lparr>rp_scan = delivered_scan sample_common sample_scan,
                                        rp_fragments = [sample_source 1, sample_source 0]\<rparr>,
                    ig_evicted = None, ig_integrity_snapshot = None\<rparr>], r')
     \<and> map st_step_index (pf_steps (delivered_scan sample_common sample_scan)) = [0, 2, 3]"
proof -
  obtain p where p: "encode_profile sample_common sample_scan = Ok p" using sample_scan_encodes by blast
  have "map st_step_index (pf_steps (delivered_scan sample_common sample_scan)) = [0, 2, 3]"
    by (simp add: delivered_scan_def sample_scan_def flatten_def profile_step_sel sample_step_def)
  then show ?thesis
    using scan_delivered [OF visits_all_rev sample_wf(3) p sample_room_ok(2) [of 3] sample_room_free(1-3)
        sample_order [OF p] sample_sources, where time = "\<lambda>i. i"] p
    by auto
qed

section \<open>Expiry and restored counters\<close>

text \<open>
  Expiry followed by a drain loses nothing and repeats nothing: expiry hands out exactly the
  scans last observed before the cutoff and keeps the others, and the two outputs together are the
  scans that were in progress.
\<close>

theorem expire_then_drain:
  assumes "reassembler_inv r" and "visits_all it"
  shows "mset (fst (expire_before it cutoff r)) =
      image_mset (\<lambda>(_, a). finish a) (filter_mset (\<lambda>(_, a). ap_last_observed_at a < cutoff) (mset (pr_active r)))
    \<and> pr_active (snd (expire_before it cutoff r)) =
        filter (\<lambda>(_, a). cutoff \<le> ap_last_observed_at a) (pr_active r)
    \<and> mset (fst (expire_before it cutoff r)) + mset (fst (drain_incomplete it (snd (expire_before it cutoff r)))) =
        image_mset (\<lambda>(_, a). finish a) (mset (pr_active r))
    \<and> active_len (snd (drain_incomplete it (snd (expire_before it cutoff r)))) = 0"
proof -
  have visit: "mset (it xs) = mset xs" for xs using assms(2) by (simp add: visits_all_def)
  let ?old = "\<lambda>e :: profile_key \<times> active_profile. case e of (_, a) \<Rightarrow> ap_last_observed_at a < cutoff"
  have young: "(\<lambda>(_ :: profile_key, a). cutoff \<le> ap_last_observed_at a) = (\<lambda>e. \<not> ?old e)"
    by (auto simp: fun_eq_iff)
  have out: "mset (fst (expire_before it cutoff r)) =
      image_mset (\<lambda>(_, a). finish a) (filter_mset ?old (mset (pr_active r)))"
    unfolding expire_before_eq [OF assms] by (simp add: visit)
  have rest: "pr_active (snd (expire_before it cutoff r)) = filter (\<lambda>e. \<not> ?old e) (pr_active r)"
    unfolding expire_before_eq [OF assms] by (simp add: young)
  have "mset (fst (drain_incomplete it (snd (expire_before it cutoff r)))) =
      image_mset (\<lambda>(_, a). finish a) (filter_mset (\<lambda>e. \<not> ?old e) (mset (pr_active r)))"
    by (simp add: drain_incomplete_def visit rest case_prod_beta)
  then have "mset (fst (expire_before it cutoff r)) + mset (fst (drain_incomplete it (snd (expire_before it cutoff r)))) =
      image_mset (\<lambda>(_, a). finish a) (mset (pr_active r))"
    unfolding out by (simp only: image_mset_union [symmetric] multiset_partition [symmetric])
  then show ?thesis using out rest young by (simp add: drain_incomplete_def active_len_def)
qed

theorem expire_then_drain_witness:
  "\<exists>a r. pr_active r = [(sample_key, a)]
     \<and> mset (fst (expire_before rev (Suc (ap_last_observed_at a)) r)) = {#finish a#}
     \<and> pr_active (snd (expire_before rev (Suc (ap_last_observed_at a)) r)) = []
     \<and> mset (fst (drain_incomplete rev (snd (expire_before rev 0 r)))) = {#finish a#}"
proof -
  obtain a where a: "reassembler_inv ((sample_room 0)\<lparr>pr_active := [(sample_key, a)]\<rparr>)"
    by (rule sample_first)
  show ?thesis
    using expire_then_drain [OF a visits_all_rev, of "Suc (ap_last_observed_at a)"]
      expire_then_drain [OF a visits_all_rev, of 0]
    by (intro exI [of _ a] exI [of _ "(sample_room 0)\<lparr>pr_active := [(sample_key, a)]\<rparr>"]) auto
qed

text \<open>
  Counters restored after a restart are added to those of the entry and saturate at the maximum
  of a 16-bit counter; nothing else of the state changes, and a scan that is not in progress is an
  error.
\<close>

theorem restore_receiver_counts_exact:
  "case map_of (pr_active r) key of
     None \<Rightarrow> restore_receiver_counts key d c r = fail InternalState
   | Some a \<Rightarrow>
       \<exists>a'. restore_receiver_counts key d c r = Ok (r\<lparr>pr_active := AList.update key a' (pr_active r)\<rparr>)
         \<and> unat (ap_duplicate_fragment_count a') = min 65535 (unat (ap_duplicate_fragment_count a) + unat d)
         \<and> unat (ap_conflicting_fragment_count a') = min 65535 (unat (ap_conflicting_fragment_count a) + unat c)
         \<and> a'\<lparr>ap_duplicate_fragment_count := ap_duplicate_fragment_count a,
             ap_conflicting_fragment_count := ap_conflicting_fragment_count a\<rparr> = a"
proof (cases "map_of (pr_active r) key")
  case None
  then show ?thesis by (simp add: restore_receiver_counts_def)
next
  case (Some a)
  let ?a = "a\<lparr>ap_duplicate_fragment_count := saturating_add (ap_duplicate_fragment_count a) d,
    ap_conflicting_fragment_count := saturating_add (ap_conflicting_fragment_count a) c\<rparr>"
  have "restore_receiver_counts key d c r = Ok (r\<lparr>pr_active := AList.update key ?a (pr_active r)\<rparr>)"
    using Some by (simp add: restore_receiver_counts_def)
  moreover have "?a\<lparr>ap_duplicate_fragment_count := ap_duplicate_fragment_count a,
      ap_conflicting_fragment_count := ap_conflicting_fragment_count a\<rparr> = a"
    by (cases a) simp
  ultimately show ?thesis
    using Some by (simp only: option.case) (intro exI [of _ ?a], simp add: unat_saturating_add)
qed

end
