(* ===== verification/Analysis.thy ===== *)
theory Analysis
  imports Protocol_V1 Convert
begin

text \<open>
  Quality gates and feature extraction of \<^verbatim>\<open>crates/vesta-receiver/src/analysis.rs\<close>: the quality flags
  of a sample, the history kept for each series, the features of a sample and of a profile.

  The arithmetic on \<^verbatim>\<open>f64\<close> is a parameter: the record \<open>f64_ops\<close> of the operations the source uses.
  What feeds a feature, and when there is one, does not depend on them. A \<^verbatim>\<open>u128\<close> sum of
  microseconds is a natural number: it is below \<open>2 ^ 75\<close>. An \<^verbatim>\<open>i64\<close> is a 64-bit word read as signed.
\<close>

type_synonym i64 = "64 word"

section \<open>Quality\<close>

definition MIN_TEMPERATURE_CENTI_CELSIUS :: int where "MIN_TEMPERATURE_CENTI_CELSIUS = -4000"
definition MAX_TEMPERATURE_CENTI_CELSIUS :: int where "MAX_TEMPERATURE_CENTI_CELSIUS = 8500"
definition MIN_PRESSURE_PASCAL :: u32 where "MIN_PRESSURE_PASCAL = 30000"
definition MAX_PRESSURE_PASCAL :: u32 where "MAX_PRESSURE_PASCAL = 110000"
definition MAX_HUMIDITY_MILLI_PERCENT_RH :: u32 where "MAX_HUMIDITY_MILLI_PERCENT_RH = 100000"
definition ANALYSIS_ALLOWED_COLLECTION_FLAGS :: u32 where
  "ANALYSIS_ALLOWED_COLLECTION_FLAGS = COLLECTION_FLAG_DUPLICATE OR COLLECTION_FLAG_SENSOR_RECONFIGURED"

datatype quality_flags = QualityFlags u16

definition NOT_NEW_DATA :: quality_flags where "NOT_NEW_DATA = QualityFlags (push_bit 0 1)"
definition GAS_INVALID :: quality_flags where "GAS_INVALID = QualityFlags (push_bit 1 1)"
definition HEATER_UNSTABLE :: quality_flags where "HEATER_UNSTABLE = QualityFlags (push_bit 2 1)"
definition UNKNOWN_STATUS :: quality_flags where "UNKNOWN_STATUS = QualityFlags (push_bit 3 1)"
definition TEMPERATURE_OUT_OF_RANGE :: quality_flags where
  "TEMPERATURE_OUT_OF_RANGE = QualityFlags (push_bit 4 1)"
definition PRESSURE_OUT_OF_RANGE :: quality_flags where
  "PRESSURE_OUT_OF_RANGE = QualityFlags (push_bit 5 1)"
definition HUMIDITY_OUT_OF_RANGE :: quality_flags where
  "HUMIDITY_OUT_OF_RANGE = QualityFlags (push_bit 6 1)"
definition GAS_RESISTANCE_ZERO :: quality_flags where
  "GAS_RESISTANCE_ZERO = QualityFlags (push_bit 7 1)"
definition PROFILE_SCAN_UNUSABLE :: quality_flags where
  "PROFILE_SCAN_UNUSABLE = QualityFlags (push_bit 8 1)"

lemmas quality_flag_defs =
  NOT_NEW_DATA_def GAS_INVALID_def HEATER_UNSTABLE_def UNKNOWN_STATUS_def
  TEMPERATURE_OUT_OF_RANGE_def PRESSURE_OUT_OF_RANGE_def HUMIDITY_OUT_OF_RANGE_def
  GAS_RESISTANCE_ZERO_def PROFILE_SCAN_UNUSABLE_def

primrec quality_bits :: "quality_flags \<Rightarrow> u16" where
  "quality_bits (QualityFlags w) = w"

definition quality_is_empty :: "quality_flags \<Rightarrow> bool" where
  "quality_is_empty q \<longleftrightarrow> quality_bits q = 0"

definition quality_insert :: "quality_flags \<Rightarrow> quality_flags \<Rightarrow> quality_flags" where
  "quality_insert q other = QualityFlags (quality_bits q OR quality_bits other)"

definition insert_if :: "bool \<Rightarrow> quality_flags \<Rightarrow> quality_flags \<Rightarrow> quality_flags" where
  "insert_if b other q = (if b then quality_insert q other else q)"

definition sample_quality :: "u8 \<Rightarrow> i16 \<Rightarrow> u32 \<Rightarrow> u32 \<Rightarrow> u32 \<Rightarrow> quality_flags" where
  "sample_quality status_bits temperature pressure humidity gas =
    (let q = QualityFlags 0;
         q = insert_if (status_bits AND push_bit 7 1 = 0) NOT_NEW_DATA q;
         q = insert_if (status_bits AND push_bit 5 1 = 0) GAS_INVALID q;
         q = insert_if (status_bits AND push_bit 4 1 = 0) HEATER_UNSTABLE q;
         q = insert_if (status_bits AND NOT 0xb0 \<noteq> 0) UNKNOWN_STATUS q;
         q = insert_if (\<not> (MIN_TEMPERATURE_CENTI_CELSIUS \<le> sint temperature
                \<and> sint temperature \<le> MAX_TEMPERATURE_CENTI_CELSIUS)) TEMPERATURE_OUT_OF_RANGE q;
         q = insert_if (\<not> (MIN_PRESSURE_PASCAL \<le> pressure \<and> pressure \<le> MAX_PRESSURE_PASCAL))
               PRESSURE_OUT_OF_RANGE q;
         q = insert_if (MAX_HUMIDITY_MILLI_PERCENT_RH < humidity) HUMIDITY_OUT_OF_RANGE q;
         q = insert_if (gas = 0) GAS_RESISTANCE_ZERO q
     in q)"

text \<open>A call of \<^verbatim>\<open>is_ok()\<close>, and the short-circuit \<^verbatim>\<open>&&\<close> of conditions that may panic.\<close>

fun is_ok_of :: "('a, 'e) result \<Rightarrow> (bool, 'f) result" where
  "is_ok_of (Inr _) = Ok True"
| "is_ok_of (Inl (Err _)) = Ok False"
| "is_ok_of (Inl Panic) = panic"

definition and_also :: "(bool, 'e) result \<Rightarrow> (bool, 'e) result \<Rightarrow> (bool, 'e) result" where
  "and_also a b = and_then a (\<lambda>x. if x then b else Ok False)"

definition profile_scan_allows_analysis :: "scan_record \<Rightarrow> (bool, 'e) result" where
  "profile_scan_allows_analysis scan =
    and_also (is_ok_of (scan_validate scan)) (
    and_also (Ok (ri_common_flags (pf_identity scan) AND COMMON_FLAG_BOOT_ID_VALID \<noteq> 0)) (
    and_also (is_transport_complete scan) (
    and_also (map_ok (\<lambda>m. m = 0) (computed_unavailable_steps scan)) (
    Ok (pf_finish_reason scan = FINISH_REASON_COMPLETE
        \<and> pf_collection_flags scan AND NOT ANALYSIS_ALLOWED_COLLECTION_FLAGS = 0
        \<and> pf_overwritten_field_count scan = 0
        \<and> pf_out_of_order_count scan = 0
        \<and> pf_ambiguous_index_jump_count scan = 0
        \<and> pf_invalid_gas_index_count scan = 0
        \<and> pf_profile_rollover_count scan = 0
        \<and> pf_fields_after_rollover_count scan = 0
        \<and> pf_conflicting_fragment_count scan = 0)))))"

section \<open>Samples\<close>

datatype analysis_series =
  LegacyV1
| SeriesProfileStep u64 u16 u16 u8

record history_key =
  hk_node_id :: u64
  hk_boot_id :: "u64 option"
  hk_series :: analysis_series

record device_sample_time =
  dt_scan_start_uptime_ms :: u64
  dt_relative_offset_us :: u32

definition total_microseconds :: "device_sample_time \<Rightarrow> nat" where
  "total_microseconds t = unat (dt_scan_start_uptime_ms t) * 1000 + unat (dt_relative_offset_us t)"

definition time_elapsed_since :: "device_sample_time \<Rightarrow> device_sample_time \<Rightarrow> nat option" where
  "time_elapsed_since t prior =
     (if total_microseconds t < total_microseconds prior then None
      else let elapsed = total_microseconds t - total_microseconds prior
           in if elapsed < 2 ^ 64 \<and> elapsed \<noteq> 0 then Some elapsed else None)"

record analysis_sample =
  as_node_id :: u64
  as_boot_id :: "u64 option"
  as_sequence :: u32
  as_series :: analysis_series
  as_received_at_unix_ms :: i64
  as_device_sample_time :: "device_sample_time option"
  as_temperature_centi_celsius :: i16
  as_pressure_pascal :: u32
  as_humidity_milli_percent_rh :: u32
  as_gas_resistance_ohm :: u32
  as_quality :: quality_flags
  as_reset_temporal_history :: bool

definition from_v1 :: "telemetry_v1 \<Rightarrow> i64 \<Rightarrow> analysis_sample" where
  "from_v1 frame received_at_unix_ms =
    (let temperature = centi_celsius (cr_temperature (t1_compensated frame));
         pressure = pascals (cr_pressure (t1_compensated frame));
         humidity = milli_percent_rh (cr_humidity (t1_compensated frame));
         gas = ohms (cr_gas_resistance (t1_compensated frame))
     in \<lparr>as_node_id = t1_node_id frame,
         as_boot_id = None,
         as_sequence = t1_sequence frame,
         as_series = LegacyV1,
         as_received_at_unix_ms = received_at_unix_ms,
         as_device_sample_time = None,
         as_temperature_centi_celsius = temperature,
         as_pressure_pascal = pressure,
         as_humidity_milli_percent_rh = humidity,
         as_gas_resistance_ohm = gas,
         as_quality = sample_quality (bits (t1_sensor_status frame)) temperature pressure humidity gas,
         as_reset_temporal_history = False\<rparr>)"

text \<open>\<^verbatim>\<open>condition.then_some(value)\<close>\<close>

definition then_some :: "bool \<Rightarrow> 'a \<Rightarrow> 'a option" where
  "then_some b x = (if b then Some x else None)"

definition step_quality :: "bool \<Rightarrow> step_record \<Rightarrow> quality_flags" where
  "step_quality scan_usable step =
     insert_if (\<not> scan_usable) PROFILE_SCAN_UNUSABLE
       (sample_quality (st_status_bits step) (st_temperature_centi_celsius step) (st_pressure_pascal step)
          (st_humidity_milli_percent_rh step) (st_gas_resistance_ohm step))"

definition from_profile_step :: "scan_record \<Rightarrow> step_record \<Rightarrow> i64 \<Rightarrow> (analysis_sample, 'e) result" where
  "from_profile_step scan step received_at_unix_ms =
    and_then (profile_scan_allows_analysis scan) (\<lambda>scan_usable.
    Ok \<lparr>as_node_id = ri_node_id (pf_identity scan),
        as_boot_id = then_some (ri_common_flags (pf_identity scan) AND COMMON_FLAG_BOOT_ID_VALID \<noteq> 0)
          (ri_boot_id (pf_identity scan)),
        as_sequence = ri_scan_sequence (pf_identity scan),
        as_series = SeriesProfileStep (ri_config_id (pf_identity scan)) (pf_profile_id scan)
          (pf_profile_version scan) (st_step_index step),
        as_received_at_unix_ms = received_at_unix_ms,
        as_device_sample_time = Some
          \<lparr>dt_scan_start_uptime_ms = ri_uptime_ms (pf_identity scan),
           dt_relative_offset_us = st_relative_offset_us step\<rparr>,
        as_temperature_centi_celsius = st_temperature_centi_celsius step,
        as_pressure_pascal = st_pressure_pascal step,
        as_humidity_milli_percent_rh = st_humidity_milli_percent_rh step,
        as_gas_resistance_ohm = st_gas_resistance_ohm step,
        as_quality = step_quality scan_usable step,
        as_reset_temporal_history =
          (pf_collection_flags scan AND COLLECTION_FLAG_SENSOR_RECONFIGURED \<noteq> 0)\<rparr>)"

fun is_profile_step :: "analysis_series \<Rightarrow> bool" where
  "is_profile_step LegacyV1 \<longleftrightarrow> False"
| "is_profile_step (SeriesProfileStep _ _ _ _) \<longleftrightarrow> True"

definition sample_history_key :: "analysis_sample \<Rightarrow> history_key option" where
  "sample_history_key s =
     (if is_profile_step (as_series s) \<and> as_boot_id s = None then None
      else Some \<lparr>hk_node_id = as_node_id s, hk_boot_id = as_boot_id s, hk_series = as_series s\<rparr>)"

text \<open>\<^verbatim>\<open>checked_sub\<close> on \<^verbatim>\<open>i64\<close>, then \<^verbatim>\<open>u64::try_from\<close>, then \<^verbatim>\<open>checked_mul(1_000)\<close>.\<close>

definition wall_elapsed_us :: "i64 \<Rightarrow> i64 \<Rightarrow> nat option" where
  "wall_elapsed_us now prior =
     (let d = sint now - sint prior
      in if d < - (2 ^ 63) \<or> 2 ^ 63 \<le> d then None
         else if d < 0 then None
         else if 2 ^ 64 \<le> nat d * 1000 then None
         else if nat d * 1000 = 0 then None else Some (nat d * 1000))"

definition sample_elapsed_since :: "analysis_sample \<Rightarrow> analysis_sample \<Rightarrow> nat option" where
  "sample_elapsed_since s prior =
     (case as_series s of
        LegacyV1 \<Rightarrow> wall_elapsed_us (as_received_at_unix_ms s) (as_received_at_unix_ms prior)
      | SeriesProfileStep _ _ _ _ \<Rightarrow>
          (case (as_device_sample_time s, as_device_sample_time prior) of
             (Some t, Some t') \<Rightarrow> time_elapsed_since t t'
           | _ \<Rightarrow> None))"

section \<open>Temporal features\<close>

text \<open>
  The operations on \<^verbatim>\<open>f64\<close>: conversion from an integer, arithmetic, the natural logarithm, and the
  seconds of \<^verbatim>\<open>Duration::from_micros\<close>.
\<close>

record 'f f64_ops =
  f_of_int :: "int \<Rightarrow> 'f"
  f_add :: "'f \<Rightarrow> 'f \<Rightarrow> 'f"
  f_sub :: "'f \<Rightarrow> 'f \<Rightarrow> 'f"
  f_div :: "'f \<Rightarrow> 'f \<Rightarrow> 'f"
  f_ln :: "'f \<Rightarrow> 'f"
  f_secs_of_micros :: "nat \<Rightarrow> 'f"

definition gas_log :: "'f f64_ops \<Rightarrow> u32 \<Rightarrow> 'f option" where
  "gas_log F gas_resistance_ohm = then_some (gas_resistance_ohm \<noteq> 0) (f_ln F (f_of_int F (uint gas_resistance_ohm)))"

record 'f temporal_features =
  tf_node_id :: u64
  tf_boot_id :: "u64 option"
  tf_sequence :: u32
  tf_series :: analysis_series
  tf_received_at_unix_ms :: i64
  tf_device_sample_time :: "device_sample_time option"
  tf_quality_flags :: u16
  tf_temporal_history_reset :: bool
  tf_temperature_celsius :: 'f
  tf_pressure_hectopascal :: 'f
  tf_humidity_percent_rh :: 'f
  tf_gas_log_ohm :: "'f option"
  tf_elapsed_ms :: "nat option"
  tf_elapsed_us :: "nat option"
  tf_temperature_rate_celsius_per_minute :: "'f option"
  tf_humidity_rate_percent_per_minute :: "'f option"
  tf_pressure_rate_hectopascal_per_minute :: "'f option"
  tf_gas_log_rate_per_minute :: "'f option"

record temporal_feature_extractor =
  te_previous :: "history_key \<rightharpoonup> analysis_sample"

definition extractor_default :: temporal_feature_extractor where
  "extractor_default = \<lparr>te_previous = Map.empty\<rparr>"

text \<open>\<^verbatim>\<open>Option::is_none_or\<close> and \<^verbatim>\<open>Option::is_some_and\<close>\<close>

definition is_none_or :: "'a option \<Rightarrow> ('a \<Rightarrow> bool) \<Rightarrow> bool" where
  "is_none_or x p = (case x of None \<Rightarrow> True | Some y \<Rightarrow> p y)"

definition is_some_and :: "'a option \<Rightarrow> ('a \<Rightarrow> bool) \<Rightarrow> bool" where
  "is_some_and x p = (case x of None \<Rightarrow> False | Some y \<Rightarrow> p y)"

text \<open>The rates of change between the prior usable sample and this one.\<close>

definition with_rates ::
  "'f f64_ops \<Rightarrow> analysis_sample \<Rightarrow> analysis_sample \<Rightarrow> nat \<Rightarrow> 'f temporal_features \<Rightarrow> 'f temporal_features" where
  "with_rates F sample prior elapsed_us features =
    (let minutes = f_div F (f_secs_of_micros F elapsed_us) (f_of_int F 60);
         rate = (\<lambda>now before scale. Some (f_div F (f_div F (f_sub F (f_of_int F now) (f_of_int F before))
                                              (f_of_int F scale)) minutes))
     in features
       \<lparr>tf_elapsed_ms := Some (elapsed_us div 1000),
        tf_elapsed_us := Some elapsed_us,
        tf_temperature_rate_celsius_per_minute :=
          rate (sint (as_temperature_centi_celsius sample)) (sint (as_temperature_centi_celsius prior)) 100,
        tf_humidity_rate_percent_per_minute :=
          rate (uint (as_humidity_milli_percent_rh sample)) (uint (as_humidity_milli_percent_rh prior)) 1000,
        tf_pressure_rate_hectopascal_per_minute :=
          rate (uint (as_pressure_pascal sample)) (uint (as_pressure_pascal prior)) 100,
        tf_gas_log_rate_per_minute :=
          (case (gas_log F (as_gas_resistance_ohm sample), gas_log F (as_gas_resistance_ohm prior)) of
             (Some current, Some before) \<Rightarrow> Some (f_div F (f_sub F current before) minutes)
           | _ \<Rightarrow> None)\<rparr>)"

text \<open>
  The history of a series ends when the sensor was reconfigured, unless the sample is out of order,
  and when a scan is missing between the prior sample and this one.
\<close>

definition history_reset :: "analysis_sample \<Rightarrow> analysis_sample option \<Rightarrow> bool" where
  "history_reset sample previous =
    (let explicit_reset = (as_reset_temporal_history sample
           \<and> is_none_or previous (\<lambda>prior. sample_elapsed_since sample prior \<noteq> None));
         sequence_gap_reset = (is_profile_step (as_series sample)
           \<and> is_some_and previous (\<lambda>prior. sample_elapsed_since sample prior \<noteq> None
               \<and> as_sequence sample \<noteq> as_sequence prior + 1))
     in explicit_reset \<or> sequence_gap_reset)"

definition base_features :: "'f f64_ops \<Rightarrow> analysis_sample \<Rightarrow> bool \<Rightarrow> 'f temporal_features" where
  "base_features F sample temporal_history_reset =
     \<lparr>tf_node_id = as_node_id sample,
      tf_boot_id = as_boot_id sample,
      tf_sequence = as_sequence sample,
      tf_series = as_series sample,
      tf_received_at_unix_ms = as_received_at_unix_ms sample,
      tf_device_sample_time = as_device_sample_time sample,
      tf_quality_flags = quality_bits (as_quality sample),
      tf_temporal_history_reset = temporal_history_reset,
      tf_temperature_celsius = f_div F (f_of_int F (sint (as_temperature_centi_celsius sample))) (f_of_int F 100),
      tf_pressure_hectopascal = f_div F (f_of_int F (uint (as_pressure_pascal sample))) (f_of_int F 100),
      tf_humidity_percent_rh = f_div F (f_of_int F (uint (as_humidity_milli_percent_rh sample))) (f_of_int F 1000),
      tf_gas_log_ohm = gas_log F (as_gas_resistance_ohm sample),
      tf_elapsed_ms = None,
      tf_elapsed_us = None,
      tf_temperature_rate_celsius_per_minute = None,
      tf_humidity_rate_percent_per_minute = None,
      tf_pressure_rate_hectopascal_per_minute = None,
      tf_gas_log_rate_per_minute = None\<rparr>"

definition usable_previous :: "analysis_sample \<Rightarrow> analysis_sample option \<Rightarrow> (analysis_sample \<times> nat) option" where
  "usable_previous sample previous =
     Option.bind previous (\<lambda>prior.
       if quality_is_empty (as_quality sample) \<and> quality_is_empty (as_quality prior)
       then map_option (\<lambda>elapsed. (prior, elapsed)) (sample_elapsed_since sample prior) else None)"

definition joins_history :: "analysis_sample \<Rightarrow> analysis_sample option \<Rightarrow> bool" where
  "joins_history sample previous \<longleftrightarrow>
     quality_is_empty (as_quality sample)
     \<and> is_none_or previous (\<lambda>prior. sample_elapsed_since sample prior \<noteq> None)
     \<and> (as_series sample = LegacyV1 \<or> as_device_sample_time sample \<noteq> None)"

definition ingest_sample ::
  "'f f64_ops \<Rightarrow> analysis_sample \<Rightarrow> temporal_feature_extractor
     \<Rightarrow> 'f temporal_features \<times> temporal_feature_extractor" where
  "ingest_sample F sample e =
    (let key = sample_history_key sample;
         previous = Option.bind key (te_previous e);
         reset = history_reset sample previous;
         e = (case key of
                Some k \<Rightarrow> if reset then e\<lparr>te_previous := (te_previous e)(k := None)\<rparr> else e
              | None \<Rightarrow> e);
         previous = (if reset then None else previous);
         features = base_features F sample reset;
         features =
           (case usable_previous sample previous of
              Some (prior, elapsed_us) \<Rightarrow> with_rates F sample prior elapsed_us features
            | None \<Rightarrow> features);
         e = (if joins_history sample previous
              then (case key of Some k \<Rightarrow> e\<lparr>te_previous := (te_previous e)(k \<mapsto> sample)\<rparr> | None \<Rightarrow> e)
              else e)
     in (features, e))"

section \<open>Profile features\<close>

record 'f profile_step_features =
  sf_step_index :: u8
  sf_target_temperature_celsius :: u16
  sf_quality_flags :: u16
  sf_gas_log_ohm :: "'f option"
  sf_gas_log_offset_from_profile_mean :: "'f option"

record 'f profile_features =
  pff_node_id :: u64
  pff_boot_id :: "u64 option"
  pff_sequence :: u32
  pff_config_id :: u64
  pff_profile_id :: u16
  pff_profile_revision :: u16
  pff_missing_steps :: u16
  pff_profile_quality_usable :: bool
  pff_configuration_resolved :: bool
  pff_usable_for_analysis :: bool
  pff_steps :: "'f profile_step_features list"

definition step_features :: "'f f64_ops \<Rightarrow> bool \<Rightarrow> step_record \<Rightarrow> 'f profile_step_features" where
  "step_features F scan_usable step =
     \<lparr>sf_step_index = st_step_index step,
      sf_target_temperature_celsius = st_target_temperature_celsius step,
      sf_quality_flags = quality_bits (step_quality scan_usable step),
      sf_gas_log_ohm = gas_log F (st_gas_resistance_ohm step),
      sf_gas_log_offset_from_profile_mean = None\<rparr>"

text \<open>The sum and the number of the logarithms of the usable steps, and the offsets from their mean.\<close>

definition gas_log_sum :: "'f f64_ops \<Rightarrow> 'f profile_step_features list \<Rightarrow> 'f \<times> u32" where
  "gas_log_sum F steps =
     foldl (\<lambda>(gas_sum, count) step.
              case (sf_quality_flags step = 0, sf_gas_log_ohm step) of
                (True, Some value) \<Rightarrow> (f_add F gas_sum value, count + 1)
              | _ \<Rightarrow> (gas_sum, count))
       (f_of_int F 0, 0) steps"

definition add_offsets :: "'f f64_ops \<Rightarrow> 'f profile_step_features list \<Rightarrow> 'f profile_step_features list" where
  "add_offsets F steps =
     (case gas_log_sum F steps of (gas_sum, count) \<Rightarrow>
        if count \<noteq> 0 then
          let mean = f_div F gas_sum (f_of_int F (uint count))
          in map (\<lambda>step. if sf_quality_flags step = 0
                         then step\<lparr>sf_gas_log_offset_from_profile_mean :=
                                     map_option (\<lambda>value. f_sub F value mean) (sf_gas_log_ohm step)\<rparr>
                         else step) steps
        else steps)"

text \<open>
  \<^verbatim>\<open>sort_unstable_by_key\<close> leaves the order of steps with the same index open. A valid scan has no such
  steps.
\<close>

definition extract_profile_features_inner ::
  "'f f64_ops \<Rightarrow> scan_record \<Rightarrow> bool \<Rightarrow> ('f profile_features, 'e) result" where
  "extract_profile_features_inner F scan configuration_resolved =
    and_then (profile_scan_allows_analysis scan) (\<lambda>scan_usable.
    let steps = add_offsets F (sort_key sf_step_index (map (step_features F scan_usable) (pf_steps scan)));
        profile_quality_usable = (scan_usable \<and> list_all (\<lambda>step. sf_quality_flags step = 0) steps)
    in
    and_then (computed_unavailable_steps scan) (\<lambda>missing_steps.
    Ok \<lparr>pff_node_id = ri_node_id (pf_identity scan),
        pff_boot_id = then_some (ri_common_flags (pf_identity scan) AND COMMON_FLAG_BOOT_ID_VALID \<noteq> 0)
          (ri_boot_id (pf_identity scan)),
        pff_sequence = ri_scan_sequence (pf_identity scan),
        pff_config_id = ri_config_id (pf_identity scan),
        pff_profile_id = pf_profile_id scan,
        pff_profile_revision = pf_profile_version scan,
        pff_missing_steps = missing_steps,
        pff_profile_quality_usable = profile_quality_usable,
        pff_configuration_resolved = configuration_resolved,
        pff_usable_for_analysis = (profile_quality_usable \<and> configuration_resolved),
        pff_steps = steps\<rparr>))"

definition extract_profile_features :: "'f f64_ops \<Rightarrow> scan_record \<Rightarrow> ('f profile_features, 'e) result" where
  "extract_profile_features F scan = extract_profile_features_inner F scan False"

text \<open>Whether a step of a scan was taken with the heater settings of a configuration.\<close>

definition step_matches :: "device_configuration \<Rightarrow> step_record \<Rightarrow> bool" where
  "step_matches configuration step =
     (let i = unat (st_step_index step)
      in if i < length (cf_heater_steps configuration) then
           let configured = cf_heater_steps configuration ! i
           in hc_step_index configured = st_step_index step
              \<and> hc_target_temperature_celsius configured = st_target_temperature_celsius step
              \<and> hc_configured_duration_us configured = st_configured_duration_us step
              \<and> hc_repetition_multiplier configured = st_repetition_multiplier step
              \<and> hc_programmed_heater_resistance configured = st_raw_heater_resistance step
              \<and> hc_programmed_gas_wait configured = st_raw_gas_wait step
         else False)"

definition configuration_matches :: "scan_record \<Rightarrow> device_configuration \<Rightarrow> (bool, 'e) result" where
  "configuration_matches scan configuration =
    and_also (is_ok_of (configuration_validate configuration)) (
    and_also (Ok (cf_config_flags configuration AND CONFIG_FLAG_SENSOR_CONFIG_READ_BACK \<noteq> 0)) (
    and_also (map_ok (\<lambda>w. cf_heater_readback_valid_bitmap configuration = w - 1)
                (shl1_u16 (unat (cf_expected_step_count configuration)))) (
    Ok (ri_node_id (cf_identity configuration) = ri_node_id (pf_identity scan)
        \<and> ri_config_id (cf_identity configuration) = ri_config_id (pf_identity scan)
        \<and> cf_profile_id configuration = pf_profile_id scan
        \<and> cf_profile_version configuration = pf_profile_version scan
        \<and> cf_expected_step_count configuration = pf_expected_steps scan
        \<and> list_all (step_matches configuration) (pf_steps scan)))))"

definition extract_profile_features_with_configuration ::
  "'f f64_ops \<Rightarrow> scan_record \<Rightarrow> device_configuration \<Rightarrow> ('f profile_features, 'e) result" where
  "extract_profile_features_with_configuration F scan configuration =
     and_then (configuration_matches scan configuration) (extract_profile_features_inner F scan)"

end
