(* ===== verification/Analysis_History.thy ===== *)
theory Analysis_History
  imports Analysis
begin

text \<open>
  What the temporal feature extractor guarantees: quality flags say exactly what is wrong with a
  sample, a rate is computed only between consecutive usable samples of one series, histories of
  different series do not influence each other, and a history only moves forward in time.
\<close>

section \<open>Quality flags\<close>

lemma quality_bits_insert_if [simp]:
  "quality_bits (insert_if b f q) = (if b then quality_bits q OR quality_bits f else quality_bits q)"
  by (simp add: insert_if_def quality_insert_def)

lemma word_or_eq_0_iff: "(a OR b = (0 :: 'a::len word)) \<longleftrightarrow> a = 0 \<and> b = 0"
  by (auto simp: bit_eq_iff bit_or_iff)

lemma bit_b0: "bit (0xb0 :: u8) n \<longleftrightarrow> n = 7 \<or> n = 5 \<or> n = 4"
proof -
  have "(0xb0 :: u8) = push_bit 7 1 OR push_bit 5 1 OR push_bit 4 1" by simp
  then show ?thesis
    by (simp only: bit_or_iff bit_push_bit_iff bit_1_iff possible_bit_word) auto
qed

lemma status_b0: "bit st 7 \<and> bit st 5 \<and> bit st 4 \<and> st AND NOT 0xb0 = 0 \<longleftrightarrow> st = (0xb0 :: u8)"
proof
  assume A: "bit st 7 \<and> bit st 5 \<and> bit st 4 \<and> st AND NOT 0xb0 = 0"
  then have "\<not> bit (st AND NOT 0xb0) n" for n by simp
  then have "\<not> (bit st n \<and> n < LENGTH(8) \<and> \<not> bit (0xb0 :: u8) n)" for n
    unfolding bit_and_iff bit_not_iff possible_bit_word .
  then have "bit st n \<longrightarrow> bit (0xb0 :: u8) n" if "n < 8" for n
    using that by simp
  moreover have "bit st 7" "bit st 5" "bit st 4" using A by blast+
  ultimately have "bit st n = bit (0xb0 :: u8) n" if "n < 8" for n
    using that unfolding bit_b0 by blast
  then show "st = 0xb0" by (intro bit_word_eqI) simp
qed (simp add: bit_b0)

lemma quality_empty_sample:
  "quality_is_empty (sample_quality st t p h g) \<longleftrightarrow>
     st = 0xb0
     \<and> MIN_TEMPERATURE_CENTI_CELSIUS \<le> sint t \<and> sint t \<le> MAX_TEMPERATURE_CENTI_CELSIUS
     \<and> MIN_PRESSURE_PASCAL \<le> p \<and> p \<le> MAX_PRESSURE_PASCAL \<and> h \<le> MAX_HUMIDITY_MILLI_PERCENT_RH \<and> g \<noteq> 0"
proof -
  have *: "(w :: u8) AND push_bit n 1 = 0 \<longleftrightarrow> \<not> bit w n" for w n
    by (simp only: push_bit_of_1 and_exp_eq_0_iff_not_bit)
  show ?thesis
    unfolding quality_is_empty_def sample_quality_def Let_def * status_b0 [symmetric]
    by (auto simp: quality_flag_defs word_or_eq_0_iff not_less split: if_splits)
qed

section \<open>One sample\<close>

text \<open>
  The features of a sample with a history key, and the history of its series after it, are functions
  of the history of that series.
\<close>

definition series_features :: "'f f64_ops \<Rightarrow> analysis_sample \<Rightarrow> analysis_sample option \<Rightarrow> 'f temporal_features" where
  "series_features F s previous =
     (let reset = history_reset s previous; kept = (if reset then None else previous)
      in case usable_previous s kept of
           Some (prior, elapsed_us) \<Rightarrow> with_rates F s prior elapsed_us (base_features F s reset)
         | None \<Rightarrow> base_features F s reset)"

definition series_next :: "analysis_sample \<Rightarrow> analysis_sample option \<Rightarrow> analysis_sample option" where
  "series_next s previous =
     (let kept = (if history_reset s previous then None else previous)
      in if joins_history s kept then Some s else kept)"

lemma ingest_keyed:
  assumes "sample_history_key s = Some k"
  shows "ingest_sample F s e =
    (series_features F s (te_previous e k), e\<lparr>te_previous := (te_previous e)(k := series_next s (te_previous e k))\<rparr>)"
  using assms by (auto simp: ingest_sample_def series_features_def series_next_def Let_def fun_upd_idem split: option.split)

lemma ingest_unkeyed:
  assumes "sample_history_key s = None"
  shows "ingest_sample F s e = (series_features F s None, e)"
  using assms by (auto simp: ingest_sample_def series_features_def Let_def split: option.split)

lemma series_next_Some:
  assumes "series_next s previous = Some p"
  shows "p = s \<and> quality_is_empty (as_quality s) \<and> (\<forall>q. previous = Some q \<longrightarrow> sample_elapsed_since s q \<noteq> None)
    \<or> previous = Some p"
  using assms
  by (auto simp: series_next_def joins_history_def history_reset_def is_none_or_def is_some_and_def Let_def
      split: if_splits option.splits)

text \<open>
  What the rates of change are: the differences of the two readings in the printed unit, for each minute of
  the elapsed time. Only the logarithm of a resistance may be missing.
\<close>

definition per_minute :: "'f f64_ops \<Rightarrow> nat \<Rightarrow> int \<Rightarrow> int \<Rightarrow> int \<Rightarrow> 'f" where
  "per_minute F elapsed_us now before scale =
     f_div F (f_div F (f_sub F (f_of_int F now) (f_of_int F before)) (f_of_int F scale))
       (f_div F (f_secs_of_micros F elapsed_us) (f_of_int F 60))"

definition rates_between :: "'f f64_ops \<Rightarrow> analysis_sample \<Rightarrow> analysis_sample \<Rightarrow> nat \<Rightarrow> 'f temporal_features \<Rightarrow> bool" where
  "rates_between F s p d f \<longleftrightarrow>
     tf_elapsed_us f = Some d \<and> tf_elapsed_ms f = Some (d div 1000)
     \<and> tf_temperature_rate_celsius_per_minute f
         = Some (per_minute F d (sint (as_temperature_centi_celsius s)) (sint (as_temperature_centi_celsius p)) 100)
     \<and> tf_humidity_rate_percent_per_minute f
         = Some (per_minute F d (uint (as_humidity_milli_percent_rh s)) (uint (as_humidity_milli_percent_rh p)) 1000)
     \<and> tf_pressure_rate_hectopascal_per_minute f
         = Some (per_minute F d (uint (as_pressure_pascal s)) (uint (as_pressure_pascal p)) 100)
     \<and> tf_gas_log_rate_per_minute f
         = (if as_gas_resistance_ohm s = 0 \<or> as_gas_resistance_ohm p = 0 then None
            else Some (f_div F (f_sub F (f_ln F (f_of_int F (uint (as_gas_resistance_ohm s))))
                                        (f_ln F (f_of_int F (uint (as_gas_resistance_ohm p)))))
                         (f_div F (f_secs_of_micros F d) (f_of_int F 60))))"

text \<open>Features with an elapsed time or with a rate.\<close>

definition has_rate :: "'f temporal_features \<Rightarrow> bool" where
  "has_rate f \<longleftrightarrow>
     tf_elapsed_us f \<noteq> None \<or> tf_elapsed_ms f \<noteq> None \<or> tf_temperature_rate_celsius_per_minute f \<noteq> None
     \<or> tf_humidity_rate_percent_per_minute f \<noteq> None \<or> tf_pressure_rate_hectopascal_per_minute f \<noteq> None
     \<or> tf_gas_log_rate_per_minute f \<noteq> None"

lemma with_rates_between: "rates_between F s p d (with_rates F s p d f)"
  by (simp add: with_rates_def rates_between_def per_minute_def gas_log_def then_some_def Let_def)

lemma with_rates_elapsed [simp]: "tf_elapsed_us (with_rates F s p d f) = Some d"
  by (simp add: with_rates_def Let_def)

lemma base_no_rate: "\<not> has_rate (base_features F s reset)"
  by (simp add: base_features_def has_rate_def)

lemma series_features_elapsed:
  assumes "has_rate (series_features F s previous)"
  shows "\<exists>p d. previous = Some p
    \<and> quality_is_empty (as_quality s) \<and> quality_is_empty (as_quality p)
    \<and> sample_elapsed_since s p = Some d \<and> \<not> as_reset_temporal_history s
    \<and> (is_profile_step (as_series s) \<longrightarrow> as_sequence s = as_sequence p + 1)
    \<and> rates_between F s p d (series_features F s previous)"
proof -
  let ?reset = "history_reset s previous"
  have "usable_previous s (if ?reset then None else previous) \<noteq> None"
    using assms by (auto simp: series_features_def base_no_rate Let_def split: option.splits)
  then obtain p d where pd: "usable_previous s (if ?reset then None else previous) = Some (p, d)" by auto
  then have "series_features F s previous = with_rates F s p d (base_features F s ?reset)"
    by (simp add: series_features_def Let_def)
  then have rates: "rates_between F s p d (series_features F s previous)" by (simp add: with_rates_between)
  have "\<not> ?reset" "previous = Some p" "quality_is_empty (as_quality s)" "quality_is_empty (as_quality p)"
    "sample_elapsed_since s p = Some d"
    using pd by (auto simp: usable_previous_def bind_eq_Some_conv split: if_splits)
  then show ?thesis
    using rates by (intro exI [of _ p] exI [of _ d]) (auto simp: history_reset_def is_none_or_def is_some_and_def Let_def)
qed

section \<open>Keyed histories\<close>

fun feed :: "('s \<Rightarrow> 'm \<Rightarrow> 'f \<times> 'm) \<Rightarrow> 's list \<Rightarrow> 'm \<Rightarrow> 'f list \<times> 'm" where
  "feed step [] m = ([], m)"
| "feed step (s # ss) m =
     (case step s m of (f, m) \<Rightarrow> case feed step ss m of (fs, m) \<Rightarrow> (f # fs, m))"

text \<open>A consumer that keeps one history for each key and reads and writes only that of its input.\<close>

locale keyed_history =
  fixes key :: "'s \<Rightarrow> 'k option"
    and out :: "'s \<Rightarrow> 'h option \<Rightarrow> 'f"
    and nxt :: "'s \<Rightarrow> 'h option \<Rightarrow> 'h option"
    and hist :: "'m \<Rightarrow> 'k \<Rightarrow> 'h option"
    and step :: "'s \<Rightarrow> 'm \<Rightarrow> 'f \<times> 'm"
  assumes keyed_out: "key s = Some k \<Longrightarrow> fst (step s m) = out s (hist m k)"
    and keyed_hist: "key s = Some k \<Longrightarrow> hist (snd (step s m)) = (hist m)(k := nxt s (hist m k))"
    and unkeyed: "key s = None \<Longrightarrow> hist (snd (step s m)) = hist m"
begin

lemma frame:
  assumes "key s \<noteq> Some k"
  shows "hist (snd (step s m)) k = hist m k"
  using assms keyed_hist [of s _ m] unkeyed [of s m] by (cases "key s") auto

lemma isolation:
  assumes "hist m k = hist m' k"
  shows "map fst (filter (\<lambda>(_, s). key s = Some k) (zip (fst (feed step ss m)) ss)) =
      fst (feed step (filter (\<lambda>s. key s = Some k) ss) m')
    \<and> hist (snd (feed step ss m)) k = hist (snd (feed step (filter (\<lambda>s. key s = Some k) ss) m')) k"
  using assms
proof (induction ss arbitrary: m m')
  case Nil
  then show ?case by simp
next
  case (Cons s ss)
  show ?case
  proof (cases "key s = Some k")
    case True
    have "fst (step s m) = fst (step s m')" "hist (snd (step s m)) k = hist (snd (step s m')) k"
      using keyed_out [OF True] keyed_hist [OF True] Cons.prems by simp_all
    then show ?thesis
      using Cons.IH [of "snd (step s m)" "snd (step s m')"] True by (simp add: case_prod_beta)
  next
    case False
    then show ?thesis
      using Cons.IH [of "snd (step s m)" m'] frame [OF False, of m] Cons.prems by (simp add: case_prod_beta)
  qed
qed

lemma history_source:
  assumes "hist (snd (feed step ss m)) k = Some h"
    and "\<And>s q h. nxt s q = Some h \<Longrightarrow> q = Some h \<or> P s h"
  shows "hist m k = Some h \<or> (\<exists>s \<in> set ss. key s = Some k \<and> P s h)"
  using assms(1)
proof (induction ss arbitrary: m)
  case Nil
  then show ?case by simp
next
  case (Cons s ss)
  then have "hist (snd (step s m)) k = Some h \<or> (\<exists>s \<in> set ss. key s = Some k \<and> P s h)"
    by (simp add: case_prod_beta)
  moreover have "hist m k = Some h \<or> key s = Some k \<and> P s h" if "hist (snd (step s m)) k = Some h"
    using that keyed_hist [of s k m] frame [of s k m] assms(2) by (cases "key s = Some k") fastforce+
  ultimately show ?case by auto
qed

end

interpretation extractor:
  keyed_history sample_history_key "series_features F" series_next te_previous "ingest_sample F" for F
  by unfold_locales (simp_all add: ingest_keyed ingest_unkeyed)

section \<open>Sample observations\<close>

definition sample_observation :: "u32 \<Rightarrow> u64 \<Rightarrow> analysis_sample" where
  "sample_observation sequence uptime =
     \<lparr>as_node_id = 1, as_boot_id = Some 2, as_sequence = sequence, as_series = SeriesProfileStep 3 1 1 0,
      as_received_at_unix_ms = 0,
      as_device_sample_time = Some \<lparr>dt_scan_start_uptime_ms = uptime, dt_relative_offset_us = 0\<rparr>,
      as_temperature_centi_celsius = 2000, as_pressure_pascal = 100000,
      as_humidity_milli_percent_rh = 50000, as_gas_resistance_ohm = 1000,
      as_quality = QualityFlags 0, as_reset_temporal_history = False\<rparr>"

text \<open>A one-value arithmetic, enough to evaluate everything but the numbers.\<close>

definition unit_ops :: "unit f64_ops" where
  "unit_ops = \<lparr>f_of_int = \<lambda>_. (), f_add = \<lambda>_ _. (), f_sub = \<lambda>_ _. (), f_div = \<lambda>_ _. (), f_ln = \<lambda>_. (),
     f_secs_of_micros = \<lambda>_. ()\<rparr>"

definition sample_history :: history_key where
  "sample_history = \<lparr>hk_node_id = 1, hk_boot_id = Some 2, hk_series = SeriesProfileStep 3 1 1 0\<rparr>"

lemma sample_observation_key: "sample_history_key (sample_observation n u) = Some sample_history"
  by (simp add: sample_observation_def sample_history_def sample_history_key_def)

lemma sample_observation_next:
  "series_next (sample_observation n u) None = Some (sample_observation n u)"
  "series_next (sample_observation 8 2000) (Some (sample_observation 7 1000)) = Some (sample_observation 8 2000)"
  "tf_elapsed_us (series_features F (sample_observation 8 2000) (Some (sample_observation 7 1000))) = Some 1000000"
  by (simp_all add: series_next_def series_features_def history_reset_def joins_history_def usable_previous_def
      is_none_or_def is_some_and_def sample_observation_def quality_is_empty_def sample_elapsed_since_def
      time_elapsed_since_def total_microseconds_def Let_def)

section \<open>Properties\<close>

text \<open>
  The quality flags of a sample are empty exactly when the sensor reported new data with a valid
  gas measurement and a stable heater and no unknown status bit, and every reading is in the
  operating range of the sensor.
\<close>

theorem sample_quality_exact:
  "quality_is_empty (sample_quality status t p h g) \<longleftrightarrow>
     status = 0xb0 \<and> -4000 \<le> sint t \<and> sint t \<le> 8500 \<and> 30000 \<le> unat p \<and> unat p \<le> 110000
     \<and> unat h \<le> 100000 \<and> 0 < unat g"
  unfolding quality_empty_sample
  by (auto simp: MIN_TEMPERATURE_CENTI_CELSIUS_def MAX_TEMPERATURE_CENTI_CELSIUS_def MIN_PRESSURE_PASCAL_def
      MAX_PRESSURE_PASCAL_def MAX_HUMIDITY_MILLI_PERCENT_RH_def word_le_nat_alt unat_gt_0)

text \<open>
  C38. Histories are isolated: the features of the samples of one series of one boot of one node are
  those the extractor computes from these samples alone, however they are interleaved with others.
\<close>

theorem history_isolation:
  "map fst (filter (\<lambda>(_, s). sample_history_key s = Some k) (zip (fst (feed (ingest_sample F) ss e)) ss)) =
     fst (feed (ingest_sample F) (filter (\<lambda>s. sample_history_key s = Some k) ss) e)"
  using extractor.isolation [of e k e F ss] by simp

lemma time_elapsed_exact:
  "time_elapsed_since t t' = Some d \<Longrightarrow> total_microseconds t = total_microseconds t' + d \<and> 0 < d"
  by (auto simp: time_elapsed_since_def Let_def split: if_splits)

lemma wall_elapsed_exact: "wall_elapsed_us now prior = Some d \<Longrightarrow> (sint now - sint prior) * 1000 = int d \<and> 0 < d"
  by (auto simp: wall_elapsed_us_def Let_def split: if_splits)

lemma elapsed_positive: "sample_elapsed_since s p = Some d \<Longrightarrow> 0 < d"
  by (auto simp: sample_elapsed_since_def split: analysis_series.splits option.splits
      dest: time_elapsed_exact wall_elapsed_exact)

lemma elapsed_profile:
  assumes "sample_elapsed_since s p = Some d" and "is_profile_step (as_series s)"
  shows "\<exists>t t'. as_device_sample_time s = Some t \<and> as_device_sample_time p = Some t'
    \<and> total_microseconds t = total_microseconds t' + d"
  using assms by (auto simp: sample_elapsed_since_def split: analysis_series.splits option.splits
      dest: time_elapsed_exact)

lemma elapsed_legacy:
  assumes "sample_elapsed_since s p = Some d" and "\<not> is_profile_step (as_series s)"
  shows "int d = (sint (as_received_at_unix_ms s) - sint (as_received_at_unix_ms p)) * 1000"
  using assms by (auto simp: sample_elapsed_since_def split: analysis_series.splits dest: wall_elapsed_exact)

text \<open>
  C37. After any samples, the features of a sample have an elapsed time or any of the four rates only when there is
  a prior sample of the same series, boot and node to compare it with: both samples pass the quality gates, the
  elapsed time is positive, the sensor was not reconfigured in between, and for a profile step the scans
  are consecutive and the elapsed time is the difference of the device times (for a version 1 reading, of the times of
  reception). Then each rate is the difference of exactly these two readings for each minute of the elapsed time.
\<close>

theorem rates_sound:
  assumes "feed (ingest_sample F) ss extractor_default = (fs, e)"
    and "has_rate (fst (ingest_sample F s e))"
  shows "\<exists>p \<in> set ss. \<exists>d. sample_history_key p = sample_history_key s \<and> sample_history_key s \<noteq> None
    \<and> quality_is_empty (as_quality s) \<and> quality_is_empty (as_quality p) \<and> 0 < d
    \<and> \<not> as_reset_temporal_history s
    \<and> (is_profile_step (as_series s) \<longrightarrow> as_sequence s = as_sequence p + 1
         \<and> (\<exists>t t'. as_device_sample_time s = Some t \<and> as_device_sample_time p = Some t'
              \<and> total_microseconds t = total_microseconds t' + d))
    \<and> (\<not> is_profile_step (as_series s) \<longrightarrow>
         int d = (sint (as_received_at_unix_ms s) - sint (as_received_at_unix_ms p)) * 1000)
    \<and> rates_between F s p d (fst (ingest_sample F s e))"
proof -
  have e: "e = snd (feed (ingest_sample F) ss extractor_default)" using assms(1) by simp
  obtain k where k: "sample_history_key s = Some k"
    using assms(2) series_features_elapsed [of F s None] by (cases "sample_history_key s") (auto simp: ingest_unkeyed)
  then have f: "fst (ingest_sample F s e) = series_features F s (te_previous e k)" by (simp add: ingest_keyed)
  then obtain p d where p: "te_previous e k = Some p" "quality_is_empty (as_quality s)" "quality_is_empty (as_quality p)"
    "sample_elapsed_since s p = Some d" "\<not> as_reset_temporal_history s"
    "is_profile_step (as_series s) \<longrightarrow> as_sequence s = as_sequence p + 1"
    "rates_between F s p d (fst (ingest_sample F s e))"
    using assms(2) series_features_elapsed by metis
  have "te_previous extractor_default k = Some p \<or> (\<exists>q \<in> set ss. sample_history_key q = Some k \<and> p = q)"
    by (rule extractor.history_source [OF p(1) [unfolded e]]) (use series_next_Some in blast)
  then have "p \<in> set ss" "sample_history_key p = Some k" by (auto simp: extractor_default_def)
  then show ?thesis
    using k p elapsed_positive [OF p(4)] elapsed_profile [OF p(4)] elapsed_legacy [OF p(4)]
    by (intro bexI [of _ p] exI [of _ d]) simp_all
qed

theorem rates_sound_witness:
  "\<exists>fs e. feed (ingest_sample unit_ops) [sample_observation 7 1000] extractor_default = (fs, e)
     \<and> has_rate (fst (ingest_sample unit_ops (sample_observation 8 2000) e))
     \<and> rates_between unit_ops (sample_observation 8 2000) (sample_observation 7 1000) 1000000
         (fst (ingest_sample unit_ops (sample_observation 8 2000) e))"
proof -
  obtain fs e where e: "feed (ingest_sample unit_ops) [sample_observation 7 1000] extractor_default = (fs, e)" by fastforce
  then have "te_previous e sample_history = Some (sample_observation 7 1000)"
    by (auto simp: ingest_keyed [OF sample_observation_key] sample_observation_next extractor_default_def)
  then have d: "tf_elapsed_us (fst (ingest_sample unit_ops (sample_observation 8 2000) e)) = Some 1000000"
    by (simp add: ingest_keyed [OF sample_observation_key] sample_observation_next)
  then have rate: "has_rate (fst (ingest_sample unit_ops (sample_observation 8 2000) e))" by (simp add: has_rate_def)
  obtain d' where "rates_between unit_ops (sample_observation 8 2000) (sample_observation 7 1000) d'
         (fst (ingest_sample unit_ops (sample_observation 8 2000) e))"
    using rates_sound [OF e rate] by auto
  moreover from this have "d' = 1000000" using d by (simp add: rates_between_def)
  ultimately show ?thesis using e rate by blast
qed

text \<open>
  The history of a series only moves forward: a stored sample is replaced only by a usable sample
  of the same series that is strictly later.
\<close>

theorem history_forward:
  assumes "te_previous e k = Some p" and "te_previous (snd (ingest_sample F s e)) k = Some p'" and "p' \<noteq> p"
  shows "p' = s \<and> sample_history_key s = Some k \<and> quality_is_empty (as_quality s)
    \<and> (\<exists>d. sample_elapsed_since s p = Some d \<and> 0 < d)"
proof (cases "sample_history_key s = Some k")
  case True
  then have "series_next s (Some p) = Some p'" using assms(1,2) by (simp add: ingest_keyed)
  then show ?thesis using series_next_Some assms(3) True elapsed_positive by blast
next
  case False
  then show ?thesis using extractor.frame [OF False, of F e] assms by simp
qed

theorem history_forward_witness:
  "\<exists>e. te_previous e sample_history = Some (sample_observation 7 1000)
     \<and> te_previous (snd (ingest_sample unit_ops (sample_observation 8 2000) e)) sample_history = Some (sample_observation 8 2000)
     \<and> (\<exists>d. sample_elapsed_since (sample_observation 8 2000) (sample_observation 7 1000) = Some d \<and> 0 < d)"
proof -
  let ?e = "\<lparr>te_previous = [sample_history \<mapsto> sample_observation 7 1000]\<rparr>"
  have e: "te_previous ?e sample_history = Some (sample_observation 7 1000)"
    "te_previous (snd (ingest_sample unit_ops (sample_observation 8 2000) ?e)) sample_history = Some (sample_observation 8 2000)"
    by (simp_all add: ingest_keyed [OF sample_observation_key] sample_observation_next)
  have "sample_observation 8 2000 \<noteq> sample_observation 7 1000" by (simp add: sample_observation_def)
  then show ?thesis using history_forward [OF e] e by blast
qed

end
