(* ===== verification/Analysis_Profile.thy ===== *)
theory Analysis_Profile
  imports Analysis_History "HOL-Library.Multiset"
begin

text \<open>
  Profile features: when the extraction panics, when a profile is declared ready for analysis, and
  that the offsets are taken from the mean.
\<close>

section \<open>Panics\<close>

lemma and_also_eq_Ok [simp]: "and_also a b = Ok x \<longleftrightarrow> a = Ok True \<and> b = Ok x \<or> a = Ok False \<and> \<not> x"
  by (auto simp: and_also_def split: if_splits)

lemma panics_and_also: "panics (and_also a b) \<longleftrightarrow> panics a \<or> a = Ok True \<and> panics b"
  by (auto simp: and_also_def panics_and_then split: if_splits)

lemma is_ok_of_eq_Ok [simp]: "is_ok_of r = Ok x \<longleftrightarrow> \<not> panics r \<and> (x \<longleftrightarrow> is_ok r)"
  by (cases r rule: is_ok_of.cases) (auto simp: panics_def)

lemma panics_is_ok_of [simp]: "panics (is_ok_of r) \<longleftrightarrow> panics r"
  by (cases r rule: is_ok_of.cases) (auto simp: panics_def)

lemma scan_sound_bounds:
  assumes "scan_sound scan"
  shows "1 \<le> unat (pf_expected_steps scan)" "unat (pf_expected_steps scan) \<le> 10"
    "unat (pf_expected_fragment_count scan) < 16"
  using assms by (auto simp: scan_sound_def Let_def)

lemma scan_sound_index: "scan_sound scan \<Longrightarrow> step \<in> set (pf_steps scan) \<Longrightarrow> unat (st_step_index step) < unat (pf_expected_steps scan)"
  by (simp add: scan_sound_def Let_def)

lemma panics_transport: "panics (is_transport_complete scan) \<longleftrightarrow> 16 \<le> unat (pf_expected_fragment_count scan)"
  by (simp add: is_transport_complete_def missing_fragment_bitmap_def expected_fragment_mask_def)

lemma panics_unavailable: "panics (computed_unavailable_steps scan) \<longleftrightarrow> 16 \<le> unat (pf_expected_steps scan)"
  by (simp add: computed_unavailable_steps_def expected_step_mask_def)

lemma allows_no_panic: "\<not> panics (profile_scan_allows_analysis scan)"
proof -
  have "is_ok (scan_validate scan) \<longleftrightarrow> scan_sound scan"
    by (simp add: is_ok_iff scan_validate_eq_sound)
  then show ?thesis
    using scan_sound_bounds [of scan]
    by (auto simp: profile_scan_allows_analysis_def panics_and_also panics_transport panics_unavailable
        scan_validate_no_panic_lemma)
qed

lemma configuration_validate_no_panic: "\<not> panics (configuration_validate c)"
proof -
  have "unat (cf_expected_step_count c) < 16" if "\<not> MAX_HEATER_STEPS < cf_expected_step_count c"
    using that by (simp add: MAX_HEATER_STEPS_def word_less_nat_alt)
  moreover have "\<not> panics (checks (map (\<lambda>(step, position). reject_if (hc_step_index step \<noteq> position)
      (ConfigurationStepOrder position (hc_step_index step))) xs))" for xs :: "(heater_step_configuration \<times> u8) list"
    by (rule panics_checks_all) auto
  ultimately show ?thesis
    unfolding configuration_validate_def
    by (auto simp: panics_checks panics_and_then not_le simp del: checks.simps)
qed

lemma matches_no_panic: "\<not> panics (configuration_matches scan c)"
proof -
  have "unat (cf_expected_step_count c) < 16" if "is_ok (configuration_validate c)"
    using that by (auto simp: is_ok_iff configuration_validate_eq)
  then show ?thesis
    by (auto simp: configuration_matches_def panics_and_also configuration_validate_no_panic not_le)
qed

text \<open>The gates return a truth value or panic; they have no error.\<close>

definition decides :: "(bool, 'e) result \<Rightarrow> bool" where
  "decides r \<longleftrightarrow> panics r \<or> (\<exists>b. r = Ok b)"

lemma decides_intros:
  "decides (Ok x)" "decides (is_ok_of r)" "decides (map_ok g (shl1_u16 n))"
  "decides (is_transport_complete scan)" "decides (map_ok g (computed_unavailable_steps scan))"
  "decides a \<Longrightarrow> decides b \<Longrightarrow> decides (and_also a b)"
proof -
  show "decides (is_ok_of r)" by (cases r rule: is_ok_of.cases) (auto simp: decides_def panics_def)
  show "decides (and_also a b)" if "decides a" "decides b"
  proof -
    consider "panics a" | "a = Ok True" | "a = Ok False"
      using \<open>decides a\<close> unfolding decides_def by (metis (full_types))
    then show ?thesis
    proof cases
      case 1
      then show ?thesis by (simp add: decides_def panics_and_also)
    next
      case 2
      then show ?thesis using \<open>decides b\<close> by (simp add: and_also_def)
    next
      case 3
      then have "and_also a b = Ok False" by simp
      then show ?thesis unfolding decides_def by blast
    qed
  qed
qed (auto simp: decides_def shl1_u16_def is_transport_complete_def missing_fragment_bitmap_def
    computed_unavailable_steps_def expected_step_mask_def expected_fragment_mask_def)

lemma allows_decides: "\<exists>b. profile_scan_allows_analysis scan = Ok b"
proof -
  have "decides (profile_scan_allows_analysis scan)"
    unfolding profile_scan_allows_analysis_def by (intro decides_intros)
  then show ?thesis using allows_no_panic unfolding decides_def by blast
qed

lemma matches_decides: "\<exists>b. configuration_matches scan c = Ok b"
proof -
  have "decides (configuration_matches scan c)"
    unfolding configuration_matches_def by (intro decides_intros)
  then show ?thesis using matches_no_panic unfolding decides_def by blast
qed

lemma panics_extract_inner: "panics (extract_profile_features_inner F scan b) \<longleftrightarrow> 16 \<le> unat (pf_expected_steps scan)"
  by (simp add: extract_profile_features_inner_def panics_and_then panics_unavailable allows_no_panic
      allows_decides Let_def)

text \<open>
  C40. Feature extraction panics exactly on records that announce 16 or more steps. A record that
  was validated is not one of them, so profiles that come from the reassembler are safe, whatever
  configuration they are joined with.
\<close>

theorem extract_panics_iff:
  "(panics (extract_profile_features F scan) \<longleftrightarrow> 16 \<le> unat (pf_expected_steps scan))
   \<and> (panics (extract_profile_features_with_configuration F scan c) \<longleftrightarrow> 16 \<le> unat (pf_expected_steps scan))"
  by (simp add: extract_profile_features_def extract_profile_features_with_configuration_def
      panics_extract_inner panics_and_then matches_no_panic matches_decides)

section \<open>Profiles ready for analysis\<close>

text \<open>What a caller may rely on when a profile is declared ready for analysis, written out field by field.\<close>

definition flawless_scan :: "scan_record \<Rightarrow> bool" where
  "flawless_scan scan \<longleftrightarrow>
     scan_sound scan \<and> bit (ri_common_flags (pf_identity scan)) 0
     \<and> (\<forall>j < unat (pf_expected_fragment_count scan). bit (pf_received_fragment_bitmap scan) j)
     \<and> step_positions (pf_steps scan) = {..<unat (pf_expected_steps scan)}
     \<and> pf_finish_reason scan = 0
     \<and> (\<forall>i. bit (pf_collection_flags scan) i \<longrightarrow> i = 2 \<or> i = 11)
     \<and> pf_overwritten_field_count scan = 0 \<and> pf_out_of_order_count scan = 0
     \<and> pf_ambiguous_index_jump_count scan = 0 \<and> pf_invalid_gas_index_count scan = 0
     \<and> pf_profile_rollover_count scan = 0 \<and> pf_fields_after_rollover_count scan = 0
     \<and> pf_conflicting_fragment_count scan = 0"

definition heated_as :: "heater_step_configuration \<Rightarrow> step_record \<Rightarrow> bool" where
  "heated_as h step \<longleftrightarrow>
     st_target_temperature_celsius step = hc_target_temperature_celsius h
     \<and> st_configured_duration_us step = hc_configured_duration_us h
     \<and> st_repetition_multiplier step = hc_repetition_multiplier h
     \<and> st_raw_heater_resistance step = hc_programmed_heater_resistance h
     \<and> st_raw_gas_wait step = hc_programmed_gas_wait h"

definition configured_by :: "device_configuration \<Rightarrow> scan_record \<Rightarrow> bool" where
  "configured_by c scan \<longleftrightarrow>
    (let n = unat (pf_expected_steps scan) in
     unat (cf_expected_step_count c) = n \<and> map hc_step_index (cf_heater_steps c) = map word_of_nat [0..<n]
     \<and> bit (cf_config_flags c) 1
     \<and> (\<forall>i. bit (cf_heater_readback_valid_bitmap c) i \<longleftrightarrow> i < n)
     \<and> ri_node_id (cf_identity c) = ri_node_id (pf_identity scan)
     \<and> ri_config_id (cf_identity c) = ri_config_id (pf_identity scan)
     \<and> cf_profile_id c = pf_profile_id scan \<and> cf_profile_version c = pf_profile_version scan
     \<and> (\<forall>step \<in> set (pf_steps scan). heated_as (cf_heater_steps c ! unat (st_step_index step)) step))"

definition clean_reading :: "step_record \<Rightarrow> bool" where
  "clean_reading step \<longleftrightarrow>
     st_status_bits step = 0xb0
     \<and> -4000 \<le> sint (st_temperature_centi_celsius step) \<and> sint (st_temperature_centi_celsius step) \<le> 8500
     \<and> 30000 \<le> unat (st_pressure_pascal step) \<and> unat (st_pressure_pascal step) \<le> 110000
     \<and> unat (st_humidity_milli_percent_rh step) \<le> 100000 \<and> 0 < unat (st_gas_resistance_ohm step)"

definition ready_profile :: "scan_record \<Rightarrow> device_configuration \<Rightarrow> bool" where
  "ready_profile scan c \<longleftrightarrow>
     flawless_scan scan \<and> configured_by c scan \<and> (\<forall>step \<in> set (pf_steps scan). clean_reading step)"

lemma bit_flag: "w AND push_bit n 1 \<noteq> 0 \<longleftrightarrow> bit (w :: 'a::len word) n"
  by (simp only: push_bit_of_1 and_exp_eq_0_iff_not_bit not_not)

lemma only_bits: "w AND NOT (push_bit m 1 OR push_bit n 1) = 0 \<longleftrightarrow> (\<forall>i. bit (w :: 'a::len word) i \<longrightarrow> i = m \<or> i = n)"
proof -
  have zero: "v = 0 \<longleftrightarrow> (\<forall>i. \<not> bit (v :: 'a word) i)" for v
    by (rule iffI) (simp, rule bit_word_eqI, simp)
  have "w AND NOT (push_bit m 1 OR push_bit n 1) = 0
      \<longleftrightarrow> (\<forall>i. \<not> bit (w AND NOT (push_bit m 1 OR push_bit n 1)) i)"
    by (rule zero)
  also have "\<dots> \<longleftrightarrow> (\<forall>i. bit w i \<longrightarrow> i = m \<or> i = n)"
    by (auto simp: bit_simps dest: bit_imp_le_length)
  finally show ?thesis .
qed

lemma transport_iff:
  assumes "unat (pf_expected_fragment_count scan) < 16"
  shows "is_transport_complete scan = (Ok True :: (bool, 'e) result) \<longleftrightarrow>
    (\<forall>j < unat (pf_expected_fragment_count scan). bit (pf_received_fragment_bitmap scan) j)"
proof -
  let ?n = "unat (pf_expected_fragment_count scan)"
  have "mask ?n AND NOT (pf_received_fragment_bitmap scan) = 0 \<longleftrightarrow> (\<forall>j < ?n. bit (pf_received_fragment_bitmap scan) j)"
    using assms by (auto simp: bit_eq_iff bit_simps)
  then show ?thesis
    using assms by (simp add: is_transport_complete_def missing_fragment_bitmap_def expected_masks_Ok)
qed

lemma allows_iff:
  "profile_scan_allows_analysis scan = (Ok True :: (bool, 'e) result) \<longleftrightarrow> flawless_scan scan"
proof (cases "scan_sound scan")
  case True
  note b = scan_sound_bounds [OF True]
  have "step_positions (pf_steps scan) \<subseteq> {..<unat (pf_expected_steps scan)}"
    using True by (auto simp: scan_sound_def step_positions_def Let_def)
  then have "computed_unavailable_steps scan = (Ok 0 :: (u16, 'e) result)
      \<longleftrightarrow> step_positions (pf_steps scan) = {..<unat (pf_expected_steps scan)}"
    using computed_unavailable_Ok [of 0 scan, where 'a = 'e] b(2) by auto
  moreover have "ri_common_flags (pf_identity scan) AND COMMON_FLAG_BOOT_ID_VALID \<noteq> 0 \<longleftrightarrow> bit (ri_common_flags (pf_identity scan)) 0"
    using bit_flag [of _ 0] by (simp add: COMMON_FLAG_BOOT_ID_VALID_def)
  moreover have "pf_collection_flags scan AND NOT ANALYSIS_ALLOWED_COLLECTION_FLAGS = 0
      \<longleftrightarrow> (\<forall>i. bit (pf_collection_flags scan) i \<longrightarrow> i = 2 \<or> i = 11)"
    unfolding ANALYSIS_ALLOWED_COLLECTION_FLAGS_def COLLECTION_FLAG_DUPLICATE_def COLLECTION_FLAG_SENSOR_RECONFIGURED_def
    by (rule only_bits)
  moreover have "is_ok (scan_validate scan)" using True by (simp add: is_ok_iff scan_validate_eq_sound)
  ultimately show ?thesis
    using True transport_iff [OF b(3), where 'e = 'e]
    by (simp add: profile_scan_allows_analysis_def flawless_scan_def scan_validate_no_panic_lemma FINISH_REASON_COMPLETE_def)
next
  case False
  then have "\<not> is_ok (scan_validate scan)" by (simp add: is_ok_iff scan_validate_eq_sound)
  then show ?thesis using False by (simp add: profile_scan_allows_analysis_def flawless_scan_def)
qed

lemma add_offsets_sel:
  "map sf_step_index (add_offsets F steps) = map sf_step_index steps"
  "map sf_quality_flags (add_offsets F steps) = map sf_quality_flags steps"
  by (auto simp: add_offsets_def Let_def split: prod.splits)

lemma sorted_indexes:
  assumes "distinct (map st_step_index steps)" and "step_positions steps = {..<n}" and "n \<le> 10"
  shows "map sf_step_index (sort_key sf_step_index (map (step_features F b) steps)) = map word_of_nat [0..<n]"
proof -
  let ?xs = "map sf_step_index (sort_key sf_step_index (map (step_features F b) steps))"
  have m: "mset ?xs = mset (map st_step_index steps)" by (simp add: step_features_def multiset.map_comp o_def)
  have "distinct ?xs" using assms(1) mset_eq_imp_distinct_iff [OF m] by blast
  moreover have "set (map st_step_index steps) = set (map (word_of_nat :: nat \<Rightarrow> u8) [0..<n])"
  proof -
    have "st_step_index ` set steps = word_of_nat ` step_positions steps"
      by (simp add: step_positions_def image_image)
    then show ?thesis by (simp add: assms(2) lessThan_atLeast0)
  qed
  then have "set ?xs = set (map (word_of_nat :: nat \<Rightarrow> u8) [0..<n])" using mset_eq_setD [OF m] by simp
  moreover have asc: "(word_of_nat i :: u8) < word_of_nat j" if "i < j" "j < n" for i j
    using that assms(3) by (simp add: word_less_nat_alt unat_of_nat)
  have "sorted_wrt (<) (map (word_of_nat :: nat \<Rightarrow> u8) [0..<n])"
    using asc by (auto simp: sorted_wrt_iff_nth_less)
  then have "sorted (map (word_of_nat :: nat \<Rightarrow> u8) [0..<n])" "distinct (map (word_of_nat :: nat \<Rightarrow> u8) [0..<n])"
    using strict_sorted_iff by blast+
  moreover have "sorted ?xs" by simp
  ultimately show ?thesis by (intro sorted_distinct_set_unique) simp_all
qed

lemma step_quality_empty: "quality_bits (step_quality True step) = 0 \<longleftrightarrow> clean_reading step"
  using sample_quality_exact by (simp add: step_quality_def quality_is_empty_def insert_if_def clean_reading_def)

lemma configured_valid:
  assumes "flawless_scan scan" and "configured_by c scan"
  shows "configuration_validate c = Ok ()"
proof -
  have "1 \<le> unat (pf_expected_steps scan)" "unat (pf_expected_steps scan) \<le> 10"
    using assms(1) scan_sound_bounds [of scan] by (simp_all add: flawless_scan_def)
  moreover have "length (map hc_step_index (cf_heater_steps c)) = unat (pf_expected_steps scan)"
    using assms(2) unfolding configured_by_def Let_def by (metis diff_zero length_map length_upt)
  ultimately show ?thesis
    using assms(2) by (simp add: configuration_validate_eq configured_by_def Let_def)
qed

lemma matches_iff:
  assumes "flawless_scan scan"
  shows "configuration_matches scan c = (Ok True :: (bool, 'e) result) \<longleftrightarrow> configured_by c scan"
proof (cases "configuration_validate c = Ok ()")
  case True
  let ?n = "unat (cf_expected_step_count c)"
  note valid = True [unfolded configuration_validate_eq]
  then have n: "?n \<le> 10" "?n = length (cf_heater_steps c)" by simp_all
  have bits: "map_ok (\<lambda>w. cf_heater_readback_valid_bitmap c = w - 1) (shl1_u16 ?n) = (Ok True :: (bool, 'e) result)
      \<longleftrightarrow> (\<forall>i. bit (cf_heater_readback_valid_bitmap c) i \<longleftrightarrow> i < ?n)"
  proof -
    have "map_ok (\<lambda>w. cf_heater_readback_valid_bitmap c = w - 1) (shl1_u16 ?n) = (Ok True :: (bool, 'e) result)
        \<longleftrightarrow> cf_heater_readback_valid_bitmap c = mask ?n"
      using n(1) by (simp add: shl1_u16_def push_bit_eq_mult mask_eq_exp_minus_1)
    also have "\<dots> \<longleftrightarrow> (\<forall>i. bit (cf_heater_readback_valid_bitmap c) i \<longleftrightarrow> i < ?n)"
    proof -
      have "bit (cf_heater_readback_valid_bitmap c) i \<Longrightarrow> i < 16" for i
        using bit_imp_le_length [of "cf_heater_readback_valid_bitmap c" i] by simp
      then show ?thesis using n(1) by (auto simp: bit_eq_iff bit_mask_iff)
    qed
    finally show ?thesis .
  qed
  have counts: "cf_expected_step_count c = pf_expected_steps scan \<longleftrightarrow> length (cf_heater_steps c) = unat (pf_expected_steps scan)"
    using n(2) by (metis unsigned_word_eqI)
  have index: "hc_step_index (cf_heater_steps c ! i) = word_of_nat i" if "i < length (cf_heater_steps c)" for i
  proof -
    have "map hc_step_index (cf_heater_steps c) ! i = map word_of_nat [0..<length (cf_heater_steps c)] ! i" using valid by simp
    then show ?thesis using that by simp
  qed
  have steps: "list_all (step_matches c) (pf_steps scan)
      \<longleftrightarrow> (\<forall>step \<in> set (pf_steps scan). heated_as (cf_heater_steps c ! unat (st_step_index step)) step)"
    if "length (cf_heater_steps c) = unat (pf_expected_steps scan)"
  proof -
    have "scan_sound scan" using assms by (simp add: flawless_scan_def)
    then have "unat (st_step_index step) < length (cf_heater_steps c)" if "step \<in> set (pf_steps scan)" for step
      using scan_sound_index that \<open>length (cf_heater_steps c) = unat (pf_expected_steps scan)\<close> by metis
    then have "step_matches c step \<longleftrightarrow> heated_as (cf_heater_steps c ! unat (st_step_index step)) step"
      if "step \<in> set (pf_steps scan)" for step
      using that index by (auto simp: step_matches_def heated_as_def Let_def)
    then show ?thesis by (simp add: list_all_iff)
  qed
  have flag: "cf_config_flags c AND CONFIG_FLAG_SENSOR_CONFIG_READ_BACK \<noteq> 0 \<longleftrightarrow> bit (cf_config_flags c) 1"
    using bit_flag [of _ 1] by (simp add: CONFIG_FLAG_SENSOR_CONFIG_READ_BACK_def)
  show ?thesis
    using True valid counts bits steps flag n(2)
    by (auto simp: configuration_matches_def configured_by_def configuration_validate_no_panic is_ok_iff Let_def)
next
  case False
  then have "\<not> configured_by c scan" using configured_valid [OF assms] by blast
  then show ?thesis using False by (auto simp: configuration_matches_def is_ok_iff)
qed

text \<open>
  C39. A profile is declared ready for analysis exactly when nothing is wrong with it. The record is valid, comes from
  a boot that is known, has all its fragments and every step exactly once, ended regularly, was collected without a
  flag other than a repeated step or a reconfiguration of the sensor, and none of the counters of lost, misplaced or
  contradictory data has counted. The configuration is valid, was read back for all steps, is of the same node, hash,
  profile and revision, and each step was heated with its settings. Each reading is a new, stable one in the range of
  the sensor. The features are then one per step, in the order of the steps, without a quality flag.
\<close>

theorem usable_profile_ready:
  assumes "extract_profile_features_with_configuration F scan c = (Ok pf :: ('f profile_features, 'e) result)"
  shows "(pff_usable_for_analysis pf \<longleftrightarrow> ready_profile scan c)
    \<and> (ready_profile scan c \<longrightarrow> pff_missing_steps pf = 0
        \<and> map sf_step_index (pff_steps pf) = map word_of_nat [0..<unat (pf_expected_steps scan)]
        \<and> (\<forall>f \<in> set (pff_steps pf). sf_quality_flags f = 0))"
proof -
  obtain m where m: "configuration_matches scan c = (Ok m :: (bool, 'e) result)"
    "extract_profile_features_inner F scan m = (Ok pf :: ('f profile_features, 'e) result)"
    using assms by (auto simp: extract_profile_features_with_configuration_def)
  obtain u missing where u: "profile_scan_allows_analysis scan = (Ok u :: (bool, 'e) result)"
    "computed_unavailable_steps scan = (Ok missing :: (u16, 'e) result)" "pff_missing_steps pf = missing"
    "pff_steps pf = add_offsets F (sort_key sf_step_index (map (step_features F u) (pf_steps scan)))"
    "pff_usable_for_analysis pf \<longleftrightarrow> (u \<and> list_all (\<lambda>step. sf_quality_flags step = 0) (pff_steps pf)) \<and> m"
    using m(2) by (auto simp: extract_profile_features_inner_def Let_def)
  have u_iff: "u \<longleftrightarrow> flawless_scan scan" using u(1) allows_iff [of scan, where 'e = 'e] by auto
  have flags: "set (map sf_quality_flags (pff_steps pf)) = (\<lambda>s. quality_bits (step_quality u s)) ` set (pf_steps scan)"
    unfolding u(4) add_offsets_sel by (auto simp: step_features_def image_image)
  have clean: "list_all (\<lambda>step. sf_quality_flags step = 0) (pff_steps pf) \<longleftrightarrow> (\<forall>step \<in> set (pf_steps scan). clean_reading step)" if u
  proof -
    have "list_all (\<lambda>step. sf_quality_flags step = 0) (pff_steps pf) \<longleftrightarrow> (\<forall>q \<in> set (map sf_quality_flags (pff_steps pf)). q = 0)"
      by (simp add: list_all_iff)
    then show ?thesis unfolding flags using that by (simp add: step_quality_empty)
  qed
  have m_iff: "m \<longleftrightarrow> configured_by c scan" if u
    using m(1) matches_iff [of scan c, where 'e = 'e] u_iff that by auto
  have usable: "pff_usable_for_analysis pf \<longleftrightarrow> ready_profile scan c"
    using u(5) u_iff clean m_iff by (auto simp: ready_profile_def)
  moreover have "pff_missing_steps pf = 0
        \<and> map sf_step_index (pff_steps pf) = map word_of_nat [0..<unat (pf_expected_steps scan)]
        \<and> (\<forall>f \<in> set (pff_steps pf). sf_quality_flags f = 0)" if "ready_profile scan c"
  proof -
    have flawless: "flawless_scan scan" using that by (simp add: ready_profile_def)
    then have sound: "scan_sound scan" and positions: "step_positions (pf_steps scan) = {..<unat (pf_expected_steps scan)}"
      by (simp_all add: flawless_scan_def)
    have "computed_unavailable_steps scan = (Ok 0 :: (u16, 'e) result)"
      using computed_unavailable_Ok [of 0 scan, where 'a = 'e] scan_sound_bounds(2) [OF sound] positions by auto
    moreover have "distinct (map st_step_index (pf_steps scan))" using sound by (simp add: scan_sound_def Let_def)
    then have "map sf_step_index (pff_steps pf) = map word_of_nat [0..<unat (pf_expected_steps scan)]"
      unfolding u(4) add_offsets_sel using sorted_indexes positions scan_sound_bounds(2) [OF sound] by blast
    ultimately show ?thesis using u(2,3,5) usable that by (auto simp: list_all_iff)
  qed
  ultimately show ?thesis by blast
qed

text \<open>A scan of two steps, and the configuration it was taken with.\<close>

definition bench_identity :: record_identity where
  "bench_identity = \<lparr>ri_common_flags = 1, ri_node_id = 7, ri_boot_id = 9, ri_scan_sequence = 3, ri_uptime_ms = 5000,
     ri_config_id = 11, ri_reset_cause_flags = 0\<rparr>"

definition bench_step :: "u8 \<Rightarrow> step_record" where
  "bench_step i = \<lparr>st_step_index = i, st_gas_index = i, st_measurement_index = i, st_status_bits = 0xb0,
     st_raw_measurement_status = 0x80 OR i, st_raw_gas_status = 0x30, st_target_temperature_celsius = 320,
     st_configured_duration_us = 140000, st_relative_offset_us = 1000, st_temperature_centi_celsius = 2150,
     st_pressure_pascal = 101325, st_humidity_milli_percent_rh = 45000, st_gas_resistance_ohm = 12000,
     st_raw_temperature_adc = 1, st_raw_pressure_adc = 2, st_raw_humidity_adc = 3, st_raw_gas_resistance_adc = 4,
     st_raw_gas_range = 0, st_repetition_multiplier = 1, st_raw_heater_resistance = 90, st_raw_heater_current = 0,
     st_raw_gas_wait = 0x59\<rparr>"

definition bench_scan :: scan_record where
  "bench_scan = \<lparr>pf_identity = bench_identity, pf_profile_id = 1, pf_profile_version = 1, pf_expected_steps = 2,
     pf_observed_unique_steps = 2, pf_observed_field_count = 2, pf_reported_missing_steps = 0, pf_duplicate_steps = 0,
     pf_duration_us = 300000, pf_collection_flags = 0, pf_finish_reason = FINISH_REASON_COMPLETE,
     pf_duplicate_count = 0, pf_overwritten_field_count = 0, pf_out_of_order_count = 0,
     pf_ambiguous_index_jump_count = 0, pf_invalid_gas_index_count = 0, pf_intermediate_field_count = 0,
     pf_profile_rollover_count = 0, pf_fields_after_rollover_count = 0, pf_poll_count = 4,
     pf_expected_fragment_count = 1, pf_received_fragment_bitmap = 1, pf_duplicate_fragment_count = 0,
     pf_conflicting_fragment_count = 0, pf_steps = [bench_step 1, bench_step 0]\<rparr>"

definition bench_heater :: "u8 \<Rightarrow> heater_step_configuration" where
  "bench_heater i = \<lparr>hc_step_index = i, hc_target_temperature_celsius = 320, hc_configured_duration_us = 140000,
     hc_repetition_multiplier = 1, hc_readback_heater_current = 0, hc_programmed_heater_resistance = 90,
     hc_programmed_gas_wait = 0x59\<rparr>"

definition bench_configuration :: device_configuration where
  "bench_configuration = \<lparr>cf_identity = bench_identity, cf_repeated = False,
     cf_config_flags = CONFIG_FLAG_SENSOR_CONFIG_READ_BACK, cf_firmware_version = [1, 0, 0], cf_firmware_build_flags = 0,
     cf_firmware_build_id = 0, cf_sensor_chip_id = 0x61, cf_sensor_variant = 1, cf_sensor_i2c_address = 0x76,
     cf_temperature_oversampling = 2, cf_humidity_oversampling = 1, cf_pressure_oversampling = 1, cf_iir_filter = 0,
     cf_standby_time = 0, cf_operation_mode = 2, cf_heater_enabled = 1, cf_parallel_requested_shared_wait_ms = 140,
     cf_parallel_shared_wait_register = 0x59, cf_parallel_quantized_shared_wait_us = 140000,
     cf_tphg_duration_us = 40000, cf_expected_profile_duration_us = 360000, cf_profile_id = 1,
     cf_profile_version = 1, cf_expected_step_count = 2, cf_heater_readback_valid_bitmap = 3,
     cf_calibration_hash_algorithm = 0, cf_calibration_hash = 0, cf_scan_interval_ms = 60000,
     cf_config_repeat_interval_scans = 10, cf_output_routes = 0, cf_radio_frequency_hz = 868100000,
     cf_radio_tx_power_dbm = 14, cf_radio_spreading_factor = 7, cf_radio_bandwidth_hz = 125000,
     cf_radio_coding_rate_numerator = 4, cf_radio_coding_rate_denominator = 5, cf_radio_preamble_symbols = 8,
     cf_radio_header_mode = 0, cf_radio_phy_crc_enabled = 1, cf_radio_iq_inverted = 0, cf_radio_sync_word = 0x1424,
     cf_max_frame_len = 255, cf_profile_steps_per_fragment = 3, cf_heater_steps = [bench_heater 0, bench_heater 1]\<rparr>"

lemma bench_extracted:
  "case extract_profile_features_with_configuration unit_ops bench_scan bench_configuration :: (_, unit) result
   of Inr pf \<Rightarrow> pff_usable_for_analysis pf | Inl _ \<Rightarrow> False"
  by code_simp

theorem usable_profile_ready_witness:
  "\<exists>pf. extract_profile_features_with_configuration unit_ops bench_scan bench_configuration
          = (Ok pf :: (unit profile_features, unit) result)
     \<and> pff_usable_for_analysis pf \<and> ready_profile bench_scan bench_configuration
     \<and> map sf_step_index (pff_steps pf) = [0, 1]"
proof -
  obtain pf where pf: "extract_profile_features_with_configuration unit_ops bench_scan bench_configuration
          = (Ok pf :: (unit profile_features, unit) result)" "pff_usable_for_analysis pf"
    using bench_extracted by (auto split: sum.splits)
  from usable_profile_ready [OF pf(1)] pf(2)
  have "ready_profile bench_scan bench_configuration" "map sf_step_index (pff_steps pf) = map word_of_nat [0..<2]"
    by (simp_all add: bench_scan_def)
  then show ?thesis using pf by (auto simp: upt_rec)
qed

end
