(* ===== verification/Radio.thy ===== *)
theory Radio
  imports Reassembly
begin

text \<open>
  The receive-only driver of \<^verbatim>\<open>crates/vesta-receiver/src/sx1262.rs\<close>: the pure helpers, the SPI
  transactions, the configuration of the radio and the reception of one event.

  The pins, the SPI controller, the clock and the sleeping thread belong to \<^verbatim>\<open>rppal\<close> and the
  operating system: they are the operations of the record \<open>hal\<close>, a parameter over a device of any
  type. A driver operation takes the state of the driver and returns its result with the new state,
  or \<open>None\<close> when the wait for BUSY never ends. The field \<open>hat_log\<close> records the transfers, for the
  statements about the driver; no operation reads it.
\<close>

section \<open>Constants\<close>

definition FREQUENCY_HZ :: u32 where "FREQUENCY_HZ = 868100000"
definition SPREADING_FACTOR :: u8 where "SPREADING_FACTOR = 7"
definition BANDWIDTH_HZ :: u32 where "BANDWIDTH_HZ = 125000"
definition MAX_PAYLOAD_LEN :: nat where "MAX_PAYLOAD_LEN = 255"

definition GPIO_RF_RX :: u8 where "GPIO_RF_RX = 6"
definition GPIO_RESET :: u8 where "GPIO_RESET = 18"
definition GPIO_NSS :: u8 where "GPIO_NSS = 21"
definition GPIO_BUSY :: u8 where "GPIO_BUSY = 20"
definition GPIO_DIO1 :: u8 where "GPIO_DIO1 = 16"

text \<open>Durations are in microseconds.\<close>

definition BUSY_TIMEOUT :: nat where "BUSY_TIMEOUT = 1000000"
definition BUSY_POLL_INTERVAL :: nat where "BUSY_POLL_INTERVAL = 100"
definition NSS_SETTLE_TIME :: nat where "NSS_SETTLE_TIME = 10"

definition OP_SET_STANDBY :: u8 where "OP_SET_STANDBY = 0x80"
definition OP_SET_RX :: u8 where "OP_SET_RX = 0x82"
definition OP_SET_PACKET_TYPE :: u8 where "OP_SET_PACKET_TYPE = 0x8a"
definition OP_SET_RF_FREQUENCY :: u8 where "OP_SET_RF_FREQUENCY = 0x86"
definition OP_SET_BUFFER_BASE_ADDRESS :: u8 where "OP_SET_BUFFER_BASE_ADDRESS = 0x8f"
definition OP_SET_MODULATION_PARAMS :: u8 where "OP_SET_MODULATION_PARAMS = 0x8b"
definition OP_SET_PACKET_PARAMS :: u8 where "OP_SET_PACKET_PARAMS = 0x8c"
definition OP_SET_DIO_IRQ_PARAMS :: u8 where "OP_SET_DIO_IRQ_PARAMS = 0x08"
definition OP_GET_IRQ_STATUS :: u8 where "OP_GET_IRQ_STATUS = 0x12"
definition OP_CLEAR_IRQ_STATUS :: u8 where "OP_CLEAR_IRQ_STATUS = 0x02"
definition OP_GET_RX_BUFFER_STATUS :: u8 where "OP_GET_RX_BUFFER_STATUS = 0x13"
definition OP_GET_PACKET_STATUS :: u8 where "OP_GET_PACKET_STATUS = 0x14"
definition OP_GET_STATUS :: u8 where "OP_GET_STATUS = 0xc0"
definition OP_GET_PACKET_TYPE :: u8 where "OP_GET_PACKET_TYPE = 0x11"
definition OP_GET_DEVICE_ERRORS :: u8 where "OP_GET_DEVICE_ERRORS = 0x17"
definition OP_CALIBRATE_IMAGE :: u8 where "OP_CALIBRATE_IMAGE = 0x98"
definition OP_SET_REGULATOR_MODE :: u8 where "OP_SET_REGULATOR_MODE = 0x96"
definition OP_SET_DIO2_AS_RF_SWITCH :: u8 where "OP_SET_DIO2_AS_RF_SWITCH = 0x9d"
definition OP_SET_STOP_RX_TIMER_ON_PREAMBLE :: u8 where "OP_SET_STOP_RX_TIMER_ON_PREAMBLE = 0x9f"
definition OP_SET_LORA_SYMBOL_TIMEOUT :: u8 where "OP_SET_LORA_SYMBOL_TIMEOUT = 0xa0"
definition OP_WRITE_REGISTER :: u8 where "OP_WRITE_REGISTER = 0x0d"
definition OP_READ_REGISTER :: u8 where "OP_READ_REGISTER = 0x1d"
definition OP_READ_BUFFER :: u8 where "OP_READ_BUFFER = 0x1e"

lemmas opcode_defs =
  OP_SET_STANDBY_def OP_SET_RX_def OP_SET_PACKET_TYPE_def OP_SET_RF_FREQUENCY_def
  OP_SET_BUFFER_BASE_ADDRESS_def OP_SET_MODULATION_PARAMS_def OP_SET_PACKET_PARAMS_def
  OP_SET_DIO_IRQ_PARAMS_def OP_GET_IRQ_STATUS_def OP_CLEAR_IRQ_STATUS_def
  OP_GET_RX_BUFFER_STATUS_def OP_GET_PACKET_STATUS_def OP_GET_STATUS_def OP_GET_PACKET_TYPE_def
  OP_GET_DEVICE_ERRORS_def OP_CALIBRATE_IMAGE_def OP_SET_REGULATOR_MODE_def
  OP_SET_DIO2_AS_RF_SWITCH_def OP_SET_STOP_RX_TIMER_ON_PREAMBLE_def
  OP_SET_LORA_SYMBOL_TIMEOUT_def OP_WRITE_REGISTER_def OP_READ_REGISTER_def OP_READ_BUFFER_def

definition PACKET_TYPE_LORA :: u8 where "PACKET_TYPE_LORA = 0x01"
definition STANDBY_RC :: u8 where "STANDBY_RC = 0x00"
definition REGULATOR_LDO :: u8 where "REGULATOR_LDO = 0x00"
definition RX_CONTINUOUS :: bytes where "RX_CONTINUOUS = [0xff, 0xff, 0xff]"

definition IRQ_RX_DONE :: u16 where "IRQ_RX_DONE = 0x0002"
definition IRQ_HEADER_ERROR :: u16 where "IRQ_HEADER_ERROR = 0x0020"
definition IRQ_CRC_ERROR :: u16 where "IRQ_CRC_ERROR = 0x0040"
definition IRQ_RX_TX_TIMEOUT :: u16 where "IRQ_RX_TX_TIMEOUT = 0x0200"
definition IRQ_TERMINAL_MASK :: u16 where
  "IRQ_TERMINAL_MASK = IRQ_RX_DONE OR IRQ_HEADER_ERROR OR IRQ_CRC_ERROR OR IRQ_RX_TX_TIMEOUT"

definition REGISTER_LORA_SYNC_WORD :: u16 where "REGISTER_LORA_SYNC_WORD = 0x0740"
definition REGISTER_IQ_POLARITY :: u16 where "REGISTER_IQ_POLARITY = 0x0736"
definition REGISTER_RX_GAIN :: u16 where "REGISTER_RX_GAIN = 0x08ac"
definition PRIVATE_SYNC_WORD :: bytes where "PRIVATE_SYNC_WORD = [0x14, 0x24]"
definition IQ_NORMAL_MASK :: u8 where "IQ_NORMAL_MASK = push_bit 2 1"
definition RX_GAIN_POWER_SAVING :: u8 where "RX_GAIN_POWER_SAVING = 0x94"
definition RF_FREQUENCY_WORD :: u32 where "RF_FREQUENCY_WORD = 0x36419999"

lemma rf_frequency_word: "uint RF_FREQUENCY_WORD = uint FREQUENCY_HZ * 2 ^ 25 div 32000000"
  by (simp add: RF_FREQUENCY_WORD_def FREQUENCY_HZ_def)

section \<open>Events and errors\<close>

record radio_packet =
  rp_payload :: bytes
  rp_metadata :: radio_metadata

datatype receive_event =
  Packet radio_packet
| HeaderError u16
| CrcError u16
| RadioTimeout u16
| OtherIrq u16

datatype ('g, 's) radio_error =
  Gpio 'g
| Spi 's
| BusyTimeout
| ShortTransfer nat nat
| InvalidStatus u8 u8
| CommandRejected u8 u8
| UnexpectedPacketType u8
| SyncWordMismatch u16
| DeviceErrors u16
| UnexpectedMode u8 u8

datatype irq_kind = IrqHeaderError | IrqCrcError | IrqPacket | IrqTimeout | IrqOther

definition classify_irq :: "u16 \<Rightarrow> irq_kind" where
  "classify_irq irq =
     (if irq AND IRQ_HEADER_ERROR \<noteq> 0 then IrqHeaderError
      else if irq AND IRQ_CRC_ERROR \<noteq> 0 then IrqCrcError
      else if irq AND IRQ_RX_DONE \<noteq> 0 then IrqPacket
      else if irq AND IRQ_RX_TX_TIMEOUT \<noteq> 0 then IrqTimeout
      else IrqOther)"

definition check_status :: "u8 \<Rightarrow> u8 \<Rightarrow> (unit, ('g, 's) radio_error) result" where
  "check_status opcode status =
     (if status = 0x00 \<or> status = 0xff then fail (InvalidStatus opcode status)
      else if status AND 0x0e = 0x06 \<or> status AND 0x0e = 0x08 \<or> status AND 0x0e = 0x0a
      then fail (CommandRejected opcode status)
      else Ok ())"

definition ensure_mode :: "u8 \<Rightarrow> u8 \<Rightarrow> (unit, ('g, 's) radio_error) result" where
  "ensure_mode status expected =
     (if status AND 0x70 = expected then Ok () else fail (UnexpectedMode expected status))"

text \<open>An \<^verbatim>\<open>i16\<close> operation with the exact result \<open>x\<close> panics when \<open>x\<close> does not fit.\<close>

definition i16_exact :: "int \<Rightarrow> (i16, 'e) result" where
  "i16_exact x = (if - (2 ^ 15) \<le> x \<and> x < 2 ^ 15 then Ok (word_of_int x) else panic)"

definition decode_packet_status :: "u8 \<Rightarrow> u8 \<Rightarrow> u8 \<Rightarrow> (radio_metadata, 'e) result" where
  "decode_packet_status raw0 raw1 raw2 =
    and_then (i16_exact (- uint raw0 * 50)) (\<lambda>packet_rssi.
    and_then (i16_exact (sint raw1 * 25)) (\<lambda>snr.
    and_then (i16_exact (- uint raw2 * 50)) (\<lambda>signal_rssi.
    Ok \<lparr>rm_packet_rssi_centi_dbm = packet_rssi,
        rm_snr_centi_db = snr,
        rm_signal_rssi_centi_dbm = signal_rssi\<rparr>)))"

section \<open>Hardware\<close>

text \<open>
  \<^verbatim>\<open>spi.transfer\<close> gets the incoming buffer and the outgoing bytes. \<^verbatim>\<open>poll_interrupt\<close> gets its reset
  flag and its timeout, and reports whether there was an interrupt.
\<close>

record ('d, 'g, 's) hal =
  hal_gpio_new :: "'d \<Rightarrow> ('g + unit) \<times> 'd"
  hal_gpio_get :: "u8 \<Rightarrow> 'd \<Rightarrow> ('g + unit) \<times> 'd"
  hal_input_pulldown :: "u8 \<Rightarrow> 'd \<Rightarrow> 'd"
  hal_keep_level_on_drop :: "u8 \<Rightarrow> 'd \<Rightarrow> 'd"
  hal_set_pin :: "u8 \<Rightarrow> bool \<Rightarrow> 'd \<Rightarrow> 'd"
  hal_read_pin :: "u8 \<Rightarrow> 'd \<Rightarrow> bool \<times> 'd"
  hal_set_interrupt :: "u8 \<Rightarrow> 'd \<Rightarrow> ('g + unit) \<times> 'd"
  hal_poll_interrupt :: "u8 \<Rightarrow> bool \<Rightarrow> nat \<Rightarrow> 'd \<Rightarrow> ('g + bool) \<times> 'd"
  hal_spi_new :: "'d \<Rightarrow> ('s + unit) \<times> 'd"
  hal_transfer :: "bytes \<Rightarrow> bytes \<Rightarrow> 'd \<Rightarrow> ('s + nat) \<times> bytes \<times> 'd"
  hal_now :: "'d \<Rightarrow> nat \<times> 'd"
  hal_sleep :: "nat \<Rightarrow> 'd \<Rightarrow> 'd"

text \<open>A transfer with its reply, and the levels of the output pins at the time.\<close>

record spi_event =
  ev_nss :: bool
  ev_reset :: bool
  ev_rf_rx :: bool
  ev_bytes :: bytes
  ev_reply :: bytes

record 'd hat =
  hat_device :: 'd
  hat_nss :: bool
  hat_reset :: bool
  hat_rf_rx :: bool
  hat_initialized :: bool
  hat_log :: "spi_event list"

type_synonym ('d, 'g, 's, 'a) driver =
  "'d hat \<Rightarrow> (('a, ('g, 's) radio_error) result \<times> 'd hat) option"

definition ret :: "'a \<Rightarrow> ('d, 'g, 's, 'a) driver" where
  "ret x h = Some (Ok x, h)"

definition lift :: "('a, ('g, 's) radio_error) result \<Rightarrow> ('d, 'g, 's, 'a) driver" where
  "lift r h = Some (r, h)"

text \<open>The operator \<^verbatim>\<open>?\<close> after a driver operation.\<close>

definition attempt :: "('d, 'g, 's, 'a) driver \<Rightarrow> ('a \<Rightarrow> ('d, 'g, 's, 'b) driver) \<Rightarrow> ('d, 'g, 's, 'b) driver" where
  "attempt m k h =
     (case m h of
        None \<Rightarrow> None
      | Some (Inl e, h') \<Rightarrow> Some (Inl e, h')
      | Some (Inr x, h') \<Rightarrow> k x h')"

text \<open>A call of the hardware that cannot fail, and one whose error is wrapped.\<close>

definition device :: "('d \<Rightarrow> 'd) \<Rightarrow> 'd hat \<Rightarrow> 'd hat" where
  "device f h = h\<lparr>hat_device := f (hat_device h)\<rparr>"

definition ask :: "('d \<Rightarrow> 'a \<times> 'd) \<Rightarrow> ('a \<Rightarrow> ('b, ('g, 's) radio_error) result) \<Rightarrow> ('d, 'g, 's, 'b) driver" where
  "ask f g h = (case f (hat_device h) of (x, d) \<Rightarrow> Some (g x, h\<lparr>hat_device := d\<rparr>))"

fun gpio_result :: "'g + 'a \<Rightarrow> ('a, ('g, 's) radio_error) result" where
  "gpio_result (Inl e) = fail (Gpio e)"
| "gpio_result (Inr x) = Ok x"

fun spi_result :: "'s + 'a \<Rightarrow> ('a, ('g, 's) radio_error) result" where
  "spi_result (Inl e) = fail (Spi e)"
| "spi_result (Inr x) = Ok x"

definition set_nss :: "('d, 'g, 's) hal \<Rightarrow> bool \<Rightarrow> 'd hat \<Rightarrow> 'd hat" where
  "set_nss H level h = (device (hal_set_pin H GPIO_NSS level) h)\<lparr>hat_nss := level\<rparr>"

definition set_reset :: "('d, 'g, 's) hal \<Rightarrow> bool \<Rightarrow> 'd hat \<Rightarrow> 'd hat" where
  "set_reset H level h = (device (hal_set_pin H GPIO_RESET level) h)\<lparr>hat_reset := level\<rparr>"

definition set_rf_rx :: "('d, 'g, 's) hal \<Rightarrow> bool \<Rightarrow> 'd hat \<Rightarrow> 'd hat" where
  "set_rf_rx H level h = (device (hal_set_pin H GPIO_RF_RX level) h)\<lparr>hat_rf_rx := level\<rparr>"

section \<open>Transactions\<close>

text \<open>The loop of \<^verbatim>\<open>wait_busy_low\<close>; it ends when BUSY is low or the deadline has passed.\<close>

partial_function (option) wait_loop ::
  "('d, 'g, 's) hal \<Rightarrow> nat \<Rightarrow> 'd \<Rightarrow> ((unit, ('g, 's) radio_error) result \<times> 'd) option" where
  "wait_loop H deadline d =
    (case hal_read_pin H GPIO_BUSY d of (high, d) \<Rightarrow>
     if \<not> high then Some (Ok (), d) else
     case hal_now H d of (now, d) \<Rightarrow>
     if deadline \<le> now then Some (fail BusyTimeout, d)
     else wait_loop H deadline (hal_sleep H BUSY_POLL_INTERVAL d))"

definition wait_busy_low :: "('d, 'g, 's) hal \<Rightarrow> ('d, 'g, 's, unit) driver" where
  "wait_busy_low H h =
    (case hal_now H (hat_device h) of (now, d) \<Rightarrow>
     map_option (\<lambda>(r, d). (r, h\<lparr>hat_device := d\<rparr>)) (wait_loop H (now + BUSY_TIMEOUT) d))"

definition spi_transfer :: "('d, 'g, 's) hal \<Rightarrow> bytes \<Rightarrow> 'd hat \<Rightarrow> ('s + nat) \<times> bytes \<times> 'd hat" where
  "spi_transfer H outgoing h =
    (case hal_transfer H (replicate (length outgoing) 0) outgoing (hat_device h) of
       (transfer_result, incoming, d) \<Rightarrow>
         (transfer_result, incoming,
          h\<lparr>hat_device := d,
            hat_log := hat_log h @ [\<lparr>ev_nss = hat_nss h, ev_reset = hat_reset h, ev_rf_rx = hat_rf_rx h,
                                     ev_bytes = outgoing, ev_reply = incoming\<rparr>]\<rparr>))"

definition transaction :: "('d, 'g, 's) hal \<Rightarrow> bytes \<Rightarrow> ('d, 'g, 's, bytes) driver" where
  "transaction H outgoing =
    attempt (wait_busy_low H) (\<lambda>_ h.
    let h = set_nss H False h;
        h = device (hal_sleep H NSS_SETTLE_TIME) h;
        (transfer_result, incoming, h) = spi_transfer H outgoing h;
        h = device (hal_sleep H NSS_SETTLE_TIME) h;
        h = set_nss H True h
    in
    attempt (lift (spi_result transfer_result)) (\<lambda>transferred.
    if transferred \<noteq> length outgoing
    then lift (fail (ShortTransfer (length outgoing) transferred)) else
    attempt (wait_busy_low H) (\<lambda>_.
    ret incoming)) h)"

definition command :: "('d, 'g, 's) hal \<Rightarrow> bytes \<Rightarrow> ('d, 'g, 's, unit) driver" where
  "command H bs = attempt (transaction H bs) (\<lambda>_. ret ())"

definition read_command :: "('d, 'g, 's) hal \<Rightarrow> u8 \<Rightarrow> nat \<Rightarrow> ('d, 'g, 's, bytes) driver" where
  "read_command H opcode len =
    attempt (transaction H ((replicate (len + 2) 0)[0 := opcode])) (\<lambda>received.
    attempt (lift (index received 1)) (\<lambda>status.
    attempt (lift (check_status opcode status)) (\<lambda>_.
    lift (slice received 2 (length received)))))"

definition write_register :: "('d, 'g, 's) hal \<Rightarrow> u16 \<Rightarrow> bytes \<Rightarrow> ('d, 'g, 's, unit) driver" where
  "write_register H address data = command H ([OP_WRITE_REGISTER] @ to_be_bytes address @ data)"

definition read_register :: "('d, 'g, 's) hal \<Rightarrow> u16 \<Rightarrow> nat \<Rightarrow> ('d, 'g, 's, bytes) driver" where
  "read_register H address len =
    attempt (transaction H ([OP_READ_REGISTER] @ to_be_bytes address @ replicate (len + 1) 0)) (\<lambda>received.
    lift (slice received 4 (length received)))"

definition read_buffer :: "('d, 'g, 's) hal \<Rightarrow> u8 \<Rightarrow> nat \<Rightarrow> ('d, 'g, 's, bytes) driver" where
  "read_buffer H offset len =
    attempt (transaction H ((replicate (len + 3) 0)[0 := OP_READ_BUFFER, 1 := offset])) (\<lambda>received.
    lift (slice received 3 (length received)))"

definition get_status :: "('d, 'g, 's) hal \<Rightarrow> ('d, 'g, 's, u8) driver" where
  "get_status H =
    attempt (transaction H [OP_GET_STATUS, 0x00]) (\<lambda>received.
    attempt (lift (index received 1)) (\<lambda>status.
    attempt (lift (check_status OP_GET_STATUS status)) (\<lambda>_.
    ret status)))"

text \<open>\<^verbatim>\<open>u16::from_be_bytes([bytes[0], bytes[1]])\<close>\<close>

definition be_u16 :: "bytes \<Rightarrow> (u16, ('g, 's) radio_error) result" where
  "be_u16 bs = and_then (index bs 0) (\<lambda>b0. and_then (index bs 1) (\<lambda>b1. Ok (from_be_bytes [b0, b1])))"

definition get_irq_status :: "('d, 'g, 's) hal \<Rightarrow> ('d, 'g, 's, u16) driver" where
  "get_irq_status H = attempt (read_command H OP_GET_IRQ_STATUS 2) (\<lambda>bs. lift (be_u16 bs))"

definition clear_all_irq :: "('d, 'g, 's) hal \<Rightarrow> ('d, 'g, 's, unit) driver" where
  "clear_all_irq H = command H [OP_CLEAR_IRQ_STATUS, 0xff, 0xff]"

definition enter_continuous_receive :: "('d, 'g, 's) hal \<Rightarrow> ('d, 'g, 's, unit) driver" where
  "enter_continuous_receive H = command H ([OP_SET_RX] @ RX_CONTINUOUS)"

definition restart_receive :: "('d, 'g, 's) hal \<Rightarrow> ('d, 'g, 's, unit) driver" where
  "restart_receive H = attempt (clear_all_irq H) (\<lambda>_. enter_continuous_receive H)"

section \<open>Receiving\<close>

definition read_packet :: "('d, 'g, 's) hal \<Rightarrow> ('d, 'g, 's, radio_packet) driver" where
  "read_packet H =
    attempt (read_command H OP_GET_RX_BUFFER_STATUS 2) (\<lambda>buffer_status.
    attempt (lift (index buffer_status 0)) (\<lambda>payload_length.
    attempt (lift (index buffer_status 1)) (\<lambda>offset.
    attempt (read_buffer H offset (unat payload_length)) (\<lambda>payload.
    attempt (read_command H OP_GET_PACKET_STATUS 3) (\<lambda>packet_status.
    attempt (lift (index packet_status 0)) (\<lambda>raw0.
    attempt (lift (index packet_status 1)) (\<lambda>raw1.
    attempt (lift (index packet_status 2)) (\<lambda>raw2.
    attempt (lift (decode_packet_status raw0 raw1 raw2)) (\<lambda>metadata.
    ret \<lparr>rp_payload = payload, rp_metadata = metadata\<rparr>)))))))))"

definition read_event :: "('d, 'g, 's) hal \<Rightarrow> u16 \<Rightarrow> ('d, 'g, 's, receive_event) driver" where
  "read_event H irq =
    (case classify_irq irq of
       IrqHeaderError \<Rightarrow> ret (HeaderError irq)
     | IrqCrcError \<Rightarrow> ret (CrcError irq)
     | IrqPacket \<Rightarrow> attempt (read_packet H) (\<lambda>p. ret (Packet p))
     | IrqTimeout \<Rightarrow> ret (RadioTimeout irq)
     | IrqOther \<Rightarrow> ret (OtherIrq irq))"

text \<open>
  The result of reading the event is kept while the receiver is restarted; a panic in it ends the
  operation at once.
\<close>

definition report_event :: "('d, 'g, 's) hal \<Rightarrow> u16 \<Rightarrow> ('d, 'g, 's, receive_event option) driver" where
  "report_event H irq h =
    (case read_event H irq h of
       None \<Rightarrow> None
     | Some (event_result, h) \<Rightarrow>
         if panics event_result then Some (panic, h) else
         (case restart_receive H h of
            None \<Rightarrow> None
          | Some (restart_result, h) \<Rightarrow>
              attempt (lift event_result) (\<lambda>event.
              attempt (lift restart_result) (\<lambda>_.
              ret (Some event))) h))"

definition poll_receive :: "('d, 'g, 's) hal \<Rightarrow> nat \<Rightarrow> ('d, 'g, 's, receive_event option) driver" where
  "poll_receive H timeout =
    attempt (ask (hal_read_pin H GPIO_DIO1) Ok) (\<lambda>high.
    attempt (if high then ret True else ask (hal_poll_interrupt H GPIO_DIO1 False timeout) gpio_result)
      (\<lambda>interrupted.
    if \<not> interrupted then ret None else
    attempt (get_irq_status H) (report_event H)))"

section \<open>Start and end\<close>

definition verify_readback :: "('d, 'g, 's) hal \<Rightarrow> ('d, 'g, 's, unit) driver" where
  "verify_readback H =
    attempt (read_command H OP_GET_PACKET_TYPE 1) (\<lambda>bs.
    attempt (lift (index bs 0)) (\<lambda>packet_type.
    if packet_type \<noteq> PACKET_TYPE_LORA then lift (fail (UnexpectedPacketType packet_type)) else
    attempt (read_register H REGISTER_LORA_SYNC_WORD 2) (\<lambda>sync_word_bytes.
    attempt (lift (be_u16 sync_word_bytes)) (\<lambda>sync_word.
    if sync_word \<noteq> from_be_bytes PRIVATE_SYNC_WORD then lift (fail (SyncWordMismatch sync_word)) else
    attempt (read_command H OP_GET_DEVICE_ERRORS 2) (\<lambda>error_bytes.
    attempt (lift (be_u16 error_bytes)) (\<lambda>errors.
    if errors \<noteq> 0 then lift (fail (DeviceErrors errors)) else ret ()))))))"

text \<open>A run of statements \<^verbatim>\<open>self.op(..)?;\<close>\<close>

fun run_all :: "('d, 'g, 's, unit) driver list \<Rightarrow> ('d, 'g, 's, unit) driver" where
  "run_all [] = ret ()"
| "run_all (m # ms) = attempt m (\<lambda>_. run_all ms)"

definition configure_receive :: "('d, 'g, 's) hal \<Rightarrow> ('d, 'g, 's, unit) driver" where
  "configure_receive H =
    run_all
     [command H [OP_SET_STANDBY, STANDBY_RC],
      command H [OP_SET_REGULATOR_MODE, REGULATOR_LDO],
      command H [OP_SET_DIO2_AS_RF_SWITCH, 0x01],
      command H [OP_SET_PACKET_TYPE, PACKET_TYPE_LORA],
      write_register H REGISTER_LORA_SYNC_WORD PRIVATE_SYNC_WORD,
      command H [OP_SET_BUFFER_BASE_ADDRESS, 0x00, 0x00],
      command H [OP_CALIBRATE_IMAGE, 0xd7, 0xdb],
      command H ([OP_SET_RF_FREQUENCY] @ to_be_bytes RF_FREQUENCY_WORD),
      command H [OP_SET_MODULATION_PARAMS, 0x07, 0x04, 0x01, 0x00],
      command H [OP_SET_PACKET_PARAMS, 0x00, 0x08, 0x00, 0xff, 0x01, 0x00],
      attempt (read_register H REGISTER_IQ_POLARITY 1) (\<lambda>bs.
      attempt (lift (index bs 0)) (\<lambda>iq_polarity.
      write_register H REGISTER_IQ_POLARITY [iq_polarity OR IQ_NORMAL_MASK])),
      write_register H REGISTER_RX_GAIN [RX_GAIN_POWER_SAVING],
      command H [OP_SET_STOP_RX_TIMER_ON_PREAMBLE, 0x01],
      command H [OP_SET_LORA_SYMBOL_TIMEOUT, 0x00],
      command H ([OP_SET_DIO_IRQ_PARAMS] @ to_be_bytes IRQ_TERMINAL_MASK @ to_be_bytes IRQ_TERMINAL_MASK
        @ [0x00, 0x00, 0x00, 0x00]),
      verify_readback H,
      ask (hal_set_interrupt H GPIO_DIO1) gpio_result,
      attempt (ask (hal_poll_interrupt H GPIO_DIO1 True 0) gpio_result) (\<lambda>_. ret ()),
      clear_all_irq H,
      enter_continuous_receive H]"

definition hardware_reset :: "('d, 'g, 's) hal \<Rightarrow> ('d, 'g, 's, unit) driver" where
  "hardware_reset H h =
    (let h = set_rf_rx H True h;
         h = set_nss H True h;
         h = set_reset H True h;
         h = device (hal_sleep H 10000) h;
         h = set_reset H False h;
         h = device (hal_sleep H 1000) h;
         h = set_reset H True h;
         h = device (hal_sleep H 10000) h
     in
     attempt (wait_busy_low H) (\<lambda>_.
     attempt (get_status H) (\<lambda>status.
     lift (ensure_mode status 0x20))) h)"

definition drop_hat :: "('d, 'g, 's) hal \<Rightarrow> 'd hat \<Rightarrow> 'd hat option" where
  "drop_hat H h =
    Option.bind (if hat_initialized h then map_option snd (command H [OP_SET_STANDBY, STANDBY_RC] h) else Some h)
     (\<lambda>h. let h = set_nss H True h; h = set_reset H True h; h = set_rf_rx H True h in Some h)"

text \<open>\<^verbatim>\<open>gpio.get(pin)?\<close> as an output that starts high, and as an input.\<close>

definition claim_output ::
  "('d, 'g, 's) hal \<Rightarrow> u8 \<Rightarrow> ('d hat \<Rightarrow> 'd hat) \<Rightarrow> ('d, 'g, 's, unit) driver" where
  "claim_output H pin drive_high =
    attempt (ask (hal_gpio_get H pin) gpio_result) (\<lambda>_ h. ret () (drive_high h))"

definition claim_input :: "('d, 'g, 's) hal \<Rightarrow> u8 \<Rightarrow> ('d, 'g, 's, unit) driver" where
  "claim_input H pin =
    attempt (ask (hal_gpio_get H pin) gpio_result) (\<lambda>_ h. ret () (device (hal_input_pulldown H pin) h))"

definition claim_pins :: "('d, 'g, 's) hal \<Rightarrow> ('d, 'g, 's, unit) driver" where
  "claim_pins H =
    run_all
     [ask (hal_gpio_new H) gpio_result,
      claim_output H GPIO_RF_RX (set_rf_rx H True),
      claim_output H GPIO_RESET (set_reset H True),
      claim_output H GPIO_NSS (set_nss H True),
      (\<lambda>h. ret () (device (hal_keep_level_on_drop H GPIO_RF_RX) h)),
      (\<lambda>h. ret () (device (hal_keep_level_on_drop H GPIO_RESET) h)),
      (\<lambda>h. ret () (device (hal_keep_level_on_drop H GPIO_NSS) h)),
      claim_input H GPIO_BUSY,
      claim_input H GPIO_DIO1,
      ask (hal_spi_new H) spi_result]"

text \<open>
  From the construction of the driver on, a failure or a panic drops it before it is returned.
\<close>

definition or_drop :: "('d, 'g, 's) hal \<Rightarrow> ('d, 'g, 's, 'a) driver \<Rightarrow> ('d, 'g, 's, 'a) driver" where
  "or_drop H m h =
    (case m h of
       None \<Rightarrow> None
     | Some (Inl e, h') \<Rightarrow> map_option (\<lambda>h''. (Inl e, h'')) (drop_hat H h')
     | Some (Inr x, h') \<Rightarrow> Some (Inr x, h'))"

definition open_hat :: "('d, 'g, 's) hal \<Rightarrow> ('d, 'g, 's, unit) driver" where
  "open_hat H =
    attempt (claim_pins H) (\<lambda>_ h.
    or_drop H
     (attempt (hardware_reset H) (\<lambda>_ h.
      configure_receive H (h\<lparr>hat_initialized := True\<rparr>)))
     (h\<lparr>hat_initialized := False\<rparr>))"

end
