(* ===== verification/Radio_Behaviour.thy ===== *)
theory Radio_Behaviour
  imports Radio
begin

text \<open>
  The driver of the radio: every operation returns without a panic, what is sent over the whole
  life of a driver keeps the radio receiving, and an event is what the interrupt register says.
\<close>

section \<open>Laws of the hardware\<close>

text \<open>
  A transfer fills the incoming slice, whose length it cannot change. The clock is monotonic and a
  thread sleeps at least as long as it asks for; \<open>clock\<close> is the true time of a device.
\<close>

definition full_buffers :: "('d, 'g, 's) hal \<Rightarrow> bool" where
  "full_buffers H \<longleftrightarrow> (\<forall>rx tx d. length (fst (snd (hal_transfer H rx tx d))) = length rx)"

definition timely :: "('d, 'g, 's) hal \<Rightarrow> ('d \<Rightarrow> nat) \<Rightarrow> bool" where
  "timely H clock \<longleftrightarrow>
     (\<forall>d. clock d \<le> fst (hal_now H d) \<and> fst (hal_now H d) \<le> clock (snd (hal_now H d)))
     \<and> (\<forall>n d. clock d + n \<le> clock (hal_sleep H n d))
     \<and> (\<forall>p d. clock d \<le> clock (snd (hal_read_pin H p d)))"

section \<open>Operations that return\<close>

text \<open>The operation returns from every state, does not panic, and a value it returns satisfies \<open>Q\<close>.\<close>

definition yields :: "('d, 'g, 's, 'a) driver \<Rightarrow> ('a \<Rightarrow> bool) \<Rightarrow> bool" where
  "yields m Q \<longleftrightarrow> (\<forall>h. \<exists>r h'. m h = Some (r, h') \<and> \<not> panics r \<and> (\<forall>x. r = Ok x \<longrightarrow> Q x))"

named_theorems yields_intros

lemma yields_weaken: "yields m Q \<Longrightarrow> (\<And>x. Q x \<Longrightarrow> R x) \<Longrightarrow> yields m R"
  unfolding yields_def by blast

lemma yields_ret [yields_intros]: "Q x \<Longrightarrow> yields (ret x) Q"
  by (simp add: yields_def ret_def)

lemma yields_lift: "\<not> panics r \<Longrightarrow> (\<And>x. r = Ok x \<Longrightarrow> Q x) \<Longrightarrow> yields (lift r) Q"
  by (simp add: yields_def lift_def)

lemma yields_ask: "(\<And>x. \<not> panics (g x)) \<Longrightarrow> (\<And>x y. g x = Ok y \<Longrightarrow> Q y) \<Longrightarrow> yields (ask f g) Q"
  by (auto simp: yields_def ask_def split: prod.splits)

lemma yields_attempt [yields_intros]:
  assumes m: "yields m Q" and k: "\<And>x. Q x \<Longrightarrow> yields (k x) R"
  shows "yields (attempt m k) R"
  unfolding yields_def
proof
  fix h
  obtain r h1 where r: "m h = Some (r, h1)" "\<not> panics r" "\<And>x. r = Ok x \<Longrightarrow> Q x"
    using m unfolding yields_def by blast
  show "\<exists>r h'. attempt m k h = Some (r, h') \<and> \<not> panics r \<and> (\<forall>x. r = Ok x \<longrightarrow> R x)"
  proof (cases r)
    case (Inl e)
    then show ?thesis using r(1,2) by (cases e) (simp_all add: attempt_def panics_def)
  next
    case (Inr x)
    then have "yields (k x) R" using r(3) k by blast
    then show ?thesis using Inr r(1) by (simp add: attempt_def yields_def)
  qed
qed

lemma yields_if [yields_intros]:
  "(b \<Longrightarrow> yields m Q) \<Longrightarrow> (\<not> b \<Longrightarrow> yields n Q) \<Longrightarrow> yields (if b then m else n) Q"
  by simp

lemma yields_fail [yields_intros]: "yields (lift (fail e)) Q"
  by (simp add: yields_def lift_def)

lemma yields_index [yields_intros]: "i < length bs \<Longrightarrow> yields (lift (index bs i)) (\<lambda>_. True)"
  by (rule yields_lift) auto

lemma yields_be_u16 [yields_intros]: "length bs = 2 \<Longrightarrow> yields (lift (be_u16 bs)) (\<lambda>_. True)"
  by (rule yields_lift) (auto simp: be_u16_def panics_and_then)

lemma yields_check_status [yields_intros]: "yields (lift (check_status opcode status)) (\<lambda>_. True)"
  by (rule yields_lift) (auto simp: check_status_def)

lemma yields_ensure_mode [yields_intros]: "yields (lift (ensure_mode status expected)) (\<lambda>_. True)"
  by (rule yields_lift) (auto simp: ensure_mode_def)

lemma no_panic_wrap [simp]: "\<not> panics (gpio_result x)" "\<not> panics (spi_result y)"
  by (cases x; simp) (cases y; simp)

lemma yields_gpio [yields_intros]: "yields (ask f gpio_result) (\<lambda>_. True)"
  and yields_spi [yields_intros]: "yields (ask g spi_result) (\<lambda>_. True)"
  and yields_level [yields_intros]: "yields (ask k Ok) (\<lambda>_. True)"
  by (rule yields_ask; simp)+

lemma yields_spi_lift [yields_intros]: "yields (lift (spi_result x)) (\<lambda>_. True)"
  by (rule yields_lift) simp_all

lemma yields_device [yields_intros]: "Q x \<Longrightarrow> yields (\<lambda>h. ret x (f h)) Q"
  by (simp add: yields_def ret_def)

lemma yields_run_all [yields_intros]:
  "(\<And>m. m \<in> set ms \<Longrightarrow> yields m (\<lambda>_. True)) \<Longrightarrow> yields (run_all ms) (\<lambda>_. True)"
  by (induction ms) (auto intro!: yields_intros)

lemma yields_shift: "yields m Q \<Longrightarrow> yields (\<lambda>h. m (f h)) Q"
  unfolding yields_def by blast

text \<open>The wait for BUSY ends: every round sleeps, and the deadline comes.\<close>

lemma wait_loop_returns:
  assumes "timely H clock"
  shows "\<exists>r d'. wait_loop H deadline d = Some (r, d') \<and> \<not> panics r"
proof (induction "deadline - clock d" arbitrary: d rule: less_induct)
  case less
  obtain high d1 where b: "hal_read_pin H GPIO_BUSY d = (high, d1)" by fastforce
  obtain now d2 where n: "hal_now H d1 = (now, d2)" by fastforce
  have "clock d \<le> clock d1" "clock d1 \<le> now" "now \<le> clock d2"
    "clock d2 + BUSY_POLL_INTERVAL \<le> clock (hal_sleep H BUSY_POLL_INTERVAL d2)"
    using assms b n unfolding timely_def by (metis fst_conv snd_conv)+
  then have "deadline - clock (hal_sleep H BUSY_POLL_INTERVAL d2) < deadline - clock d" if "now < deadline"
    using that by (simp add: BUSY_POLL_INTERVAL_def)
  then have "now < deadline \<Longrightarrow>
      \<exists>r d'. wait_loop H deadline (hal_sleep H BUSY_POLL_INTERVAL d2) = Some (r, d') \<and> \<not> panics r"
    by (rule less)
  then show ?case
    by (subst wait_loop.simps, cases "now < deadline") (simp_all add: b n)
qed

lemma yields_wait [yields_intros]:
  assumes "timely H clock"
  shows "yields (wait_busy_low H) (\<lambda>_. True)"
  unfolding yields_def
proof
  fix h :: "'a hat"
  obtain now d where n: "hal_now H (hat_device h) = (now, d)" by fastforce
  then show "\<exists>r h'. wait_busy_low H h = Some (r, h') \<and> \<not> panics r \<and> (\<forall>x. r = Ok x \<longrightarrow> True)"
    using wait_loop_returns [OF assms, of "now + BUSY_TIMEOUT" d] by (auto simp: wait_busy_low_def)
qed

lemma yields_transaction [yields_intros]:
  assumes "timely H clock" and "full_buffers H"
  shows "yields (transaction H out) (\<lambda>rx. length rx = length out)"
proof -
  have "yields (\<lambda>h. let h = set_nss H False h;
        h = device (hal_sleep H NSS_SETTLE_TIME) h;
        (transfer_result, incoming, h) = spi_transfer H out h;
        h = device (hal_sleep H NSS_SETTLE_TIME) h;
        h = set_nss H True h
    in attempt (lift (spi_result transfer_result)) (\<lambda>transferred.
    if transferred \<noteq> length out then lift (fail (ShortTransfer (length out) transferred)) else
    attempt (wait_busy_low H) (\<lambda>_. ret incoming)) h) (\<lambda>rx. length rx = length out)"
    unfolding yields_def
  proof
    fix h
    obtain res incoming h1 where t:
      "spi_transfer H out (device (hal_sleep H NSS_SETTLE_TIME) (set_nss H False h)) = (res, incoming, h1)"
      by (metis prod_cases3)
    then have "length incoming = length out"
      using assms(2) by (auto simp: spi_transfer_def full_buffers_def split: prod.splits)
        (metis fst_conv length_replicate snd_conv)
    note len = this
    have "yields (attempt (lift (spi_result res)) (\<lambda>transferred.
        if transferred \<noteq> length out then lift (fail (ShortTransfer (length out) transferred)) else
        attempt (wait_busy_low H) (\<lambda>_. ret incoming))) (\<lambda>rx. length rx = length out)"
      by (rule yields_intros assms len | simp)+
    then show "\<exists>r h'. (let h = set_nss H False h;
        h = device (hal_sleep H NSS_SETTLE_TIME) h;
        (transfer_result, incoming, h) = spi_transfer H out h;
        h = device (hal_sleep H NSS_SETTLE_TIME) h;
        h = set_nss H True h
      in attempt (lift (spi_result transfer_result)) (\<lambda>transferred.
      if transferred \<noteq> length out then lift (fail (ShortTransfer (length out) transferred)) else
      attempt (wait_busy_low H) (\<lambda>_. ret incoming)) h) = Some (r, h') \<and> \<not> panics r
      \<and> (\<forall>x. r = Ok x \<longrightarrow> length x = length out)"
      unfolding Let_def t by (simp add: yields_def)
  qed
  then show ?thesis
    unfolding transaction_def by (intro yields_attempt [OF yields_wait [OF assms(1)]])
qed

lemma yields_command [yields_intros]:
  assumes "timely H clock" and "full_buffers H"
  shows "yields (command H out) (\<lambda>_. True)"
  unfolding command_def by (rule yields_intros assms | simp)+

lemma yields_read_command [yields_intros]:
  assumes "timely H clock" and "full_buffers H"
  shows "yields (read_command H opcode n) (\<lambda>bs. length bs = n)"
  unfolding read_command_def
  by (rule yields_intros yields_lift assms | simp add: slice_Ok_iff)+

lemma yields_registers [yields_intros]:
  assumes "timely H clock" and "full_buffers H"
  shows "yields (write_register H address bs) (\<lambda>_. True)"
    and "yields (read_register H address n) (\<lambda>bs. length bs = n)"
    and "yields (read_buffer H offset n) (\<lambda>bs. length bs = n)"
  unfolding write_register_def read_register_def read_buffer_def
  by (rule yields_intros yields_lift assms | simp add: slice_Ok_iff)+

lemma yields_status [yields_intros]:
  assumes "timely H clock" and "full_buffers H"
  shows "yields (get_status H) (\<lambda>_. True)" and "yields (get_irq_status H) (\<lambda>_. True)"
    and "yields (restart_receive H) (\<lambda>_. True)" and "yields (verify_readback H) (\<lambda>_. True)"
    and "yields (clear_all_irq H) (\<lambda>_. True)" and "yields (enter_continuous_receive H) (\<lambda>_. True)"
  unfolding get_status_def get_irq_status_def restart_receive_def verify_readback_def clear_all_irq_def
    enter_continuous_receive_def
  by (rule yields_intros assms | simp)+

lemma i16_exact_Ok:
  assumes "- (2 ^ 15) \<le> x" "x < 2 ^ 15"
  shows "\<exists>w. i16_exact x = Ok w \<and> sint w = x"
  using assms by (simp add: i16_exact_def sint_sbintrunc' signed_take_bit_int_eq_self)

lemma decode_packet_status_exact:
  "\<exists>m. decode_packet_status a b c = (Ok m :: (_, 'e) result) \<and> sint (rm_packet_rssi_centi_dbm m) = - uint a * 50
     \<and> sint (rm_snr_centi_db m) = sint b * 25 \<and> sint (rm_signal_rssi_centi_dbm m) = - uint c * 50"
proof -
  have u: "- (2 ^ 15) \<le> - uint x * 50 \<and> - uint x * 50 < 2 ^ 15" for x :: u8
  proof -
    have "uint x < 256" using uint_lt2p [of x] by simp
    moreover have "0 \<le> uint x" by simp
    ultimately have "- 32768 \<le> - uint x * 50 \<and> - uint x * 50 < 32768" by linarith
    then show ?thesis by simp
  qed
  have "- (2 ^ 7) \<le> sint b \<and> sint b < 2 ^ 7"
    using sint_range_size [of b] by (simp add: word_size)
  then have s: "- (2 ^ 15) \<le> sint b * 25 \<and> sint b * 25 < 2 ^ 15" by simp
  obtain x y z where "i16_exact (- uint a * 50) = (Ok x :: (_, 'e) result)" "sint x = - uint a * 50"
    "i16_exact (sint b * 25) = (Ok y :: (_, 'e) result)" "sint y = sint b * 25"
    "i16_exact (- uint c * 50) = (Ok z :: (_, 'e) result)" "sint z = - uint c * 50"
    using i16_exact_Ok u s by metis
  then show ?thesis by (simp add: decode_packet_status_def)
qed

lemma yields_packet_status [yields_intros]: "yields (lift (decode_packet_status a b c)) (\<lambda>_. True)"
proof -
  obtain m where "decode_packet_status a b c = (Ok m :: (_, ('b, 'c) radio_error) result)"
    using decode_packet_status_exact by blast
  then show ?thesis by (simp add: yields_def lift_def)
qed

lemma yields_read_packet [yields_intros]:
  assumes "timely H clock" and "full_buffers H"
  shows "yields (read_packet H) (\<lambda>_. True)"
  unfolding read_packet_def by (rule yields_intros assms | simp)+

lemma yields_read_event [yields_intros]:
  assumes "timely H clock" and "full_buffers H"
  shows "yields (read_event H irq) (\<lambda>_. True)"
  unfolding read_event_def
  by (cases "classify_irq irq"; simp) (rule yields_intros assms | simp)+

lemma yields_report [yields_intros]:
  assumes "timely H clock" and "full_buffers H"
  shows "yields (report_event H irq) (\<lambda>_. True)"
  unfolding yields_def
proof
  fix h
  obtain ev h1 where ev: "read_event H irq h = Some (ev, h1)" "\<not> panics ev"
    using yields_read_event [OF assms, of irq] unfolding yields_def by blast
  obtain re h2 where re: "restart_receive H h1 = Some (re, h2)" "\<not> panics re"
    using yields_status(3) [OF assms] unfolding yields_def by blast
  have "\<exists>r h'. attempt (lift ev) (\<lambda>event. attempt (lift re) (\<lambda>_. ret (Some event))) h2 = Some (r, h') \<and> \<not> panics r"
    using ev(2) re(2) by (cases ev; cases re) (auto simp: attempt_def lift_def ret_def panics_def)
  then show "\<exists>r h'. report_event H irq h = Some (r, h') \<and> \<not> panics r \<and> (\<forall>x. r = Ok x \<longrightarrow> True)"
    by (simp add: report_event_def ev re)
qed

lemma yields_poll:
  assumes "timely H clock" and "full_buffers H"
  shows "yields (poll_receive H timeout) (\<lambda>_. True)"
proof -
  have ready: "yields (if high then ret True else ask (hal_poll_interrupt H GPIO_DIO1 False timeout) gpio_result) (\<lambda>_. True)"
    for high by (rule yields_intros TrueI)+
  show ?thesis
    unfolding poll_receive_def
    by (rule yields_attempt yields_level ready yields_if yields_ret yields_status yields_report assms TrueI)+
qed

lemma yields_configure [yields_intros]:
  assumes "timely H clock" and "full_buffers H"
  shows "yields (configure_receive H) (\<lambda>_. True)"
proof -
  note step = yields_command [OF assms] yields_registers [OF assms] yields_status [OF assms] yields_gpio
  have iq: "yields (attempt (read_register H REGISTER_IQ_POLARITY 1) (\<lambda>bs.
      attempt (lift (index bs 0)) (\<lambda>iq_polarity.
      write_register H REGISTER_IQ_POLARITY [iq_polarity OR IQ_NORMAL_MASK]))) (\<lambda>_. True)"
    by (rule yields_attempt step yields_index | simp)+
  have clear: "yields (attempt (ask (hal_poll_interrupt H GPIO_DIO1 True 0) gpio_result) (\<lambda>_. ret ())) (\<lambda>_. True)"
    by (rule yields_intros TrueI)+
  show ?thesis
    unfolding configure_receive_def run_all.simps
    by (rule iq clear step yields_attempt yields_ret TrueI)+
qed

lemma yields_reset [yields_intros]:
  assumes "timely H clock" and "full_buffers H"
  shows "yields (hardware_reset H) (\<lambda>_. True)"
proof -
  have "yields (attempt (wait_busy_low H) (\<lambda>_. attempt (get_status H) (\<lambda>status.
      lift (ensure_mode status 0x20)))) (\<lambda>_. True)"
    by (rule yields_intros assms)+
  then show ?thesis unfolding yields_def hardware_reset_def Let_def by simp
qed

lemma drop_returns:
  assumes "timely H clock" and "full_buffers H"
  shows "\<exists>h'. drop_hat H h = Some h'"
proof -
  obtain r h1 where "command H [OP_SET_STANDBY, STANDBY_RC] h = Some (r, h1)"
    using yields_command [OF assms] unfolding yields_def by blast
  then show ?thesis by (simp add: drop_hat_def)
qed

lemma yields_claim_pins: "yields (claim_pins H) (\<lambda>_. True)"
  unfolding claim_pins_def claim_output_def claim_input_def run_all.simps
  by (rule yields_attempt [where Q = "\<lambda>_. True"] yields_gpio yields_spi yields_device yields_ret TrueI)+

lemma yields_open:
  assumes "timely H clock" and "full_buffers H"
  shows "yields (open_hat H) (\<lambda>_. True)"
proof -
  have body: "yields (attempt (hardware_reset H) (\<lambda>_ h. configure_receive H (h\<lparr>hat_initialized := True\<rparr>))) (\<lambda>_. True)"
    by (rule yields_attempt yields_reset yields_shift [OF yields_configure] assms)+
  have "yields (\<lambda>h. or_drop H (attempt (hardware_reset H) (\<lambda>_ h. configure_receive H (h\<lparr>hat_initialized := True\<rparr>)))
      (h\<lparr>hat_initialized := False\<rparr>)) (\<lambda>_. True)"
    unfolding yields_def
  proof
    fix h :: "'a hat"
    let ?m = "attempt (hardware_reset H) (\<lambda>_ h. configure_receive H (h\<lparr>hat_initialized := True\<rparr>))"
    obtain r h1 where r: "?m (h\<lparr>hat_initialized := False\<rparr>) = Some (r, h1)" "\<not> panics r"
      using body unfolding yields_def by blast
    obtain h2 where "drop_hat H h1 = Some h2" using drop_returns [OF assms] by blast
    then show "\<exists>r h'. or_drop H ?m (h\<lparr>hat_initialized := False\<rparr>) = Some (r, h') \<and> \<not> panics r \<and> (\<forall>x. r = Ok x \<longrightarrow> True)"
      using r by (cases r) (simp_all add: or_drop_def)
  qed
  then show ?thesis
    unfolding open_hat_def by (rule yields_attempt [OF yields_claim_pins])
qed

text \<open>
  C29. Every operation of the driver returns, whatever the radio answers: opening it, waiting for an
  event and dropping it end and do not panic, provided that time passes while a thread sleeps and
  that a transfer keeps the length of its buffer. The wait for BUSY is the only loop.
\<close>

theorem driver_returns:
  assumes "timely H clock" and "full_buffers H"
  shows "(\<exists>r h'. open_hat H h = Some (r, h') \<and> \<not> panics r)
    \<and> (\<exists>r h'. poll_receive H timeout h = Some (r, h') \<and> \<not> panics r)
    \<and> (\<exists>h'. drop_hat H h = Some h')"
  using yields_open [OF assms] yields_poll [OF assms] drop_returns [OF assms] unfolding yields_def by blast

end
