(* ===== verification/Radio_Safety.thy ===== *)
theory Radio_Safety
  imports Radio_Behaviour
begin

text \<open>
  What the driver sends: over the whole life of a driver only receive commands, with the pins in
  their receive position; and the transcript behind each event it reports.
\<close>

section \<open>Frames of the operations\<close>

lemma attempt_Some:
  "attempt m k h = Some (r, h') \<longleftrightarrow>
     (\<exists>e. m h = Some (Inl e, h') \<and> r = Inl e) \<or> (\<exists>x h1. m h = Some (Ok x, h1) \<and> k x h1 = Some (r, h'))"
proof (cases "m h")
  case None
  then show ?thesis by (simp add: attempt_def)
next
  case (Some p)
  then show ?thesis by (cases p; cases "fst p") (auto simp: attempt_def)
qed

lemma attempt_Ok [simp]:
  "attempt m k h = Some (Ok y, h') \<longleftrightarrow> (\<exists>x h1. m h = Some (Ok x, h1) \<and> k x h1 = Some (Ok y, h'))"
  by (auto simp: attempt_Some)

lemma lift_Some [simp]: "lift r h = Some (s, h') \<longleftrightarrow> r = s \<and> h' = h"
  by (auto simp: lift_def)

lemma ret_Some [simp]: "ret x h = Some (s, h') \<longleftrightarrow> s = Ok x \<and> h' = h"
  by (auto simp: ret_def)

lemma ask_frame: "ask f g h = Some (r, h') \<Longrightarrow> \<exists>d. h' = h\<lparr>hat_device := d\<rparr>"
  by (auto simp: ask_def split: prod.splits)

lemma same_device: "\<exists>d. h = h\<lparr>hat_device := d\<rparr>"
  by (rule exI [of _ "hat_device h"]) simp

lemma wait_frame: "wait_busy_low H h = Some (r, h') \<Longrightarrow> \<exists>d. h' = h\<lparr>hat_device := d\<rparr>"
  by (auto simp: wait_busy_low_def split: prod.splits)

text \<open>A transaction either stops at BUSY, or sends its bytes once between select and deselect.\<close>

definition sent :: "bytes \<Rightarrow> bytes \<Rightarrow> 'd hat \<Rightarrow> 'd \<Rightarrow> 'd hat" where
  "sent out reply h d = h\<lparr>hat_device := d, hat_nss := True, hat_log := hat_log h @
     [\<lparr>ev_nss = False, ev_reset = hat_reset h, ev_rf_rx = hat_rf_rx h, ev_bytes = out, ev_reply = reply\<rparr>]\<rparr>"

lemma transaction_Some:
  assumes "transaction H out h = Some (r, h')"
  shows "(\<exists>d e. h' = h\<lparr>hat_device := d\<rparr> \<and> r = Inl e)
    \<or> (\<exists>d reply. h' = sent out reply h d \<and> (\<forall>rx. r = Ok rx \<longrightarrow> rx = reply))"
proof -
  consider e where "wait_busy_low H h = Some (Inl e, h')" "r = Inl e"
    | h1 where "wait_busy_low H h = Some (Ok (), h1)"
      "(let h = set_nss H False h1;
        h = device (hal_sleep H NSS_SETTLE_TIME) h;
        (transfer_result, incoming, h) = spi_transfer H out h;
        h = device (hal_sleep H NSS_SETTLE_TIME) h;
        h = set_nss H True h
      in attempt (lift (spi_result transfer_result)) (\<lambda>transferred.
      if transferred \<noteq> length out then lift (fail (ShortTransfer (length out) transferred)) else
      attempt (wait_busy_low H) (\<lambda>_. ret incoming)) h) = Some (r, h')"
    using assms unfolding transaction_def attempt_Some [where m = "wait_busy_low H"] by auto
  then show ?thesis
  proof cases
    case 1
    then show ?thesis using wait_frame by blast
  next
    case 2
    from wait_frame [OF 2(1)] obtain d1 where h1: "h1 = h\<lparr>hat_device := d1\<rparr>" by blast
    obtain res incoming d2 where t: "hal_transfer H (replicate (length out) 0) out
        (hal_sleep H NSS_SETTLE_TIME (hal_set_pin H GPIO_NSS False d1)) = (res, incoming, d2)"
      by (metis prod_cases3)
    define h2 where "h2 = sent out incoming h (hal_set_pin H GPIO_NSS True (hal_sleep H NSS_SETTLE_TIME d2))"
    have "attempt (lift (spi_result res)) (\<lambda>transferred.
      if transferred \<noteq> length out then lift (fail (ShortTransfer (length out) transferred)) else
      attempt (wait_busy_low H) (\<lambda>_. ret incoming)) h2 = Some (r, h')"
      using 2(2) by (cases h) (simp add: h1 t h2_def sent_def set_nss_def device_def spi_transfer_def Let_def)
    then have "(\<exists>d. h' = h2\<lparr>hat_device := d\<rparr>) \<and> (\<forall>rx. r = Ok rx \<longrightarrow> rx = incoming)"
      by (auto simp: attempt_Some same_device split: if_splits dest: wait_frame)
    moreover have "\<exists>d. h2\<lparr>hat_device := d'\<rparr> = sent out incoming h d" for d'
      by (cases h) (simp add: h2_def sent_def)
    ultimately show ?thesis by metis
  qed
qed

section \<open>Receive only\<close>

definition receive_opcodes :: "u8 list" where
  "receive_opcodes =
     [OP_SET_STANDBY, OP_SET_RX, OP_SET_PACKET_TYPE, OP_SET_RF_FREQUENCY, OP_SET_BUFFER_BASE_ADDRESS,
      OP_SET_MODULATION_PARAMS, OP_SET_PACKET_PARAMS, OP_SET_DIO_IRQ_PARAMS, OP_GET_IRQ_STATUS,
      OP_CLEAR_IRQ_STATUS, OP_GET_RX_BUFFER_STATUS, OP_GET_PACKET_STATUS, OP_GET_STATUS,
      OP_GET_PACKET_TYPE, OP_GET_DEVICE_ERRORS, OP_CALIBRATE_IMAGE, OP_SET_REGULATOR_MODE,
      OP_SET_DIO2_AS_RF_SWITCH, OP_SET_STOP_RX_TIMER_ON_PREAMBLE, OP_SET_LORA_SYMBOL_TIMEOUT,
      OP_WRITE_REGISTER, OP_READ_REGISTER, OP_READ_BUFFER]"

text \<open>
  The commands of the SX1262 that transmit, prepare a transmission or fill the transmit buffer:
  SetTx, SetTxContinuousWave, SetTxInfinitePreamble, SetTxParams, SetPaConfig, WriteBuffer.
\<close>

definition transmit_opcodes :: "u8 list" where
  "transmit_opcodes = [0x83, 0xd1, 0xd2, 0x8e, 0x95, 0x0e]"

definition at_rest :: "'d hat \<Rightarrow> bool" where
  "at_rest h \<longleftrightarrow> hat_nss h \<and> hat_reset h \<and> hat_rf_rx h"

definition opcode_ok :: "bytes \<Rightarrow> bool" where
  "opcode_ok bs \<longleftrightarrow> bs \<noteq> [] \<and> hd bs \<in> set receive_opcodes"

definition rx_event :: "spi_event \<Rightarrow> bool" where
  "rx_event e \<longleftrightarrow> \<not> ev_nss e \<and> ev_reset e \<and> ev_rf_rx e \<and> opcode_ok (ev_bytes e)"

text \<open>From a state at rest the operation ends at rest and sends only receive commands.\<close>

definition receives :: "('d, 'g, 's, 'a) driver \<Rightarrow> bool" where
  "receives m \<longleftrightarrow> (\<forall>h r h'. m h = Some (r, h') \<longrightarrow> at_rest h \<longrightarrow>
     at_rest h' \<and> hat_initialized h' = hat_initialized h
     \<and> (\<exists>new. hat_log h' = hat_log h @ new \<and> list_all rx_event new))"

named_theorems receives_intros

lemma receives_pure [receives_intros]: "receives (ret x)" "receives (lift r)"
  by (simp_all add: receives_def)

lemma receives_ask [receives_intros]: "receives (ask f g)"
  unfolding receives_def using ask_frame by (fastforce simp: at_rest_def)

lemma receives_wait [receives_intros]: "receives (wait_busy_low H)"
  unfolding receives_def using wait_frame by (fastforce simp: at_rest_def)

lemma receives_attempt [receives_intros]:
  assumes m: "receives m" and k: "\<And>x. receives (k x)"
  shows "receives (attempt m k)"
  unfolding receives_def
proof (intro allI impI)
  fix h r h'
  assume "attempt m k h = Some (r, h')" and rest: "at_rest h"
  then consider e where "m h = Some (Inl e, h')" | x h1 where "m h = Some (Ok x, h1)" "k x h1 = Some (r, h')"
    by (auto simp: attempt_Some)
  then show "at_rest h' \<and> hat_initialized h' = hat_initialized h
      \<and> (\<exists>new. hat_log h' = hat_log h @ new \<and> list_all rx_event new)"
  proof cases
    case 1
    then show ?thesis using m rest unfolding receives_def by blast
  next
    case 2
    obtain a where a: "at_rest h1" "hat_initialized h1 = hat_initialized h" "hat_log h1 = hat_log h @ a"
      "list_all rx_event a"
      using m 2(1) rest unfolding receives_def by blast
    obtain b where "at_rest h'" "hat_initialized h' = hat_initialized h1" "hat_log h' = hat_log h1 @ b"
      "list_all rx_event b"
      using k 2(2) a(1) unfolding receives_def by blast
    then show ?thesis using a by (intro conjI exI [of _ "a @ b"]) simp_all
  qed
qed

lemma receives_if [receives_intros]: "receives m \<Longrightarrow> receives n \<Longrightarrow> receives (if b then m else n)"
  by simp

lemma receives_run_all [receives_intros]: "(\<And>m. m \<in> set ms \<Longrightarrow> receives m) \<Longrightarrow> receives (run_all ms)"
  by (induction ms) (auto intro!: receives_intros)

lemma receives_transaction [receives_intros]:
  assumes "opcode_ok out"
  shows "receives (transaction H out)"
  unfolding receives_def
proof (intro allI impI)
  fix h r h'
  assume t: "transaction H out h = Some (r, h')" and rest: "at_rest h"
  from transaction_Some [OF t] show "at_rest h' \<and> hat_initialized h' = hat_initialized h
      \<and> (\<exists>new. hat_log h' = hat_log h @ new \<and> list_all rx_event new)"
    using rest assms by (auto simp: at_rest_def sent_def rx_event_def)
qed

lemma receive_opcode_members:
  "opcode_ok (op # bs) \<longleftrightarrow> op \<in> set receive_opcodes"
  by (simp add: opcode_ok_def)

lemma receives_primitives [receives_intros]:
  "opcode_ok out \<Longrightarrow> receives (command H out)"
  "op \<in> set receive_opcodes \<Longrightarrow> receives (read_command H op n)"
  "receives (write_register H address bs)" "receives (read_register H address n)"
  "receives (read_buffer H offset n)" "receives (get_status H)"
proof -
  have w: "opcode_ok (OP_WRITE_REGISTER # bs')" "opcode_ok (OP_READ_REGISTER # bs')"
    "opcode_ok (OP_READ_BUFFER # bs')" "opcode_ok (OP_GET_STATUS # bs')" for bs'
    by (simp_all add: opcode_ok_def receive_opcodes_def)
  show c: "receives (command H out)" if "opcode_ok out" for out
    unfolding command_def by (rule receives_intros that)+
  show "receives (read_command H op n)" if "op \<in> set receive_opcodes"
    unfolding read_command_def using that by (intro receives_intros) (simp add: opcode_ok_def)
  show "receives (write_register H address bs)"
    unfolding write_register_def by (rule c) (simp add: w)
  show "receives (read_register H address n)"
    unfolding read_register_def by (intro receives_intros) (simp add: w)
  show "receives (read_buffer H offset n)"
    unfolding read_buffer_def by (intro receives_intros) (simp add: w numeral_3_eq_3)
  show "receives (get_status H)"
    unfolding get_status_def by (intro receives_intros) (simp add: w)
qed


lemma opcodes_received:
  "OP_SET_STANDBY \<in> set receive_opcodes" "OP_SET_RX \<in> set receive_opcodes"
  "OP_SET_PACKET_TYPE \<in> set receive_opcodes" "OP_SET_RF_FREQUENCY \<in> set receive_opcodes"
  "OP_SET_BUFFER_BASE_ADDRESS \<in> set receive_opcodes" "OP_SET_MODULATION_PARAMS \<in> set receive_opcodes"
  "OP_SET_PACKET_PARAMS \<in> set receive_opcodes" "OP_SET_DIO_IRQ_PARAMS \<in> set receive_opcodes"
  "OP_GET_IRQ_STATUS \<in> set receive_opcodes" "OP_CLEAR_IRQ_STATUS \<in> set receive_opcodes"
  "OP_GET_RX_BUFFER_STATUS \<in> set receive_opcodes" "OP_GET_PACKET_STATUS \<in> set receive_opcodes"
  "OP_GET_PACKET_TYPE \<in> set receive_opcodes" "OP_GET_DEVICE_ERRORS \<in> set receive_opcodes"
  "OP_CALIBRATE_IMAGE \<in> set receive_opcodes" "OP_SET_REGULATOR_MODE \<in> set receive_opcodes"
  "OP_SET_DIO2_AS_RF_SWITCH \<in> set receive_opcodes" "OP_SET_STOP_RX_TIMER_ON_PREAMBLE \<in> set receive_opcodes"
  "OP_SET_LORA_SYMBOL_TIMEOUT \<in> set receive_opcodes"
  by (simp_all add: receive_opcodes_def)

lemma receives_restart [receives_intros]:
  "receives (clear_all_irq H)" "receives (enter_continuous_receive H)" "receives (restart_receive H)"
proof -
  show c: "receives (clear_all_irq H)"
    unfolding clear_all_irq_def by (intro receives_intros) (simp add: receive_opcode_members opcodes_received)
  show e: "receives (enter_continuous_receive H)"
    unfolding enter_continuous_receive_def
    by (intro receives_intros) (simp add: receive_opcode_members opcodes_received)
  show "receives (restart_receive H)" unfolding restart_receive_def by (rule receives_attempt [OF c e])
qed

lemma receives_readback [receives_intros]: "receives (verify_readback H)"
  unfolding verify_readback_def by (intro receives_intros opcodes_received)

lemma receives_configure [receives_intros]: "receives (configure_receive H)"
  unfolding configure_receive_def run_all.simps
  by (rule receives_intros | simp add: receive_opcode_members opcodes_received)+

lemma receives_read_event [receives_intros]: "receives (read_event H irq)"
proof -
  have "receives (read_packet H)"
    unfolding read_packet_def by (intro receives_intros opcodes_received)
  then show ?thesis
    unfolding read_event_def by (cases "classify_irq irq") (simp_all add: receives_intros)
qed

lemma receives_report [receives_intros]: "receives (report_event H irq)"
  unfolding receives_def
proof (intro allI impI)
  fix h r h'
  assume run: "report_event H irq h = Some (r, h')" and rest: "at_rest h"
  obtain ev h1 where ev: "read_event H irq h = Some (ev, h1)"
    using run by (auto simp: report_event_def split: option.splits)
  obtain a where a: "at_rest h1" "hat_initialized h1 = hat_initialized h" "hat_log h1 = hat_log h @ a"
    "list_all rx_event a"
    using receives_read_event ev rest unfolding receives_def by blast
  show "at_rest h' \<and> hat_initialized h' = hat_initialized h
      \<and> (\<exists>new. hat_log h' = hat_log h @ new \<and> list_all rx_event new)"
  proof (cases "panics ev")
    case True
    then show ?thesis using run ev a by (simp add: report_event_def)
  next
    case False
    then obtain re h2 where re: "restart_receive H h1 = Some (re, h2)" "h' = h2"
      using run ev by (auto simp: report_event_def attempt_Some split: option.splits)
    then obtain b where "at_rest h2" "hat_initialized h2 = hat_initialized h1" "hat_log h2 = hat_log h1 @ b"
      "list_all rx_event b"
      using receives_restart(3) a(1) unfolding receives_def by blast
    then show ?thesis using a re(2) by (intro conjI exI [of _ "a @ b"]) simp_all
  qed
qed

lemma receives_poll: "receives (poll_receive H timeout)"
proof -
  have "receives (get_irq_status H)"
    unfolding get_irq_status_def by (intro receives_intros opcodes_received)
  then show ?thesis unfolding poll_receive_def by (intro receives_intros)
qed

text \<open>
  Opening: nothing is sent while the pins are claimed; from the reset on the pins are at rest, and a
  failure drops the driver.
\<close>

definition quiet :: "('d, 'g, 's, 'a) driver \<Rightarrow> bool" where
  "quiet m \<longleftrightarrow> (\<forall>h r h'. m h = Some (r, h') \<longrightarrow> hat_log h' = hat_log h)"

lemma quiet_intros:
  "quiet (ret x)" "quiet (lift r)" "quiet (ask f g)"
  "(\<And>h. hat_log (t h) = hat_log h) \<Longrightarrow> quiet (\<lambda>h. ret x (t h))"
  "quiet m \<Longrightarrow> (\<And>x. quiet (k x)) \<Longrightarrow> quiet (attempt m k)"
  unfolding quiet_def by (auto simp: attempt_Some dest: ask_frame)

lemma quiet_claim_pins: "quiet (claim_pins H)"
  unfolding claim_pins_def claim_output_def claim_input_def run_all.simps
  by (intro quiet_intros) (simp_all add: set_rf_rx_def set_reset_def set_nss_def device_def)

lemma reset_receives:
  assumes "hardware_reset H h = Some (r, h')"
  shows "at_rest h' \<and> hat_initialized h' = hat_initialized h
    \<and> (\<exists>new. hat_log h' = hat_log h @ new \<and> list_all rx_event new)"
proof -
  have m: "receives (attempt (wait_busy_low H) (\<lambda>_. attempt (get_status H) (\<lambda>status.
      lift (ensure_mode status 0x20))))"
    by (intro receives_intros)
  show ?thesis
    using assms m unfolding hardware_reset_def Let_def receives_def
    by (fastforce simp: at_rest_def set_rf_rx_def set_reset_def set_nss_def device_def)
qed

lemma drop_receives:
  assumes "drop_hat H h = Some h'" and "at_rest h"
  shows "at_rest h' \<and> (\<exists>new. hat_log h' = hat_log h @ new \<and> list_all rx_event new)"
proof -
  have c: "receives (command H [OP_SET_STANDBY, STANDBY_RC])"
    by (intro receives_intros) (simp add: receive_opcode_members opcodes_received)
  obtain h1 where h1: "at_rest h1" "\<exists>new. hat_log h1 = hat_log h @ new \<and> list_all rx_event new"
    "h' = set_rf_rx H True (set_reset H True (set_nss H True h1))"
  proof (cases "hat_initialized h")
    case True
    then obtain r h1 where "command H [OP_SET_STANDBY, STANDBY_RC] h = Some (r, h1)"
      "h' = set_rf_rx H True (set_reset H True (set_nss H True h1))"
      using assms(1) by (auto simp: drop_hat_def Let_def bind_eq_Some_conv)
    then show ?thesis using c assms(2) that unfolding receives_def by blast
  next
    case False
    then show ?thesis using assms that by (simp add: drop_hat_def Let_def)
  qed
  then show ?thesis
    by (simp add: at_rest_def set_rf_rx_def set_reset_def set_nss_def device_def)
qed

lemma open_receives:
  assumes "open_hat H h = Some (r, h')" and "hat_log h = []"
  shows "list_all rx_event (hat_log h') \<and> (is_ok r \<longrightarrow> at_rest h' \<and> hat_initialized h')"
proof -
  let ?m = "attempt (hardware_reset H) (\<lambda>_ h. configure_receive H (h\<lparr>hat_initialized := True\<rparr>))"
  consider e where "claim_pins H h = Some (Inl e, h')" "r = Inl e"
    | h1 where "claim_pins H h = Some (Ok (), h1)" "or_drop H ?m (h1\<lparr>hat_initialized := False\<rparr>) = Some (r, h')"
    using assms(1) unfolding open_hat_def attempt_Some [where m = "claim_pins H"] by auto
  then show ?thesis
  proof cases
    case 1
    then have "hat_log h' = []" using quiet_claim_pins assms(2) unfolding quiet_def by metis
    then show ?thesis using 1(2) by simp
  next
    case 2
    let ?h = "h1\<lparr>hat_initialized := False\<rparr>"
    have log: "hat_log ?h = []" using quiet_claim_pins 2(1) assms(2) unfolding quiet_def by fastforce
    obtain q h2 where q: "?m ?h = Some (q, h2)" using 2(2) by (auto simp: or_drop_def split: option.splits)
    have h2: "at_rest h2 \<and> list_all rx_event (hat_log h2) \<and> (is_ok q \<longrightarrow> hat_initialized h2)"
      using q unfolding attempt_Some
    proof (elim disjE exE conjE)
      fix e assume "hardware_reset H ?h = Some (Inl e, h2)" and "q = Inl e"
      then show ?thesis using reset_receives log by fastforce
    next
      fix x h3 assume r3: "hardware_reset H ?h = Some (Ok x, h3)"
        and c: "configure_receive H (h3\<lparr>hat_initialized := True\<rparr>) = Some (q, h2)"
      have "at_rest h3" "list_all rx_event (hat_log h3)" using reset_receives [OF r3] log by auto
      moreover have "at_rest (h3\<lparr>hat_initialized := True\<rparr>)" using \<open>at_rest h3\<close> by (simp add: at_rest_def)
      ultimately show ?thesis
        using receives_configure c unfolding receives_def by fastforce
    qed
    show ?thesis
    proof (cases q)
      case (Inl e)
      then have "drop_hat H h2 = Some h'" "r = Inl e" using 2(2) q by (auto simp: or_drop_def)
      then show ?thesis using drop_receives h2 by fastforce
    next
      case (Inr x)
      then have "r = Ok x" "h' = h2" using 2(2) q by (auto simp: or_drop_def)
      then show ?thesis using h2 Inr by simp
    qed
  qed
qed

section \<open>The life of a driver\<close>

text \<open>The states of a driver, and whether it is still open: opened, polled any number of times, dropped.\<close>

inductive lifetime :: "('d, 'g, 's) hal \<Rightarrow> bool \<Rightarrow> 'd hat \<Rightarrow> bool" for H where
  opened: "hat_log h = [] \<Longrightarrow> open_hat H h = Some (Ok u, h') \<Longrightarrow> lifetime H True h'"
| failed: "hat_log h = [] \<Longrightarrow> open_hat H h = Some (Inl e, h') \<Longrightarrow> lifetime H False h'"
| polled: "lifetime H True h \<Longrightarrow> poll_receive H timeout h = Some (r, h') \<Longrightarrow> lifetime H True h'"
| dropped: "lifetime H True h \<Longrightarrow> drop_hat H h = Some h' \<Longrightarrow> lifetime H False h'"

lemma lifetime_safe:
  assumes "lifetime H b h"
  shows "list_all rx_event (hat_log h) \<and> (b \<longrightarrow> at_rest h \<and> hat_initialized h)"
  using assms
proof induction
  case (opened h u h')
  then show ?case using open_receives by fastforce
next
  case (failed h e h')
  then show ?case using open_receives by fastforce
next
  case (polled h timeout r h')
  then show ?case using receives_poll unfolding receives_def by fastforce
next
  case (dropped h h')
  then show ?case using drop_receives by fastforce
qed

lemma rx_event_not_transmit: "rx_event e \<Longrightarrow> hd (ev_bytes e) \<notin> set transmit_opcodes"
  by (auto simp: rx_event_def opcode_ok_def receive_opcodes_def transmit_opcodes_def opcode_defs)

text \<open>
  C27. Over its whole life, opened, polled and dropped, with errors at any point, the driver sends
  only its receive commands and none of the transmit commands, always with the chip selected, out
  of reset and with the antenna switch in the receive position. An open driver is at rest.
\<close>

theorem driver_receive_only:
  assumes "lifetime H is_open h"
  shows "(\<forall>e \<in> set (hat_log h). rx_event e \<and> hd (ev_bytes e) \<notin> set transmit_opcodes)
    \<and> (is_open \<longrightarrow> at_rest h \<and> hat_initialized h)"
  using lifetime_safe [OF assms] rx_event_not_transmit by (auto simp: list_all_iff)

section \<open>What is behind an event\<close>

text \<open>The transcript of the driver: what was sent and what came back.\<close>

definition exchanges :: "'d hat \<Rightarrow> (bytes \<times> bytes) list" where
  "exchanges h = map (\<lambda>e. (ev_bytes e, ev_reply e)) (hat_log h)"

lemma exchanges_sent [simp]: "exchanges (sent out reply h d) = exchanges h @ [(out, reply)]"
  by (simp add: exchanges_def sent_def)

lemma transaction_Ok:
  assumes "transaction H out h = Some (Ok rx, h')"
  shows "exchanges h' = exchanges h @ [(out, rx)]"
  using transaction_Some [OF assms] by auto

lemma ask_exchanges: "ask f g h = Some (r, h') \<Longrightarrow> exchanges h' = exchanges h"
  by (auto simp: exchanges_def dest: ask_frame)

lemma command_Ok:
  assumes "command H out h = Some (Ok u, h')"
  shows "\<exists>rx. exchanges h' = exchanges h @ [(out, rx)]"
  using assms transaction_Ok by (fastforce simp: command_def)

lemma transaction_reply_length:
  assumes "transaction H out h = Some (Ok rx, h')" and "full_buffers H"
  shows "length rx = length out"
proof -
  obtain h1 where "(let h = set_nss H False h1;
        h = device (hal_sleep H NSS_SETTLE_TIME) h;
        (transfer_result, incoming, h) = spi_transfer H out h;
        h = device (hal_sleep H NSS_SETTLE_TIME) h;
        h = set_nss H True h
      in attempt (lift (spi_result transfer_result)) (\<lambda>transferred.
      if transferred \<noteq> length out then lift (fail (ShortTransfer (length out) transferred)) else
      attempt (wait_busy_low H) (\<lambda>_. ret incoming)) h) = Some (Ok rx, h')"
    using assms(1) unfolding transaction_def attempt_Ok by blast
  then obtain d res d' where "hal_transfer H (replicate (length out) 0) out d = (res, rx, d')"
    by (auto simp: spi_transfer_def Let_def split: prod.splits if_splits)
  then show ?thesis using assms(2) unfolding full_buffers_def by (metis fst_conv length_replicate snd_conv)
qed

lemma read_command_Ok:
  assumes "read_command H op n h = Some (Ok bs, h')"
  shows "\<exists>rx. exchanges h' = exchanges h @ [(op # replicate (Suc n) 0, rx)] \<and> bs = drop 2 rx"
proof -
  have "(replicate (n + 2) 0)[0 := op] = op # replicate (Suc n) 0" by simp
  then show ?thesis
    using assms transaction_Ok unfolding read_command_def by (fastforce simp: slice_def split: if_splits)
qed

lemma read_buffer_Ok:
  assumes "read_buffer H offset n h = Some (Ok bs, h')" and "full_buffers H"
  shows "\<exists>rx. exchanges h' = exchanges h @ [(OP_READ_BUFFER # offset # replicate (Suc n) 0, rx)]
    \<and> bs = drop 3 rx \<and> length bs = n"
proof -
  have out: "(replicate (n + 3) 0)[0 := OP_READ_BUFFER, 1 := offset] = OP_READ_BUFFER # offset # replicate (Suc n) 0"
    by (simp add: numeral_3_eq_3)
  obtain rx h1 where t: "transaction H (OP_READ_BUFFER # offset # replicate (Suc n) 0) h = Some (Ok rx, h')"
    "bs = drop 3 rx"
    using assms(1) unfolding read_buffer_def out by (auto simp: slice_def split: if_splits)
  then show ?thesis using transaction_Ok [OF t(1)] transaction_reply_length [OF t(1) assms(2)] by auto
qed

text \<open>The interrupt register in a reply, and the events it allows.\<close>

definition irq_of :: "bytes \<Rightarrow> u16" where
  "irq_of reply = from_be_bytes [reply ! 2, reply ! 3]"

fun event_matches :: "u16 \<Rightarrow> receive_event \<Rightarrow> bool" where
  "event_matches irq (Packet p) \<longleftrightarrow> bit irq 1 \<and> \<not> bit irq 5 \<and> \<not> bit irq 6"
| "event_matches irq (HeaderError i) \<longleftrightarrow> i = irq \<and> bit irq 5"
| "event_matches irq (CrcError i) \<longleftrightarrow> i = irq \<and> bit irq 6 \<and> \<not> bit irq 5"
| "event_matches irq (RadioTimeout i) \<longleftrightarrow> i = irq \<and> bit irq 9 \<and> \<not> bit irq 1 \<and> \<not> bit irq 5 \<and> \<not> bit irq 6"
| "event_matches irq (OtherIrq i) \<longleftrightarrow> i = irq \<and> \<not> bit irq 9 \<and> \<not> bit irq 1 \<and> \<not> bit irq 5 \<and> \<not> bit irq 6"

text \<open>
  The exchanges between the interrupt register and the restart: the buffer is read for a packet, with
  the length and the offset the radio reported, and for nothing else.
\<close>

fun event_reads :: "receive_event \<Rightarrow> (bytes \<times> bytes) list \<Rightarrow> bool" where
  "event_reads (Packet p) xs \<longleftrightarrow>
     (\<exists>s b q. xs = [([0x13, 0, 0, 0], s), ([0x1e, s ! 3] @ replicate (unat (s ! 2) + 1) 0, b),
                    ([0x14, 0, 0, 0, 0], q)]
        \<and> rp_payload p = drop 3 b \<and> length (rp_payload p) = unat (s ! 2)
        \<and> sint (rm_packet_rssi_centi_dbm (rp_metadata p)) = - uint (q ! 2) * 50
        \<and> sint (rm_snr_centi_db (rp_metadata p)) = sint (q ! 3) * 25
        \<and> sint (rm_signal_rssi_centi_dbm (rp_metadata p)) = - uint (q ! 4) * 50)"
| "event_reads _ xs \<longleftrightarrow> xs = []"

lemma irq_flags:
  "irq AND IRQ_RX_DONE = 0 \<longleftrightarrow> \<not> bit irq 1" "irq AND IRQ_HEADER_ERROR = 0 \<longleftrightarrow> \<not> bit irq 5"
  "irq AND IRQ_CRC_ERROR = 0 \<longleftrightarrow> \<not> bit irq 6" "irq AND IRQ_RX_TX_TIMEOUT = 0 \<longleftrightarrow> \<not> bit irq 9"
  using and_exp_eq_0_iff_not_bit [of irq 1] and_exp_eq_0_iff_not_bit [of irq 5]
    and_exp_eq_0_iff_not_bit [of irq 6] and_exp_eq_0_iff_not_bit [of irq 9]
  by (simp_all add: IRQ_RX_DONE_def IRQ_HEADER_ERROR_def IRQ_CRC_ERROR_def IRQ_RX_TX_TIMEOUT_def)

lemma read_packet_Ok:
  fixes H :: "('d, 'g, 's) hal"
  assumes "read_packet H h = Some (Ok p, h')" and "full_buffers H"
  shows "\<exists>reads. exchanges h' = exchanges h @ reads \<and> event_reads (Packet p) reads"
proof -
  obtain st h1 pay h2 q where
    st: "read_command H OP_GET_RX_BUFFER_STATUS 2 h = Some (Ok st, h1)" "1 < length st"
    and pay: "read_buffer H (st ! 1) (unat (st ! 0)) h1 = Some (Ok pay, h2)"
    and q: "read_command H OP_GET_PACKET_STATUS 3 h2 = Some (Ok q, h')" "2 < length q"
    and p: "decode_packet_status (q ! 0) (q ! 1) (q ! 2) = (Ok (rp_metadata p) :: (_, ('g, 's) radio_error) result)"
      "rp_payload p = pay"
    using assms(1) unfolding read_packet_def by (auto simp: index_Ok_iff)
  obtain s where s: "exchanges h1 = exchanges h @ [([0x13, 0, 0, 0], s)]" "st = drop 2 s"
    using read_command_Ok [OF st(1)] by (auto simp: OP_GET_RX_BUFFER_STATUS_def numeral_eq_Suc)
  obtain b where b: "exchanges h2 = exchanges h1 @ [([0x1e, st ! 1] @ replicate (unat (st ! 0) + 1) 0, b)]"
    "pay = drop 3 b" "length pay = unat (st ! 0)"
    using read_buffer_Ok [OF pay assms(2)] by (auto simp: OP_READ_BUFFER_def)
  obtain x where x: "exchanges h' = exchanges h2 @ [([0x14, 0, 0, 0, 0], x)]" "q = drop 2 x"
    using read_command_Ok [OF q(1)] by (auto simp: OP_GET_PACKET_STATUS_def numeral_eq_Suc)
  have n: "st ! 0 = s ! 2" "st ! 1 = s ! 3" "q ! 0 = x ! 2" "q ! 1 = x ! 3" "q ! 2 = x ! 4"
    using st(2) q(2) s(2) x(2) by simp_all
  have "sint (rm_packet_rssi_centi_dbm (rp_metadata p)) = - uint (q ! 0) * 50
      \<and> sint (rm_snr_centi_db (rp_metadata p)) = sint (q ! 1) * 25
      \<and> sint (rm_signal_rssi_centi_dbm (rp_metadata p)) = - uint (q ! 2) * 50"
    using p(1) decode_packet_status_exact [of "q ! 0" "q ! 1" "q ! 2", where 'e = "('g, 's) radio_error"] by auto
  then have "event_reads (Packet p) [([0x13, 0, 0, 0], s), ([0x1e, s ! 3] @ replicate (unat (s ! 2) + 1) 0, b),
      ([0x14, 0, 0, 0, 0], x)]"
    unfolding event_reads.simps using p(2) b(2,3) unfolding n by blast
  moreover have "exchanges h' = exchanges h @ [([0x13, 0, 0, 0], s), ([0x1e, s ! 3] @ replicate (unat (s ! 2) + 1) 0, b),
      ([0x14, 0, 0, 0, 0], x)]"
    using s(1) b(1) x(1) unfolding n by simp
  ultimately show ?thesis by blast
qed

lemma read_event_Ok:
  assumes "read_event H irq h = Some (Ok ev, h')" and "full_buffers H"
  shows "event_matches irq ev \<and> (\<exists>reads. exchanges h' = exchanges h @ reads \<and> event_reads ev reads)"
proof (cases "classify_irq irq")
  case IrqPacket
  then obtain p where p: "read_packet H h = Some (Ok p, h')" "ev = Packet p"
    using assms(1) by (auto simp: read_event_def)
  have "event_matches irq ev"
    using IrqPacket p(2) by (auto simp: classify_irq_def irq_flags split: if_splits)
  then show ?thesis using read_packet_Ok [OF p(1) assms(2)] p(2) by blast
qed (use assms(1) in \<open>auto simp: read_event_def classify_irq_def irq_flags split: if_splits\<close>)

lemma restart_Ok:
  assumes "restart_receive H h = Some (Ok u, h')"
  shows "\<exists>c x. exchanges h' = exchanges h @ [([0x02, 0xff, 0xff], c), ([0x82, 0xff, 0xff, 0xff], x)]"
proof -
  obtain h1 where c: "command H [0x02, 0xff, 0xff] h = Some (Ok (), h1)"
    and x: "command H [0x82, 0xff, 0xff, 0xff] h1 = Some (Ok u, h')"
    using assms by (auto simp: restart_receive_def clear_all_irq_def enter_continuous_receive_def
        OP_CLEAR_IRQ_STATUS_def OP_SET_RX_def RX_CONTINUOUS_def)
  from command_Ok [OF c] command_Ok [OF x] show ?thesis by auto
qed

lemma get_irq_Ok:
  assumes "get_irq_status H h = Some (Ok irq, h')"
  shows "\<exists>reply. exchanges h' = exchanges h @ [([0x12, 0, 0, 0], reply)] \<and> irq = irq_of reply"
proof -
  obtain bs where bs: "read_command H OP_GET_IRQ_STATUS 2 h = Some (Ok bs, h')"
    and "1 < length bs" and irq: "irq = from_be_bytes [bs ! 0, bs ! 1]"
    using assms by (auto simp: get_irq_status_def be_u16_def index_Ok_iff)
  then show ?thesis
    using read_command_Ok [OF bs] by (auto simp: OP_GET_IRQ_STATUS_def irq_of_def numeral_eq_Suc)
qed

text \<open>
  C28. An event the driver reports is the one the interrupt register shows, with header and CRC
  errors before a finished reception; the packet buffer is read for a packet only, with the length
  and offset the radio reported, and its bytes and exact signal values are the payload and metadata;
  afterwards the interrupts are cleared and the radio receives again.
\<close>

theorem poll_event_sound:
  assumes "poll_receive H timeout h = Some (Ok (Some ev), h')" and "full_buffers H"
  shows "\<exists>reply reads c x.
      exchanges h' = exchanges h @ [([0x12, 0, 0, 0], reply)] @ reads
        @ [([0x02, 0xff, 0xff], c), ([0x82, 0xff, 0xff, 0xff], x)]
      \<and> event_matches (irq_of reply) ev \<and> event_reads ev reads"
proof -
  obtain h1 h2 irq where
    pre: "exchanges h1 = exchanges h" and irq: "get_irq_status H h1 = Some (Ok irq, h2)"
    and rep: "report_event H irq h2 = Some (Ok (Some ev), h')"
    using assms(1) unfolding poll_receive_def
    by (auto split: if_splits dest!: ask_exchanges)
  obtain h3 u where ev: "read_event H irq h2 = Some (Ok ev, h3)" and re: "restart_receive H h3 = Some (Ok u, h')"
    using rep by (auto simp: report_event_def split: if_splits option.splits)
  then show ?thesis
    using get_irq_Ok [OF irq] read_event_Ok [OF ev assms(2)] restart_Ok [OF re] pre by fastforce
qed

section \<open>A bench radio\<close>

text \<open>
  A device that is only a clock: BUSY is low, an event is always waiting, and the radio answers as a
  configured one with one packet of three bytes.
\<close>

definition bench_reply :: "nat \<Rightarrow> bytes \<Rightarrow> bytes" where
  "bench_reply n tx =
    take n
     ((case tx of [] \<Rightarrow> [] | op # _ \<Rightarrow>
         if op = OP_READ_REGISTER then [0, 0, 0, 0, 0x14, 0x24]
         else if op = OP_READ_BUFFER then [0, 0x22, 0, 1, 2, 3]
         else if op = OP_GET_PACKET_TYPE then [0, 0x22, 1]
         else if op = OP_GET_IRQ_STATUS then [0, 0x22, 0, 2]
         else if op = OP_GET_RX_BUFFER_STATUS then [0, 0x22, 3, 0]
         else if op = OP_GET_PACKET_STATUS then [0, 0x22, 201, 0xfb, 205]
         else [0, 0x22]) @ replicate n 0)"

definition bench_hal :: "(nat, unit, unit) hal" where
  "bench_hal =
    \<lparr>hal_gpio_new = \<lambda>d. (Inr (), d), hal_gpio_get = \<lambda>_ d. (Inr (), d), hal_input_pulldown = \<lambda>_ d. d,
     hal_keep_level_on_drop = \<lambda>_ d. d, hal_set_pin = \<lambda>_ _ d. d,
     hal_read_pin = \<lambda>pin d. (pin \<noteq> GPIO_BUSY, d),
     hal_set_interrupt = \<lambda>_ d. (Inr (), d), hal_poll_interrupt = \<lambda>_ _ _ d. (Inr True, d),
     hal_spi_new = \<lambda>d. (Inr (), d),
     hal_transfer = \<lambda>rx tx d. (Inr (length tx), bench_reply (length rx) tx, d + 5),
     hal_now = \<lambda>d. (d, d), hal_sleep = \<lambda>n d. d + n\<rparr>"

lemma bench_fields [simp]:
  "hal_gpio_new bench_hal d = (Inr (), d)" "hal_gpio_get bench_hal pin d = (Inr (), d)"
  "hal_input_pulldown bench_hal pin d = d" "hal_keep_level_on_drop bench_hal pin d = d"
  "hal_set_pin bench_hal pin b d = d" "hal_read_pin bench_hal pin d = (pin \<noteq> GPIO_BUSY, d)"
  "hal_set_interrupt bench_hal pin d = (Inr (), d)" "hal_poll_interrupt bench_hal pin b n d = (Inr True, d)"
  "hal_spi_new bench_hal d = (Inr (), d)"
  "hal_transfer bench_hal rx tx d = (Inr (length tx), bench_reply (length rx) tx, d + 5)"
  "hal_now bench_hal d = (d, d)" "hal_sleep bench_hal n d = d + n"
  by (simp_all add: bench_hal_def)

lemma length_bench_reply [simp]: "length (bench_reply n tx) = n"
  by (simp add: bench_reply_def)

definition bench_start :: "nat hat" where
  "bench_start = \<lparr>hat_device = 0, hat_nss = False, hat_reset = False, hat_rf_rx = False,
     hat_initialized = False, hat_log = []\<rparr>"

lemma bench_laws: "timely bench_hal id" "full_buffers bench_hal"
  by (simp_all add: timely_def full_buffers_def)

text \<open>The bench radio opens and delivers its packet.\<close>

definition bench_packet :: receive_event where
  "bench_packet = Packet \<lparr>rp_payload = [1, 2, 3], rp_metadata =
     \<lparr>rm_packet_rssi_centi_dbm = - 10050, rm_snr_centi_db = - 125, rm_signal_rssi_centi_dbm = - 10250\<rparr>\<rparr>"

lemma bench_wait: "wait_busy_low bench_hal h = Some (Ok (), h)"
proof -
  have "wait_loop bench_hal deadline d = Some (Ok (), d)" for deadline d
    by (subst wait_loop.simps) simp
  then show ?thesis by (simp add: wait_busy_low_def)
qed

lemma bench_transaction:
  "transaction bench_hal out h =
     Some (Ok (bench_reply (length out) out), sent out (bench_reply (length out) out) h (hat_device h + 25))"
  by (cases h) (simp add: transaction_def attempt_def bench_wait set_nss_def device_def spi_transfer_def lift_def
      ret_def sent_def NSS_SETTLE_TIME_def)

text \<open>Operations that succeed with one value from every state.\<close>

definition delivers :: "('d, 'g, 's, 'a) driver \<Rightarrow> 'a \<Rightarrow> bool" where
  "delivers m x \<longleftrightarrow> (\<forall>h. \<exists>h'. m h = Some (Ok x, h'))"

lemma delivers_attempt: "delivers m x \<Longrightarrow> delivers (k x) y \<Longrightarrow> delivers (attempt m k) y"
  unfolding delivers_def by (metis attempt_Ok)

lemma delivers_pure: "delivers (ret x) x" "delivers (lift (Ok x)) x" "delivers (\<lambda>h. ret x (t h)) x"
  by (simp_all add: delivers_def ret_def lift_def)

lemma bench_ask:
  "delivers (ask (hal_gpio_new bench_hal) gpio_result) ()" "delivers (ask (hal_gpio_get bench_hal pin) gpio_result) ()"
  "delivers (ask (hal_set_interrupt bench_hal pin) gpio_result) ()"
  "delivers (ask (hal_poll_interrupt bench_hal pin b n) gpio_result) True"
  "delivers (ask (hal_spi_new bench_hal) spi_result) ()"
  "delivers (ask (hal_read_pin bench_hal GPIO_DIO1) Ok) True"
  by (simp_all add: delivers_def ask_def GPIO_DIO1_def GPIO_BUSY_def)

lemma bench_command: "delivers (command bench_hal out) ()" "delivers (write_register bench_hal a bs) ()"
  by (simp_all add: delivers_def write_register_def command_def attempt_def bench_transaction ret_def)

lemma bench_read_command:
  assumes "bench_reply (n + 2) (op # replicate (Suc n) 0) = x # 0x22 # bs"
  shows "delivers (read_command bench_hal op n) bs"
proof -
  have len: "length bs = n" using arg_cong [OF assms, of length] by simp
  have "(replicate (n + 2) 0)[0 := op] = op # replicate (Suc n) 0" by simp
  then show ?thesis
    using assms len by (simp add: delivers_def read_command_def attempt_def bench_transaction lift_def
        index_def slice_def check_status_def)
qed

lemma bench_read:
  "delivers (read_command bench_hal OP_GET_PACKET_TYPE 1) [1]"
  "delivers (read_command bench_hal OP_GET_IRQ_STATUS 2) [0, 2]"
  "delivers (read_command bench_hal OP_GET_RX_BUFFER_STATUS 2) [3, 0]"
  "delivers (read_command bench_hal OP_GET_PACKET_STATUS 3) [201, 0xfb, 205]"
  "delivers (read_command bench_hal OP_GET_DEVICE_ERRORS 2) [0, 0]"
  by (rule bench_read_command [where x = 0], code_simp)+

lemma bench_get_status: "delivers (get_status bench_hal) 0x22"
proof -
  have "bench_reply (Suc (Suc 0)) [OP_GET_STATUS, 0] = [0, 0x22]" by code_simp
  then show ?thesis
    by (simp add: delivers_def get_status_def attempt_def bench_transaction lift_def ret_def index_def check_status_def)
qed

lemma bench_registers:
  "delivers (read_register bench_hal a 2) [0x14, 0x24]" "delivers (read_register bench_hal a 1) [0x14]"
  by (simp_all add: delivers_def read_register_def attempt_def bench_transaction lift_def slice_def
      bench_reply_def opcode_defs)

lemma bench_buffer: "delivers (read_buffer bench_hal 0 3) [1, 2, 3]"
proof -
  have out: "(replicate (3 + 3) 0)[0 := OP_READ_BUFFER, 1 := 0] = [OP_READ_BUFFER, 0, 0, 0, 0, 0]" by code_simp
  have reply: "bench_reply (length [OP_READ_BUFFER, 0, 0, 0, 0, 0]) [OP_READ_BUFFER, 0, 0, 0, 0, 0] = [0, 0x22, 0, 1, 2, 3]"
    by code_simp
  have "attempt (transaction bench_hal [OP_READ_BUFFER, 0, 0, 0, 0, 0]) (\<lambda>received.
      lift (slice received 3 (length received))) h
    = Some (Ok [1, 2, 3], sent [OP_READ_BUFFER, 0, 0, 0, 0, 0] [0, 0x22, 0, 1, 2, 3] h (hat_device h + 25))" for h
    unfolding attempt_def bench_transaction reply by (simp add: lift_def slice_def)
  then show ?thesis unfolding delivers_def read_buffer_def out by blast
qed

lemma bench_irq: "delivers (get_irq_status bench_hal) 2"
  unfolding get_irq_status_def
  by (rule delivers_attempt [OF bench_read(2)]) (simp add: be_u16_def index_def delivers_def lift_def from_be_bytes_def)

lemma bench_restart: "delivers (restart_receive bench_hal) ()"
  unfolding restart_receive_def clear_all_irq_def enter_continuous_receive_def
  by (rule delivers_attempt bench_command)+

lemma bench_poll: "delivers (poll_receive bench_hal timeout) (Some bench_packet)"
proof -
  have status: "decode_packet_status 201 0xfb 205 = (Ok \<lparr>rm_packet_rssi_centi_dbm = - 10050, rm_snr_centi_db = - 125,
      rm_signal_rssi_centi_dbm = - 10250\<rparr> :: (_, (unit, unit) radio_error) result)" by code_simp
  have "delivers (read_packet bench_hal) \<lparr>rp_payload = [1, 2, 3], rp_metadata =
      \<lparr>rm_packet_rssi_centi_dbm = - 10050, rm_snr_centi_db = - 125, rm_signal_rssi_centi_dbm = - 10250\<rparr>\<rparr>"
    unfolding read_packet_def
    by (rule delivers_attempt delivers_pure bench_read bench_buffer | simp add: index_def status)+
  moreover have "classify_irq 2 = IrqPacket" by code_simp
  ultimately have packet: "delivers (read_event bench_hal 2) bench_packet"
    unfolding read_event_def bench_packet_def by (simp add: delivers_attempt delivers_pure)
  have report: "delivers (report_event bench_hal 2) (Some bench_packet)"
    unfolding delivers_def
  proof
    fix h
    obtain h1 where "read_event bench_hal 2 h = Some (Ok bench_packet, h1)"
      using packet unfolding delivers_def by blast
    moreover obtain h2 where "restart_receive bench_hal h1 = Some (Ok (), h2)"
      using bench_restart unfolding delivers_def by blast
    ultimately show "\<exists>h'. report_event bench_hal 2 h = Some (Ok (Some bench_packet), h')"
      by (simp add: report_event_def attempt_def lift_def ret_def)
  qed
  show ?thesis
    unfolding poll_receive_def
    by (rule delivers_attempt delivers_pure bench_ask bench_irq report | simp)+
qed

lemma bench_configure: "delivers (configure_receive bench_hal) ()"
proof -
  have be: "be_u16 [0x14, 0x24] = (Ok (from_be_bytes PRIVATE_SYNC_WORD) :: (_, (unit, unit) radio_error) result)"
    "be_u16 [0, 0] = (Ok 0 :: (_, (unit, unit) radio_error) result)" by code_simp+
  have readback: "delivers (verify_readback bench_hal) ()"
    unfolding verify_readback_def
    by (rule delivers_attempt delivers_pure bench_read bench_registers
        | simp add: index_def PACKET_TYPE_LORA_def be)+
  show ?thesis
    unfolding configure_receive_def run_all.simps clear_all_irq_def enter_continuous_receive_def
    by (rule delivers_attempt delivers_pure bench_command bench_registers bench_ask readback
        | simp add: index_def)+
qed

lemma delivers_shift: "delivers m x \<Longrightarrow> delivers (\<lambda>h. m (t h)) x"
  unfolding delivers_def by blast

lemma delivers_or_drop:
  assumes "delivers m x"
  shows "delivers (or_drop H m) x"
  unfolding delivers_def
proof
  fix h
  obtain h' where "m h = Some (Ok x, h')" using assms unfolding delivers_def by blast
  then show "\<exists>h'. or_drop H m h = Some (Ok x, h')" by (simp add: or_drop_def)
qed

lemma bench_open: "delivers (open_hat bench_hal) ()"
proof -
  have claim: "delivers (claim_pins bench_hal) ()"
    unfolding claim_pins_def claim_output_def claim_input_def run_all.simps
    by (rule delivers_attempt delivers_pure bench_ask)+
  have "delivers (attempt (wait_busy_low bench_hal) (\<lambda>_. attempt (get_status bench_hal) (\<lambda>status.
      lift (ensure_mode status 0x20)))) ()"
  proof -
    have "delivers (wait_busy_low bench_hal) ()" by (simp add: delivers_def bench_wait)
    moreover have "ensure_mode 0x22 0x20 = (Ok () :: (_, (unit, unit) radio_error) result)" by code_simp
    ultimately show ?thesis by (auto intro!: delivers_attempt bench_get_status delivers_pure)
  qed
  then have reset: "delivers (hardware_reset bench_hal) ()"
    unfolding delivers_def hardware_reset_def Let_def by blast
  have "delivers (\<lambda>h. configure_receive bench_hal (h\<lparr>hat_initialized := True\<rparr>)) ()"
    by (rule delivers_shift [OF bench_configure])
  with reset have "delivers (attempt (hardware_reset bench_hal) (\<lambda>_ h.
      configure_receive bench_hal (h\<lparr>hat_initialized := True\<rparr>))) ()"
    by (rule delivers_attempt)
  then have "delivers (\<lambda>h. or_drop bench_hal (attempt (hardware_reset bench_hal) (\<lambda>_ h.
      configure_receive bench_hal (h\<lparr>hat_initialized := True\<rparr>))) (h\<lparr>hat_initialized := False\<rparr>)) ()"
    by (rule delivers_shift [OF delivers_or_drop])
  with claim show ?thesis unfolding open_hat_def by (rule delivers_attempt)
qed

theorem driver_returns_witness:
  "(\<exists>r h'. open_hat bench_hal bench_start = Some (r, h') \<and> \<not> panics r)
    \<and> (\<exists>r h'. poll_receive bench_hal 1000 bench_start = Some (r, h') \<and> \<not> panics r)
    \<and> (\<exists>h'. drop_hat bench_hal bench_start = Some h')"
  using driver_returns [OF bench_laws] by blast

theorem driver_receive_only_witness:
  "\<exists>h. lifetime bench_hal True h \<and> at_rest h
     \<and> (\<forall>e \<in> set (hat_log h). rx_event e \<and> hd (ev_bytes e) \<notin> set transmit_opcodes)"
proof -
  obtain h1 where "open_hat bench_hal bench_start = Some (Ok (), h1)"
    using bench_open unfolding delivers_def by blast
  then have "lifetime bench_hal True h1" by (rule lifetime.opened [rotated]) (simp add: bench_start_def)
  moreover obtain h2 where "poll_receive bench_hal 1000 h1 = Some (Ok (Some bench_packet), h2)"
    using bench_poll unfolding delivers_def by blast
  ultimately have "lifetime bench_hal True h2" by (rule lifetime.polled)
  then show ?thesis using driver_receive_only by blast
qed

theorem poll_event_sound_witness:
  "\<exists>h' reply reads. poll_receive bench_hal 1000 bench_start = Some (Ok (Some bench_packet), h')
     \<and> event_matches (irq_of reply) bench_packet \<and> event_reads bench_packet reads"
proof -
  obtain h' where h: "poll_receive bench_hal 1000 bench_start = Some (Ok (Some bench_packet), h')"
    using bench_poll unfolding delivers_def by blast
  show ?thesis using poll_event_sound [OF h bench_laws(2)] h by blast
qed

end
