(* ===== verification/Hex_Text.thy ===== *)
theory Hex_Text
  imports Protocol_V1 V2_Model
begin

text \<open>
  The hexadecimal input of \<^verbatim>\<open>crates/vesta-receiver/src/lib.rs\<close>: \<^verbatim>\<open>parse_payload_hex\<close>,
  \<^verbatim>\<open>parse_frame_hex\<close> and \<^verbatim>\<open>decode_hex\<close>. A \<^verbatim>\<open>&str\<close> is the list of its bytes, which is
  what \<^verbatim>\<open>len\<close>, \<^verbatim>\<open>as_bytes\<close> and the ASCII prefixes see of it.
\<close>

section \<open>Parsing\<close>

datatype hex_error =
  HE_WrongLength nat nat
| HE_OddLength nat
| HE_PayloadLength nat nat nat
| HE_InvalidByte nat u8

datatype text_decode_error = TE_Hex hex_error | TE_Protocol decode_error

definition FRAME_HEX_LEN :: nat where "FRAME_HEX_LEN = FRAME_LEN * 2"

definition hex_nibble :: "u8 \<Rightarrow> u8 option" where
  "hex_nibble b =
     (if 0x30 \<le> b \<and> b \<le> 0x39 then Some (b - 0x30)
      else if 0x61 \<le> b \<and> b \<le> 0x66 then Some (b - 0x61 + 10)
      else if 0x41 \<le> b \<and> b \<le> 0x46 then Some (b - 0x41 + 10)
      else None)"

fun strip_0x :: "bytes \<Rightarrow> bytes" where
  "strip_0x (a # b # rest) =
     (if a = 0x30 \<and> b = 0x78 then rest
      else if a = 0x30 \<and> b = 0x58 then rest
      else a # b # rest)"
| "strip_0x input = input"

text \<open>The body of the loop both parsers share: the byte at one position.\<close>

definition hex_byte_at :: "bytes \<Rightarrow> nat \<Rightarrow> (u8, hex_error) result" where
  "hex_byte_at source i =
    (let high_index = i * 2; low_index = high_index + 1 in
     and_then (index source high_index) (\<lambda>h.
     and_then (ok_or (hex_nibble h) (HE_InvalidByte high_index h)) (\<lambda>high.
     and_then (index source low_index) (\<lambda>l.
     and_then (ok_or (hex_nibble l) (HE_InvalidByte low_index l)) (\<lambda>low.
     Ok (push_bit 4 high OR low))))))"

definition parse_payload_hex :: "bytes \<Rightarrow> (bytes, hex_error) result" where
  "parse_payload_hex input =
    (let input = strip_0x input in
     if length input mod 2 \<noteq> 0 then fail (HE_OddLength (length input)) else
     let byte_len = length input div 2 in
     if \<not> (3 \<le> byte_len \<and> byte_len \<le> MAX_PHY_FRAME_LEN)
     then fail (HE_PayloadLength 3 MAX_PHY_FRAME_LEN byte_len) else
     for_each [0..<byte_len] [] (\<lambda>i payload.
       and_then (hex_byte_at input i) (\<lambda>b. Ok (payload @ [b]))))"

definition parse_frame_hex :: "bytes \<Rightarrow> (bytes, hex_error) result" where
  "parse_frame_hex input =
    (let input = strip_0x input in
     if length input \<noteq> FRAME_HEX_LEN then fail (HE_WrongLength FRAME_HEX_LEN (length input)) else
     for_each [0..<FRAME_LEN] (replicate FRAME_LEN 0) (\<lambda>i frame.
       and_then (hex_byte_at input i) (\<lambda>b. Ok (frame[i := b]))))"

definition decode_hex :: "bytes \<Rightarrow> (telemetry_v1, text_decode_error) result" where
  "decode_hex input =
    and_then (map_err TE_Hex (parse_frame_hex input)) (\<lambda>bs.
    map_err TE_Protocol (telemetry_v1_decode bs))"

section \<open>Digits and bytes\<close>

definition nibbles :: "u8 \<Rightarrow> u8 list" where
  "nibbles b = [drop_bit 4 b, b AND 0x0f]"

definition hex_digit :: "u8 \<Rightarrow> u8" where
  "hex_digit n = (if n < 10 then 0x30 + n else 0x61 + (n - 10))"

definition to_hex :: "bytes \<Rightarrow> bytes" where
  "to_hex bs = map hex_digit (concat (map nibbles bs))"

text \<open>A text spells a byte string: its characters are the digits of the bytes.\<close>

definition spells :: "bytes \<Rightarrow> bytes \<Rightarrow> bool" where
  "spells str bs \<longleftrightarrow> map hex_nibble str = map Some (concat (map nibbles bs))"

lemma hex_nibble_less: "hex_nibble c = Some n \<Longrightarrow> n < 16"
  by (auto simp: hex_nibble_def word_less_nat_alt word_le_nat_alt unat_sub unat_word_ariths
      split: if_splits)

lemma nibble_bits: "(h :: u8) < 16 \<Longrightarrow> bit h n \<Longrightarrow> n < 4"
proof -
  assume "h < 16" and "bit h n"
  then have "h AND mask 4 = h" by (intro less_mask_eq) simp
  with \<open>bit h n\<close> have "bit (h AND mask 4) n" by simp
  then show "n < 4" by (simp add: bit_simps)
qed

lemma join_nibbles:
  assumes "h < 16" "l < 16"
  shows "nibbles (push_bit 4 h OR l) = [h, l]"
proof -
  have "drop_bit 4 (push_bit 4 h OR l) = h"
    by (rule bit_word_eqI) (use nibble_bits [OF assms(1)] nibble_bits [OF assms(2)] in \<open>auto simp: bit_simps\<close>)
  moreover have "(push_bit 4 h OR l) AND mask 4 = l"
    by (rule bit_word_eqI) (use nibble_bits [OF assms(2)] in \<open>auto simp: bit_simps\<close>)
  ultimately show ?thesis by (simp add: nibbles_def mask_numeral)
qed

lemma split_byte: "push_bit 4 (drop_bit 4 b) OR (b AND 0x0f) = (b :: u8)"
proof -
  have "push_bit 4 (drop_bit 4 b) OR (b AND mask 4) = b"
    by (rule bit_word_eqI) (auto simp: bit_simps)
  then show ?thesis by (simp add: mask_numeral)
qed

lemma nibbles_less: "n \<in> set (nibbles b) \<Longrightarrow> n < 16"
proof -
  assume "n \<in> set (nibbles b)"
  then have "n = drop_bit 4 b \<or> n = b AND mask 4" by (auto simp: nibbles_def mask_numeral)
  moreover have "unat (drop_bit 4 b) < 16"
    using unsigned_less [of b, where 'a = nat] by (simp add: drop_bit_eq_div unat_div)
  moreover have "unat (b AND mask 4) < 16"
    using take_bit_nat_less_exp [of 4 "unat b"]
    by (simp flip: take_bit_eq_mask add: unsigned_take_bit_eq)
  ultimately show ?thesis by (auto simp: word_less_nat_alt)
qed

lemma spells_Cons:
  "spells str (b # bs) \<longleftrightarrow>
     (\<exists>h l rest. str = h # l # rest \<and> hex_nibble h = Some (drop_bit 4 b)
        \<and> hex_nibble l = Some (b AND 0x0f) \<and> spells rest bs)"
  by (auto simp: spells_def nibbles_def map_eq_Cons_conv)

lemma spells_length: "spells str bs \<Longrightarrow> length str = 2 * length bs"
proof (induction bs arbitrary: str)
  case Nil
  then show ?case by (simp add: spells_def)
next
  case (Cons b bs)
  then show ?case by (auto simp: spells_Cons)
qed

section \<open>What the parsers accept\<close>

lemma hex_byte_at_pair:
  assumes "length pre = i * 2"
  shows "hex_byte_at (pre @ h # l # rest) i = Ok b \<longleftrightarrow>
     hex_nibble h = Some (drop_bit 4 b) \<and> hex_nibble l = Some (b AND 0x0f)"
proof -
  have "hex_byte_at (pre @ h # l # rest) i = Ok b \<longleftrightarrow>
     (\<exists>x y. hex_nibble h = Some x \<and> hex_nibble l = Some y \<and> b = push_bit 4 x OR y)"
    using assms by (auto simp: hex_byte_at_def index_def nth_append Let_def)
  also have "\<dots> \<longleftrightarrow> hex_nibble h = Some (drop_bit 4 b) \<and> hex_nibble l = Some (b AND 0x0f)"
    using join_nibbles split_byte hex_nibble_less by (auto simp: nibbles_def)
  finally show ?thesis .
qed

lemma parse_loop:
  assumes "length pre = k * 2" and "length str = n * 2"
  shows "for_each [k..<k + n] acc (\<lambda>i payload.
           and_then (hex_byte_at (pre @ str) i) (\<lambda>b. Ok (payload @ [b]))) = Ok out \<longleftrightarrow>
     (\<exists>bs. out = acc @ bs \<and> spells str bs)"
  using assms
proof (induction n arbitrary: k pre str acc)
  case 0
  then show ?case by (auto simp: spells_def concat_eq_Nil_conv nibbles_def)
next
  case (Suc n)
  then obtain h l rest where str: "str = h # l # rest" and len: "length rest = n * 2"
    by (auto simp: length_Suc_conv)
  have pre: "length (pre @ [h, l]) = Suc k * 2" using Suc.prems(1) by simp
  have "for_each [k..<k + Suc n] acc (\<lambda>i payload.
           and_then (hex_byte_at (pre @ str) i) (\<lambda>b. Ok (payload @ [b]))) = Ok out \<longleftrightarrow>
      (\<exists>b. hex_byte_at (pre @ str) k = Ok b
        \<and> for_each [Suc k..<Suc k + n] (acc @ [b]) (\<lambda>i payload.
           and_then (hex_byte_at ((pre @ [h, l]) @ rest) i) (\<lambda>b. Ok (payload @ [b]))) = Ok out)"
  proof -
    have upt: "[k..<k + Suc n] = k # [Suc k..<Suc k + n]" by (simp add: upt_conv_Cons)
    show ?thesis unfolding upt by (auto simp: str)
  qed
  also have "\<dots> \<longleftrightarrow> (\<exists>b bs. out = acc @ b # bs \<and> spells str (b # bs))"
    unfolding Suc.IH [OF pre len] str hex_byte_at_pair [OF Suc.prems(1)] by (auto simp: spells_Cons)
  also have "\<dots> \<longleftrightarrow> (\<exists>bs. out = acc @ bs \<and> spells str bs)"
  proof -
    have "\<not> spells str []" using str by (simp add: spells_def)
    then show ?thesis by (metis list.exhaust)
  qed
  finally show ?case .
qed

text \<open>
  A text is accepted exactly when, after an optional prefix \<^verbatim>\<open>0x\<close> or \<^verbatim>\<open>0X\<close>, it spells 3 to 255
  bytes in hexadecimal digits of either case; the bytes it spells are the result.
\<close>

theorem parse_payload_hex_iff:
  "parse_payload_hex input = Ok bs \<longleftrightarrow>
     spells (strip_0x input) bs \<and> 3 \<le> length bs \<and> length bs \<le> MAX_PHY_FRAME_LEN"
proof (cases "length (strip_0x input) mod 2 = 0")
  case True
  then obtain n where n: "length (strip_0x input) = n * 2" by (metis dvd_div_mult_self mod_0_imp_dvd)
  have loop: "for_each [0..<n] [] (\<lambda>i payload.
        and_then (hex_byte_at (strip_0x input) i) (\<lambda>b. Ok (payload @ [b]))) = Ok bs
      \<longleftrightarrow> spells (strip_0x input) bs"
    using parse_loop [of "[]" 0 "strip_0x input" n "[]" bs] n by simp
  show ?thesis
    using loop n spells_length [of "strip_0x input" bs] by (auto simp: parse_payload_hex_def Let_def)
next
  case False
  then show ?thesis
    using spells_length [of "strip_0x input" bs] by (auto simp: parse_payload_hex_def Let_def)
qed

lemma hex_digit_inverse:
  assumes "n < 16"
  shows "hex_nibble (hex_digit n) = Some n"
proof -
  have "list_all (\<lambda>n. hex_nibble (hex_digit (word_of_nat n)) = Some (word_of_nat n)) [0..<16]"
    by code_simp
  moreover have "unat n \<in> set [0..<16]" using assms by (simp add: word_less_nat_alt)
  ultimately have "hex_nibble (hex_digit (word_of_nat (unat n))) = Some (word_of_nat (unat n))"
    unfolding list_all_iff by (rule bspec)
  then show ?thesis by simp
qed

lemma spells_to_hex: "spells (to_hex bs) bs"
  by (auto simp: spells_def to_hex_def o_def intro!: map_cong hex_digit_inverse nibbles_less)

lemma strip_0x_to_hex:
  "strip_0x (to_hex bs) = to_hex bs" "strip_0x (0x30 # 0x78 # str) = str" "strip_0x (0x30 # 0x58 # str) = str"
proof -
  have "hex_nibble c \<noteq> None" if "c \<in> set (to_hex bs)" for c
    using that hex_digit_inverse nibbles_less by (fastforce simp: to_hex_def)
  moreover have "hex_nibble 0x78 = None" "hex_nibble 0x58 = None"
    by (simp_all add: hex_nibble_def)
  ultimately have "c \<noteq> 0x78 \<and> c \<noteq> 0x58" if "c \<in> set (to_hex bs)" for c
    using that by metis
  then show "strip_0x (to_hex bs) = to_hex bs"
    by (cases "to_hex bs" rule: strip_0x.cases) auto
qed simp_all

text \<open>
  Printing a byte string in hexadecimal and parsing the text returns the byte string, with no
  prefix and with either prefix.
\<close>

theorem parse_payload_hex_roundtrip:
  assumes "3 \<le> length bs" and "length bs \<le> MAX_PHY_FRAME_LEN"
  shows "parse_payload_hex (to_hex bs) = Ok bs
    \<and> parse_payload_hex (0x30 # 0x78 # to_hex bs) = Ok bs
    \<and> parse_payload_hex (0x30 # 0x58 # to_hex bs) = Ok bs"
proof -
  have accepts: "parse_payload_hex input = Ok bs" if "strip_0x input = to_hex bs" for input
  proof -
    have "length (strip_0x input) = length bs * 2"
      using spells_length [OF spells_to_hex [of bs]] that by simp
    moreover from this have "for_each [0..<length bs] [] (\<lambda>i payload.
        and_then (hex_byte_at (strip_0x input) i) (\<lambda>b. Ok (payload @ [b]))) = Ok bs"
      using parse_loop [of "[]" 0 "strip_0x input" "length bs" "[]" bs] spells_to_hex [of bs] that
      by simp
    ultimately show ?thesis using assms by (simp add: parse_payload_hex_def Let_def)
  qed
  show ?thesis by (intro conjI accepts) (simp_all add: strip_0x_to_hex)
qed

theorem parse_payload_hex_roundtrip_witness:
  "parse_payload_hex (to_hex [0x56, 0x53, 0x02, 0xff]) = Ok [0x56, 0x53, 0x02, 0xff]
    \<and> to_hex [0x56, 0x53, 0x02, 0xff] = [0x35, 0x36, 0x35, 0x33, 0x30, 0x32, 0x66, 0x66]"
proof
  show "parse_payload_hex (to_hex [0x56, 0x53, 0x02, 0xff]) = Ok [0x56, 0x53, 0x02, 0xff]"
    using parse_payload_hex_roundtrip [of "[0x56, 0x53, 0x02, 0xff]"]
    by (simp add: MAX_PHY_FRAME_LEN_def)
  show "to_hex [0x56, 0x53, 0x02, 0xff] = [0x35, 0x36, 0x35, 0x33, 0x30, 0x32, 0x66, 0x66]"
    by code_simp
qed

section \<open>Whole frames\<close>

lemma frame_loop:
  assumes "length pre = k * 2" and "length str = n * 2" and "length acc = k"
  shows "for_each [k..<k + n] (acc @ replicate n 0) (\<lambda>i frame.
           and_then (hex_byte_at (pre @ str) i) (\<lambda>b. Ok (frame[i := b]))) = Ok out \<longleftrightarrow>
     (\<exists>bs. out = acc @ bs \<and> spells str bs)"
  using assms
proof (induction n arbitrary: k pre str acc)
  case 0
  then show ?case by (auto simp: spells_def concat_eq_Nil_conv nibbles_def)
next
  case (Suc n)
  then obtain h l rest where str: "str = h # l # rest" and len: "length rest = n * 2"
    by (auto simp: length_Suc_conv)
  have pre: "length (pre @ [h, l]) = Suc k * 2" using Suc.prems(1) by simp
  have acc: "length (acc @ [b]) = Suc k" for b using Suc.prems(3) by simp
  have upd: "(acc @ replicate (Suc n) 0)[k := b] = (acc @ [b]) @ replicate n 0" for b
    using Suc.prems(3) by (simp add: list_update_append)
  have upt: "[k..<k + Suc n] = k # [Suc k..<Suc k + n]" by (simp add: upt_conv_Cons)
  have "for_each [k..<k + Suc n] (acc @ replicate (Suc n) 0) (\<lambda>i frame.
           and_then (hex_byte_at (pre @ str) i) (\<lambda>b. Ok (frame[i := b]))) = Ok out \<longleftrightarrow>
      (\<exists>b. hex_byte_at (pre @ str) k = Ok b
        \<and> for_each [Suc k..<Suc k + n] ((acc @ [b]) @ replicate n 0) (\<lambda>i frame.
           and_then (hex_byte_at ((pre @ [h, l]) @ rest) i) (\<lambda>b. Ok (frame[i := b]))) = Ok out)"
    unfolding upt upd [symmetric] by (auto simp: str simp del: replicate.simps)
  also have "\<dots> \<longleftrightarrow> (\<exists>b bs. out = acc @ b # bs \<and> spells str (b # bs))"
    unfolding Suc.IH [OF pre len acc] str hex_byte_at_pair [OF Suc.prems(1)] by (auto simp: spells_Cons)
  also have "\<dots> \<longleftrightarrow> (\<exists>bs. out = acc @ bs \<and> spells str bs)"
  proof -
    have "\<not> spells str []" using str by (simp add: spells_def)
    then show ?thesis by (metis list.exhaust)
  qed
  finally show ?case .
qed

lemma parse_frame_hex_iff:
  "parse_frame_hex input = Ok bs \<longleftrightarrow> spells (strip_0x input) bs \<and> length bs = FRAME_LEN"
proof (cases "length (strip_0x input) = FRAME_HEX_LEN")
  case True
  then have "for_each [0..<FRAME_LEN] (replicate FRAME_LEN 0) (\<lambda>i frame.
        and_then (hex_byte_at (strip_0x input) i) (\<lambda>b. Ok (frame[i := b]))) = Ok bs
      \<longleftrightarrow> spells (strip_0x input) bs"
    using frame_loop [of "[]" 0 "strip_0x input" FRAME_LEN "[]" bs] by (simp add: FRAME_HEX_LEN_def)
  then show ?thesis
    using True spells_length [of "strip_0x input" bs]
    by (auto simp: parse_frame_hex_def Let_def FRAME_HEX_LEN_def)
next
  case False
  then show ?thesis
    using spells_length [of "strip_0x input" bs]
    by (auto simp: parse_frame_hex_def Let_def FRAME_HEX_LEN_def)
qed

text \<open>
  The hexadecimal form of an encoded reading decodes to that reading, and every text that
  decodes to it spells its frame.
\<close>

theorem decode_hex_iff:
  "decode_hex input = Ok t \<longleftrightarrow> spells (strip_0x input) (telemetry_v1_encode t)"
proof -
  have dec: "telemetry_v1_decode bs = Ok t \<longleftrightarrow> bs = telemetry_v1_encode t" for bs
    using v1_decode_encode v1_encode_decode by blast
  show ?thesis
    by (auto simp: decode_hex_def parse_frame_hex_iff dec length_telemetry_v1_encode)
qed

lemma hex_byte_at_panics: "panics (hex_byte_at source i) \<Longrightarrow> length source \<le> 2 * i + 1"
  by (auto simp: hex_byte_at_def index_def panics_and_then Let_def split: if_splits)

text \<open>No text makes the parsers panic.\<close>

theorem hex_parsers_no_panic:
  "\<not> panics (parse_payload_hex input) \<and> \<not> panics (parse_frame_hex input)
   \<and> \<not> panics (decode_hex input)"
proof -
  have payload: "\<not> panics (parse_payload_hex input)"
    unfolding parse_payload_hex_def Let_def
    by (auto simp: panics_and_then dest!: hex_byte_at_panics intro!: for_each_no_panic)
  have "\<not> panics (parse_frame_hex input)"
    unfolding parse_frame_hex_def Let_def FRAME_HEX_LEN_def
    by (auto simp: panics_and_then dest!: hex_byte_at_panics intro!: for_each_no_panic)
  with payload show ?thesis by (auto simp: decode_hex_def panics_and_then)
qed

end
