(* ===== verification/Archive.thy ===== *)
theory Archive
  imports Reassembly Hex_Text V2_Codec
begin

text \<open>
  The archive of \<^verbatim>\<open>crates/vesta-receiver/src/database.rs\<close>: its tables as lists of rows, and the
  operations that insert, query and reconcile them, statement by statement.

  A statement runs on the tables and fails when a constraint of the schema is violated; the
  transaction around it is then rolled back, so an operation returns the new tables or an error with
  the tables unchanged. An \<^verbatim>\<open>INTEGER PRIMARY KEY\<close> is assigned one more than the largest in the table.
  Text columns with an identity hold the hexadecimal text the source prints; the JSON column holds
  the record it encodes, and \<^verbatim>\<open>json_set\<close> updates its counters. Columns have the type the program
  reads them with, so \<^verbatim>\<open>row.get\<close> cannot fail. The wall clock is an argument in milliseconds from the
  epoch.

  Failures of the file system and of SQLite itself other than the constraints are not modelled.
\<close>

section \<open>Rows\<close>

type_synonym text_column = bytes

datatype packet_disposition = LegacyV1 | ProtocolV2 | Unsupported | Invalid

datatype v2_packet_kind = KindDeviceConfig | KindProfileFragment | KindDeviceHealth

datatype fragment_storage_status =
  StatusPending | StatusAssembled | StatusDuplicate | StatusConflict | StatusIncomplete

datatype persisted_fragment_match = MatchDuplicate | MatchConflict

fun storage_status :: "persisted_fragment_match \<Rightarrow> fragment_storage_status" where
  "storage_status MatchDuplicate = StatusDuplicate"
| "storage_status MatchConflict = StatusConflict"

text \<open>The column \<^verbatim>\<open>reassembly_status\<close>: \<open>None\<close> is \<^verbatim>\<open>not_applicable\<close>.\<close>

type_synonym reassembly_status = "fragment_storage_status option"

fun initial_reassembly_status :: "v2_packet_kind \<Rightarrow> reassembly_status" where
  "initial_reassembly_status KindProfileFragment = Some StatusPending"
| "initial_reassembly_status KindDeviceConfig = None"
| "initial_reassembly_status KindDeviceHealth = None"

datatype sqlite_error = ConstraintCheck | ConstraintPrimaryKey | ConstraintUnique | ConstraintForeignKey

datatype storage_error =
  Sqlite sqlite_error
| SystemTime
| TimestampOutOfRange
| InvalidRecord record_error
| MissingV2Packet int
| ProfileWithoutFragments
| InvalidPendingReplayLimit
| PendingReplayLimitExceeded nat nat
| InvalidIncompleteReplayLimit
| IncompleteReplayLimitExceeded nat nat
| CorruptIncompleteProfile
| CorruptHexIdentity string
| MigrationForeignKeyViolations nat
| UnsupportedSchemaVersion int

record packet_row =
  rk_id :: int
  rk_received_at_unix_ms :: int
  rk_radio :: radio_metadata
  rk_protocol_version :: "u8 option"
  rk_frame_type :: "u8 option"
  rk_disposition :: packet_disposition
  rk_decode_error :: "string option"
  rk_payload :: bytes

record reading_row =
  rd_id :: int
  rd_received_at_unix_ms :: int
  rd_protocol_version :: u8
  rd_node_id :: text_column
  rd_status_new_data :: bool
  rd_status_gas_valid :: bool
  rd_status_heater_stable :: bool
  rd_status_unknown_bits :: u8
  rd_frame :: telemetry_v1
  rd_radio :: radio_metadata
  rd_payload :: bytes
  rd_radio_packet_id :: "int option"

record decode_row =
  vd_packet_id :: int
  vd_frame_type :: u8
  vd_record_kind :: v2_packet_kind
  vd_reassembly_status :: reassembly_status
  vd_node_id :: text_column
  vd_boot_id :: text_column
  vd_scan_sequence :: u32
  vd_uptime_ms :: text_column
  vd_config_id :: text_column
  vd_fragment_index :: u8
  vd_fragment_count :: u8

text \<open>The columns that repeat a record are the record itself.\<close>

record configuration_row =
  cw_id :: int
  cw_received_at_unix_ms :: int
  cw_columns :: device_configuration
  cw_record_json :: device_configuration
  cw_source_packet_id :: "int option"

record health_row =
  hw_id :: int
  hw_received_at_unix_ms :: int
  hw_columns :: health_record
  hw_record_json :: health_record
  hw_source_packet_id :: "int option"

record scan_row =
  sr_id :: int
  sr_first_received_at_unix_ms :: int
  sr_last_received_at_unix_ms :: int
  sr_node_id :: text_column
  sr_boot_id :: text_column
  sr_scan_sequence :: u32
  sr_uptime_ms :: text_column
  sr_config_id :: text_column
  sr_common_flags :: u8
  sr_columns :: scan_record
  sr_missing_fragment_bitmap :: u16
  sr_duplicate_fragment_count :: u16
  sr_conflicting_fragment_count :: u16
  sr_transport_complete :: bool
  sr_record_json :: scan_record

record fragment_row =
  fr_scan_id :: int
  fr_packet_id :: int
  fr_fragment_index :: u8
  fr_received_at_unix_ms :: int
  fr_radio :: radio_metadata

record archive =
  db_packets :: "packet_row list"
  db_readings :: "reading_row list"
  db_decodes :: "decode_row list"
  db_configurations :: "configuration_row list"
  db_heater_steps :: "(int \<times> heater_step_configuration) list"
  db_scans :: "scan_row list"
  db_steps :: "(int \<times> step_record) list"
  db_fragments :: "fragment_row list"
  db_health :: "health_row list"

definition empty_archive :: archive where
  "empty_archive = \<lparr>db_packets = [], db_readings = [], db_decodes = [], db_configurations = [],
     db_heater_steps = [], db_scans = [], db_steps = [], db_fragments = [], db_health = []\<rparr>"

text \<open>What the operations return.\<close>

record stored_packet =
  sp_id :: int
  sp_received_at_unix_ms :: int

record stored_reading =
  sd_id :: int
  sd_received_at_unix_ms :: int
  sd_radio_packet_id :: "int option"

record stored_record =
  so_id :: int
  so_received_at_unix_ms :: int

record stored_v2_record =
  sv_packet :: stored_packet
  sv_record :: stored_record

record pending_profile_fragment =
  pp_packet_id :: int
  pp_fragment_index :: u8
  pp_received_at_unix_ms :: int
  pp_radio :: radio_metadata
  pp_payload :: bytes

record persisted_incomplete_profile =
  ip_scan_id :: int
  ip_key :: profile_key
  ip_duplicate_fragment_count :: u16
  ip_conflicting_fragment_count :: u16
  ip_fragments :: "pending_profile_fragment list"

record persisted_fragment_classification =
  pc_packet_id :: int
  pc_fragment_index :: u8
  pc_classification :: persisted_fragment_match

section \<open>Columns\<close>

definition hex_u64 :: "u64 \<Rightarrow> text_column" where
  "hex_u64 value = to_hex (to_be_bytes value)"

text \<open>\<^verbatim>\<open>u64::from_str_radix(value, 16)\<close>: an optional plus sign, then at least one digit.\<close>

definition from_str_radix_16 :: "bytes \<Rightarrow> u64 option" where
  "from_str_radix_16 str =
    (let digits = (case str of c # rest \<Rightarrow> if c = 0x2b then rest else str | [] \<Rightarrow> [])
     in if digits = [] then None
        else foldl (\<lambda>acc c. Option.bind acc (\<lambda>v. Option.bind (hex_nibble c) (\<lambda>d.
               if unat v * 16 + unat d < 2 ^ 64 then Some (v * 16 + ucast d) else None)))
             (Some 0) digits)"

definition parse_hex_u64 :: "text_column \<Rightarrow> string \<Rightarrow> (u64, storage_error) result" where
  "parse_hex_u64 value field = ok_or (from_str_radix_16 value) (CorruptHexIdentity field)"

definition current_unix_ms :: "int \<Rightarrow> (int, storage_error) result" where
  "current_unix_ms now =
     (if now < 0 then fail SystemTime
      else if 2 ^ 63 \<le> now then fail TimestampOutOfRange else Ok now)"

definition new_rowid :: "int list \<Rightarrow> int" where
  "new_rowid ids = (case ids of [] \<Rightarrow> 1 | i # rest \<Rightarrow> foldl max i rest + 1)"

text \<open>The condition on the key columns of a scan that several statements share.\<close>

definition scan_has_key :: "profile_key \<Rightarrow> scan_row \<Rightarrow> bool" where
  "scan_has_key key scan \<longleftrightarrow>
     sr_node_id scan = hex_u64 (pk_node_id key)
     \<and> sr_boot_id scan = hex_u64 (pk_boot_id key)
     \<and> sr_scan_sequence scan = pk_scan_sequence key
     \<and> sr_uptime_ms scan = hex_u64 (pk_uptime_ms key)
     \<and> sr_config_id scan = hex_u64 (pk_config_id key)
     \<and> (sr_common_flags scan AND 1 \<noteq> 0) = pk_boot_id_valid key"

section \<open>Statements\<close>

definition insert_packet_at ::
  "bytes \<Rightarrow> radio_metadata \<Rightarrow> int \<Rightarrow> packet_disposition \<Rightarrow> u8 option \<Rightarrow> u8 option \<Rightarrow> string option
     \<Rightarrow> archive \<Rightarrow> (stored_packet \<times> archive, storage_error) result" where
  "insert_packet_at payload radio received_at disposition protocol_version frame_type decode_error db =
    (if received_at < 0 \<or> 255 < length payload then fail (Sqlite ConstraintCheck) else
     let i = new_rowid (map rk_id (db_packets db))
     in Ok (\<lparr>sp_id = i, sp_received_at_unix_ms = received_at\<rparr>,
            db\<lparr>db_packets := db_packets db @
              [\<lparr>rk_id = i, rk_received_at_unix_ms = received_at, rk_radio = radio,
                rk_protocol_version = protocol_version, rk_frame_type = frame_type,
                rk_disposition = disposition, rk_decode_error = decode_error, rk_payload = payload\<rparr>]\<rparr>))"

definition insert_reading_at ::
  "telemetry_v1 \<Rightarrow> bytes \<Rightarrow> radio_metadata \<Rightarrow> int \<Rightarrow> int option \<Rightarrow> archive
     \<Rightarrow> (stored_reading \<times> archive, storage_error) result" where
  "insert_reading_at frame payload radio received_at radio_packet_id db =
    (if received_at < 0 \<or> length payload \<noteq> 48 then fail (Sqlite ConstraintCheck) else
     if radio_packet_id \<noteq> None \<and> radio_packet_id \<in> set (map rd_radio_packet_id (db_readings db))
     then fail (Sqlite ConstraintUnique) else
     if radio_packet_id \<noteq> None \<and> the radio_packet_id \<notin> set (map rk_id (db_packets db))
     then fail (Sqlite ConstraintForeignKey) else
     let i = new_rowid (map rd_id (db_readings db)); status = t1_sensor_status frame
     in Ok (\<lparr>sd_id = i, sd_received_at_unix_ms = received_at, sd_radio_packet_id = radio_packet_id\<rparr>,
            db\<lparr>db_readings := db_readings db @
              [\<lparr>rd_id = i, rd_received_at_unix_ms = received_at, rd_protocol_version = VERSION,
                rd_node_id = hex_u64 (t1_node_id frame), rd_status_new_data = is_new_data status,
                rd_status_gas_valid = is_gas_measurement_valid status,
                rd_status_heater_stable = is_heater_stable status,
                rd_status_unknown_bits = unknown_bits status, rd_frame = frame, rd_radio = radio,
                rd_payload = payload, rd_radio_packet_id = radio_packet_id\<rparr>]\<rparr>))"

definition insert_v2_packet_decode_at ::
  "int \<Rightarrow> header \<Rightarrow> v2_packet_kind \<Rightarrow> archive \<Rightarrow> (archive, storage_error) result" where
  "insert_v2_packet_decode_at packet_id h kind db =
    (if h_fragment_count h < 1 then fail (Sqlite ConstraintCheck) else
     if packet_id \<in> set (map vd_packet_id (db_decodes db)) then fail (Sqlite ConstraintPrimaryKey) else
     if packet_id \<notin> set (map rk_id (db_packets db)) then fail (Sqlite ConstraintForeignKey) else
     Ok (db\<lparr>db_decodes := db_decodes db @
       [\<lparr>vd_packet_id = packet_id, vd_frame_type = frame_type_u8 (h_frame_type h), vd_record_kind = kind,
         vd_reassembly_status = initial_reassembly_status kind,
         vd_node_id = hex_u64 (c_node_id (h_common h)), vd_boot_id = hex_u64 (c_boot_id (h_common h)),
         vd_scan_sequence = c_scan_sequence (h_common h), vd_uptime_ms = hex_u64 (c_uptime_ms (h_common h)),
         vd_config_id = hex_u64 (c_config_id (h_common h)), vd_fragment_index = h_fragment_index h,
         vd_fragment_count = h_fragment_count h\<rparr>]\<rparr>))"

definition insert_heater_step ::
  "int \<Rightarrow> heater_step_configuration \<Rightarrow> archive \<Rightarrow> (archive, storage_error) result" where
  "insert_heater_step i step db =
    (if 9 < hc_step_index step then fail (Sqlite ConstraintCheck) else
     if (i, hc_step_index step) \<in> set (map (map_prod id hc_step_index) (db_heater_steps db))
     then fail (Sqlite ConstraintPrimaryKey)
     else Ok (db\<lparr>db_heater_steps := db_heater_steps db @ [(i, step)]\<rparr>))"

definition insert_device_configuration_at ::
  "device_configuration \<Rightarrow> int \<Rightarrow> int option \<Rightarrow> archive \<Rightarrow> (stored_record \<times> archive, storage_error) result" where
  "insert_device_configuration_at c received_at source_packet_id db =
    (if received_at < 0 \<or> \<not> (1 \<le> cf_expected_step_count c \<and> cf_expected_step_count c \<le> 10)
     then fail (Sqlite ConstraintCheck) else
     if source_packet_id \<noteq> None \<and> the source_packet_id \<notin> set (map rk_id (db_packets db))
     then fail (Sqlite ConstraintForeignKey) else
     let i = new_rowid (map cw_id (db_configurations db));
         db = db\<lparr>db_configurations := db_configurations db @
           [\<lparr>cw_id = i, cw_received_at_unix_ms = received_at, cw_columns = c, cw_record_json = c,
             cw_source_packet_id = source_packet_id\<rparr>]\<rparr>
     in and_then (for_each (cf_heater_steps c) db (insert_heater_step i)) (\<lambda>db.
     Ok (\<lparr>so_id = i, so_received_at_unix_ms = received_at\<rparr>, db)))"

definition insert_device_health_at ::
  "health_record \<Rightarrow> int \<Rightarrow> int option \<Rightarrow> archive \<Rightarrow> (stored_record \<times> archive, storage_error) result" where
  "insert_device_health_at health received_at source_packet_id db =
    (if source_packet_id \<noteq> None \<and> the source_packet_id \<notin> set (map rk_id (db_packets db))
     then fail (Sqlite ConstraintForeignKey) else
     let i = new_rowid (map hw_id (db_health db))
     in Ok (\<lparr>so_id = i, so_received_at_unix_ms = received_at\<rparr>,
            db\<lparr>db_health := db_health db @
              [\<lparr>hw_id = i, hw_received_at_unix_ms = received_at, hw_columns = health, hw_record_json = health,
                hw_source_packet_id = source_packet_id\<rparr>]\<rparr>))"

text \<open>
  An update returns the tables and the number of rows it changed. The deletion of a scan also deletes
  its steps and fragments (\<^verbatim>\<open>ON DELETE CASCADE\<close>).
\<close>

definition count_rows :: "('a \<Rightarrow> bool) \<Rightarrow> 'a list \<Rightarrow> nat" where
  "count_rows P rows = length (filter P rows)"

definition update_rows :: "('a \<Rightarrow> bool) \<Rightarrow> ('a \<Rightarrow> 'a) \<Rightarrow> 'a list \<Rightarrow> 'a list" where
  "update_rows P f rows = map (\<lambda>row. if P row then f row else row) rows"

definition set_status :: "(decode_row \<Rightarrow> bool) \<Rightarrow> fragment_storage_status \<Rightarrow> archive \<Rightarrow> archive \<times> nat" where
  "set_status P status db =
     (db\<lparr>db_decodes := update_rows P (\<lambda>row. row\<lparr>vd_reassembly_status := Some status\<rparr>) (db_decodes db)\<rparr>,
      count_rows P (db_decodes db))"

definition invalidate_packet :: "(packet_row \<Rightarrow> bool) \<Rightarrow> string \<Rightarrow> archive \<Rightarrow> archive \<times> nat" where
  "invalidate_packet P err db =
     (db\<lparr>db_packets := update_rows P (\<lambda>row. row\<lparr>rk_disposition := Invalid, rk_decode_error := Some err\<rparr>)
           (db_packets db)\<rparr>,
      count_rows P (db_packets db))"

definition delete_decodes :: "(decode_row \<Rightarrow> bool) \<Rightarrow> archive \<Rightarrow> archive \<times> nat" where
  "delete_decodes P db =
     (db\<lparr>db_decodes := filter (\<lambda>row. \<not> P row) (db_decodes db)\<rparr>, count_rows P (db_decodes db))"

definition delete_scans :: "(scan_row \<Rightarrow> bool) \<Rightarrow> archive \<Rightarrow> archive \<times> nat" where
  "delete_scans P db =
    (let gone = map sr_id (filter P (db_scans db))
     in (db\<lparr>db_scans := filter (\<lambda>scan. \<not> P scan) (db_scans db),
            db_steps := filter (\<lambda>(i, _). i \<notin> set gone) (db_steps db),
            db_fragments := filter (\<lambda>f. fr_scan_id f \<notin> set gone) (db_fragments db)\<rparr>,
         count_rows P (db_scans db)))"

text \<open>\<^verbatim>\<open>min(column + n, 65535)\<close> on both counters, in their columns and in the JSON record.\<close>

definition add_counts :: "u16 \<Rightarrow> u16 \<Rightarrow> scan_row \<Rightarrow> scan_row" where
  "add_counts duplicates conflicts scan =
     scan\<lparr>sr_duplicate_fragment_count := saturating_add (sr_duplicate_fragment_count scan) duplicates,
          sr_conflicting_fragment_count := saturating_add (sr_conflicting_fragment_count scan) conflicts,
          sr_record_json := (sr_record_json scan)
            \<lparr>pf_duplicate_fragment_count := saturating_add (sr_duplicate_fragment_count scan) duplicates,
             pf_conflicting_fragment_count := saturating_add (sr_conflicting_fragment_count scan) conflicts\<rparr>\<rparr>"

text \<open>The update of one counter that a classification selects.\<close>

fun count_match :: "persisted_fragment_match \<Rightarrow> scan_row \<Rightarrow> scan_row" where
  "count_match MatchDuplicate scan =
     scan\<lparr>sr_duplicate_fragment_count := saturating_add (sr_duplicate_fragment_count scan) 1,
          sr_record_json := (sr_record_json scan)
            \<lparr>pf_duplicate_fragment_count := saturating_add (sr_duplicate_fragment_count scan) 1\<rparr>\<rparr>"
| "count_match MatchConflict scan =
     scan\<lparr>sr_conflicting_fragment_count := saturating_add (sr_conflicting_fragment_count scan) 1,
          sr_record_json := (sr_record_json scan)
            \<lparr>pf_conflicting_fragment_count := saturating_add (sr_conflicting_fragment_count scan) 1\<rparr>\<rparr>"

definition update_scans :: "int list \<Rightarrow> (scan_row \<Rightarrow> scan_row) \<Rightarrow> archive \<Rightarrow> archive" where
  "update_scans ids f db =
     foldl (\<lambda>db i. db\<lparr>db_scans := update_rows (\<lambda>scan. sr_id scan = i) f (db_scans db)\<rparr>) db ids"

section \<open>Archiving\<close>

definition insert_reading ::
  "int \<Rightarrow> telemetry_v1 \<Rightarrow> bytes \<Rightarrow> radio_metadata \<Rightarrow> archive \<Rightarrow> (stored_reading \<times> archive, storage_error) result" where
  "insert_reading now frame payload radio db =
     and_then (current_unix_ms now) (\<lambda>received_at. insert_reading_at frame payload radio received_at None db)"

definition insert_received_v1 ::
  "int \<Rightarrow> telemetry_v1 \<Rightarrow> bytes \<Rightarrow> radio_metadata \<Rightarrow> archive \<Rightarrow> (stored_reading \<times> archive, storage_error) result" where
  "insert_received_v1 now frame payload radio db =
    and_then (current_unix_ms now) (\<lambda>received_at.
    and_then (insert_packet_at payload radio received_at LegacyV1 (Some VERSION) None None db) (\<lambda>(packet, db).
    insert_reading_at frame payload radio received_at (Some (sp_id packet)) db))"

definition archive_packet ::
  "int \<Rightarrow> bytes \<Rightarrow> radio_metadata \<Rightarrow> packet_disposition \<Rightarrow> string option \<Rightarrow> archive
     \<Rightarrow> (stored_packet \<times> archive, storage_error) result" where
  "archive_packet now payload radio disposition decode_error db =
    (let version = (if take 2 payload = [0x56, 0x53] \<and> 2 < length payload then Some (payload ! 2) else None);
         frame_type = (if 3 < length payload then Some (payload ! 3) else None)
     in and_then (current_unix_ms now) (\<lambda>received_at.
        insert_packet_at payload radio received_at disposition version frame_type decode_error db))"

text \<open>The packet of a decoded version 2 frame with the columns of its header.\<close>

definition archive_v2_packet ::
  "int \<Rightarrow> bytes \<Rightarrow> radio_metadata \<Rightarrow> header \<Rightarrow> v2_packet_kind \<Rightarrow> archive
     \<Rightarrow> (stored_packet \<times> archive, storage_error) result" where
  "archive_v2_packet received_at payload radio h kind db =
    and_then (insert_packet_at payload radio received_at ProtocolV2 (Some VERSION_V2)
                (Some (frame_type_u8 (h_frame_type h))) None db) (\<lambda>(packet, db).
    and_then (insert_v2_packet_decode_at (sp_id packet) h kind db) (\<lambda>db.
    Ok (packet, db)))"

definition archive_v2_profile_fragment ::
  "int \<Rightarrow> bytes \<Rightarrow> radio_metadata \<Rightarrow> header \<Rightarrow> archive \<Rightarrow> (stored_packet \<times> archive, storage_error) result" where
  "archive_v2_profile_fragment now payload radio h db =
    and_then (current_unix_ms now) (\<lambda>received_at.
    archive_v2_packet received_at payload radio h KindProfileFragment db)"

definition insert_received_device_configuration ::
  "int \<Rightarrow> bytes \<Rightarrow> radio_metadata \<Rightarrow> header \<Rightarrow> device_configuration \<Rightarrow> archive
     \<Rightarrow> (stored_v2_record \<times> archive, storage_error) result" where
  "insert_received_device_configuration now payload radio h c db =
    and_then (map_err InvalidRecord (configuration_validate c)) (\<lambda>_.
    and_then (current_unix_ms now) (\<lambda>received_at.
    and_then (archive_v2_packet received_at payload radio h KindDeviceConfig db) (\<lambda>(packet, db).
    and_then (insert_device_configuration_at c received_at (Some (sp_id packet)) db) (\<lambda>(rec, db).
    Ok (\<lparr>sv_packet = packet, sv_record = rec\<rparr>, db)))))"

definition insert_received_device_health ::
  "int \<Rightarrow> bytes \<Rightarrow> radio_metadata \<Rightarrow> header \<Rightarrow> health_record \<Rightarrow> archive
     \<Rightarrow> (stored_v2_record \<times> archive, storage_error) result" where
  "insert_received_device_health now payload radio h health db =
    and_then (current_unix_ms now) (\<lambda>received_at.
    and_then (archive_v2_packet received_at payload radio h KindDeviceHealth db) (\<lambda>(packet, db).
    and_then (insert_device_health_at health received_at (Some (sp_id packet)) db) (\<lambda>(rec, db).
    Ok (\<lparr>sv_packet = packet, sv_record = rec\<rparr>, db))))"

section \<open>Replay\<close>

definition is_pending_fragment :: "decode_row \<Rightarrow> bool" where
  "is_pending_fragment row \<longleftrightarrow>
     vd_record_kind row = KindProfileFragment \<and> vd_reassembly_status row = Some StatusPending"

definition pending_of :: "packet_row \<Rightarrow> u8 \<Rightarrow> pending_profile_fragment" where
  "pending_of packet fragment_index =
     \<lparr>pp_packet_id = rk_id packet, pp_fragment_index = fragment_index,
      pp_received_at_unix_ms = rk_received_at_unix_ms packet, pp_radio = rk_radio packet,
      pp_payload = rk_payload packet\<rparr>"

definition pending_rows :: "archive \<Rightarrow> pending_profile_fragment list" where
  "pending_rows db =
     [pending_of packet (vd_fragment_index decoded).
        packet \<leftarrow> db_packets db, decoded \<leftarrow> db_decodes db,
        vd_packet_id decoded = rk_id packet \<and> is_pending_fragment decoded]"

definition pending_profile_fragments ::
  "nat \<Rightarrow> archive \<Rightarrow> (pending_profile_fragment list, storage_error) result" where
  "pending_profile_fragments limit db =
    (if \<not> (0 < limit \<and> limit < 2 ^ 63) then fail InvalidPendingReplayLimit else
     let pending = length (pending_rows db)
     in if limit < pending then fail (PendingReplayLimitExceeded pending limit)
        else Ok (take limit (sort_key pp_packet_id (pending_rows db))))"

definition quarantine_pending_profile_fragment ::
  "int \<Rightarrow> string \<Rightarrow> archive \<Rightarrow> (archive, storage_error) result" where
  "quarantine_pending_profile_fragment packet_id err db =
    (let pending = (\<lambda>row. vd_packet_id row = packet_id \<and> is_pending_fragment row);
         (db', changed) = invalidate_packet (\<lambda>row. rk_id row = packet_id \<and> (\<exists>d \<in> set (db_decodes db). pending d))
                            err db
     in if changed \<noteq> 1 then fail (MissingV2Packet packet_id) else
     let (db'', deleted) = delete_decodes pending db'
     in if deleted \<noteq> 1 then fail (MissingV2Packet packet_id) else Ok db'')"

text \<open>Whether the raw bytes decode to a profile fragment with exactly this key.\<close>

definition decodes_to_key :: "bytes \<Rightarrow> profile_key \<Rightarrow> bool" where
  "decodes_to_key payload key =
     (case decode payload of
        Inr (DF_ProfileFragment fragment) \<Rightarrow> profile_key_of (fv_header fragment) = key
      | _ \<Rightarrow> False)"

definition replay_sources :: "profile_key \<Rightarrow> int \<Rightarrow> archive \<Rightarrow> (int \<times> bytes) list" where
  "replay_sources key packet_id db =
     remdups
      [(vd_packet_id decoded, rk_payload packet).
         scan \<leftarrow> db_scans db, source \<leftarrow> db_fragments db, fr_scan_id source = sr_id scan,
         decoded \<leftarrow> db_decodes db, vd_packet_id decoded = fr_packet_id source,
         packet \<leftarrow> db_packets db, rk_id packet = vd_packet_id decoded,
         \<not> sr_transport_complete scan \<and> vd_record_kind decoded = KindProfileFragment
         \<and> vd_reassembly_status decoded \<in> {Some StatusPending, Some StatusIncomplete, Some StatusDuplicate,
             Some StatusConflict}
         \<and> vd_packet_id decoded \<noteq> packet_id \<and> scan_has_key key scan]"

definition integrity_events :: "profile_key \<Rightarrow> int \<Rightarrow> archive \<Rightarrow> (int \<times> bytes) list" where
  "integrity_events key packet_id db =
     sort_key fst
      [(vd_packet_id decoded, rk_payload packet).
         decoded \<leftarrow> db_decodes db, packet \<leftarrow> db_packets db, rk_id packet = vd_packet_id decoded,
         vd_record_kind decoded = KindProfileFragment
         \<and> vd_reassembly_status decoded \<in> {Some StatusDuplicate, Some StatusConflict}
         \<and> vd_packet_id decoded \<noteq> packet_id
         \<and> vd_node_id decoded = hex_u64 (pk_node_id key) \<and> vd_boot_id decoded = hex_u64 (pk_boot_id key)
         \<and> vd_scan_sequence decoded = pk_scan_sequence key
         \<and> vd_uptime_ms decoded = hex_u64 (pk_uptime_ms key)
         \<and> vd_config_id decoded = hex_u64 (pk_config_id key)]"

definition replay_candidates :: "profile_key \<Rightarrow> int \<Rightarrow> archive \<Rightarrow> (int \<times> bytes) list" where
  "replay_candidates key packet_id db =
    (if count_rows (\<lambda>scan. sr_transport_complete scan \<and> scan_has_key key scan) (db_scans db) = 0
     then sort_key fst
       (foldl (\<lambda>candidates (candidate_id, payload).
                 if decodes_to_key payload key \<and> candidate_id \<notin> set (map fst candidates)
                 then candidates @ [(candidate_id, payload)] else candidates)
          (replay_sources key packet_id db) (integrity_events key packet_id db))
     else replay_sources key packet_id db)"

definition REPLAY_ERROR :: string where
  "REPLAY_ERROR = ''same-key incomplete replay validation failed''"

definition requeue_candidate :: "profile_key \<Rightarrow> archive \<Rightarrow> int \<times> bytes \<Rightarrow> archive" where
  "requeue_candidate key db candidate =
    (case candidate of (candidate_id, payload) \<Rightarrow>
     if decodes_to_key payload key
     then fst (set_status (\<lambda>row. vd_packet_id row = candidate_id) StatusPending db)
     else fst (delete_decodes (\<lambda>row. vd_packet_id row = candidate_id)
                (fst (invalidate_packet (\<lambda>row. rk_id row = candidate_id) REPLAY_ERROR db))))"

definition quarantine_incomplete_profile_fragment ::
  "int \<Rightarrow> profile_key \<Rightarrow> int \<Rightarrow> string \<Rightarrow> archive \<Rightarrow> (archive, storage_error) result" where
  "quarantine_incomplete_profile_fragment scan_id key packet_id err db =
    (let linked = length [(). scan \<leftarrow> db_scans db, source \<leftarrow> db_fragments db,
           fr_scan_id source = sr_id scan \<and> sr_id scan = scan_id \<and> \<not> sr_transport_complete scan
           \<and> fr_packet_id source = packet_id]
     in if linked \<noteq> 1 then fail (MissingV2Packet packet_id) else
     let db' = foldl (requeue_candidate key) db (replay_candidates key packet_id db);
         (db', changed) = invalidate_packet (\<lambda>row. rk_id row = packet_id) err db'
     in if changed \<noteq> 1 then fail (MissingV2Packet packet_id) else
     let (db', _) = delete_decodes (\<lambda>row. vd_packet_id row = packet_id) db';
         (db', deleted) = delete_scans (\<lambda>scan. \<not> sr_transport_complete scan \<and> scan_has_key key scan) db'
     in if deleted = 0 then fail CorruptIncompleteProfile else Ok db')"

end
