(* ===== verification/Archive_Scans.thy ===== *)
theory Archive_Scans
  imports Archive
begin

text \<open>
  The scans of the archive (\<^verbatim>\<open>database.rs\<close>): loading the incomplete ones, reconciling a fragment with
  persisted scans, merging an obsolete incomplete scan into a complete one, and storing a profile.
\<close>

section \<open>Incomplete scans\<close>

record incomplete_row =
  iw_scan :: scan_row
  iw_fragment :: fragment_row
  iw_packet :: packet_row

definition incomplete_rows :: "profile_key option \<Rightarrow> archive \<Rightarrow> incomplete_row list" where
  "incomplete_rows key db =
     sort_key (\<lambda>row. sr_id (iw_scan row))
      (sort_key (\<lambda>row. fr_fragment_index (iw_fragment row))
        (sort_key (\<lambda>row. rk_id (iw_packet row))
          [\<lparr>iw_scan = scan, iw_fragment = fragment, iw_packet = packet\<rparr>.
             scan \<leftarrow> db_scans db, fragment \<leftarrow> db_fragments db, fr_scan_id fragment = sr_id scan,
             packet \<leftarrow> db_packets db, rk_id packet = fr_packet_id fragment,
             \<not> sr_transport_complete scan \<and> (case key of None \<Rightarrow> True | Some k \<Rightarrow> scan_has_key k scan)]))"

definition row_key :: "scan_row \<Rightarrow> (profile_key, storage_error) result" where
  "row_key scan =
    and_then (parse_hex_u64 (sr_node_id scan) ''node_id'') (\<lambda>node_id.
    and_then (parse_hex_u64 (sr_boot_id scan) ''boot_id'') (\<lambda>boot_id.
    and_then (parse_hex_u64 (sr_uptime_ms scan) ''uptime_ms'') (\<lambda>uptime_ms.
    and_then (parse_hex_u64 (sr_config_id scan) ''config_id'') (\<lambda>config_id.
    Ok \<lparr>pk_node_id = node_id, pk_boot_id_valid = (sr_common_flags scan AND 1 \<noteq> 0), pk_boot_id = boot_id,
        pk_scan_sequence = sr_scan_sequence scan, pk_uptime_ms = uptime_ms, pk_config_id = config_id\<rparr>))))"

text \<open>One row of the query: it opens a new profile or continues the last one.\<close>

definition add_incomplete_row ::
  "incomplete_row \<Rightarrow> persisted_incomplete_profile list \<Rightarrow> (persisted_incomplete_profile list, storage_error) result" where
  "add_incomplete_row row profiles =
    (let scan = iw_scan row in
     and_then (row_key scan) (\<lambda>key.
     let profiles =
           (if profiles = [] \<or> ip_scan_id (last profiles) \<noteq> sr_id scan
            then profiles @
              [\<lparr>ip_scan_id = sr_id scan, ip_key = key,
                ip_duplicate_fragment_count = sr_duplicate_fragment_count scan,
                ip_conflicting_fragment_count = sr_conflicting_fragment_count scan, ip_fragments = []\<rparr>]
            else profiles);
         profile = last profiles
     in if ip_key profile \<noteq> key then fail CorruptIncompleteProfile else
     Ok (butlast profiles @
       [profile\<lparr>ip_fragments := ip_fragments profile @
          [pending_of (iw_packet row) (fr_fragment_index (iw_fragment row))]\<rparr>])))"

definition incomplete_profiles_matching ::
  "profile_key option \<Rightarrow> nat \<Rightarrow> archive \<Rightarrow> (persisted_incomplete_profile list, storage_error) result" where
  "incomplete_profiles_matching key fragment_limit db =
    (if \<not> (0 < fragment_limit \<and> fragment_limit < 2 ^ 63) then fail InvalidIncompleteReplayLimit else
     let fragment_count = length [(). scan \<leftarrow> db_scans db, fragment \<leftarrow> db_fragments db,
           fr_scan_id fragment = sr_id scan \<and> \<not> sr_transport_complete scan
           \<and> (case key of None \<Rightarrow> True | Some k \<Rightarrow> scan_has_key k scan)]
     in if fragment_limit < fragment_count
        then fail (IncompleteReplayLimitExceeded fragment_count fragment_limit)
        else for_each (take fragment_limit (incomplete_rows key db)) [] add_incomplete_row)"

definition incomplete_profiles :: "nat \<Rightarrow> archive \<Rightarrow> (persisted_incomplete_profile list, storage_error) result" where
  "incomplete_profiles = incomplete_profiles_matching None"

definition incomplete_profiles_for_key ::
  "profile_key \<Rightarrow> nat \<Rightarrow> archive \<Rightarrow> (persisted_incomplete_profile list, storage_error) result" where
  "incomplete_profiles_for_key key = incomplete_profiles_matching (Some key)"

section \<open>Reconciliation\<close>

text \<open>The scans with the key and the payloads they hold at an index, in the order of the scans.\<close>

definition persisted_payloads :: "profile_key \<Rightarrow> u8 \<Rightarrow> archive \<Rightarrow> (int \<times> bytes) list" where
  "persisted_payloads key fragment_index db =
     sort_key fst
      [(sr_id scan, rk_payload packet).
         scan \<leftarrow> db_scans db, fragment \<leftarrow> db_fragments db,
         fr_scan_id fragment = sr_id scan \<and> fr_fragment_index fragment = fragment_index,
         packet \<leftarrow> db_packets db, rk_id packet = fr_packet_id fragment, scan_has_key key scan]"

definition classify_payload :: "bytes \<Rightarrow> bytes list \<Rightarrow> persisted_fragment_match" where
  "classify_payload payload persisted =
     (if list_all (\<lambda>p. p = payload) persisted then MatchDuplicate else MatchConflict)"

definition reconcile_persisted_profile_fragment ::
  "profile_key \<Rightarrow> int \<Rightarrow> u8 \<Rightarrow> bytes \<Rightarrow> archive
     \<Rightarrow> (persisted_fragment_match option \<times> archive, storage_error) result" where
  "reconcile_persisted_profile_fragment key packet_id fragment_index payload db =
    (let persisted = persisted_payloads key fragment_index db in
     if persisted = [] then Ok (None, db) else
     let classification = classify_payload payload (map snd persisted);
         db = update_scans (map fst persisted) (count_match classification) db;
         (db, _) = set_status (\<lambda>row. vd_packet_id row = packet_id) (storage_status classification) db
     in Ok (Some classification, db))"

definition completed_payloads :: "profile_key \<Rightarrow> u8 \<Rightarrow> archive \<Rightarrow> bytes list" where
  "completed_payloads key fragment_index db =
     [rk_payload packet.
        scan \<leftarrow> db_scans db, source \<leftarrow> db_fragments db,
        fr_scan_id source = sr_id scan \<and> fr_fragment_index source = fragment_index,
        packet \<leftarrow> db_packets db, rk_id packet = fr_packet_id source,
        sr_transport_complete scan \<and> scan_has_key key scan]"

definition coalesce_fragment ::
  "profile_key \<Rightarrow> int list \<Rightarrow> pending_profile_fragment \<Rightarrow> persisted_fragment_classification list \<times> archive
     \<Rightarrow> (persisted_fragment_classification list \<times> archive, storage_error) result" where
  "coalesce_fragment key complete_scan_ids fragment state =
    (case state of (classifications, db) \<Rightarrow>
     let payloads = completed_payloads key (pp_fragment_index fragment) db in
     if payloads = [] then fail CorruptIncompleteProfile else
     let classification = classify_payload (pp_payload fragment) payloads;
         db = update_scans complete_scan_ids (count_match classification) db;
         (db, changed) = set_status (\<lambda>row. vd_packet_id row = pp_packet_id fragment
                            \<and> vd_record_kind row = KindProfileFragment) (storage_status classification) db
     in if changed \<noteq> 1 then fail (MissingV2Packet (pp_packet_id fragment))
     else Ok (classifications @
            [\<lparr>pc_packet_id = pp_packet_id fragment, pc_fragment_index = pp_fragment_index fragment,
              pc_classification = classification\<rparr>], db))"

definition coalesce_incomplete_profile_into_completed ::
  "persisted_incomplete_profile \<Rightarrow> archive
     \<Rightarrow> (persisted_fragment_classification list option \<times> archive, storage_error) result" where
  "coalesce_incomplete_profile_into_completed profile db =
    (let complete_scan_ids = sort (map sr_id (filter (\<lambda>scan. sr_transport_complete scan
           \<and> scan_has_key (ip_key profile) scan) (db_scans db)))
     in if complete_scan_ids = [] then Ok (None, db) else
     let db = update_scans complete_scan_ids
                (add_counts (ip_duplicate_fragment_count profile) (ip_conflicting_fragment_count profile)) db
     in
     and_then (for_each (ip_fragments profile) ([], db) (coalesce_fragment (ip_key profile) complete_scan_ids))
       (\<lambda>(classifications, db).
     let (db, deleted) = delete_scans (\<lambda>scan. sr_id scan = ip_scan_id profile \<and> \<not> sr_transport_complete scan) db
     in if 1 < deleted then fail CorruptIncompleteProfile else Ok (Some classifications, db)))"

definition mark_fragment_status ::
  "int \<Rightarrow> fragment_storage_status \<Rightarrow> archive \<Rightarrow> (archive, storage_error) result" where
  "mark_fragment_status packet_id status db =
    (let (db, changed) = set_status (\<lambda>row. vd_packet_id row = packet_id
           \<and> vd_record_kind row = KindProfileFragment) status db
     in if changed = 1 then Ok db else fail (MissingV2Packet packet_id))"

section \<open>Storing a profile\<close>

definition insert_profile_step :: "int \<Rightarrow> step_record \<Rightarrow> archive \<Rightarrow> (archive, storage_error) result" where
  "insert_profile_step i step db =
    (if 9 < st_step_index step then fail (Sqlite ConstraintCheck) else
     if (i, st_step_index step) \<in> set (map (map_prod id st_step_index) (db_steps db))
     then fail (Sqlite ConstraintPrimaryKey)
     else Ok (db\<lparr>db_steps := db_steps db @ [(i, step)]\<rparr>))"

definition insert_profile_fragment ::
  "int \<Rightarrow> fragment_storage_status \<Rightarrow> source_fragment \<Rightarrow> archive \<Rightarrow> (archive, storage_error) result" where
  "insert_profile_fragment i status fragment db =
    (if (i, sf_fragment_index fragment) \<in> set (map (\<lambda>f. (fr_scan_id f, fr_fragment_index f)) (db_fragments db))
     then fail (Sqlite ConstraintPrimaryKey) else
     if sf_packet_id fragment \<in> set (map fr_packet_id (db_fragments db)) then fail (Sqlite ConstraintUnique) else
     if sf_packet_id fragment \<notin> set (map rk_id (db_packets db)) then fail (Sqlite ConstraintForeignKey) else
     let db = db\<lparr>db_fragments := db_fragments db @
           [\<lparr>fr_scan_id = i, fr_packet_id = sf_packet_id fragment, fr_fragment_index = sf_fragment_index fragment,
             fr_received_at_unix_ms = sf_received_at_unix_ms fragment, fr_radio = sf_radio fragment\<rparr>]\<rparr>
     in Ok (fst (set_status (\<lambda>row. vd_packet_id row = sf_packet_id fragment) status db)))"

definition scan_record_key :: "scan_record \<Rightarrow> profile_key" where
  "scan_record_key scan =
     \<lparr>pk_node_id = ri_node_id (pf_identity scan),
      pk_boot_id_valid = (ri_common_flags (pf_identity scan) AND 1 \<noteq> 0),
      pk_boot_id = ri_boot_id (pf_identity scan),
      pk_scan_sequence = ri_scan_sequence (pf_identity scan),
      pk_uptime_ms = ri_uptime_ms (pf_identity scan),
      pk_config_id = ri_config_id (pf_identity scan)\<rparr>"

definition new_scan_row :: "int \<Rightarrow> int \<Rightarrow> int \<Rightarrow> scan_record \<Rightarrow> u16 \<Rightarrow> bool \<Rightarrow> scan_row" where
  "new_scan_row i first_received last_received scan missing complete =
     \<lparr>sr_id = i, sr_first_received_at_unix_ms = first_received, sr_last_received_at_unix_ms = last_received,
      sr_node_id = hex_u64 (ri_node_id (pf_identity scan)), sr_boot_id = hex_u64 (ri_boot_id (pf_identity scan)),
      sr_scan_sequence = ri_scan_sequence (pf_identity scan),
      sr_uptime_ms = hex_u64 (ri_uptime_ms (pf_identity scan)),
      sr_config_id = hex_u64 (ri_config_id (pf_identity scan)),
      sr_common_flags = ri_common_flags (pf_identity scan), sr_columns = scan,
      sr_missing_fragment_bitmap = missing,
      sr_duplicate_fragment_count = pf_duplicate_fragment_count scan,
      sr_conflicting_fragment_count = pf_conflicting_fragment_count scan,
      sr_transport_complete = complete, sr_record_json = scan\<rparr>"

definition insert_profile_scan_inner ::
  "reassembled_profile \<Rightarrow> (int \<times> fragment_storage_status) option \<Rightarrow> archive
     \<Rightarrow> (stored_record \<times> archive, storage_error) result" where
  "insert_profile_scan_inner profile integrity_packet db =
    (let scan = rp_scan profile in
     and_then (map_err InvalidRecord (scan_validate scan)) (\<lambda>_.
     and_then (ok_or (first_received_at_unix_ms profile) ProfileWithoutFragments) (\<lambda>first_received.
     and_then (ok_or (last_received_at_unix_ms profile) ProfileWithoutFragments) (\<lambda>last_received.
     let (db, _) = delete_scans (\<lambda>row. \<not> sr_transport_complete row \<and> scan_has_key (scan_record_key scan) row) db
     in
     and_then (missing_fragment_bitmap scan) (\<lambda>missing.
     and_then (is_transport_complete scan) (\<lambda>complete.
     if \<not> (1 \<le> pf_expected_steps scan \<and> pf_expected_steps scan \<le> 10) then fail (Sqlite ConstraintCheck) else
     let i = new_rowid (map sr_id (db_scans db));
         db = db\<lparr>db_scans := db_scans db @ [new_scan_row i first_received last_received scan missing complete]\<rparr>;
         status = (if complete then StatusAssembled else StatusIncomplete)
     in
     and_then (for_each (pf_steps scan) db (insert_profile_step i)) (\<lambda>db.
     and_then (for_each (rp_fragments profile) db (insert_profile_fragment i status)) (\<lambda>db.
     and_then
       (case integrity_packet of
          None \<Rightarrow> Ok db
        | Some (packet_id, status) \<Rightarrow> mark_fragment_status packet_id status db) (\<lambda>db.
     Ok (\<lparr>so_id = i, so_received_at_unix_ms = last_received\<rparr>, db))))))))))"

definition insert_profile_scan ::
  "reassembled_profile \<Rightarrow> archive \<Rightarrow> (stored_record \<times> archive, storage_error) result" where
  "insert_profile_scan profile = insert_profile_scan_inner profile None"

definition insert_profile_integrity_snapshot ::
  "reassembled_profile \<Rightarrow> int \<Rightarrow> fragment_storage_status \<Rightarrow> archive
     \<Rightarrow> (stored_record \<times> archive, storage_error) result" where
  "insert_profile_integrity_snapshot profile packet_id status =
     insert_profile_scan_inner profile (Some (packet_id, status))"

end
