(* ===== verification/Archive_Invariant.thy ===== *)
theory Archive_Invariant
  imports Archive_Scans "HOL-Library.Sublist"
begin

text \<open>
  The invariant of the archive and its preservation by every operation: keys and references are
  intact, rows repeat the record they were made from, and a logical scan has at most one incomplete
  row. The raw packets only ever grow.
\<close>

section \<open>Identities as text\<close>

lemma to_hex_inject: "to_hex xs = to_hex ys \<Longrightarrow> xs = ys"
proof (induction xs arbitrary: ys)
  case Nil
  then show ?case by (cases ys) (auto simp: to_hex_def nibbles_def)
next
  case (Cons x xs)
  then obtain y ys' where ys: "ys = y # ys'" by (cases ys) (auto simp: to_hex_def nibbles_def)
  then have "map hex_digit (nibbles x) = map hex_digit (nibbles y)" "to_hex xs = to_hex ys'"
    using Cons.prems by (auto simp: to_hex_def nibbles_def)
  moreover from this(1) have "nibbles x = nibbles y"
    using hex_digit_inverse nibbles_less by (auto simp: nibbles_def) (metis list.set_intros option.inject)+
  moreover have "x = y" if "nibbles x = nibbles y"
    using that join_nibbles split_byte by (metis (no_types) nibbles_def list.inject)
  ultimately show ?case using Cons.IH ys by simp
qed

lemma hex_u64_inject: "hex_u64 v = hex_u64 w \<longleftrightarrow> v = w"
  by (metis be_bytes_inverse(4) hex_u64_def to_hex_inject)

definition digit_step :: "u64 option \<Rightarrow> u8 \<Rightarrow> u64 option" where
  "digit_step acc c = Option.bind acc (\<lambda>v. Option.bind (hex_nibble c) (\<lambda>d.
     if unat v * 16 + unat d < 2 ^ 64 then Some (v * 16 + ucast d) else None))"

lemma unat_nibbles: "unat (b :: u8) = 16 * unat (drop_bit 4 b) + unat (b AND 0x0f)"
proof -
  have "unat (b AND mask 4) = unat b mod 16"
    by (simp flip: take_bit_eq_mask add: take_bit_eq_mod unat_mod)
  moreover have "unat (drop_bit 4 b) = unat b div 16" by (simp add: drop_bit_eq_div unat_div)
  ultimately show ?thesis by (simp add: mask_numeral)
qed

lemma digit_steps_byte:
  assumes "unat v * 256 < 2 ^ 64"
  shows "foldl digit_step (Some v) (map hex_digit (nibbles b)) = Some (push_bit 8 v OR ucast b)"
    and "unat (push_bit 8 v OR ucast b :: u64) = unat v * 256 + unat b"
proof -
  have b: "unat b < 256" using unsigned_less [of b, where 'a = nat] by simp
  have d: "unat (drop_bit 4 b) < 16" "unat (b AND 0x0f) < 16"
    using nibbles_less [of "drop_bit 4 b" b] nibbles_less [of "b AND 0x0f" b]
    by (simp_all add: nibbles_def word_less_nat_alt)
  have nib: "hex_nibble (hex_digit (drop_bit 4 b)) = Some (drop_bit 4 b)"
    "hex_nibble (hex_digit (b AND 0x0f)) = Some (b AND 0x0f)"
    using hex_digit_inverse nibbles_less [of "drop_bit 4 b" b] nibbles_less [of "b AND 0x0f" b]
    by (simp_all add: nibbles_def)
  have one: "unat (v * 16 + ucast (drop_bit 4 b)) = unat v * 16 + unat (drop_bit 4 b)"
    using assms d(1) by (simp add: unat_word_ariths unat_ucast_widen)
  have two: "unat (v * 16 + ucast (drop_bit 4 b)) * 16 + unat (b AND 0x0f) = unat v * 256 + unat b"
    unfolding one by (simp add: unat_nibbles [of b])
  have fits: "unat v * 16 + unat (drop_bit 4 b) < 2 ^ 64" "unat v * 256 + unat b < 2 ^ 64"
    using assms b d(1) by auto
  have "foldl digit_step (Some v) (map hex_digit (nibbles b))
      = Some ((v * 16 + ucast (drop_bit 4 b)) * 16 + ucast (b AND 0x0f))"
    using fits by (simp add: digit_step_def nibbles_def nib two)
  moreover have or: "push_bit 8 v OR ucast b = v * 256 + (ucast b :: u64)"
  proof -
    have "push_bit 8 v AND (ucast b :: u64) = 0"
      by (rule bit_word_eqI) (auto simp: bit_simps dest: bit_imp_le_length)
    then have "push_bit 8 v OR ucast b = push_bit 8 v + (ucast b :: u64)"
      by (rule disjunctive_add_eq_or [symmetric])
    then show ?thesis by (simp add: push_bit_eq_mult mult.commute)
  qed
  moreover have "(v * 16 + ucast (drop_bit 4 b)) * 16 + ucast (b AND 0x0f) = v * 256 + (ucast b :: u64)"
  proof (rule unsigned_word_eqI [where 'a = nat])
    show "unat ((v * 16 + ucast (drop_bit 4 b)) * 16 + ucast (b AND 0x0f)) = unat (v * 256 + (ucast b :: u64))"
      using fits two d(2) b by (simp add: unat_word_ariths unat_ucast_widen)
  qed
  ultimately show "foldl digit_step (Some v) (map hex_digit (nibbles b)) = Some (push_bit 8 v OR ucast b)" by simp
  show "unat (push_bit 8 v OR ucast b :: u64) = unat v * 256 + unat b"
    unfolding or using fits b by (simp add: unat_word_ariths unat_ucast_widen)
qed

lemma digit_steps:
  assumes "(unat v + 1) * 256 ^ length bs \<le> 2 ^ 64"
  shows "foldl digit_step (Some v) (to_hex bs) = Some (foldl (\<lambda>acc b. push_bit 8 acc OR ucast b) v bs)"
  using assms
proof (induction bs arbitrary: v)
  case Nil
  then show ?case by (simp add: to_hex_def)
next
  case (Cons b bs)
  have "(unat v + 1) * 256 * 1 \<le> (unat v + 1) * 256 * 256 ^ length bs" by (intro mult_le_mono2) simp
  also have "\<dots> \<le> 2 ^ 64" using Cons.prems by (simp add: algebra_simps)
  finally have fits: "unat v * 256 < 2 ^ 64" by simp
  have "unat b < 256" using unsigned_less [of b, where 'a = nat] by simp
  then have "unat (push_bit 8 v OR ucast b :: u64) + 1 \<le> (unat v + 1) * 256"
    using digit_steps_byte(2) [OF fits, of b] by simp
  then have "(unat (push_bit 8 v OR ucast b :: u64) + 1) * 256 ^ length bs \<le> (unat v + 1) * 256 * 256 ^ length bs"
    by (rule mult_le_mono1)
  also have "\<dots> \<le> 2 ^ 64" using Cons.prems by (simp add: algebra_simps)
  finally show ?case using Cons.IH digit_steps_byte(1) [OF fits, of b] by (simp add: to_hex_def)
qed

lemma parse_hex_u64_hex [simp]: "parse_hex_u64 (hex_u64 w) field = Ok w"
proof -
  obtain c rest where str: "hex_u64 w = c # rest" and c: "c \<noteq> 0x2b"
  proof -
    have "length (to_be_bytes w) = 8" by simp
    then obtain b bs where "to_be_bytes w = b # bs" by (cases "to_be_bytes w") auto
    then have "hex_u64 w = hex_digit (drop_bit 4 b) # tl (hex_u64 w)"
      by (simp add: hex_u64_def to_hex_def nibbles_def)
    moreover have "hex_digit (drop_bit 4 b) \<noteq> 0x2b"
    proof
      assume "hex_digit (drop_bit 4 b) = 0x2b"
      then have "hex_nibble 0x2b = Some (drop_bit 4 b)"
        using hex_digit_inverse nibbles_less [of "drop_bit 4 b" b] by (metis list.set_intros(1) nibbles_def)
      then show False by (simp add: hex_nibble_def)
    qed
    ultimately show ?thesis using that by blast
  qed
  have "foldl digit_step (Some 0) (hex_u64 w) = Some w"
    unfolding hex_u64_def using digit_steps [of 0 "to_be_bytes w"] be_bytes_inverse(4) [of w]
    by (simp add: from_be_bytes_def)
  then have "from_str_radix_16 (hex_u64 w) = Some w"
    using c unfolding str from_str_radix_16_def digit_step_def by simp
  then show ?thesis by (simp add: parse_hex_u64_def)
qed

section \<open>Well-formed tables\<close>

definition raw_packet :: "packet_row \<Rightarrow> int \<times> int \<times> radio_metadata \<times> u8 option \<times> u8 option \<times> bytes" where
  "raw_packet row = (rk_id row, rk_received_at_unix_ms row, rk_radio row, rk_protocol_version row,
     rk_frame_type row, rk_payload row)"

text \<open>What was received, without the disposition that may change.\<close>

definition raw_packets :: "archive \<Rightarrow> (int \<times> int \<times> radio_metadata \<times> u8 option \<times> u8 option \<times> bytes) list" where
  "raw_packets db = map raw_packet (db_packets db)"

abbreviation packet_ids :: "archive \<Rightarrow> int set" where
  "packet_ids db \<equiv> rk_id ` set (db_packets db)"

definition packets_ok :: "archive \<Rightarrow> bool" where
  "packets_ok db \<longleftrightarrow> distinct (map rk_id (db_packets db))
     \<and> (\<forall>p \<in> set (db_packets db). 0 \<le> rk_received_at_unix_ms p \<and> length (rk_payload p) \<le> 255)"

definition decodes_ok :: "archive \<Rightarrow> bool" where
  "decodes_ok db \<longleftrightarrow> distinct (map vd_packet_id (db_decodes db))
     \<and> vd_packet_id ` set (db_decodes db) \<subseteq> packet_ids db"

text \<open>A row repeats the record it was made from; its counters are the ones of the JSON record.\<close>

definition scan_row_ok :: "scan_row \<Rightarrow> bool" where
  "scan_row_ok row \<longleftrightarrow>
    (let scan = sr_columns row in
     scan_validate scan = Ok ()
     \<and> sr_node_id row = hex_u64 (ri_node_id (pf_identity scan))
     \<and> sr_boot_id row = hex_u64 (ri_boot_id (pf_identity scan))
     \<and> sr_scan_sequence row = ri_scan_sequence (pf_identity scan)
     \<and> sr_uptime_ms row = hex_u64 (ri_uptime_ms (pf_identity scan))
     \<and> sr_config_id row = hex_u64 (ri_config_id (pf_identity scan))
     \<and> sr_common_flags row = ri_common_flags (pf_identity scan)
     \<and> sr_record_json row = scan\<lparr>pf_duplicate_fragment_count := sr_duplicate_fragment_count row,
                                  pf_conflicting_fragment_count := sr_conflicting_fragment_count row\<rparr>
     \<and> missing_fragment_bitmap scan = (Ok (sr_missing_fragment_bitmap row) :: (u16, storage_error) result)
     \<and> is_transport_complete scan = (Ok (sr_transport_complete row) :: (bool, storage_error) result))"

text \<open>A logical scan has at most one incomplete row.\<close>

definition scans_ok :: "archive \<Rightarrow> bool" where
  "scans_ok db \<longleftrightarrow> distinct (map sr_id (db_scans db))
     \<and> (\<forall>row \<in> set (db_scans db). scan_row_ok row)
     \<and> distinct (map (\<lambda>row. scan_record_key (sr_columns row))
          (filter (\<lambda>row. \<not> sr_transport_complete row) (db_scans db)))"

definition links_ok :: "archive \<Rightarrow> bool" where
  "links_ok db \<longleftrightarrow>
     distinct (map fr_packet_id (db_fragments db))
     \<and> distinct (map (\<lambda>f. (fr_scan_id f, fr_fragment_index f)) (db_fragments db))
     \<and> fr_packet_id ` set (db_fragments db) \<subseteq> packet_ids db
     \<and> fr_scan_id ` set (db_fragments db) \<subseteq> sr_id ` set (db_scans db)
     \<and> distinct (map (map_prod id st_step_index) (db_steps db))
     \<and> fst ` set (db_steps db) \<subseteq> sr_id ` set (db_scans db)"

definition records_ok :: "archive \<Rightarrow> bool" where
  "records_ok db \<longleftrightarrow>
     distinct (map cw_id (db_configurations db)) \<and> distinct (map hw_id (db_health db))
     \<and> distinct (map rd_id (db_readings db))
     \<and> distinct (map (map_prod id hc_step_index) (db_heater_steps db))
     \<and> fst ` set (db_heater_steps db) \<subseteq> cw_id ` set (db_configurations db)
     \<and> Some ` packet_ids db \<union> {None} \<supseteq> cw_source_packet_id ` set (db_configurations db)
          \<union> hw_source_packet_id ` set (db_health db) \<union> rd_radio_packet_id ` set (db_readings db)"

definition archive_ok :: "archive \<Rightarrow> bool" where
  "archive_ok db \<longleftrightarrow> packets_ok db \<and> decodes_ok db \<and> scans_ok db \<and> links_ok db \<and> records_ok db"

lemmas archive_ok_defs = archive_ok_def packets_ok_def decodes_ok_def scans_ok_def links_ok_def records_ok_def

lemma archive_okD:
  assumes "archive_ok db"
  shows "packets_ok db" "decodes_ok db" "scans_ok db" "links_ok db" "records_ok db"
  using assms by (simp_all add: archive_ok_def)

lemma empty_archive_ok: "archive_ok empty_archive"
  by (simp add: archive_ok_defs empty_archive_def)

text \<open>An operation keeps the invariant and appends to the raw packets.\<close>

definition keeps :: "archive \<Rightarrow> archive \<Rightarrow> bool" where
  "keeps db db' \<longleftrightarrow> (archive_ok db \<longrightarrow> archive_ok db') \<and> prefix (raw_packets db) (raw_packets db')"

lemma keeps_refl [simp]: "keeps db db"
  by (simp add: keeps_def)

lemma keeps_trans [trans]: "keeps a b \<Longrightarrow> keeps b c \<Longrightarrow> keeps a c"
  unfolding keeps_def using prefix_order.trans by blast

section \<open>Inserting\<close>

lemma new_rowid_fresh: "new_rowid ids \<notin> set ids"
proof -
  have "i \<le> foldl max i rest \<and> (\<forall>x \<in> set rest. x \<le> foldl max i rest)" for i :: int and rest
  proof (induction rest arbitrary: i)
    case Nil
    then show ?case by simp
  next
    case (Cons r rest)
    from Cons.IH [of "max i r"] show ?case by auto
  qed
  then have bound: "\<forall>x \<in> set (i # rest). x < foldl max i rest + 1" for i :: int and rest
    by (metis add_strict_increasing2 less_add_one order_le_less_trans set_ConsD)
  show ?thesis
  proof (cases ids)
    case (Cons i rest)
    then show ?thesis using bound [of i rest] unfolding new_rowid_def by (metis list.simps(5) less_irrefl)
  qed simp
qed

text \<open>Each part of the invariant depends on its own tables and on the packets that exist.\<close>

lemma decodes_ok_mono:
  "decodes_ok db \<Longrightarrow> db_decodes db' = db_decodes db \<Longrightarrow> packet_ids db \<subseteq> packet_ids db' \<Longrightarrow> decodes_ok db'"
  unfolding decodes_ok_def by (metis subset_trans)

lemma scans_ok_cong: "db_scans db' = db_scans db \<Longrightarrow> scans_ok db' = scans_ok db"
  by (simp add: scans_ok_def)

lemma links_ok_mono:
  "links_ok db \<Longrightarrow> db_fragments db' = db_fragments db \<Longrightarrow> db_steps db' = db_steps db
     \<Longrightarrow> sr_id ` set (db_scans db') = sr_id ` set (db_scans db) \<Longrightarrow> packet_ids db \<subseteq> packet_ids db' \<Longrightarrow> links_ok db'"
  unfolding links_ok_def by (metis (no_types, lifting) subset_trans)

lemma records_ok_mono:
  assumes "records_ok db" and "db_configurations db' = db_configurations db" and "db_health db' = db_health db"
    and "db_readings db' = db_readings db" and "db_heater_steps db' = db_heater_steps db"
    and "packet_ids db \<subseteq> packet_ids db'"
  shows "records_ok db'"
proof -
  have "Some ` packet_ids db \<union> {None} \<subseteq> Some ` packet_ids db' \<union> {None}" using assms(6) by blast
  then show ?thesis using assms(1) unfolding records_ok_def assms(2-5) by (meson subset_trans)
qed

lemma insert_packet_Ok:
  assumes "insert_packet_at payload radio received_at disposition version ft err db = Ok (p, db')"
  obtains row where "db' = db\<lparr>db_packets := db_packets db @ [row]\<rparr>" "rk_id row = sp_id p" "sp_id p \<notin> packet_ids db"
    "0 \<le> rk_received_at_unix_ms row" "length (rk_payload row) \<le> 255"
    "raw_packet row = (sp_id p, received_at, radio, version, ft, payload)" "sp_received_at_unix_ms p = received_at"
    "rk_disposition row = disposition"
  using assms new_rowid_fresh [of "map rk_id (db_packets db)"]
  by (fastforce simp: insert_packet_at_def raw_packet_def Let_def split: if_splits)

lemma insert_packet_keeps:
  assumes "insert_packet_at payload radio received_at disposition version ft err db = Ok (p, db')"
  shows "keeps db db'"
proof -
  obtain row where row: "db' = db\<lparr>db_packets := db_packets db @ [row]\<rparr>" "rk_id row = sp_id p"
    "sp_id p \<notin> packet_ids db" "0 \<le> rk_received_at_unix_ms row" "length (rk_payload row) \<le> 255"
    using assms by (rule insert_packet_Ok)
  have "archive_ok db'" if ok: "archive_ok db"
  proof -
    have "packets_ok db'" using archive_okD(1) [OF ok] row by (auto simp: packets_ok_def)
    moreover have "decodes_ok db'"
      by (rule decodes_ok_mono [OF archive_okD(2) [OF ok]]) (use row(1) in auto)
    moreover have "scans_ok db'" using archive_okD(3) [OF ok] by (simp add: row(1) scans_ok_def)
    moreover have "links_ok db'"
      by (rule links_ok_mono [OF archive_okD(4) [OF ok]]) (use row(1) in auto)
    moreover have "records_ok db'"
      by (rule records_ok_mono [OF archive_okD(5) [OF ok]]) (use row(1) in auto)
    ultimately show ?thesis by (simp add: archive_ok_def)
  qed
  then show ?thesis by (simp add: keeps_def raw_packets_def row(1))
qed

lemma keepsI:
  assumes "raw_packets db' = raw_packets db" and "archive_ok db \<Longrightarrow> archive_ok db'"
  shows "keeps db db'"
  using assms by (simp add: keeps_def)

lemma raw_packet_ids: "raw_packets db' = raw_packets db \<Longrightarrow> packet_ids db' = packet_ids db"
proof -
  assume "raw_packets db' = raw_packets db"
  then have "map fst (raw_packets db') = map fst (raw_packets db)" by simp
  then have "map rk_id (db_packets db') = map rk_id (db_packets db)"
    by (simp add: raw_packets_def raw_packet_def o_def)
  then show ?thesis by (metis list.set_map)
qed

lemma packets_ok_raw: "raw_packets db' = raw_packets db \<Longrightarrow> packets_ok db' = packets_ok db"
proof -
  have "packets_ok db \<longleftrightarrow> distinct (map fst (raw_packets db))
      \<and> (\<forall>(i, t, m, v, f, bs) \<in> set (raw_packets db). 0 \<le> t \<and> length bs \<le> 255)" for db
    by (auto simp: packets_ok_def raw_packets_def raw_packet_def o_def)
  then show "raw_packets db' = raw_packets db \<Longrightarrow> packets_ok db' = packets_ok db" by simp
qed

lemma insert_decode_keeps:
  assumes "insert_v2_packet_decode_at i h kind db = Ok db'"
  shows "keeps db db'"
proof (rule keepsI)
  obtain row where row: "db' = db\<lparr>db_decodes := db_decodes db @ [row]\<rparr>" "vd_packet_id row = i"
    "i \<notin> vd_packet_id ` set (db_decodes db)" "i \<in> packet_ids db"
    using assms by (auto simp: insert_v2_packet_decode_at_def split: if_splits)
  show "raw_packets db' = raw_packets db" by (simp add: row(1) raw_packets_def)
  assume ok: "archive_ok db"
  show "archive_ok db'"
    using archive_okD [OF ok] row(2-4)
    by (auto simp: row(1) archive_ok_def packets_ok_def decodes_ok_def scans_ok_def links_ok_def records_ok_def)
qed

lemma insert_reading_keeps:
  assumes "insert_reading_at frame payload radio t src db = Ok (x, db')"
  shows "keeps db db'"
proof (rule keepsI)
  obtain row where row: "db' = db\<lparr>db_readings := db_readings db @ [row]\<rparr>" "rd_id row \<notin> rd_id ` set (db_readings db)"
    "rd_radio_packet_id row \<in> Some ` packet_ids db \<union> {None}"
    using assms new_rowid_fresh [of "map rd_id (db_readings db)"]
    by (cases src) (auto simp: insert_reading_at_def Let_def split: if_splits)
  show "raw_packets db' = raw_packets db" by (simp add: row(1) raw_packets_def)
  assume ok: "archive_ok db"
  have "records_ok db'" using archive_okD(5) [OF ok] row(2,3) by (simp add: row(1) records_ok_def)
  then show "archive_ok db'"
    using archive_okD(1-4) [OF ok]
    by (simp add: row(1) archive_ok_def packets_ok_def decodes_ok_def scans_ok_def links_ok_def)
qed

lemma insert_health_keeps:
  assumes "insert_device_health_at health t src db = Ok (x, db')"
  shows "keeps db db'"
proof (rule keepsI)
  obtain row where row: "db' = db\<lparr>db_health := db_health db @ [row]\<rparr>" "hw_id row \<notin> hw_id ` set (db_health db)"
    "hw_source_packet_id row \<in> Some ` packet_ids db \<union> {None}"
    using assms new_rowid_fresh [of "map hw_id (db_health db)"]
    by (cases src) (auto simp: insert_device_health_at_def Let_def split: if_splits)
  show "raw_packets db' = raw_packets db" by (simp add: row(1) raw_packets_def)
  assume ok: "archive_ok db"
  have "records_ok db'" using archive_okD(5) [OF ok] row(2,3) by (simp add: row(1) records_ok_def)
  then show "archive_ok db'"
    using archive_okD(1-4) [OF ok]
    by (simp add: row(1) archive_ok_def packets_ok_def decodes_ok_def scans_ok_def links_ok_def)
qed

lemma insert_heater_step_keeps:
  assumes "insert_heater_step i step db = Ok db'" and "i \<in> cw_id ` set (db_configurations db)"
  shows "keeps db db' \<and> db_configurations db' = db_configurations db"
proof (intro conjI keepsI)
  have db': "db' = db\<lparr>db_heater_steps := db_heater_steps db @ [(i, step)]\<rparr>"
    "(i, hc_step_index step) \<notin> map_prod id hc_step_index ` set (db_heater_steps db)"
    using assms(1) by (auto simp: insert_heater_step_def split: if_splits)
  show "raw_packets db' = raw_packets db" "db_configurations db' = db_configurations db"
    by (simp_all add: db'(1) raw_packets_def)
  assume ok: "archive_ok db"
  have "records_ok db'" using archive_okD(5) [OF ok] db'(2) assms(2) by (simp add: db'(1) records_ok_def)
  then show "archive_ok db'"
    using archive_okD(1-4) [OF ok]
    by (simp add: db'(1) archive_ok_def packets_ok_def decodes_ok_def scans_ok_def links_ok_def)
qed

lemma insert_configuration_keeps:
  assumes "insert_device_configuration_at c t src db = Ok (x, db')"
  shows "keeps db db'"
proof -
  define row where "row = \<lparr>cw_id = new_rowid (map cw_id (db_configurations db)), cw_received_at_unix_ms = t,
      cw_columns = c, cw_record_json = c, cw_source_packet_id = src\<rparr>"
  define db1 where "db1 = db\<lparr>db_configurations := db_configurations db @ [row]\<rparr>"
  have row: "db1 = db\<lparr>db_configurations := db_configurations db @ [row]\<rparr>"
    "cw_id row \<notin> cw_id ` set (db_configurations db)"
    "cw_source_packet_id row \<in> Some ` packet_ids db \<union> {None}"
    using assms new_rowid_fresh [of "map cw_id (db_configurations db)"]
    by (cases src; auto simp: db1_def row_def insert_device_configuration_at_def Let_def split: if_splits)+
  have steps: "for_each (cf_heater_steps c) db1 (insert_heater_step (cw_id row)) = Ok db'"
    using assms by (auto simp: db1_def row_def insert_device_configuration_at_def Let_def split: if_splits)
  have "keeps db db1"
  proof (rule keepsI)
    show "raw_packets db1 = raw_packets db" by (simp add: row(1) raw_packets_def)
    assume ok: "archive_ok db"
    have "records_ok db1" using archive_okD(5) [OF ok] row(2,3) by (auto simp: row(1) records_ok_def)
    then show "archive_ok db1"
      using archive_okD(1-4) [OF ok]
      by (simp add: row(1) archive_ok_def packets_ok_def decodes_ok_def scans_ok_def links_ok_def)
  qed
  moreover have "keeps db1 db' \<and> cw_id row \<in> cw_id ` set (db_configurations db')"
  proof (rule for_each_invariant [OF steps])
    show "keeps db1 db1 \<and> cw_id row \<in> cw_id ` set (db_configurations db1)" by (simp add: row(1))
  next
    fix step s s'
    assume "keeps db1 s \<and> cw_id row \<in> cw_id ` set (db_configurations s)" and "insert_heater_step (cw_id row) step s = Ok s'"
    then show "keeps db1 s' \<and> cw_id row \<in> cw_id ` set (db_configurations s')"
      using insert_heater_step_keeps keeps_trans by metis
  qed
  ultimately show ?thesis using keeps_trans by blast
qed

section \<open>Updating and deleting\<close>

lemma map_update_rows: "(\<And>row. g (f row) = g row) \<Longrightarrow> map g (update_rows P f rows) = map g rows"
  by (simp add: update_rows_def)

lemma set_status_keeps: "keeps db (fst (set_status P status db))"
proof (rule keepsI)
  let ?db = "fst (set_status P status db)"
  have ids: "map vd_packet_id (db_decodes ?db) = map vd_packet_id (db_decodes db)"
    by (simp add: set_status_def map_update_rows)
  show "raw_packets ?db = raw_packets db" by (simp add: set_status_def raw_packets_def)
  assume ok: "archive_ok db"
  have "decodes_ok ?db"
    using archive_okD(2) [OF ok] unfolding decodes_ok_def list.set_map [symmetric] ids
    by (simp add: set_status_def)
  then show "archive_ok ?db"
    using archive_okD(1,3-5) [OF ok]
    by (simp add: set_status_def archive_ok_def packets_ok_def scans_ok_def links_ok_def records_ok_def)
qed

lemma delete_decodes_keeps: "keeps db (fst (delete_decodes P db))"
proof (rule keepsI)
  let ?db = "fst (delete_decodes P db)"
  show "raw_packets ?db = raw_packets db" by (simp add: delete_decodes_def raw_packets_def)
  assume ok: "archive_ok db"
  have "decodes_ok ?db"
    using archive_okD(2) [OF ok] by (auto simp: decodes_ok_def delete_decodes_def distinct_map_filter)
  then show "archive_ok ?db"
    using archive_okD(1,3-5) [OF ok]
    by (simp add: delete_decodes_def archive_ok_def packets_ok_def scans_ok_def links_ok_def records_ok_def)
qed

lemma invalidate_packet_raw: "raw_packets (fst (invalidate_packet P err db)) = raw_packets db"
  by (simp add: invalidate_packet_def raw_packets_def map_update_rows raw_packet_def)

lemma invalidate_packet_keeps: "keeps db (fst (invalidate_packet P err db))"
proof (rule keepsI [OF invalidate_packet_raw])
  let ?db = "fst (invalidate_packet P err db)"
  note raw = invalidate_packet_raw [of P err db]
  assume ok: "archive_ok db"
  have "packets_ok ?db" using archive_okD(1) [OF ok] packets_ok_raw [OF raw] by simp
  moreover have "decodes_ok ?db"
    by (rule decodes_ok_mono [OF archive_okD(2) [OF ok]])
       (simp_all add: raw_packet_ids [OF raw], simp add: invalidate_packet_def)
  moreover have "scans_ok ?db" using archive_okD(3) [OF ok] by (simp add: invalidate_packet_def scans_ok_def)
  moreover have "links_ok ?db"
    by (rule links_ok_mono [OF archive_okD(4) [OF ok]])
       (simp_all add: raw_packet_ids [OF raw], simp_all add: invalidate_packet_def)
  moreover have "records_ok ?db"
    by (rule records_ok_mono [OF archive_okD(5) [OF ok]])
       (simp_all add: raw_packet_ids [OF raw], simp_all add: invalidate_packet_def)
  ultimately show "archive_ok ?db" by (simp add: archive_ok_def)
qed

lemma delete_scans_keeps: "keeps db (fst (delete_scans P db))"
proof (rule keepsI)
  let ?db = "fst (delete_scans P db)"
  have eq: "?db = db\<lparr>db_scans := filter (\<lambda>scan. \<not> P scan) (db_scans db),
      db_steps := filter (\<lambda>(i, _). i \<notin> sr_id ` {s \<in> set (db_scans db). P s}) (db_steps db),
      db_fragments := filter (\<lambda>f. fr_scan_id f \<notin> sr_id ` {s \<in> set (db_scans db). P s}) (db_fragments db)\<rparr>"
    by (simp add: delete_scans_def Let_def)
  show "raw_packets ?db = raw_packets db" by (simp add: eq raw_packets_def)
  assume ok: "archive_ok db"
  have "filter (\<lambda>row. \<not> sr_transport_complete row) (filter (\<lambda>scan. \<not> P scan) (db_scans db))
      = filter (\<lambda>scan. \<not> P scan) (filter (\<lambda>row. \<not> sr_transport_complete row) (db_scans db))"
    by (simp add: conj_commute)
  then have "scans_ok ?db"
    using archive_okD(3) [OF ok] by (simp add: eq scans_ok_def distinct_map_filter del: filter_filter)
  moreover have "links_ok ?db"
  proof -
    have sub: "A - sr_id ` {s \<in> S. P s} \<subseteq> sr_id ` {s \<in> S. \<not> P s}" if "A \<subseteq> sr_id ` S" for A S
      using that by blast
    note links = archive_okD(4) [OF ok, unfolded links_ok_def]
    have "fr_scan_id ` set (db_fragments ?db) \<subseteq> sr_id ` set (db_scans ?db)"
      using sub [of "fr_scan_id ` set (db_fragments db)" "set (db_scans db)"] links by (auto simp: eq)
    moreover have "fst ` set (db_steps ?db) \<subseteq> sr_id ` set (db_scans ?db)"
      using sub [of "fst ` set (db_steps db)" "set (db_scans db)"] links by (auto simp: eq)
    moreover have "fr_packet_id ` set (db_fragments ?db) \<subseteq> packet_ids ?db" using links by (auto simp: eq)
    ultimately show ?thesis using links by (simp add: links_ok_def) (simp add: eq distinct_map_filter)
  qed
  ultimately show "archive_ok ?db"
    using archive_okD(1,2,5) [OF ok] by (simp add: eq archive_ok_def packets_ok_def decodes_ok_def records_ok_def)
qed

end
