(* ===== verification/Archive_Operations.thy ===== *)
theory Archive_Operations
  imports Archive_Invariant
begin

text \<open>
  Every public operation of the archive keeps its invariant and only appends to the raw packets; the
  runs of the archive as a step relation, and the interface of an append-only store they implement.
\<close>

section \<open>Updates of scans\<close>

lemma scan_has_key_iff:
  assumes "scan_row_ok row"
  shows "scan_has_key key row \<longleftrightarrow> scan_record_key (sr_columns row) = key"
  using assms by (cases key) (auto simp: scan_row_ok_def scan_has_key_def scan_record_key_def hex_u64_inject Let_def)

lemma update_scans_eq:
  "update_scans ids f db = db\<lparr>db_scans := foldl (\<lambda>scans i. update_rows (\<lambda>scan. sr_id scan = i) f scans) (db_scans db) ids\<rparr>"
proof (induction ids arbitrary: db)
  case Nil
  then show ?case by (simp add: update_scans_def)
next
  case (Cons i ids)
  then show ?case by (simp add: update_scans_def)
qed

text \<open>The changes of the counters of a row.\<close>

definition recounts :: "(scan_row \<Rightarrow> scan_row) \<Rightarrow> bool" where
  "recounts f \<longleftrightarrow> (\<forall>row. sr_id (f row) = sr_id row \<and> sr_columns (f row) = sr_columns row
     \<and> sr_transport_complete (f row) = sr_transport_complete row
     \<and> (\<forall>key. scan_has_key key (f row) = scan_has_key key row)
     \<and> (scan_row_ok row \<longrightarrow> scan_row_ok (f row)))"

lemma recountsD:
  assumes "recounts f"
  shows "sr_id (f row) = sr_id row" "sr_columns (f row) = sr_columns row"
    "sr_transport_complete (f row) = sr_transport_complete row"
    "scan_has_key key (f row) = scan_has_key key row" "scan_row_ok row \<Longrightarrow> scan_row_ok (f row)"
  using assms by (simp_all add: recounts_def)

lemma recounts_count_match [simp]: "recounts (count_match c)"
  by (cases c) (auto simp: recounts_def scan_row_ok_def scan_has_key_def Let_def)

lemma recounts_add_counts [simp]: "recounts (add_counts m n)"
  by (auto simp: recounts_def add_counts_def scan_row_ok_def scan_has_key_def Let_def)

lemma update_rows_scans:
  assumes "recounts f"
  shows "map sr_id (update_rows P f scans) = map sr_id scans"
    "map (\<lambda>row. scan_record_key (sr_columns row)) (filter (\<lambda>row. \<not> sr_transport_complete row) (update_rows P f scans))
       = map (\<lambda>row. scan_record_key (sr_columns row)) (filter (\<lambda>row. \<not> sr_transport_complete row) scans)"
    "Ball (set scans) scan_row_ok \<Longrightarrow> Ball (set (update_rows P f scans)) scan_row_ok"
  using assms by (induction scans) (auto simp: update_rows_def recountsD)

lemma update_scans_keeps:
  assumes "recounts f"
  shows "keeps db (update_scans ids f db)"
proof -
  have "keeps db (db\<lparr>db_scans := update_rows P f (db_scans db)\<rparr>)" for P db
  proof (rule keepsI)
    let ?db = "db\<lparr>db_scans := update_rows P f (db_scans db)\<rparr>"
    show "raw_packets ?db = raw_packets db" by (simp add: raw_packets_def)
    assume ok: "archive_ok db"
    have ids: "map sr_id (db_scans ?db) = map sr_id (db_scans db)" using update_rows_scans(1) [OF assms] by simp
    have "scans_ok ?db"
      using archive_okD(3) [OF ok] update_rows_scans [OF assms] unfolding scans_ok_def by simp metis
    moreover have "links_ok ?db"
      using archive_okD(4) [OF ok] unfolding links_ok_def list.set_map [symmetric] ids by simp
    ultimately show "archive_ok ?db"
      using archive_okD(1,2,5) [OF ok] by (simp add: archive_ok_def packets_ok_def decodes_ok_def records_ok_def)
  qed
  then show ?thesis
    by (induction ids arbitrary: db) (simp_all add: update_scans_def, meson keeps_trans)
qed

section \<open>Storing a profile\<close>

lemma insert_step_keeps:
  assumes "insert_profile_step i step db = Ok db'" and "i \<in> sr_id ` set (db_scans db)"
  shows "keeps db db' \<and> db_scans db' = db_scans db"
proof (intro conjI keepsI)
  have db': "db' = db\<lparr>db_steps := db_steps db @ [(i, step)]\<rparr>"
    "(i, st_step_index step) \<notin> map_prod id st_step_index ` set (db_steps db)"
    using assms(1) by (auto simp: insert_profile_step_def split: if_splits)
  show "raw_packets db' = raw_packets db" "db_scans db' = db_scans db"
    by (simp_all add: db'(1) raw_packets_def)
  assume ok: "archive_ok db"
  have "links_ok db'" using archive_okD(4) [OF ok] db'(2) assms(2) by (simp add: db'(1) links_ok_def)
  then show "archive_ok db'"
    using archive_okD(1-3,5) [OF ok]
    by (simp add: db'(1) archive_ok_def packets_ok_def decodes_ok_def scans_ok_def records_ok_def)
qed

definition link_row :: "int \<Rightarrow> source_fragment \<Rightarrow> fragment_row" where
  "link_row i fragment =
     \<lparr>fr_scan_id = i, fr_packet_id = sf_packet_id fragment, fr_fragment_index = sf_fragment_index fragment,
      fr_received_at_unix_ms = sf_received_at_unix_ms fragment, fr_radio = sf_radio fragment\<rparr>"

lemma insert_fragment_Ok:
  "insert_profile_fragment i status fragment db = Ok db' \<longleftrightarrow>
     (i, sf_fragment_index fragment) \<notin> (\<lambda>f. (fr_scan_id f, fr_fragment_index f)) ` set (db_fragments db)
     \<and> sf_packet_id fragment \<notin> fr_packet_id ` set (db_fragments db) \<and> sf_packet_id fragment \<in> packet_ids db
     \<and> db' = fst (set_status (\<lambda>row. vd_packet_id row = sf_packet_id fragment) status
               (db\<lparr>db_fragments := db_fragments db @ [link_row i fragment]\<rparr>))"
  by (auto simp: insert_profile_fragment_def link_row_def Let_def)

lemma insert_fragment_keeps:
  assumes "insert_profile_fragment i status fragment db = Ok db'" and "i \<in> sr_id ` set (db_scans db)"
  shows "keeps db db' \<and> db_scans db' = db_scans db"
proof
  define db1 where "db1 = db\<lparr>db_fragments := db_fragments db @ [link_row i fragment]\<rparr>"
  note new = assms(1) [unfolded insert_fragment_Ok, folded db1_def]
  have "keeps db db1"
  proof (rule keepsI)
    show "raw_packets db1 = raw_packets db" by (simp add: db1_def raw_packets_def)
    assume ok: "archive_ok db"
    have "links_ok db1"
      using archive_okD(4) [OF ok] new assms(2) by (simp add: db1_def links_ok_def) (simp add: link_row_def)
    then show "archive_ok db1"
      using archive_okD(1-3,5) [OF ok]
      by (simp add: db1_def archive_ok_def packets_ok_def decodes_ok_def scans_ok_def records_ok_def)
  qed
  then show "keeps db db'" using new set_status_keeps keeps_trans by metis
  show "db_scans db' = db_scans db" using new by (simp add: set_status_def db1_def)
qed

lemma delete_incomplete_scans:
  assumes "archive_ok db"
    and "fst (delete_scans (\<lambda>row. \<not> sr_transport_complete row \<and> scan_has_key key row) db) = db'"
  shows "\<forall>row \<in> set (db_scans db'). \<not> sr_transport_complete row \<longrightarrow> scan_record_key (sr_columns row) \<noteq> key"
  using assms scan_has_key_iff archive_okD(3) [OF assms(1)]
  by (auto simp: delete_scans_def Let_def scans_ok_def)

lemma new_scan_row_ok:
  assumes "scan_validate scan = Ok ()"
    and "missing_fragment_bitmap scan = (Ok missing :: (u16, storage_error) result)"
    and "is_transport_complete scan = (Ok complete :: (bool, storage_error) result)"
  shows "scan_row_ok (new_scan_row i a b scan missing complete)"
  using assms by (simp add: scan_row_ok_def new_scan_row_def Let_def)

lemma insert_scan_keeps:
  assumes "scan_row_ok row" and "sr_id row \<notin> sr_id ` set (db_scans db)"
    and "\<forall>r \<in> set (db_scans db). \<not> sr_transport_complete r
      \<longrightarrow> scan_record_key (sr_columns r) \<noteq> scan_record_key (sr_columns row)"
  shows "keeps db (db\<lparr>db_scans := db_scans db @ [row]\<rparr>)"
proof (rule keepsI)
  let ?db = "db\<lparr>db_scans := db_scans db @ [row]\<rparr>"
  show "raw_packets ?db = raw_packets db" by (simp add: raw_packets_def)
  assume ok: "archive_ok db"
  have "scans_ok ?db" using archive_okD(3) [OF ok] assms by (auto simp: scans_ok_def)
  moreover have "links_ok ?db" using archive_okD(4) [OF ok] by (auto simp: links_ok_def)
  ultimately show "archive_ok ?db"
    using archive_okD(1,2,5) [OF ok] by (simp add: archive_ok_def packets_ok_def decodes_ok_def records_ok_def)
qed

text \<open>The stages of storing a profile: the deletion, the new row, the steps, the links and the status.\<close>

definition store_profile_steps :: "int \<Rightarrow> fragment_storage_status \<Rightarrow> reassembled_profile
    \<Rightarrow> (int \<times> fragment_storage_status) option \<Rightarrow> archive \<Rightarrow> (archive, storage_error) result" where
  "store_profile_steps i status profile integrity_packet db =
     and_then (for_each (pf_steps (rp_scan profile)) db (insert_profile_step i)) (\<lambda>db.
     and_then (for_each (rp_fragments profile) db (insert_profile_fragment i status)) (\<lambda>db.
     case integrity_packet of None \<Rightarrow> Ok db
     | Some (packet_id, status) \<Rightarrow> mark_fragment_status packet_id status db))"

lemma guard_eq_Ok: "(if bad then fail e else r) = Ok y \<longleftrightarrow> \<not> bad \<and> r = Ok y"
  by simp

lemma insert_profile_scan_Ok:
  assumes "insert_profile_scan_inner profile integrity_packet db = Ok (r, db')"
  obtains db1 first_received last_received missing complete row
  where "scan_validate (rp_scan profile) = Ok ()"
    "missing_fragment_bitmap (rp_scan profile) = (Ok missing :: (u16, storage_error) result)"
    "is_transport_complete (rp_scan profile) = (Ok complete :: (bool, storage_error) result)"
    "db1 = fst (delete_scans (\<lambda>row. \<not> sr_transport_complete row
       \<and> scan_has_key (scan_record_key (rp_scan profile)) row) db)"
    "so_id r \<notin> sr_id ` set (db_scans db1)"
    "row = new_scan_row (so_id r) first_received last_received (rp_scan profile) missing complete"
    "store_profile_steps (so_id r) (if complete then StatusAssembled else StatusIncomplete) profile
       integrity_packet (db1\<lparr>db_scans := db_scans db1 @ [row]\<rparr>) = Ok db'"
proof -
  define db1 where "db1 = fst (delete_scans (\<lambda>row. \<not> sr_transport_complete row
    \<and> scan_has_key (scan_record_key (rp_scan profile)) row) db)"
  define i where "i = new_rowid (map sr_id (db_scans db1))"
  have fresh: "i \<notin> sr_id ` set (db_scans db1)" using new_rowid_fresh i_def by (metis list.set_map)
  obtain n where del: "delete_scans (\<lambda>row. \<not> sr_transport_complete row
    \<and> scan_has_key (scan_record_key (rp_scan profile)) row) db = (db1, n)" unfolding db1_def by (metis prod.collapse)
  from assms obtain a b m c where
    "scan_validate (rp_scan profile) = Ok ()"
    "missing_fragment_bitmap (rp_scan profile) = (Ok m :: (u16, storage_error) result)"
    "is_transport_complete (rp_scan profile) = (Ok c :: (bool, storage_error) result)"
    "r = \<lparr>so_id = i, so_received_at_unix_ms = b\<rparr>"
    "store_profile_steps i (if c then StatusAssembled else StatusIncomplete) profile integrity_packet
      (db1\<lparr>db_scans := db_scans db1 @ [new_scan_row i a b (rp_scan profile) m c]\<rparr>) = Ok db'"
    unfolding insert_profile_scan_inner_def Let_def store_profile_steps_def
    by (auto simp: i_def del guard_eq_Ok simp del: first_received_at_unix_ms.simps last_received_at_unix_ms.simps)
       blast
  then show ?thesis using that [OF _ _ _ db1_def] fresh by simp
qed

lemma mark_fragment_status_Ok:
  "mark_fragment_status packet_id status db = Ok db' \<Longrightarrow>
     \<exists>P. db' = fst (set_status P status db)"
  by (auto simp: mark_fragment_status_def Let_def split: if_splits prod.splits) (metis fst_conv)

lemma mark_fragment_status_keeps:
  "mark_fragment_status packet_id status db = Ok db' \<Longrightarrow> keeps db db'"
  using mark_fragment_status_Ok set_status_keeps by blast

lemma store_profile_steps_keeps:
  assumes "store_profile_steps i status profile integrity_packet db = Ok db'" and "i \<in> sr_id ` set (db_scans db)"
  shows "keeps db db'"
proof -
  from assms(1) obtain db1 db2 where
    steps: "for_each (pf_steps (rp_scan profile)) db (insert_profile_step i) = Ok db1"
    and links: "for_each (rp_fragments profile) db1 (insert_profile_fragment i status) = Ok db2"
    and mark: "(case integrity_packet of None \<Rightarrow> Ok db2
      | Some (packet_id, status) \<Rightarrow> mark_fragment_status packet_id status db2) = Ok db'"
    by (auto simp: store_profile_steps_def)
  have one: "keeps db db1 \<and> i \<in> sr_id ` set (db_scans db1)"
    by (rule for_each_invariant [OF steps]) (use assms(2) in \<open>auto dest!: insert_step_keeps intro: keeps_trans\<close>)
  have "keeps db1 db2 \<and> i \<in> sr_id ` set (db_scans db2)"
    by (rule for_each_invariant [OF links]) (use one in \<open>auto dest!: insert_fragment_keeps intro: keeps_trans\<close>)
  then have "keeps db db2" using one keeps_trans by blast
  then show ?thesis
    using mark by (cases integrity_packet) (auto dest: mark_fragment_status_keeps intro: keeps_trans)
qed

lemma insert_profile_scan_keeps:
  assumes "insert_profile_scan_inner profile integrity_packet db = Ok (r, db')" and "archive_ok db"
  shows "keeps db db'"
  using assms(1)
proof (rule insert_profile_scan_Ok)
  fix db1 a b m c row
  assume valid: "scan_validate (rp_scan profile) = Ok ()"
    "missing_fragment_bitmap (rp_scan profile) = (Ok m :: (u16, storage_error) result)"
    "is_transport_complete (rp_scan profile) = (Ok c :: (bool, storage_error) result)"
    and db1: "db1 = fst (delete_scans (\<lambda>row. \<not> sr_transport_complete row
       \<and> scan_has_key (scan_record_key (rp_scan profile)) row) db)"
    and fresh: "so_id r \<notin> sr_id ` set (db_scans db1)"
    and row: "row = new_scan_row (so_id r) a b (rp_scan profile) m c"
    and steps: "store_profile_steps (so_id r) (if c then StatusAssembled else StatusIncomplete) profile
       integrity_packet (db1\<lparr>db_scans := db_scans db1 @ [row]\<rparr>) = Ok db'"
  have "keeps db db1" unfolding db1 by (rule delete_scans_keeps)
  also have "keeps db1 (db1\<lparr>db_scans := db_scans db1 @ [row]\<rparr>)"
  proof (rule insert_scan_keeps)
    show "scan_row_ok row" unfolding row using valid by (rule new_scan_row_ok)
    show "sr_id row \<notin> sr_id ` set (db_scans db1)" using fresh by (simp add: row new_scan_row_def)
    show "\<forall>r \<in> set (db_scans db1). \<not> sr_transport_complete r
        \<longrightarrow> scan_record_key (sr_columns r) \<noteq> scan_record_key (sr_columns row)"
      using delete_incomplete_scans [OF assms(2) db1 [symmetric]] by (simp add: row new_scan_row_def)
  qed
  also have "keeps \<dots> db'"
    by (rule store_profile_steps_keeps [OF steps]) (simp add: row new_scan_row_def)
  finally show "keeps db db'" .
qed

section \<open>The operations\<close>

lemma archive_packet_keeps:
  "archive_packet now payload radio disposition err db = Ok (x, db') \<Longrightarrow> keeps db db'"
  by (auto simp: archive_packet_def Let_def intro: insert_packet_keeps)

lemma insert_received_v1_keeps:
  "insert_received_v1 now frame payload radio db = Ok (x, db') \<Longrightarrow> keeps db db'"
  by (auto simp: insert_received_v1_def intro: keeps_trans insert_packet_keeps insert_reading_keeps)

lemma archive_v2_packet_keeps:
  "archive_v2_packet now payload radio h kind db = Ok (x, db') \<Longrightarrow> keeps db db'"
  by (auto simp: archive_v2_packet_def intro: keeps_trans insert_packet_keeps insert_decode_keeps)

lemma archive_v2_profile_fragment_keeps:
  "archive_v2_profile_fragment now payload radio h db = Ok (x, db') \<Longrightarrow> keeps db db'"
  by (auto simp: archive_v2_profile_fragment_def intro: archive_v2_packet_keeps)

lemma insert_received_device_configuration_keeps:
  "insert_received_device_configuration now payload radio h c db = Ok (x, db') \<Longrightarrow> keeps db db'"
  by (auto simp: insert_received_device_configuration_def
      intro: keeps_trans archive_v2_packet_keeps insert_configuration_keeps)

lemma insert_received_device_health_keeps:
  "insert_received_device_health now payload radio h health db = Ok (x, db') \<Longrightarrow> keeps db db'"
  by (auto simp: insert_received_device_health_def intro: keeps_trans archive_v2_packet_keeps insert_health_keeps)

lemma quarantine_pending_keeps:
  assumes "quarantine_pending_profile_fragment i err db = Ok db'"
  shows "keeps db db'"
proof -
  from assms obtain P Q where "db' = fst (delete_decodes P (fst (invalidate_packet Q err db)))"
    by (auto simp: quarantine_pending_profile_fragment_def Let_def case_prod_unfold guard_eq_Ok)
  then show ?thesis using invalidate_packet_keeps delete_decodes_keeps keeps_trans by metis
qed

lemma requeue_candidate_keeps: "keeps db (requeue_candidate key db candidate)"
  unfolding requeue_candidate_def
  using set_status_keeps keeps_trans [OF invalidate_packet_keeps delete_decodes_keeps]
  by (auto split: prod.splits)

lemma requeue_candidates_keep: "keeps db (foldl (requeue_candidate key) db candidates)"
  by (induction candidates arbitrary: db) (simp_all, meson requeue_candidate_keeps keeps_trans)

lemma quarantine_incomplete_Ok:
  assumes "quarantine_incomplete_profile_fragment scan_id key i err db = Ok db'"
  shows "db' = fst (delete_scans (\<lambda>scan. \<not> sr_transport_complete scan \<and> scan_has_key key scan)
    (fst (delete_decodes (\<lambda>row. vd_packet_id row = i)
      (fst (invalidate_packet (\<lambda>row. rk_id row = i) err
        (foldl (requeue_candidate key) db (replay_candidates key i db)))))))"
  using assms unfolding quarantine_incomplete_profile_fragment_def Let_def guard_eq_Ok
  by (auto simp: guard_eq_Ok case_prod_unfold)

lemma quarantine_incomplete_keeps:
  "quarantine_incomplete_profile_fragment scan_id key i err db = Ok db' \<Longrightarrow> keeps db db'"
  by (drule quarantine_incomplete_Ok, simp only:)
     (rule keeps_trans [OF _ delete_scans_keeps] keeps_trans [OF _ delete_decodes_keeps]
        keeps_trans [OF _ invalidate_packet_keeps] requeue_candidates_keep)+

lemma reconcile_keeps:
  assumes "reconcile_persisted_profile_fragment key i j payload db = Ok (x, db')"
  shows "keeps db db'"
  using assms keeps_trans [OF update_scans_keeps [OF recounts_count_match] set_status_keeps]
  by (auto simp: reconcile_persisted_profile_fragment_def Let_def case_prod_unfold split: if_splits)

lemma coalesce_fragment_keeps:
  assumes "coalesce_fragment key ids fragment (cs, db) = Ok (cs', db')"
  shows "keeps db db'"
  using assms keeps_trans [OF update_scans_keeps [OF recounts_count_match] set_status_keeps]
  by (auto simp: coalesce_fragment_def Let_def guard_eq_Ok case_prod_unfold)

lemma coalesce_keeps:
  assumes "coalesce_incomplete_profile_into_completed profile db = Ok (x, db')"
  shows "keeps db db'"
proof (cases "x = None")
  case True
  then show ?thesis using assms
    by (auto simp: coalesce_incomplete_profile_into_completed_def Let_def case_prod_unfold split: if_splits)
next
  case False
  then obtain ids m n cs db2 P where
    loop: "for_each (ip_fragments profile) ([], update_scans ids (add_counts m n) db)
      (coalesce_fragment (ip_key profile) ids) = Ok (cs, db2)"
    and db': "db' = fst (delete_scans P db2)"
    using assms unfolding coalesce_incomplete_profile_into_completed_def Let_def
    by (auto simp: guard_eq_Ok case_prod_unfold split: if_splits)
  have "keeps db (snd (cs, db2))"
  proof (rule for_each_invariant [OF loop])
    show "keeps db (snd ([], update_scans ids (add_counts m n) db))" by (simp add: update_scans_keeps)
  next
    fix fragment s s'
    assume "keeps db (snd s)" and "coalesce_fragment (ip_key profile) ids fragment s = Ok s'"
    then show "keeps db (snd s')" by (cases s; cases s') (auto dest: coalesce_fragment_keeps intro: keeps_trans)
  qed
  then show ?thesis unfolding db' using delete_scans_keeps keeps_trans by auto
qed

section \<open>Runs\<close>

text \<open>A successful operation of the archive. A failed one is rolled back and changes nothing.\<close>

inductive operates :: "archive \<Rightarrow> archive \<Rightarrow> bool" where
  insert: "insert_reading now frame payload radio db = Ok (reading, db') \<Longrightarrow> operates db db'"
| v1: "insert_received_v1 now frame payload radio db = Ok (reading, db') \<Longrightarrow> operates db db'"
| packet: "archive_packet now payload radio disposition err db = Ok (packet, db') \<Longrightarrow> operates db db'"
| fragment: "archive_v2_profile_fragment now payload radio h db = Ok (packet, db') \<Longrightarrow> operates db db'"
| configuration: "insert_received_device_configuration now payload radio h c db = Ok (both, db')
    \<Longrightarrow> operates db db'"
| health: "insert_received_device_health now payload radio h health db = Ok (both, db') \<Longrightarrow> operates db db'"
| quarantine_pending: "quarantine_pending_profile_fragment i err db = Ok db' \<Longrightarrow> operates db db'"
| quarantine_incomplete: "quarantine_incomplete_profile_fragment scan_id key i err db = Ok db'
    \<Longrightarrow> operates db db'"
| reconcile: "reconcile_persisted_profile_fragment key i fragment_index payload db = Ok (m, db')
    \<Longrightarrow> operates db db'"
| coalesce: "coalesce_incomplete_profile_into_completed incomplete db = Ok (cs, db') \<Longrightarrow> operates db db'"
| mark: "mark_fragment_status i status db = Ok db' \<Longrightarrow> operates db db'"
| scan: "insert_profile_scan profile db = Ok (rec, db') \<Longrightarrow> operates db db'"
| snapshot: "insert_profile_integrity_snapshot profile i status db = Ok (rec, db') \<Longrightarrow> operates db db'"

lemmas operation_keeps =
  insert_received_v1_keeps archive_packet_keeps archive_v2_profile_fragment_keeps
  insert_received_device_configuration_keeps insert_received_device_health_keeps quarantine_pending_keeps
  quarantine_incomplete_keeps reconcile_keeps coalesce_keeps mark_fragment_status_keeps

lemma operates_keeps: "operates db db' \<Longrightarrow> archive_ok db \<Longrightarrow> keeps db db'"
proof (induction rule: operates.induct)
  case (insert now frame payload radio db reading db')
  then show ?case by (auto simp: insert_reading_def intro: insert_reading_keeps)
next
  case (scan profile db rec db')
  then show ?case unfolding insert_profile_scan_def by (rule insert_profile_scan_keeps)
next
  case (snapshot profile i status db rec db')
  then show ?case unfolding insert_profile_integrity_snapshot_def by (rule insert_profile_scan_keeps)
qed (erule operation_keeps)+

text \<open>
  A store whose operations keep its invariant and never change or drop a recorded entry: the contract
  of the archive towards the receiver.
\<close>

locale append_only_store =
  fixes operation :: "'s \<Rightarrow> 's \<Rightarrow> bool" and valid :: "'s \<Rightarrow> bool" and recorded :: "'s \<Rightarrow> 'r list"
  assumes operation_valid: "operation s s' \<Longrightarrow> valid s \<Longrightarrow> valid s'"
    and operation_appends: "operation s s' \<Longrightarrow> valid s \<Longrightarrow> prefix (recorded s) (recorded s')"
begin

lemma run_valid: "operation\<^sup>*\<^sup>* s s' \<Longrightarrow> valid s \<Longrightarrow> valid s'"
  by (induction rule: rtranclp_induct) (auto intro: operation_valid)

lemma run_appends:
  assumes "operation\<^sup>*\<^sup>* s s'" and "valid s"
  shows "prefix (recorded s) (recorded s')"
  using assms
proof (induction rule: rtranclp_induct)
  case (step t u)
  then show ?case using run_valid operation_appends prefix_order.trans by metis
qed simp

lemma run_keeps_entry:
  "operation\<^sup>*\<^sup>* s s' \<Longrightarrow> valid s \<Longrightarrow> i < length (recorded s) \<Longrightarrow> recorded s' ! i = recorded s ! i"
  using run_appends by (metis nth_append prefixE)

end

interpretation packet_store: append_only_store operates archive_ok raw_packets
  using operates_keeps by unfold_locales (auto simp: keeps_def)

text \<open>
  C10. The archive: from an archive that satisfies its invariant, whatever sequence of operations
  succeeds, keys and references between the tables stay intact, every scan row repeats the record it
  was made from, a logical scan has at most one row that is not complete, and no raw packet is ever
  lost, changed or reordered: the packets received before are a prefix of the packets at the end.
\<close>

theorem archive_append_only:
  assumes "operates\<^sup>*\<^sup>* db db'" and "archive_ok db"
  shows "archive_ok db' \<and> prefix (raw_packets db) (raw_packets db')"
  using packet_store.run_valid [OF assms] packet_store.run_appends [OF assms] by blast

end
