(* ===== verification/Archive_Behaviour.thy ===== *)
theory Archive_Behaviour
  imports Archive_Operations
begin

text \<open>
  What the operations of the archive do: the replay of pending fragments, their quarantine, and the
  reconciliation of a fragment with the scans already stored.
\<close>

section \<open>Joins of tables\<close>

text \<open>A join on a key of both tables has each key at most once.\<close>

lemma distinct_join:
  assumes "distinct (map f xs)" and "distinct (map g ys)"
  shows "distinct (concat (map (\<lambda>x. map (\<lambda>y. f x) (filter (\<lambda>y. g y = f x \<and> P y) ys)) xs))"
  using assms(1)
proof (induction xs)
  case Nil
  then show ?case by simp
next
  case (Cons x xs)
  have "distinct (map g (filter (\<lambda>y. g y = f x \<and> P y) ys))" using assms(2) by (simp add: distinct_map_filter)
  moreover have "map g (filter (\<lambda>y. g y = f x \<and> P y) ys) = map (\<lambda>y. f x) (filter (\<lambda>y. g y = f x \<and> P y) ys)"
    by simp
  ultimately have "distinct (map (\<lambda>y. f x) (filter (\<lambda>y. g y = f x \<and> P y) ys))" by metis
  then show ?case using Cons by auto
qed

lemma concat_if_map: "concat (map (\<lambda>y. if P y then [h y] else []) ys) = map h (filter P ys)"
  by (induction ys) auto

definition pending_ids :: "archive \<Rightarrow> int set" where
  "pending_ids db = vd_packet_id ` {row \<in> set (db_decodes db). is_pending_fragment row}"

lemma pending_rows_eq:
  "pending_rows db = concat (map (\<lambda>packet. map (\<lambda>decoded. pending_of packet (vd_fragment_index decoded))
     (filter (\<lambda>decoded. vd_packet_id decoded = rk_id packet \<and> is_pending_fragment decoded) (db_decodes db)))
     (db_packets db))"
  by (simp add: pending_rows_def concat_if_map)

lemma pending_rows_ids:
  assumes "archive_ok db"
  shows "distinct (map pp_packet_id (pending_rows db))" "pp_packet_id ` set (pending_rows db) = pending_ids db"
proof -
  have "distinct (map rk_id (db_packets db))" "distinct (map vd_packet_id (db_decodes db))"
    using archive_okD(1,2) [OF assms] by (simp_all add: packets_ok_def decodes_ok_def)
  then have "distinct (concat (map (\<lambda>x. map (\<lambda>y. rk_id x)
      (filter (\<lambda>y. vd_packet_id y = rk_id x \<and> is_pending_fragment y) (db_decodes db))) (db_packets db)))"
    by (rule distinct_join)
  then show "distinct (map pp_packet_id (pending_rows db))"
    unfolding pending_rows_eq map_concat map_map o_def by (simp add: pending_of_def o_def)
  have "vd_packet_id ` set (db_decodes db) \<subseteq> packet_ids db"
    using archive_okD(2) [OF assms] by (simp add: decodes_ok_def)
  then show "pp_packet_id ` set (pending_rows db) = pending_ids db"
    by (fastforce simp: pending_rows_eq pending_ids_def pending_of_def image_iff)
qed

section \<open>Replay\<close>

text \<open>
  C14. Startup replay: under the invariant and for a representable limit, the archive returns every
  pending fragment exactly once in the order of arrival, with the bytes and radio data of its packet,
  or, when there are more than the limit, an error with their number and nothing else. It never
  returns a part of them.
\<close>

theorem pending_replay_exact:
  assumes "archive_ok db" and "0 < limit" and "limit < 2 ^ 63"
  shows "if limit < card (pending_ids db)
    then pending_profile_fragments limit db = fail (PendingReplayLimitExceeded (card (pending_ids db)) limit)
    else \<exists>ps. pending_profile_fragments limit db = Ok ps
      \<and> sorted_wrt (<) (map pp_packet_id ps) \<and> pp_packet_id ` set ps = pending_ids db
      \<and> (\<forall>p \<in> set ps. \<exists>packet \<in> set (db_packets db). \<exists>decoded \<in> set (db_decodes db).
           vd_packet_id decoded = rk_id packet \<and> p = pending_of packet (vd_fragment_index decoded))"
proof -
  note ids = pending_rows_ids [OF assms(1)]
  have card: "card (pending_ids db) = length (pending_rows db)"
    using ids distinct_card by (metis length_map list.set_map)
  let ?ps = "sort_key pp_packet_id (pending_rows db)"
  have "distinct (map pp_packet_id ?ps)"
    using ids(1) by (simp add: distinct_map)
  then have "sorted_wrt (<) (map pp_packet_id ?ps)" by (simp add: strict_sorted_iff)
  moreover have "\<forall>p \<in> set ?ps. \<exists>packet \<in> set (db_packets db). \<exists>decoded \<in> set (db_decodes db).
      vd_packet_id decoded = rk_id packet \<and> p = pending_of packet (vd_fragment_index decoded)"
    by (auto simp: pending_rows_eq)
  ultimately show ?thesis
    using assms(2,3) ids(2) unfolding pending_profile_fragments_def Let_def by (simp add: card)
qed

section \<open>Quarantine\<close>

lemma count_key:
  assumes "distinct (map k rows)"
  shows "count_rows (\<lambda>row. k row = i \<and> P row) rows = (if \<exists>row \<in> set rows. k row = i \<and> P row then 1 else 0)"
proof -
  let ?hits = "filter (\<lambda>row. k row = i \<and> P row) rows"
  have "distinct (map k ?hits)" using assms by (rule distinct_map_filter)
  moreover have "set (map k ?hits) \<subseteq> {i}" by auto
  ultimately have "length (map k ?hits) \<le> 1" by (metis card_mono card_1_singleton_iff distinct_card finite.simps One_nat_def)
  moreover have "?hits = [] \<longleftrightarrow> \<not> (\<exists>row \<in> set rows. k row = i \<and> P row)" by (auto simp: filter_empty_conv)
  ultimately show ?thesis unfolding count_rows_def by (cases ?hits) auto
qed

definition invalid_row :: "string \<Rightarrow> packet_row \<Rightarrow> packet_row" where
  "invalid_row err row = row\<lparr>rk_disposition := Invalid, rk_decode_error := Some err\<rparr>"

text \<open>
  C17. Quarantine of a pending fragment: under the invariant it succeeds exactly on a pending fragment.
  Then the packet is marked invalid with the error, every byte of every packet is kept, the fragment
  is no longer replayed while all others still are, and no other table changes. On any other packet it
  fails and changes nothing.
\<close>

theorem quarantine_pending_exact:
  assumes "archive_ok db"
  shows "quarantine_pending_profile_fragment i err db =
    (if i \<in> pending_ids db
     then Ok (db\<lparr>db_packets := map (\<lambda>p. if rk_id p = i then invalid_row err p else p) (db_packets db),
                 db_decodes := filter (\<lambda>d. vd_packet_id d \<noteq> i) (db_decodes db)\<rparr>)
     else fail (MissingV2Packet i))"
proof -
  have keys: "distinct (map rk_id (db_packets db))" "distinct (map vd_packet_id (db_decodes db))"
    "vd_packet_id ` set (db_decodes db) \<subseteq> packet_ids db"
    using archive_okD(1,2) [OF assms] by (simp_all add: packets_ok_def decodes_ok_def)
  let ?pending = "\<lambda>row. vd_packet_id row = i \<and> is_pending_fragment row"
  have pending: "(\<exists>d \<in> set (db_decodes db). ?pending d) \<longleftrightarrow> i \<in> pending_ids db" by (auto simp: pending_ids_def)
  have packets: "count_rows (\<lambda>row. rk_id row = i \<and> (\<exists>d \<in> set (db_decodes db). ?pending d)) (db_packets db)
      = (if i \<in> pending_ids db then 1 else 0)"
    unfolding count_key [OF keys(1)] pending using keys(3) by (force simp: pending_ids_def)
  then have packet: "count_rows (\<lambda>row. rk_id row = i) (db_packets db) = 1" if "i \<in> pending_ids db"
    using that pending by simp
  have decodes: "count_rows ?pending (db_decodes db) = (if i \<in> pending_ids db then 1 else 0)"
    unfolding count_key [OF keys(2)] pending ..
  have "filter (\<lambda>d. \<not> ?pending d) (db_decodes db) = filter (\<lambda>d. vd_packet_id d \<noteq> i) (db_decodes db)"
    if "i \<in> pending_ids db"
  proof (rule filter_cong [OF refl])
    fix d
    assume "d \<in> set (db_decodes db)"
    moreover from that obtain e where "e \<in> set (db_decodes db)" "?pending e" by (auto simp: pending_ids_def)
    ultimately show "(\<not> ?pending d) = (vd_packet_id d \<noteq> i)" using keys(2) by (metis distinct_map inj_onD)
  qed
  then show ?thesis
    unfolding quarantine_pending_profile_fragment_def Let_def invalidate_packet_def delete_decodes_def prod.case pending
    using packet by (simp add: packets decodes update_rows_def invalid_row_def cong: if_cong)
qed

section \<open>Reconciliation\<close>

lemma foldl_update_rows:
  assumes "distinct ids" and "\<And>row. sr_id (f row) = sr_id row"
  shows "foldl (\<lambda>scans i. update_rows (\<lambda>scan. sr_id scan = i) f scans) scans ids
    = map (\<lambda>scan. if sr_id scan \<in> set ids then f scan else scan) scans"
  using assms(1)
proof (induction ids arbitrary: scans)
  case Nil
  then show ?case by simp
next
  case (Cons i ids)
  then show ?case by (auto simp: update_rows_def assms(2))
qed

definition holds_fragment :: "archive \<Rightarrow> u8 \<Rightarrow> scan_row \<Rightarrow> bool" where
  "holds_fragment db j scan \<longleftrightarrow>
     (\<exists>f \<in> set (db_fragments db). fr_scan_id f = sr_id scan \<and> fr_fragment_index f = j)"

text \<open>The payloads that the scans with a key hold at an index.\<close>

definition held_payloads :: "archive \<Rightarrow> profile_key \<Rightarrow> u8 \<Rightarrow> bytes set" where
  "held_payloads db key j =
     {rk_payload p | p f scan. p \<in> set (db_packets db) \<and> f \<in> set (db_fragments db) \<and> scan \<in> set (db_scans db)
        \<and> scan_record_key (sr_columns scan) = key \<and> fr_scan_id f = sr_id scan \<and> fr_fragment_index f = j
        \<and> fr_packet_id f = rk_id p}"

text \<open>The row of an archived packet.\<close>

definition packet_at :: "archive \<Rightarrow> int \<Rightarrow> packet_row" where
  "packet_at db i = hd (filter (\<lambda>p. rk_id p = i) (db_packets db))"

lemma filter_packet:
  assumes "archive_ok db" and "i \<in> packet_ids db"
  shows "filter (\<lambda>p. rk_id p = i) (db_packets db) = [packet_at db i]"
proof -
  have "distinct (map rk_id (db_packets db))" using archive_okD(1) [OF assms(1)] by (simp add: packets_ok_def)
  then have "length (filter (\<lambda>p. rk_id p = i) (db_packets db)) = 1"
    using count_key [of rk_id "db_packets db" i "\<lambda>_. True"] assms(2) by (force simp: count_rows_def)
  then show ?thesis unfolding packet_at_def by (cases "filter (\<lambda>p. rk_id p = i) (db_packets db)") auto
qed

lemma packet_at_in:
  assumes "archive_ok db" and "i \<in> packet_ids db"
  shows "packet_at db i \<in> set (db_packets db)" "rk_id (packet_at db i) = i"
proof -
  have "packet_at db i \<in> set (filter (\<lambda>p. rk_id p = i) (db_packets db))" unfolding filter_packet [OF assms] by simp
  then show "packet_at db i \<in> set (db_packets db)" "rk_id (packet_at db i) = i" by auto
qed

lemma packet_at_eq: "archive_ok db \<Longrightarrow> p \<in> set (db_packets db) \<Longrightarrow> packet_at db (rk_id p) = p"
  using packet_at_in [of db "rk_id p"] archive_okD(1) [of db] by (auto simp: packets_ok_def distinct_map inj_on_def)

lemma link_packet: "archive_ok db \<Longrightarrow> f \<in> set (db_fragments db) \<Longrightarrow> fr_packet_id f \<in> packet_ids db"
  using archive_okD(4) [of db] by (auto simp: links_ok_def)

lemma concat_if: "concat (map (\<lambda>f. if A f then h f else []) fs) = concat (map h (filter A fs))"
  by (induction fs) auto

lemma concat_join_packets:
  assumes "archive_ok db" and "set fs \<subseteq> set (db_fragments db)"
  shows "concat (map (\<lambda>f. concat (map (\<lambda>p. if rk_id p = fr_packet_id f then if B then [h f p] else [] else [])
      (db_packets db))) fs) = (if B then map (\<lambda>f. h f (packet_at db (fr_packet_id f))) fs else [])"
proof -
  have "concat (map (\<lambda>p. if rk_id p = fr_packet_id f then if B then [h f p] else [] else []) (db_packets db))
      = (if B then [h f (packet_at db (fr_packet_id f))] else [])" if "f \<in> set fs" for f
    using filter_packet [OF assms(1) link_packet [OF assms(1)], of f] that assms(2) by (auto simp: concat_if)
  then have eq: "map (\<lambda>f. concat (map (\<lambda>p. if rk_id p = fr_packet_id f then if B then [h f p] else [] else [])
      (db_packets db))) fs = map (\<lambda>f. if B then [h f (packet_at db (fr_packet_id f))] else []) fs"
    by (intro map_cong refl)
  have "concat (map (\<lambda>f. [g f]) fs) = map g fs" for g :: "fragment_row \<Rightarrow> 'b" by (induction fs) auto
  then show ?thesis unfolding eq by (cases B) simp_all
qed

lemma persisted_payloads_eq:
  assumes "archive_ok db"
  shows "persisted_payloads key j db = sort_key fst (concat (map (\<lambda>scan. if scan_has_key key scan
     then map (\<lambda>f. (sr_id scan, rk_payload (packet_at db (fr_packet_id f))))
       (filter (\<lambda>f. fr_scan_id f = sr_id scan \<and> fr_fragment_index f = j) (db_fragments db)) else []) (db_scans db)))"
proof -
  have "concat (map (\<lambda>f. if A f then concat (map (\<lambda>p. if rk_id p = fr_packet_id f then if B then [(x, rk_payload p)]
        else [] else []) (db_packets db)) else []) (db_fragments db)) =
      (if B then map (\<lambda>f. (x, rk_payload (packet_at db (fr_packet_id f)))) (filter A (db_fragments db)) else [])"
    for A B and x :: int
    using concat_join_packets [OF assms, of "filter A (db_fragments db)" B "\<lambda>f p. (x, rk_payload p)"]
    unfolding concat_if [of A] by auto
  then show ?thesis unfolding persisted_payloads_def by simp
qed

lemma distinct_map_sort: "distinct (map f (sort_key g xs)) = distinct (map f xs)"
  by (simp add: distinct_map)

lemma persisted_payloads_facts:
  assumes "archive_ok db"
  shows "distinct (map fst (persisted_payloads key j db))"
    "fst ` set (persisted_payloads key j db)
       = sr_id ` {scan \<in> set (db_scans db). scan_record_key (sr_columns scan) = key \<and> holds_fragment db j scan}"
    "snd ` set (persisted_payloads key j db) = held_payloads db key j"
proof -
  have scans: "distinct (map sr_id (db_scans db))" "\<And>scan. scan \<in> set (db_scans db) \<Longrightarrow> scan_row_ok scan"
    using archive_okD(3) [OF assms] by (simp_all add: scans_ok_def)
  have "distinct (map (\<lambda>f. (fr_scan_id f, fr_fragment_index f)) (db_fragments db))"
    using archive_okD(4) [OF assms] by (simp add: links_ok_def)
  then have "distinct (map (\<lambda>f. (fr_scan_id f, fr_fragment_index f)) (filter (\<lambda>f. fr_fragment_index f = j) (db_fragments db)))"
    by (rule distinct_map_filter)
  then have "distinct (map fr_scan_id (filter (\<lambda>f. fr_fragment_index f = j) (db_fragments db)))"
    by (auto simp: distinct_map inj_on_def)
  from distinct_join [OF distinct_map_filter [OF scans(1)] this]
  have "distinct (concat (map (\<lambda>scan. map (\<lambda>f. sr_id scan) (filter (\<lambda>f. fr_scan_id f = sr_id scan
      \<and> True) (filter (\<lambda>f. fr_fragment_index f = j) (db_fragments db)))) (filter (scan_has_key key) (db_scans db))))"
    .
  then show "distinct (map fst (persisted_payloads key j db))"
    unfolding persisted_payloads_eq [OF assms] concat_if distinct_map_sort
    by (simp add: map_concat o_def conj_commute)
  show "fst ` set (persisted_payloads key j db)
      = sr_id ` {scan \<in> set (db_scans db). scan_record_key (sr_columns scan) = key \<and> holds_fragment db j scan}"
    unfolding persisted_payloads_eq [OF assms] holds_fragment_def
    using scan_has_key_iff [OF scans(2)] by (force split: if_splits)
  show "snd ` set (persisted_payloads key j db) = held_payloads db key j"
  proof -
    have "snd ` set (persisted_payloads key j db) = {rk_payload (packet_at db (fr_packet_id f)) | f scan.
        f \<in> set (db_fragments db) \<and> scan \<in> set (db_scans db) \<and> scan_record_key (sr_columns scan) = key
        \<and> fr_scan_id f = sr_id scan \<and> fr_fragment_index f = j}"
      unfolding persisted_payloads_eq [OF assms] using scan_has_key_iff [OF scans(2)] by (force split: if_splits)
    also have "\<dots> = held_payloads db key j"
      unfolding held_payloads_def using packet_at_in [OF assms link_packet [OF assms]] packet_at_eq [OF assms]
      by (intro Collect_cong) metis
    finally show ?thesis .
  qed
qed

lemma reconcile_classified:
  assumes "archive_ok db"
  shows "reconcile_persisted_profile_fragment key i j payload db =
    (if held_payloads db key j = {} then Ok (None, db)
     else let c = (if held_payloads db key j = {payload} then MatchDuplicate else MatchConflict)
       in Ok (Some c,
         db\<lparr>db_scans := map (\<lambda>scan. if scan_record_key (sr_columns scan) = key \<and> holds_fragment db j scan
               then count_match c scan else scan) (db_scans db),
            db_decodes := map (\<lambda>row. if vd_packet_id row = i
               then row\<lparr>vd_reassembly_status := Some (storage_status c)\<rparr> else row) (db_decodes db)\<rparr>))"
proof -
  note facts = persisted_payloads_facts [OF assms, of key j]
  have none: "persisted_payloads key j db = [] \<longleftrightarrow> held_payloads db key j = {}" using facts(3) by auto
  have same: "list_all (\<lambda>p. p = payload) (map snd (persisted_payloads key j db)) \<longleftrightarrow> held_payloads db key j = {payload}"
    if "held_payloads db key j \<noteq> {}"
  proof -
    have "list_all (\<lambda>p. p = payload) (map snd (persisted_payloads key j db)) \<longleftrightarrow> held_payloads db key j \<subseteq> {payload}"
      by (simp add: list_all_iff image_subset_iff flip: facts(3))
    then show ?thesis using that by (simp only: subset_singleton_iff simp_thms)
  qed
  have inj: "sr_id scan \<in> fst ` set (persisted_payloads key j db) \<longleftrightarrow>
      scan_record_key (sr_columns scan) = key \<and> holds_fragment db j scan" if "scan \<in> set (db_scans db)" for scan
  proof -
    have "inj_on sr_id (set (db_scans db))" using archive_okD(3) [OF assms] by (simp add: scans_ok_def distinct_map)
    then show ?thesis unfolding facts(2) using that by (subst inj_on_image_mem_iff) auto
  qed
  have "update_scans (map fst (persisted_payloads key j db)) (count_match c) db =
      db\<lparr>db_scans := map (\<lambda>scan. if scan_record_key (sr_columns scan) = key \<and> holds_fragment db j scan
               then count_match c scan else scan) (db_scans db)\<rparr>" for c
    unfolding update_scans_eq foldl_update_rows [OF facts(1) recountsD(1) [OF recounts_count_match]]
    using inj by (simp cong: map_cong)
  then show ?thesis
    unfolding reconcile_persisted_profile_fragment_def Let_def none classify_payload_def
    using same by (simp add: set_status_def update_rows_def)
qed

text \<open>One more, unless the counter is full.\<close>

definition next_count :: "u16 \<Rightarrow> u16" where
  "next_count n = (if n = 0xffff then 0xffff else n + 1)"

lemma saturating_one: "saturating_add n 1 = next_count n"
proof -
  have "n = 0xffff \<longleftrightarrow> unat n = 65535" by (simp add: word_unat_eq_iff)
  moreover have "unat n < 65536" using unsigned_less [of n, where 'a = nat] by simp
  ultimately show ?thesis by (auto simp: saturating_add_def next_count_def)
qed

text \<open>
  C15. Reconciliation with persisted scans: under the invariant it never fails. When no scan with the
  key of the fragment holds a fragment at its index, nothing changes. When every such scan holds the same bytes, the
  fragment is a duplicate: the duplicate counter of each of these scans goes up by one, unless it is full, in its
  column and in the JSON record, and the packet gets the status of a duplicate. When one holds other bytes it is a
  conflict: the same happens to the conflict counter, and the packet gets the status of a conflict. Nothing else changes.
\<close>

theorem reconcile_exact:
  assumes "archive_ok db"
  shows "reconcile_persisted_profile_fragment key i j payload db =
    (if held_payloads db key j = {} then Ok (None, db)
     else if held_payloads db key j = {payload} then
       Ok (Some MatchDuplicate,
         db\<lparr>db_scans := map (\<lambda>scan. if scan_record_key (sr_columns scan) = key \<and> holds_fragment db j scan
               then scan\<lparr>sr_duplicate_fragment_count := next_count (sr_duplicate_fragment_count scan),
                         sr_record_json := (sr_record_json scan)
                           \<lparr>pf_duplicate_fragment_count := next_count (sr_duplicate_fragment_count scan)\<rparr>\<rparr>
               else scan) (db_scans db),
            db_decodes := map (\<lambda>row. if vd_packet_id row = i
               then row\<lparr>vd_reassembly_status := Some StatusDuplicate\<rparr> else row) (db_decodes db)\<rparr>)
     else
       Ok (Some MatchConflict,
         db\<lparr>db_scans := map (\<lambda>scan. if scan_record_key (sr_columns scan) = key \<and> holds_fragment db j scan
               then scan\<lparr>sr_conflicting_fragment_count := next_count (sr_conflicting_fragment_count scan),
                         sr_record_json := (sr_record_json scan)
                           \<lparr>pf_conflicting_fragment_count := next_count (sr_conflicting_fragment_count scan)\<rparr>\<rparr>
               else scan) (db_scans db),
            db_decodes := map (\<lambda>row. if vd_packet_id row = i
               then row\<lparr>vd_reassembly_status := Some StatusConflict\<rparr> else row) (db_decodes db)\<rparr>))"
  by (simp add: reconcile_classified [OF assms] Let_def saturating_one)

end
