(* ===== verification/Archive_Restore.thy ===== *)
theory Archive_Restore
  imports Archive_Behaviour
begin

text \<open>
  Loading the incomplete scans of the archive, and the round trip from a stored profile to the one
  that is loaded after a restart.
\<close>

section \<open>The rows of the query\<close>

definition links :: "archive \<Rightarrow> scan_row \<Rightarrow> fragment_row list" where
  "links db scan = filter (\<lambda>f. fr_scan_id f = sr_id scan) (db_fragments db)"

definition wanted :: "profile_key option \<Rightarrow> scan_row \<Rightarrow> bool" where
  "wanted key scan \<longleftrightarrow> \<not> sr_transport_complete scan \<and> (case key of None \<Rightarrow> True | Some k \<Rightarrow> scan_has_key k scan)"

definition link_rows :: "archive \<Rightarrow> scan_row \<Rightarrow> incomplete_row list" where
  "link_rows db scan =
     map (\<lambda>f. \<lparr>iw_scan = scan, iw_fragment = f, iw_packet = packet_at db (fr_packet_id f)\<rparr>)
       (sort_key fr_fragment_index (links db scan))"

text \<open>A filter on the key of the groups selects one group.\<close>

lemma filter_group:
  assumes "distinct (map k ss)" and "s \<in> set ss" and "\<And>s x. s \<in> set ss \<Longrightarrow> x \<in> set (G s) \<Longrightarrow> h x = k s"
  shows "filter (\<lambda>x. k s = h x) (concat (map G ss)) = G s"
  using assms
proof (induction ss)
  case Nil
  then show ?case by simp
next
  case (Cons t ss)
  have t: "\<forall>x \<in> set (G t). h x = k t" using Cons.prems(3) by auto
  show ?case
  proof (cases "t = s")
    case True
    then have "\<forall>x \<in> set (concat (map G ss)). k s \<noteq> h x" using Cons.prems(1,3) by fastforce
    then have "filter (\<lambda>x. k s = h x) (concat (map G ss)) = []" by (simp add: filter_empty_conv)
    then show ?thesis using True t by simp
  next
    case False
    then have "s \<in> set ss" "k t \<notin> k ` set ss" using Cons.prems(1,2) by auto
    moreover from this have "k s \<noteq> k t" by (metis imageI)
    ultimately show ?thesis using Cons t by (auto simp: filter_empty_conv)
  qed
qed

text \<open>Sorting by the key of the groups lists the groups in the order of their keys.\<close>

lemma sort_groups:
  assumes "distinct (map k ss)" and "mset xs = mset (concat (map G ss))"
    and "\<And>s. s \<in> set ss \<Longrightarrow> filter (\<lambda>x. k s = h x) xs = G s"
  shows "sort_key h xs = concat (map G (sort_key k ss))" (is "_ = ?ys")
proof (rule properties_for_sort_key)
  have G: "h x = k s" if "s \<in> set ss" "x \<in> set (G s)" for s x using assms(3) [OF that(1)] that(2) by (metis (mono_tags, lifting) filter_set mem_Collect_eq set_filter)
  show "mset ?ys = mset xs"
    unfolding assms(2) by (simp add: mset_concat o_def flip: sum_mset_sum_list)
  have ss: "distinct (map k (sort_key k ss))" using assms(1) by (simp add: distinct_map_sort)
  show "filter (\<lambda>y. h x = h y) ?ys = filter (\<lambda>y. h x = h y) xs" if x: "x \<in> set ?ys" for x
  proof -
    obtain s where s: "s \<in> set ss" "h x = k s" using x G by auto
    have "filter (\<lambda>y. k s = h y) ?ys = G s" by (rule filter_group [OF ss]) (use s(1) G in auto)
    then show ?thesis unfolding s(2) assms(3) [OF s(1)] .
  qed
  have "sorted (map h (concat (map G ts)))"
    if "sorted (map k ts)" "\<And>s x. s \<in> set ts \<Longrightarrow> x \<in> set (G s) \<Longrightarrow> h x = k s" for ts
    using that
  proof (induction ts)
    case (Cons s ts)
    have "map h (G s) = map (\<lambda>x. k s) (G s)" using Cons.prems(2) by (intro map_cong) auto
    then have "sorted (map h (G s))" by (metis map_replicate_const sorted_replicate)
    then show ?case using Cons by (fastforce simp: sorted_append)
  qed simp
  from this [of "sort_key k ss"] show "sorted (map h ?ys)" using G by simp
qed

lemma incomplete_rows_eq:
  assumes "archive_ok db"
  shows "incomplete_rows key db = concat (map (link_rows db) (sort_key sr_id (filter (wanted key) (db_scans db))))"
proof -
  let ?row = "\<lambda>scan f. \<lparr>iw_scan = scan, iw_fragment = f, iw_packet = packet_at db (fr_packet_id f)\<rparr>"
  let ?ss = "filter (wanted key) (db_scans db)" and ?g = "\<lambda>scan. map (?row scan) (links db scan)"
  let ?sorts = "\<lambda>rows. sort_key (\<lambda>row. fr_fragment_index (iw_fragment row)) (sort_key (\<lambda>row. rk_id (iw_packet row)) rows)"
  have inner: "concat (map (\<lambda>f. if A f then concat (map (\<lambda>p. if rk_id p = fr_packet_id f then if B
        then [\<lparr>iw_scan = scan, iw_fragment = f, iw_packet = p\<rparr>] else [] else []) (db_packets db)) else [])
        (db_fragments db)) = (if B then map (?row scan) (filter A (db_fragments db)) else [])"
    for A B and scan
    using concat_join_packets [OF assms, of "filter A (db_fragments db)" B
        "\<lambda>f p. \<lparr>iw_scan = scan, iw_fragment = f, iw_packet = p\<rparr>"]
    unfolding concat_if [of A] by auto
  have "incomplete_rows key db = sort_key (\<lambda>row. sr_id (iw_scan row)) (?sorts (concat (map ?g ?ss)))"
    unfolding incomplete_rows_def inner links_def by (simp add: concat_if flip: wanted_def)
  also have "\<dots> = concat (map (link_rows db) (sort_key sr_id ?ss))"
  proof (rule sort_groups)
    show ids: "distinct (map sr_id ?ss)"
      using archive_okD(3) [OF assms] by (simp add: scans_ok_def distinct_map_filter)
    show "mset (?sorts (concat (map ?g ?ss))) = mset (concat (map (link_rows db) ?ss))"
      by (simp add: mset_concat o_def link_rows_def)
    fix scan
    assume scan: "scan \<in> set ?ss"
    have "filter (\<lambda>row. sr_id scan = sr_id (iw_scan row)) (concat (map ?g ?ss)) = ?g scan"
      by (rule filter_group [OF ids scan]) auto
    moreover have "?sorts (?g scan) = link_rows db scan"
    proof (rule sort_key_inj_key_eq)
      have "inj_on (\<lambda>f. (fr_scan_id f, fr_fragment_index f)) (set (db_fragments db))"
        using archive_okD(4) [OF assms] by (simp add: links_ok_def distinct_map)
      then show "inj_on (\<lambda>row. fr_fragment_index (iw_fragment row)) (set (sort_key (\<lambda>row. rk_id (iw_packet row)) (?g scan)))"
        by (auto simp: inj_on_def links_def)
    qed (simp_all add: link_rows_def o_def)
    ultimately show "filter (\<lambda>row. sr_id scan = sr_id (iw_scan row)) (?sorts (concat (map ?g ?ss))) = link_rows db scan"
      by (simp add: filter_sort)
  qed
  finally show ?thesis .
qed

section \<open>Grouping\<close>

text \<open>The profile a scan is restored as.\<close>

definition restored :: "archive \<Rightarrow> scan_row \<Rightarrow> persisted_incomplete_profile" where
  "restored db scan =
     \<lparr>ip_scan_id = sr_id scan, ip_key = scan_record_key (sr_columns scan),
      ip_duplicate_fragment_count = sr_duplicate_fragment_count scan,
      ip_conflicting_fragment_count = sr_conflicting_fragment_count scan,
      ip_fragments = map (\<lambda>f. pending_of (packet_at db (fr_packet_id f)) (fr_fragment_index f))
        (sort_key fr_fragment_index (links db scan))\<rparr>"

lemma row_key_Ok: "scan_row_ok scan \<Longrightarrow> row_key scan = Ok (scan_record_key (sr_columns scan))"
  by (simp add: row_key_def scan_row_ok_def scan_record_key_def Let_def)

lemma add_rows_continue:
  assumes "scan_row_ok scan" and "\<And>row. row \<in> set rows \<Longrightarrow> iw_scan row = scan"
    and "ip_scan_id p = sr_id scan" and "ip_key p = scan_record_key (sr_columns scan)"
  shows "for_each rows (ps @ [p]) add_incomplete_row = Ok (ps @ [p\<lparr>ip_fragments := ip_fragments p @
    map (\<lambda>row. pending_of (iw_packet row) (fr_fragment_index (iw_fragment row))) rows\<rparr>])"
  using assms(2-4)
proof (induction rows arbitrary: p)
  case Nil
  then show ?case by simp
next
  case (Cons row rows)
  then have "iw_scan row = scan" by simp
  then have "add_incomplete_row row (ps @ [p]) = Ok (ps @ [p\<lparr>ip_fragments := ip_fragments p @
      [pending_of (iw_packet row) (fr_fragment_index (iw_fragment row))]\<rparr>])"
    using Cons.prems(2,3) by (simp add: add_incomplete_row_def row_key_Ok [OF assms(1)])
  then show ?case using Cons by simp
qed

lemma add_rows_open:
  assumes "scan_row_ok scan" and "\<And>row. row \<in> set rows \<Longrightarrow> iw_scan row = scan" and "rows \<noteq> []"
    and "ps = [] \<or> ip_scan_id (last ps) \<noteq> sr_id scan"
  shows "for_each rows ps add_incomplete_row = Ok (ps @
    [\<lparr>ip_scan_id = sr_id scan, ip_key = scan_record_key (sr_columns scan),
      ip_duplicate_fragment_count = sr_duplicate_fragment_count scan,
      ip_conflicting_fragment_count = sr_conflicting_fragment_count scan,
      ip_fragments = map (\<lambda>row. pending_of (iw_packet row) (fr_fragment_index (iw_fragment row))) rows\<rparr>])"
proof -
  obtain row rest where rows: "rows = row # rest" using assms(3) by (cases rows) auto
  then have "iw_scan row = scan" using assms(2) by simp
  then have "add_incomplete_row row ps = Ok (ps @
     [\<lparr>ip_scan_id = sr_id scan, ip_key = scan_record_key (sr_columns scan),
      ip_duplicate_fragment_count = sr_duplicate_fragment_count scan,
      ip_conflicting_fragment_count = sr_conflicting_fragment_count scan,
      ip_fragments = [pending_of (iw_packet row) (fr_fragment_index (iw_fragment row))]\<rparr>])"
    using assms(4) by (auto simp: add_incomplete_row_def row_key_Ok [OF assms(1)])
  then show ?thesis using add_rows_continue [OF assms(1), of rest] assms(2) by (simp add: rows)
qed

lemma add_groups:
  assumes "distinct (map sr_id ss)" and "\<And>scan. scan \<in> set ss \<Longrightarrow> scan_row_ok scan"
    and "\<forall>p \<in> set ps. ip_scan_id p \<notin> sr_id ` set ss"
  shows "for_each (concat (map (link_rows db) ss)) ps add_incomplete_row
    = Ok (ps @ map (restored db) (filter (\<lambda>scan. links db scan \<noteq> []) ss))"
  using assms
proof (induction ss arbitrary: ps)
  case Nil
  then show ?case by simp
next
  case (Cons scan ss)
  show ?case
  proof (cases "links db scan = []")
    case True
    then show ?thesis using Cons by (simp add: link_rows_def)
  next
    case False
    then have "link_rows db scan \<noteq> []" by (simp add: link_rows_def) (metis length_0_conv length_sort)
    moreover have "ps = [] \<or> ip_scan_id (last ps) \<noteq> sr_id scan" using Cons.prems(3) by auto
    moreover have "\<And>row. row \<in> set (link_rows db scan) \<Longrightarrow> iw_scan row = scan" by (auto simp: link_rows_def)
    moreover have "map (\<lambda>row. pending_of (iw_packet row) (fr_fragment_index (iw_fragment row))) (link_rows db scan)
        = ip_fragments (restored db scan)" by (simp add: link_rows_def restored_def)
    ultimately have "for_each (link_rows db scan) ps add_incomplete_row = Ok (ps @ [restored db scan])"
      using add_rows_open [of scan "link_rows db scan" ps] Cons.prems(2) by (simp add: restored_def)
    moreover have "for_each (concat (map (link_rows db) ss)) (ps @ [restored db scan]) add_incomplete_row
        = Ok ((ps @ [restored db scan]) @ map (restored db) (filter (\<lambda>scan. links db scan \<noteq> []) ss))"
      using Cons.prems by (intro Cons.IH) (auto simp: restored_def)
    ultimately show ?thesis using False by (simp add: for_each_append)
  qed
qed

lemma incomplete_profiles_matching_eq:
  assumes "archive_ok db" and "0 < limit" and "limit < 2 ^ 63"
  shows "let scans = filter (wanted key) (db_scans db); n = sum_list (map (\<lambda>scan. length (links db scan)) scans) in
    incomplete_profiles_matching key limit db =
      (if limit < n then fail (IncompleteReplayLimitExceeded n limit)
       else Ok (map (restored db) (filter (\<lambda>scan. links db scan \<noteq> []) (sort_key sr_id scans))))"
proof -
  let ?ss = "filter (wanted key) (db_scans db)"
  let ?n = "sum_list (map (\<lambda>scan. length (links db scan)) ?ss)"
  have "length (concat (map (\<lambda>scan. concat (map (\<lambda>f. if fr_scan_id f = sr_id scan \<and> \<not> sr_transport_complete scan
      \<and> (case key of None \<Rightarrow> True | Some k \<Rightarrow> scan_has_key k scan) then [()] else []) (db_fragments db))) scans))
      = sum_list (map (\<lambda>scan. length (links db scan)) (filter (wanted key) scans))" for scans
    by (induction scans) (auto simp: concat_if_map links_def filter_empty_conv simp flip: wanted_def)
  moreover have "length (incomplete_rows key db) = ?n"
    by (simp add: incomplete_rows_eq [OF assms(1)] length_concat link_rows_def o_def flip: sum_mset_sum_list)
  moreover have "distinct (map sr_id (sort_key sr_id ?ss))"
    using archive_okD(3) [OF assms(1)] by (simp add: distinct_map_sort scans_ok_def distinct_map_filter)
  then have "for_each (incomplete_rows key db) [] add_incomplete_row
      = Ok ([] @ map (restored db) (filter (\<lambda>scan. links db scan \<noteq> []) (sort_key sr_id ?ss)))"
    unfolding incomplete_rows_eq [OF assms(1)] using archive_okD(3) [OF assms(1)]
    by (intro add_groups) (auto simp: scans_ok_def)
  ultimately show ?thesis using assms(2,3) unfolding incomplete_profiles_matching_def Let_def by simp
qed

text \<open>
  C13. Restoring after a restart: under the invariant and for a representable limit, the archive loads
  the incomplete scans (all of them, or those with a given key) in the order of their ids, each with
  its full key parsed back from the text columns, its counters and its source fragments in the order
  of their indices with the bytes of their packets; or, when there are more fragments than the limit,
  an error with their number. No stored scan is reported as corrupt.
\<close>

theorem incomplete_profiles_exact:
  assumes "archive_ok db" and "0 < limit" and "limit < 2 ^ 63"
  shows "let scans = filter (wanted key) (db_scans db); n = sum_list (map (\<lambda>scan. length (links db scan)) scans) in
    incomplete_profiles_matching key limit db =
      (if limit < n then fail (IncompleteReplayLimitExceeded n limit)
       else Ok (map (restored db) (filter (\<lambda>scan. links db scan \<noteq> []) (sort_key sr_id scans))))"
  using assms by (rule incomplete_profiles_matching_eq)

section \<open>Storing and restoring\<close>

lemma insert_steps_tables:
  assumes "for_each steps db (insert_profile_step i) = Ok db'"
  shows "db_packets db' = db_packets db \<and> db_scans db' = db_scans db \<and> db_fragments db' = db_fragments db
    \<and> db_decodes db' = db_decodes db"
  using assms by (rule for_each_invariant) (auto simp: insert_profile_step_def split: if_splits)

lemma insert_fragments_tables:
  assumes "for_each fs db (insert_profile_fragment i status) = Ok db'"
  shows "db_packets db' = db_packets db \<and> db_scans db' = db_scans db
    \<and> db_fragments db' = db_fragments db @ map (link_row i) fs \<and> sf_packet_id ` set fs \<subseteq> packet_ids db
    \<and> db_decodes db' = map (\<lambda>row. if vd_packet_id row \<in> sf_packet_id ` set fs
        then row\<lparr>vd_reassembly_status := Some status\<rparr> else row) (db_decodes db)"
  using assms
proof (induction fs arbitrary: db)
  case Nil
  then show ?case by simp
next
  case (Cons f fs)
  then obtain db1 where "insert_profile_fragment i status f db = Ok db1"
    and rest: "for_each fs db1 (insert_profile_fragment i status) = Ok db'" by auto
  then have "db_packets db1 = db_packets db" "db_scans db1 = db_scans db" "sf_packet_id f \<in> packet_ids db"
    "db_fragments db1 = db_fragments db @ [link_row i f]"
    "db_decodes db1 = map (\<lambda>row. if vd_packet_id row = sf_packet_id f
      then row\<lparr>vd_reassembly_status := Some status\<rparr> else row) (db_decodes db)"
    by (auto simp: insert_fragment_Ok set_status_def update_rows_def)
  then show ?case using Cons.IH [OF rest] by auto
qed

lemma insert_profile_scan_tables:
  assumes "insert_profile_scan_inner profile integrity_packet db = Ok (r, db')"
    and "is_transport_complete (rp_scan profile) = (Ok complete :: (bool, storage_error) result)"
  obtains a b m where
    "db_packets db' = db_packets db" "sf_packet_id ` set (rp_fragments profile) \<subseteq> packet_ids db"
    "db_scans db' = filter (\<lambda>row. sr_transport_complete row \<or> \<not> scan_has_key (scan_record_key (rp_scan profile)) row)
       (db_scans db) @ [new_scan_row (so_id r) a b (rp_scan profile) m complete]"
    "so_id r \<notin> sr_id ` {row \<in> set (db_scans db). sr_transport_complete row
       \<or> \<not> scan_has_key (scan_record_key (rp_scan profile)) row}"
    "db_fragments db' = filter (\<lambda>f. fr_scan_id f \<notin> sr_id ` {row \<in> set (db_scans db). \<not> sr_transport_complete row
       \<and> scan_has_key (scan_record_key (rp_scan profile)) row}) (db_fragments db)
       @ map (link_row (so_id r)) (rp_fragments profile)"
  using assms(1)
proof (rule insert_profile_scan_Ok)
  fix db1 a b m c row
  assume "is_transport_complete (rp_scan profile) = (Ok c :: (bool, storage_error) result)"
    and db1: "db1 = fst (delete_scans (\<lambda>row. \<not> sr_transport_complete row
       \<and> scan_has_key (scan_record_key (rp_scan profile)) row) db)"
    and fresh: "so_id r \<notin> sr_id ` set (db_scans db1)"
    and row: "row = new_scan_row (so_id r) a b (rp_scan profile) m c"
    and steps: "store_profile_steps (so_id r) (if c then StatusAssembled else StatusIncomplete) profile
       integrity_packet (db1\<lparr>db_scans := db_scans db1 @ [row]\<rparr>) = Ok db'"
  then have c: "c = complete" using assms(2) by simp
  from steps obtain db2 db3 where
    "for_each (pf_steps (rp_scan profile)) (db1\<lparr>db_scans := db_scans db1 @ [row]\<rparr>)
       (insert_profile_step (so_id r)) = Ok db2"
    and "for_each (rp_fragments profile) db2 (insert_profile_fragment (so_id r)
       (if c then StatusAssembled else StatusIncomplete)) = Ok db3"
    and mark: "(case integrity_packet of None \<Rightarrow> Ok db3
      | Some (packet_id, status) \<Rightarrow> mark_fragment_status packet_id status db3) = Ok db'"
    by (auto simp: store_profile_steps_def)
  then have db3: "db_packets db3 = db_packets db1" "db_scans db3 = db_scans db1 @ [row]"
    "db_fragments db3 = db_fragments db1 @ map (link_row (so_id r)) (rp_fragments profile)"
    "sf_packet_id ` set (rp_fragments profile) \<subseteq> packet_ids db1"
    by (auto dest!: insert_steps_tables insert_fragments_tables)
  have "db_packets db' = db_packets db3 \<and> db_scans db' = db_scans db3 \<and> db_fragments db' = db_fragments db3"
    using mark by (cases integrity_packet) (auto dest!: mark_fragment_status_Ok simp: set_status_def)
  then show thesis
    using db3 fresh that [of a b m] by (simp add: db1 delete_scans_def Let_def row c)
qed

lemma new_scan_row_key: "scan_has_key (scan_record_key scan) (new_scan_row i a b scan m complete)"
  by (simp add: scan_has_key_def scan_record_key_def new_scan_row_def)

lemma sort_key_map: "sort_key g (map f xs) = map f (sort_key (\<lambda>x. g (f x)) xs)"
proof -
  have "insort_key g (f x) (map f ys) = map f (insort_key (\<lambda>x. g (f x)) x ys)" for x ys by (induction ys) auto
  then show ?thesis by (induction xs) auto
qed

lemma stored_scan_links:
  assumes "archive_ok db" and "insert_profile_scan_inner profile integrity_packet db = Ok (r, db')"
    and "is_transport_complete (rp_scan profile) = (Ok complete :: (bool, storage_error) result)"
  obtains row a b m where "row = new_scan_row (so_id r) a b (rp_scan profile) m complete"
    "filter (wanted (Some (scan_record_key (rp_scan profile)))) (db_scans db') = (if complete then [] else [row])"
    "links db' row = map (link_row (so_id r)) (rp_fragments profile)"
    "db_packets db' = db_packets db"
  using assms(2,3)
proof (rule insert_profile_scan_tables)
  let ?key = "scan_record_key (rp_scan profile)"
  let ?gone = "\<lambda>row. \<not> sr_transport_complete row \<and> scan_has_key ?key row"
  let ?old = "filter (\<lambda>f. fr_scan_id f \<notin> sr_id ` {row \<in> set (db_scans db). ?gone row}) (db_fragments db)"
  fix a b m
  let ?row = "new_scan_row (so_id r) a b (rp_scan profile) m complete"
  assume packets: "db_packets db' = db_packets db"
    and scans: "db_scans db' = filter (\<lambda>row. sr_transport_complete row \<or> \<not> scan_has_key ?key row) (db_scans db) @ [?row]"
    and fresh: "so_id r \<notin> sr_id ` {row \<in> set (db_scans db). sr_transport_complete row \<or> \<not> scan_has_key ?key row}"
    and fragments: "db_fragments db' = ?old @ map (link_row (so_id r)) (rp_fragments profile)"
  have "filter (wanted (Some ?key)) (filter (\<lambda>row. sr_transport_complete row \<or> \<not> scan_has_key ?key row) (db_scans db)) = []"
    by (auto simp: filter_empty_conv wanted_def)
  moreover have "wanted (Some ?key) ?row \<longleftrightarrow> \<not> complete"
    using new_scan_row_key by (simp add: wanted_def new_scan_row_def)
  ultimately have "filter (wanted (Some ?key)) (db_scans db') = (if complete then [] else [?row])"
    unfolding scans by simp
  moreover have "filter (\<lambda>f. fr_scan_id f = so_id r) ?old = []"
  proof -
    have "fr_scan_id ` set (db_fragments db) \<subseteq> sr_id ` set (db_scans db)"
      using archive_okD(4) [OF assms(1)] by (simp add: links_ok_def)
    then have "fr_scan_id f \<in> sr_id ` {row \<in> set (db_scans db). ?gone row}"
      if f: "f \<in> set (db_fragments db)" "fr_scan_id f = so_id r" for f
    proof -
      obtain row where row: "row \<in> set (db_scans db)" "fr_scan_id f = sr_id row"
        using \<open>fr_scan_id ` _ \<subseteq> _\<close> f(1) by blast
      then have "?gone row" using fresh f(2) by auto
      then show ?thesis using row by blast
    qed
    then show ?thesis unfolding filter_filter filter_empty_conv by blast
  qed
  then have "links db' ?row = map (link_row (so_id r)) (rp_fragments profile)"
    unfolding links_def fragments by (simp add: new_scan_row_def link_row_def filter_map o_def)
  ultimately show thesis using that [OF refl] packets by blast
qed

text \<open>
  C12. A stored profile survives a restart: after a profile is stored, what the archive loads for its
  key is nothing when the profile was complete, and otherwise exactly this profile and no other: the
  id of its row, its key, its two counters, and its source fragments in the order of their indices
  with the archived bytes, times and radio data of their packets.
\<close>

theorem stored_profile_restored:
  assumes "archive_ok db" and "insert_profile_scan profile db = Ok (r, db')"
    and "is_transport_complete (rp_scan profile) = (Ok complete :: (bool, storage_error) result)"
    and "length (rp_fragments profile) \<le> limit" and "limit < 2 ^ 63"
  shows "incomplete_profiles_for_key (scan_record_key (rp_scan profile)) limit db' =
    Ok (if complete then [] else
      [\<lparr>ip_scan_id = so_id r, ip_key = scan_record_key (rp_scan profile),
        ip_duplicate_fragment_count = pf_duplicate_fragment_count (rp_scan profile),
        ip_conflicting_fragment_count = pf_conflicting_fragment_count (rp_scan profile),
        ip_fragments = map (\<lambda>f. pending_of (packet_at db (sf_packet_id f)) (sf_fragment_index f))
          (sort_key sf_fragment_index (rp_fragments profile))\<rparr>])"
  using assms(1) assms(2) [unfolded insert_profile_scan_def] assms(3)
proof (rule stored_scan_links)
  let ?key = "scan_record_key (rp_scan profile)"
  fix row a b m
  assume row: "row = new_scan_row (so_id r) a b (rp_scan profile) m complete"
    and scans: "filter (wanted (Some ?key)) (db_scans db') = (if complete then [] else [row])"
    and links: "links db' row = map (link_row (so_id r)) (rp_fragments profile)"
    and packets: "db_packets db' = db_packets db"
  have ok: "archive_ok db'"
    using insert_profile_scan_keeps [OF assms(2) [unfolded insert_profile_scan_def] assms(1)] assms(1)
    by (simp add: keeps_def)
  have "rp_fragments profile \<noteq> []"
    using assms(2) by (auto simp: insert_profile_scan_def insert_profile_scan_inner_def Let_def)
  then have limit: "0 < limit" "links db' row \<noteq> []" using assms(4) links by (auto dest: order_less_le_trans [OF length_greater_0_conv [THEN iffD2]])
  have "packet_at db' = packet_at db" by (simp add: fun_eq_iff packet_at_def packets)
  then have "restored db' row = \<lparr>ip_scan_id = so_id r, ip_key = ?key,
        ip_duplicate_fragment_count = pf_duplicate_fragment_count (rp_scan profile),
        ip_conflicting_fragment_count = pf_conflicting_fragment_count (rp_scan profile),
        ip_fragments = map (\<lambda>f. pending_of (packet_at db (sf_packet_id f)) (sf_fragment_index f))
          (sort_key sf_fragment_index (rp_fragments profile))\<rparr>"
    by (simp add: restored_def row new_scan_row_def links [unfolded row new_scan_row_def] sort_key_map link_row_def o_def)
  then show ?thesis
    using incomplete_profiles_matching_eq [OF ok limit(1) assms(5), of "Some ?key"] assms(4) limit(2)
    unfolding incomplete_profiles_for_key_def Let_def scans by (auto simp: links)
qed

end
