(* ===== verification/Archive_Quarantine.thy ===== *)
theory Archive_Quarantine
  imports Archive_Restore
begin

text \<open>
  Taking a contaminated incomplete scan apart: what is quarantined, what is replayed and what stays.
\<close>

section \<open>Candidates for replay\<close>

lemma replay_sources_payload:
  "(c, payload) \<in> set (replay_sources key i db) \<Longrightarrow> \<exists>p \<in> set (db_packets db). rk_id p = c \<and> rk_payload p = payload"
  by (fastforce simp: replay_sources_def split: if_splits)

lemma integrity_events_payload:
  "(c, payload) \<in> set (integrity_events key i db) \<Longrightarrow> \<exists>p \<in> set (db_packets db). rk_id p = c \<and> rk_payload p = payload"
  by (fastforce simp: integrity_events_def split: if_splits)

definition with_event :: "profile_key \<Rightarrow> (int \<times> bytes) list \<Rightarrow> int \<times> bytes \<Rightarrow> (int \<times> bytes) list" where
  "with_event key candidates event = (case event of (c, payload) \<Rightarrow>
     if decodes_to_key payload key \<and> c \<notin> set (map fst candidates) then candidates @ [(c, payload)] else candidates)"

lemma with_event_set:
  "set candidates \<subseteq> set (with_event key candidates event)"
  "set (with_event key candidates event) \<subseteq> insert event (set candidates)"
  by (cases event, simp add: with_event_def, cases event, auto simp: with_event_def)

lemma with_events_sets:
  "set candidates \<subseteq> set (foldl (with_event key) candidates events)
   \<and> set (foldl (with_event key) candidates events) \<subseteq> set candidates \<union> set events"
proof (induction events arbitrary: candidates)
  case (Cons event events)
  show ?case
    using Cons [of "with_event key candidates event"] with_event_set [where candidates = candidates and key = key and event = event]
    by auto
qed simp

lemmas with_events_set = with_events_sets [THEN conjunct1] with_events_sets [THEN conjunct2]

lemma replay_candidates_set:
  "set (replay_sources key i db) \<subseteq> set (replay_candidates key i db)"
  "(c, payload) \<in> set (replay_candidates key i db) \<Longrightarrow> \<exists>p \<in> set (db_packets db). rk_id p = c \<and> rk_payload p = payload"
proof -
  have eq: "(\<lambda>candidates (candidate_id, payload). if decodes_to_key payload key \<and> candidate_id \<notin> set (map fst candidates)
      then candidates @ [(candidate_id, payload)] else candidates) = with_event key"
    by (auto simp: fun_eq_iff with_event_def)
  show "set (replay_sources key i db) \<subseteq> set (replay_candidates key i db)"
    using with_events_set(1) unfolding replay_candidates_def eq by simp
  show "(c, payload) \<in> set (replay_candidates key i db) \<Longrightarrow> \<exists>p \<in> set (db_packets db). rk_id p = c \<and> rk_payload p = payload"
    using with_events_set(2) [of key "replay_sources key i db" "integrity_events key i db"]
      replay_sources_payload integrity_events_payload
    unfolding replay_candidates_def eq by (auto split: if_splits)
qed

section \<open>Requeueing\<close>

text \<open>The fragments with decoded columns.\<close>

definition fragment_ids :: "archive \<Rightarrow> int set" where
  "fragment_ids db = vd_packet_id ` {row \<in> set (db_decodes db). vd_record_kind row = KindProfileFragment}"

lemma ids_iff:
  "c \<in> fragment_ids db \<longleftrightarrow> (\<exists>row \<in> set (db_decodes db). vd_packet_id row = c \<and> vd_record_kind row = KindProfileFragment)"
  "c \<in> pending_ids db \<longleftrightarrow> (\<exists>row \<in> set (db_decodes db). vd_packet_id row = c \<and> is_pending_fragment row)"
  by (auto simp: fragment_ids_def pending_ids_def)

lemma requeue_candidate_tables:
  "db_decodes (requeue_candidate key db (d, payload)) = (if decodes_to_key payload key
     then map (\<lambda>row. if vd_packet_id row = d then row\<lparr>vd_reassembly_status := Some StatusPending\<rparr> else row) (db_decodes db)
     else filter (\<lambda>row. vd_packet_id row \<noteq> d) (db_decodes db))"
  "db_scans (requeue_candidate key db (d, payload)) = db_scans db"
  "raw_packets (requeue_candidate key db (d, payload)) = raw_packets db"
  by (simp_all add: requeue_candidate_def set_status_def update_rows_def delete_decodes_def invalidate_packet_def
      raw_packets_def raw_packet_def)

lemma requeue_candidate_ids:
  assumes "d = c \<longrightarrow> decodes_to_key payload key"
  shows "c \<in> fragment_ids db \<Longrightarrow> c \<in> fragment_ids (requeue_candidate key db (d, payload))"
    and "c \<in> pending_ids db \<Longrightarrow> c \<in> pending_ids (requeue_candidate key db (d, payload))"
    and "c \<in> fragment_ids db \<Longrightarrow> d = c \<Longrightarrow> c \<in> pending_ids (requeue_candidate key db (d, payload))"
  using assms unfolding ids_iff requeue_candidate_tables is_pending_fragment_def
  by (auto simp del: if_image_distrib)

lemma requeue_candidates_pending:
  assumes "\<And>d payload. (d, payload) \<in> set candidates \<Longrightarrow> d = c \<Longrightarrow> decodes_to_key payload key"
    and "c \<in> fragment_ids db" and "c \<in> pending_ids db \<or> c \<in> fst ` set candidates"
  shows "c \<in> pending_ids (foldl (requeue_candidate key) db candidates)"
  using assms
proof (induction candidates arbitrary: db)
  case Nil
  then show ?case by simp
next
  case (Cons candidate candidates)
  obtain d payload where candidate: "candidate = (d, payload)" by (cases candidate)
  then have d: "d = c \<longrightarrow> decodes_to_key payload key" using Cons.prems(1) by auto
  show ?case
    using Cons.IH [of "requeue_candidate key db candidate"] Cons.prems requeue_candidate_ids [OF d, of db]
    unfolding candidate by auto
qed

lemma requeue_candidates_tables:
  "db_scans (foldl (requeue_candidate key) db candidates) = db_scans db
   \<and> raw_packets (foldl (requeue_candidate key) db candidates) = raw_packets db"
  by (induction candidates arbitrary: db) (auto simp: requeue_candidate_tables)

lemma quarantine_incomplete_linked:
  assumes "quarantine_incomplete_profile_fragment scan_id key i err db = Ok db'"
  shows "i \<in> fr_packet_id ` set (db_fragments db)"
proof -
  have "[(). scan \<leftarrow> db_scans db, source \<leftarrow> db_fragments db,
           fr_scan_id source = sr_id scan \<and> sr_id scan = scan_id \<and> \<not> sr_transport_complete scan
           \<and> fr_packet_id source = i] \<noteq> []"
    using assms unfolding quarantine_incomplete_profile_fragment_def Let_def guard_eq_Ok
    by (metis length_0_conv zero_neq_one)
  then show ?thesis by (auto simp: concat_eq_Nil_conv split: if_splits)
qed

lemma requeued_source:
  assumes "archive_ok db"
    and scan: "scan \<in> set (db_scans db)" "\<not> sr_transport_complete scan" "scan_record_key (sr_columns scan) = key"
    and f: "f \<in> set (links db scan)" "fr_packet_id f \<noteq> i"
    and key: "decodes_to_key (rk_payload (packet_at db (fr_packet_id f))) key"
    and row: "row \<in> set (db_decodes db)" "vd_packet_id row = fr_packet_id f" "vd_record_kind row = KindProfileFragment"
      "vd_reassembly_status row \<notin> {None, Some StatusAssembled}"
  shows "fr_packet_id f \<in> pending_ids (foldl (requeue_candidate key) db (replay_candidates key i db))"
proof -
  have f': "f \<in> set (db_fragments db)" "fr_scan_id f = sr_id scan" using f(1) by (auto simp: links_def)
  note p = packet_at_in [OF assms(1) link_packet [OF assms(1) f'(1)]]
  have status: "vd_reassembly_status row \<in> {Some StatusPending, Some StatusIncomplete, Some StatusDuplicate, Some StatusConflict}"
    using row(4) by (cases "vd_reassembly_status row"; cases "the (vd_reassembly_status row)") auto
  have "scan_has_key key scan" using scan scan_has_key_iff archive_okD(3) [OF assms(1)] by (auto simp: scans_ok_def)
  then have "(fr_packet_id f, rk_payload (packet_at db (fr_packet_id f))) \<in> set (replay_sources key i db)"
    using scan f' f(2) p row(1-3) status unfolding replay_sources_def set_remdups by force
  then have "fr_packet_id f \<in> fst ` set (replay_candidates key i db)"
    using replay_candidates_set(1) by (metis fst_conv imageI subsetD)
  moreover have "decodes_to_key payload key"
    if "(d, payload) \<in> set (replay_candidates key i db)" "d = fr_packet_id f" for d payload
    using replay_candidates_set(2) [OF that(1)] packet_at_eq [OF assms(1)] key that(2) by metis
  moreover have "fr_packet_id f \<in> fragment_ids db" using row by (auto simp: ids_iff)
  ultimately show ?thesis by (intro requeue_candidates_pending) auto
qed

text \<open>
  C16. Quarantine of a poison source of an incomplete scan: when it succeeds, all raw packets are
  kept, the poison packet is marked invalid with the error and is not replayed, no incomplete scan
  with the key is left, every other source of these scans whose bytes decode to the key is pending
  again unless it had already been assembled elsewhere, and the scans of other keys and the complete
  ones are untouched.
\<close>

theorem quarantine_incomplete_sound:
  assumes "archive_ok db" and "quarantine_incomplete_profile_fragment scan_id key i err db = Ok db'"
  shows "raw_packets db' = raw_packets db
    \<and> rk_disposition (packet_at db' i) = Invalid \<and> rk_decode_error (packet_at db' i) = Some err
    \<and> i \<notin> pending_ids db'
    \<and> db_scans db' = filter (\<lambda>scan. sr_transport_complete scan \<or> scan_record_key (sr_columns scan) \<noteq> key) (db_scans db)
    \<and> (\<forall>scan \<in> set (db_scans db). \<forall>f \<in> set (links db scan). \<forall>row \<in> set (db_decodes db).
         \<not> sr_transport_complete scan \<and> scan_record_key (sr_columns scan) = key \<and> fr_packet_id f \<noteq> i
         \<and> decodes_to_key (rk_payload (packet_at db (fr_packet_id f))) key
         \<and> vd_packet_id row = fr_packet_id f \<and> vd_record_kind row = KindProfileFragment
         \<and> vd_reassembly_status row \<notin> {None, Some StatusAssembled}
         \<longrightarrow> fr_packet_id f \<in> pending_ids db')"
proof -
  let ?db1 = "foldl (requeue_candidate key) db (replay_candidates key i db)"
  let ?db2 = "fst (invalidate_packet (\<lambda>row. rk_id row = i) err ?db1)"
  let ?db3 = "fst (delete_decodes (\<lambda>row. vd_packet_id row = i) ?db2)"
  note db' = quarantine_incomplete_Ok [OF assms(2)]
  have ok: "archive_ok db'" using quarantine_incomplete_keeps [OF assms(2)] assms(1) by (simp add: keeps_def)
  have tables: "db_packets db' = db_packets ?db2" "db_decodes db' = filter (\<lambda>row. vd_packet_id row \<noteq> i) (db_decodes ?db1)"
    by (simp_all add: db' delete_scans_def delete_decodes_def invalidate_packet_def Let_def)
  have "raw_packets db' = raw_packets ?db2" unfolding raw_packets_def tables ..
  then have raw: "raw_packets db' = raw_packets db"
    using requeue_candidates_tables by (simp add: invalidate_packet_raw)
  have gone: "i \<notin> pending_ids db'" unfolding ids_iff tables by auto
  have "db_scans ?db3 = db_scans db"
    using requeue_candidates_tables by (simp add: delete_decodes_def invalidate_packet_def)
  then have "db_scans db' = filter (\<lambda>scan. \<not> (\<not> sr_transport_complete scan \<and> scan_has_key key scan)) (db_scans db)"
    unfolding db' delete_scans_def by (simp add: Let_def)
  then have scans: "db_scans db' = filter (\<lambda>scan. sr_transport_complete scan \<or> scan_record_key (sr_columns scan) \<noteq> key)
      (db_scans db)"
    using scan_has_key_iff archive_okD(3) [OF assms(1)] by (auto simp: scans_ok_def intro!: filter_cong)
  have invalid: "rk_disposition (packet_at db' i) = Invalid \<and> rk_decode_error (packet_at db' i) = Some err"
  proof -
    have "i \<in> packet_ids db" using quarantine_incomplete_linked [OF assms(2)] link_packet [OF assms(1)] by auto
    then have "i \<in> packet_ids db'" using raw_packet_ids [OF raw] by simp
    from packet_at_in [OF ok this] show ?thesis
      unfolding tables(1) by (auto simp: invalidate_packet_def update_rows_def split: if_splits)
  qed
  have "fr_packet_id f \<in> pending_ids db'" if "fr_packet_id f \<in> pending_ids ?db1" "fr_packet_id f \<noteq> i" for f
    using that unfolding ids_iff tables(2) by auto
  then show ?thesis using raw gone scans invalid requeued_source [OF assms(1)] by blast
qed

end
