(* ===== verification/Archive_Examples.thy ===== *)
theory Archive_Examples
  imports Archive_Quarantine
begin

text \<open>
  A run of the archive on concrete packets: a fragment of a scan of four steps is archived, and the
  scan, of which the other fragment never arrived, is stored as incomplete.
\<close>

definition bench_radio :: radio_metadata where
  "bench_radio = \<lparr>rm_packet_rssi_centi_dbm = 0, rm_snr_centi_db = 0, rm_signal_rssi_centi_dbm = 0\<rparr>"

definition bench_header :: header where
  "bench_header = \<lparr>h_frame_type = ProfileFragment,
     h_common = \<lparr>c_flags = 1, c_node_id = 5, c_boot_id = 6, c_scan_sequence = 7, c_uptime_ms = 8, c_config_id = 9,
       c_reset_cause_flags = 0\<rparr>,
     h_fragment_index = 1, h_fragment_count = 2, h_payload_len = 0\<rparr>"

definition bench_scan :: scan_record where
  "bench_scan = \<lparr>pf_identity = \<lparr>ri_common_flags = 1, ri_node_id = 5, ri_boot_id = 6, ri_scan_sequence = 7,
       ri_uptime_ms = 8, ri_config_id = 9, ri_reset_cause_flags = 0\<rparr>,
     pf_profile_id = 1, pf_profile_version = 1, pf_expected_steps = 4, pf_observed_unique_steps = 3,
     pf_observed_field_count = 3, pf_reported_missing_steps = 8, pf_duplicate_steps = 0, pf_duration_us = 0,
     pf_collection_flags = 0, pf_finish_reason = 0, pf_duplicate_count = 0, pf_overwritten_field_count = 0,
     pf_out_of_order_count = 0, pf_ambiguous_index_jump_count = 0, pf_invalid_gas_index_count = 0,
     pf_intermediate_field_count = 0, pf_profile_rollover_count = 0, pf_fields_after_rollover_count = 0,
     pf_poll_count = 0, pf_expected_fragment_count = 2, pf_received_fragment_bitmap = 2,
     pf_duplicate_fragment_count = 0, pf_conflicting_fragment_count = 0, pf_steps = []\<rparr>"

definition bench_profile :: reassembled_profile where
  "bench_profile = \<lparr>rp_scan = bench_scan, rp_fragments =
     [\<lparr>sf_packet_id = 1, sf_fragment_index = 1, sf_received_at_unix_ms = 3, sf_radio = bench_radio\<rparr>]\<rparr>"

fun tables_of :: "('a \<times> archive, 'e) result \<Rightarrow> archive" where
  "tables_of (Inr (_, db)) = db"
| "tables_of (Inl _) = empty_archive"

definition bench_pending :: archive where
  "bench_pending = tables_of (archive_v2_profile_fragment 3 [1, 2] bench_radio bench_header empty_archive)"

definition bench_incomplete :: archive where
  "bench_incomplete = tables_of (insert_profile_scan bench_profile bench_pending)"

lemma bench_pending_eq:
  "archive_v2_profile_fragment 3 [1, 2] bench_radio bench_header empty_archive
     = Ok (\<lparr>sp_id = 1, sp_received_at_unix_ms = 3\<rparr>, bench_pending)"
  by code_simp

lemma bench_incomplete_eq:
  "insert_profile_scan bench_profile bench_pending
     = Ok (\<lparr>so_id = 1, so_received_at_unix_ms = 3\<rparr>, bench_incomplete)"
  by code_simp

lemma bench_ok: "archive_ok bench_pending" "archive_ok bench_incomplete" "operates\<^sup>*\<^sup>* empty_archive bench_incomplete"
proof -
  have "operates empty_archive bench_pending" using bench_pending_eq by (rule operates.fragment)
  moreover have "operates bench_pending bench_incomplete" using bench_incomplete_eq by (rule operates.scan)
  ultimately show "archive_ok bench_pending" "archive_ok bench_incomplete" "operates\<^sup>*\<^sup>* empty_archive bench_incomplete"
    using packet_store.operation_valid empty_archive_ok by (blast, blast, simp add: converse_rtranclp_into_rtranclp)
qed

section \<open>Witnesses\<close>

theorem archive_append_only_witness:
  "operates\<^sup>*\<^sup>* empty_archive bench_incomplete \<and> archive_ok bench_incomplete
   \<and> prefix (raw_packets empty_archive) (raw_packets bench_incomplete)"
  using archive_append_only [OF bench_ok(3) empty_archive_ok] bench_ok(3) by simp

lemma bench_pending_ids: "pending_ids bench_pending = {1}"
proof -
  have "map vd_packet_id (filter is_pending_fragment (db_decodes bench_pending)) = [1]" by code_simp
  then have "set (map vd_packet_id (filter is_pending_fragment (db_decodes bench_pending))) = {1}" by simp
  then show ?thesis by (simp add: pending_ids_def)
qed

theorem pending_replay_exact_witness:
  "\<exists>ps. pending_profile_fragments 1 bench_pending = Ok ps \<and> pp_packet_id ` set ps = {1}"
  using pending_replay_exact [OF bench_ok(1), of 1] by (auto simp: bench_pending_ids)

theorem quarantine_pending_exact_witness:
  "is_ok (quarantine_pending_profile_fragment 1 ''bad'' bench_pending)
   \<and> quarantine_pending_profile_fragment 2 ''bad'' bench_pending = fail (MissingV2Packet 2)"
  using quarantine_pending_exact [OF bench_ok(1), of 1 "''bad''"] quarantine_pending_exact [OF bench_ok(1), of 2 "''bad''"]
  by (simp add: bench_pending_ids)

definition bench_key :: profile_key where
  "bench_key = scan_record_key bench_scan"

lemma bench_held: "held_payloads bench_incomplete bench_key 1 = {[1, 2]}"
proof -
  have "map snd (persisted_payloads bench_key 1 bench_incomplete) = [[1, 2]]" by code_simp
  then have "set (map snd (persisted_payloads bench_key 1 bench_incomplete)) = {[1, 2]}" by simp
  then show ?thesis using persisted_payloads_facts(3) [OF bench_ok(2)] by simp
qed

lemma bench_stored:
  "map sr_conflicting_fragment_count (db_scans bench_incomplete) = [0]"
  "\<forall>scan \<in> set (db_scans bench_incomplete). scan_record_key (sr_columns scan) = bench_key \<and> holds_fragment bench_incomplete 1 scan"
proof -
  show "map sr_conflicting_fragment_count (db_scans bench_incomplete) = [0]" by code_simp
  have "list_all (\<lambda>scan. scan_record_key (sr_columns scan) = bench_key \<and> holds_fragment bench_incomplete 1 scan)
      (db_scans bench_incomplete)" by code_simp
  then show "\<forall>scan \<in> set (db_scans bench_incomplete).
      scan_record_key (sr_columns scan) = bench_key \<and> holds_fragment bench_incomplete 1 scan"
    by (simp add: list_all_iff)
qed

theorem reconcile_exact_witness:
  "\<exists>db'. reconcile_persisted_profile_fragment bench_key 2 1 [1, 3] bench_incomplete = Ok (Some MatchConflict, db')
     \<and> map sr_conflicting_fragment_count (db_scans db') = [1]"
proof -
  have other: "held_payloads bench_incomplete bench_key 1 \<noteq> {}" "held_payloads bench_incomplete bench_key 1 \<noteq> {[1, 3]}"
    by (simp_all add: bench_held)
  note eq = reconcile_exact [OF bench_ok(2), of bench_key 2 1 "[1, 3]", unfolded other [THEN if_not_P]]
  obtain db' where db: "reconcile_persisted_profile_fragment bench_key 2 1 [1, 3] bench_incomplete = Ok (Some MatchConflict, db')"
    "db_scans db' = map (\<lambda>scan. if scan_record_key (sr_columns scan) = bench_key \<and> holds_fragment bench_incomplete 1 scan
       then scan\<lparr>sr_conflicting_fragment_count := next_count (sr_conflicting_fragment_count scan),
                 sr_record_json := (sr_record_json scan)
                   \<lparr>pf_conflicting_fragment_count := next_count (sr_conflicting_fragment_count scan)\<rparr>\<rparr>
       else scan) (db_scans bench_incomplete)"
    by (rule that [OF eq]) simp
  have "map sr_conflicting_fragment_count (db_scans db') = map (\<lambda>scan. next_count (sr_conflicting_fragment_count scan)) (db_scans bench_incomplete)"
    using bench_stored(2) by (simp add: db(2))
  also have "\<dots> = map next_count (map sr_conflicting_fragment_count (db_scans bench_incomplete))" by simp
  also have "\<dots> = [1]" unfolding bench_stored(1) by (simp add: next_count_def)
  finally show ?thesis using db(1) by (intro exI [of _ db'] conjI)
qed

theorem incomplete_profiles_exact_witness:
  "incomplete_profiles_matching None 1 bench_incomplete
     = Ok (map (restored bench_incomplete) (filter (\<lambda>scan. links bench_incomplete scan \<noteq> [])
         (sort_key sr_id (filter (wanted None) (db_scans bench_incomplete)))))"
proof -
  have "sum_list (map (\<lambda>scan. length (links bench_incomplete scan)) (filter (wanted None) (db_scans bench_incomplete))) = 1"
    by code_simp
  then show ?thesis using incomplete_profiles_exact [OF bench_ok(2), of 1 None] by (simp add: Let_def)
qed

lemma bench_not_complete: "is_transport_complete bench_scan = (Ok False :: (bool, storage_error) result)"
  by code_simp

theorem stored_profile_restored_witness:
  "\<exists>p. incomplete_profiles_for_key bench_key 1 bench_incomplete = Ok [p] \<and> ip_scan_id p = 1 \<and> ip_key p = bench_key"
  using stored_profile_restored [OF bench_ok(1) bench_incomplete_eq, of False 1] bench_not_complete
  by (simp add: bench_profile_def bench_key_def)

lemma bench_quarantine:
  "quarantine_incomplete_profile_fragment 1 bench_key 1 ''bad'' bench_incomplete
     = Ok (tables_of (map_ok (Pair ()) (quarantine_incomplete_profile_fragment 1 bench_key 1 ''bad'' bench_incomplete)))"
proof -
  have "is_ok (quarantine_incomplete_profile_fragment 1 bench_key 1 ''bad'' bench_incomplete)" by code_simp
  then show ?thesis by (auto simp: is_ok_iff)
qed

theorem quarantine_incomplete_sound_witness:
  "\<exists>db'. quarantine_incomplete_profile_fragment 1 bench_key 1 ''bad'' bench_incomplete = Ok db'
     \<and> raw_packets db' = raw_packets bench_incomplete \<and> rk_disposition (packet_at db' 1) = Invalid
     \<and> 1 \<notin> pending_ids db'"
  using quarantine_incomplete_sound [OF bench_ok(2) bench_quarantine] bench_quarantine by blast

end
