(* ===== verification/Receiver.thy ===== *)
theory Receiver
  imports Archive_Scans Dispatch Radio
begin

text \<open>
  The receiving program of \<^verbatim>\<open>crates/vesta-receiver/src/main.rs\<close>: how a packet is decoded, archived,
  reassembled and reported, what is replayed at startup, and the loop around it.

  The state is the archive, the reassembler and the two streams the program writes. A line is the data
  it shows, with the output format for the main stream; how the text is formatted is not modelled. A
  write or a flush may fail: whether it does is a parameter, as are the iteration order of the hash map
  and the text of an error message, which is stored with a packet that cannot be used (\<open>Failure_Text\<close> has it). JSON is
  generated from records of numbers, texts and lists and does not fail.

  An operation that fails leaves the changes made before the failure in place, as in the source; a
  statement of the archive that fails changes nothing, and the reassembler checks its input before it
  changes the table.
\<close>

section \<open>State and effects\<close>

datatype output_format = Human | JsonLines

datatype output_line =
  TelemetryLine output_format telemetry_v1 "radio_metadata option"
| FrameLine output_format decoded_frame "radio_metadata option"
| ProfileLine output_format reassembled_profile
| IntegrityLine output_format profile_key int u8

datatype diagnostic =
  ListeningNote
| ArchivingNote
| UndecodableNote int protocol_decode_error
| ReadingNote int int int
| ConfigurationNote int int
| HealthNote int int
| StartupNote nat nat
| QuarantinedPendingNote int string
| QuarantinedSourceNote int int string
| PersistedNote persisted_fragment_match u8 int
| PendingNote reassembly_progress
| DuplicateNote u8 int
| ConflictNote u8 int
| ProfileNote int int u16
| HeaderErrorNote u16
| CrcErrorNote u16
| TimeoutNote u16
| IrqNote u16
| StoppedNote nat nat nat nat nat
| StreamNote nat string
| ErrorNote string
| FlushErrorNote

datatype v2_render_error = RenderCodec v2_error

datatype ('g, 's) app_error =
  MissingFrame
| HexFailure hex_error
| ProtocolFailure protocol_decode_error
| V2Render v2_render_error
| Io
| DatabaseFailure storage_error
| MissingPacketLink
| ReassemblyFailure reassembly_error
| RadioFailure "('g, 's) radio_error"
| SignalFailure
| StreamFailures nat

record receiver =
  rv_database :: archive
  rv_reassembler :: profile_reassembler
  rv_output :: "output_line list"
  rv_diagnostics :: "diagnostic list"

record ('g, 's) world =
  w_order :: "active_entries \<Rightarrow> active_entries"
  w_writes :: "output_line list \<Rightarrow> output_line \<Rightarrow> bool"
  w_flushes :: "output_line list \<Rightarrow> bool"
  w_notes :: "diagnostic list \<Rightarrow> diagnostic \<Rightarrow> bool"
  w_protocol_text :: "protocol_decode_error \<Rightarrow> string"
  w_codec_text :: "v2_error \<Rightarrow> string"
  w_app_text :: "('g, 's) app_error \<Rightarrow> string"

type_synonym ('g, 's, 'a) action = "receiver \<Rightarrow> ('a, ('g, 's) app_error) result \<times> receiver"

definition produce :: "'a \<Rightarrow> ('g, 's, 'a) action" where
  "produce x s = (Ok x, s)"

definition outcome :: "('a, ('g, 's) app_error) result \<Rightarrow> ('g, 's, 'a) action" where
  "outcome r s = (r, s)"

text \<open>The operator \<^verbatim>\<open>?\<close> after an operation.\<close>

definition perform :: "('g, 's, 'a) action \<Rightarrow> ('a \<Rightarrow> ('g, 's, 'b) action) \<Rightarrow> ('g, 's, 'b) action" where
  "perform m k s = (case m s of (Inl e, s) \<Rightarrow> (Inl e, s) | (Inr x, s) \<Rightarrow> k x s)"

text \<open>\<^verbatim>\<open>if let Err(error) = ..\<close>; a panic is not caught.\<close>

definition recover :: "('g, 's, 'a) action \<Rightarrow> (('g, 's) app_error \<Rightarrow> ('g, 's, 'a) action) \<Rightarrow> ('g, 's, 'a) action" where
  "recover m k s = (case m s of (Inl (Err e), s) \<Rightarrow> k e s | r \<Rightarrow> r)"

definition database :: "(archive \<Rightarrow> ('a \<times> archive, storage_error) result) \<Rightarrow> ('g, 's, 'a) action" where
  "database f s =
    (case map_err DatabaseFailure (f (rv_database s)) of
       Inl e \<Rightarrow> (Inl e, s) | Inr (x, db) \<Rightarrow> (Ok x, s\<lparr>rv_database := db\<rparr>))"

definition execute :: "(archive \<Rightarrow> (archive, storage_error) result) \<Rightarrow> ('g, 's, unit) action" where
  "execute f = database (\<lambda>db. map_ok (Pair ()) (f db))"

definition query :: "(archive \<Rightarrow> ('a, storage_error) result) \<Rightarrow> ('g, 's, 'a) action" where
  "query f = database (\<lambda>db. map_ok (\<lambda>x. (x, db)) (f db))"

definition reassemble ::
  "(profile_reassembler \<Rightarrow> ('a \<times> profile_reassembler, reassembly_error) result) \<Rightarrow> ('g, 's, 'a) action" where
  "reassemble f s =
    (case map_err ReassemblyFailure (f (rv_reassembler s)) of
       Inl e \<Rightarrow> (Inl e, s) | Inr (x, r) \<Rightarrow> (Ok x, s\<lparr>rv_reassembler := r\<rparr>))"

definition inspect :: "(profile_reassembler \<Rightarrow> 'a) \<Rightarrow> ('g, 's, 'a) action" where
  "inspect f s = (Ok (f (rv_reassembler s)), s)"

definition write_line :: "('g, 's) world \<Rightarrow> output_line \<Rightarrow> ('g, 's, unit) action" where
  "write_line W line s =
    (if w_writes W (rv_output s) line then (Ok (), s\<lparr>rv_output := rv_output s @ [line]\<rparr>) else (fail Io, s))"

definition flush :: "('g, 's) world \<Rightarrow> ('g, 's, unit) action" where
  "flush W s = (if w_flushes W (rv_output s) then (Ok (), s) else (fail Io, s))"

definition note_line :: "('g, 's) world \<Rightarrow> diagnostic \<Rightarrow> ('g, 's, unit) action" where
  "note_line W line s =
    (if w_notes W (rv_diagnostics s) line
     then (Ok (), s\<lparr>rv_diagnostics := rv_diagnostics s @ [line]\<rparr>) else (fail Io, s))"

fun each :: "'x list \<Rightarrow> ('x \<Rightarrow> ('g, 's, unit) action) \<Rightarrow> ('g, 's, unit) action" where
  "each [] body = produce ()"
| "each (x # xs) body = perform (body x) (\<lambda>_. each xs body)"

section \<open>Reporting\<close>

fun render_v2 :: "output_format \<Rightarrow> radio_metadata option \<Rightarrow> decoded_frame \<Rightarrow> (output_line, v2_render_error) result" where
  "render_v2 fmt radio (DF_ProfileFragment fragment) =
     and_then (map_err RenderCodec (fragment_steps fragment)) (\<lambda>_.
     Ok (FrameLine fmt (DF_ProfileFragment fragment) radio))"
| "render_v2 fmt radio (DF_DeviceConfig h config) =
     and_then (device_configuration h config) (\<lambda>_. Ok (FrameLine fmt (DF_DeviceConfig h config) radio))"
| "render_v2 fmt radio (DF_DeviceHealth h health) = Ok (FrameLine fmt (DF_DeviceHealth h health) radio)"

definition write_profile_integrity_update ::
  "('g, 's) world \<Rightarrow> output_format \<Rightarrow> profile_key \<Rightarrow> int \<Rightarrow> u8 \<Rightarrow> ('g, 's, unit) action" where
  "write_profile_integrity_update W fmt key packet_id fragment_index =
     perform (write_line W (IntegrityLine fmt key packet_id fragment_index)) (\<lambda>_. flush W)"

definition report_persisted_fragment_classification ::
  "('g, 's) world \<Rightarrow> output_format \<Rightarrow> persisted_fragment_match \<Rightarrow> profile_key \<Rightarrow> int \<Rightarrow> u8 \<Rightarrow> ('g, 's, unit) action" where
  "report_persisted_fragment_classification W fmt classification key packet_id fragment_index =
    perform
      (case classification of
         MatchDuplicate \<Rightarrow> produce ()
       | MatchConflict \<Rightarrow> write_profile_integrity_update W fmt key packet_id fragment_index) (\<lambda>_.
    note_line W (PersistedNote classification fragment_index packet_id))"

definition persist_profile ::
  "('g, 's) world \<Rightarrow> output_format \<Rightarrow> reassembled_profile \<Rightarrow> ('g, 's, unit) action" where
  "persist_profile W fmt profile =
    perform (database (insert_profile_scan profile)) (\<lambda>stored.
    perform (write_line W (ProfileLine fmt profile)) (\<lambda>_.
    perform (flush W) (\<lambda>_.
    perform (outcome (missing_fragment_bitmap (rp_scan profile))) (\<lambda>missing.
    note_line W (ProfileNote (so_id stored) (so_received_at_unix_ms stored) missing)))))"

definition handle_profile_fragment_result ::
  "('g, 's) world \<Rightarrow> output_format \<Rightarrow> ingest_result \<Rightarrow> int \<Rightarrow> ('g, 's, unit) action" where
  "handle_profile_fragment_result W fmt result packet_id =
    perform (case ig_evicted result of None \<Rightarrow> produce () | Some evicted \<Rightarrow> persist_profile W fmt evicted) (\<lambda>_.
    case ig_event result of
      Pending progress \<Rightarrow> note_line W (PendingNote progress)
    | Complete profile \<Rightarrow> persist_profile W fmt profile
    | Duplicate _ fragment_index \<Rightarrow>
        perform (outcome (ok_or (ig_integrity_snapshot result) (ReassemblyFailure InternalState))) (\<lambda>snapshot.
        perform (database (insert_profile_integrity_snapshot snapshot packet_id StatusDuplicate)) (\<lambda>_.
        note_line W (DuplicateNote fragment_index packet_id)))
    | Conflict _ fragment_index \<Rightarrow>
        perform (outcome (ok_or (ig_integrity_snapshot result) (ReassemblyFailure InternalState))) (\<lambda>snapshot.
        perform (database (insert_profile_integrity_snapshot snapshot packet_id StatusConflict)) (\<lambda>_.
        note_line W (ConflictNote fragment_index packet_id))))"

section \<open>Replay\<close>

definition MAX_STARTUP_PENDING_FRAGMENTS :: nat where
  "MAX_STARTUP_PENDING_FRAGMENTS = 1024"

definition quarantine_pending_replay :: "('g, 's) world \<Rightarrow> int \<Rightarrow> string \<Rightarrow> ('g, 's, unit) action" where
  "quarantine_pending_replay W packet_id err =
    perform (execute (quarantine_pending_profile_fragment packet_id err)) (\<lambda>_.
    note_line W (QuarantinedPendingNote packet_id err))"

definition quarantine_incomplete_replay ::
  "('g, 's) world \<Rightarrow> int \<Rightarrow> profile_key \<Rightarrow> int \<Rightarrow> string \<Rightarrow> ('g, 's, unit) action" where
  "quarantine_incomplete_replay W scan_id key packet_id err =
    perform (execute (quarantine_incomplete_profile_fragment scan_id key packet_id err)) (\<lambda>_.
    perform (reassemble (\<lambda>r. Ok ((), discard key r))) (\<lambda>_.
    note_line W (QuarantinedSourceNote packet_id scan_id err)))"

definition restore_counts :: "profile_key \<Rightarrow> u16 \<Rightarrow> u16 \<Rightarrow> ('g, 's, unit) action" where
  "restore_counts key duplicates conflicts =
     reassemble (\<lambda>r. map_ok (Pair ()) (restore_receiver_counts key duplicates conflicts r))"

text \<open>The counters of a persisted profile are added once, as soon as its scan is active.\<close>

definition restore_counts_once :: "persisted_incomplete_profile \<Rightarrow> profile_key \<Rightarrow> bool \<Rightarrow> ('g, 's, bool) action" where
  "restore_counts_once profile key counts_restored =
    perform (inspect (contains_active key)) (\<lambda>active.
    if \<not> counts_restored \<and> active
    then perform (restore_counts key (ip_duplicate_fragment_count profile) (ip_conflicting_fragment_count profile))
           (\<lambda>_. produce True)
    else produce counts_restored)"

definition archived_source :: "pending_profile_fragment \<Rightarrow> profile_fragment_view \<Rightarrow> source_fragment" where
  "archived_source archived fragment =
     \<lparr>sf_packet_id = pp_packet_id archived, sf_fragment_index = h_fragment_index (fv_header fragment),
      sf_received_at_unix_ms = pp_received_at_unix_ms archived, sf_radio = pp_radio archived\<rparr>"

text \<open>
  The loop over the fragments of one persisted profile. It returns whether the counters were restored,
  or nothing when a fragment was quarantined and the profile is given up; and the next ordinal.
\<close>

fun restore_fragments ::
  "('g, 's) world \<Rightarrow> output_format \<Rightarrow> nat \<Rightarrow> persisted_incomplete_profile \<Rightarrow> pending_profile_fragment list
     \<Rightarrow> bool \<Rightarrow> u64 \<Rightarrow> ('g, 's, bool option \<times> u64) action" where
  "restore_fragments W fmt replay_started profile [] counts_restored ordinal =
     produce (Some counts_restored, ordinal)"
| "restore_fragments W fmt replay_started profile (archived # rest) counts_restored ordinal =
    (let quarantine = (\<lambda>err.
           perform (quarantine_incomplete_replay W (ip_scan_id profile) (ip_key profile) (pp_packet_id archived) err)
             (\<lambda>_. produce (None, ordinal)))
     in
     case decode (pp_payload archived) of
       Inl Panic \<Rightarrow> outcome panic
     | Inl (Err err) \<Rightarrow> quarantine (''incomplete-profile replay decode failed: '' @ w_codec_text W err)
     | Inr (DF_ProfileFragment fragment) \<Rightarrow>
         let key = profile_key_of (fv_header fragment) in
         if key \<noteq> ip_key profile \<or> h_fragment_index (fv_header fragment) \<noteq> pp_fragment_index archived
         then quarantine ''incomplete-profile replay metadata disagrees with its persisted key'' else
         perform (restore_counts_once profile key counts_restored) (\<lambda>counts_restored.
         perform (reassemble (ingest_at (w_order W) fragment (archived_source archived fragment)
                    (replay_started + unat ordinal))) (\<lambda>result.
         perform (restore_counts_once profile key counts_restored) (\<lambda>counts_restored.
         perform (handle_profile_fragment_result W fmt result (pp_packet_id archived)) (\<lambda>_.
         restore_fragments W fmt replay_started profile rest counts_restored (saturating_add ordinal 1)))))
     | Inr _ \<Rightarrow> quarantine ''incomplete-profile replay decoded as a non-profile frame'')"

text \<open>The loop over the profiles, with the keys quarantined so far.\<close>

fun restore_profiles ::
  "('g, 's) world \<Rightarrow> output_format \<Rightarrow> nat \<Rightarrow> persisted_incomplete_profile list \<Rightarrow> profile_key list \<Rightarrow> u64
     \<Rightarrow> ('g, 's, u64) action" where
  "restore_profiles W fmt replay_started [] quarantined ordinal = produce ordinal"
| "restore_profiles W fmt replay_started (profile # profiles) quarantined ordinal =
    (if ip_key profile \<in> set quarantined
     then restore_profiles W fmt replay_started profiles quarantined ordinal else
     perform (database (coalesce_incomplete_profile_into_completed profile)) (\<lambda>coalesced.
     case coalesced of
       Some classifications \<Rightarrow>
         perform (each classifications (\<lambda>c. report_persisted_fragment_classification W fmt (pc_classification c)
                    (ip_key profile) (pc_packet_id c) (pc_fragment_index c))) (\<lambda>_.
         restore_profiles W fmt replay_started profiles quarantined ordinal)
     | None \<Rightarrow>
         perform (restore_fragments W fmt replay_started profile (ip_fragments profile) False ordinal)
           (\<lambda>(restored, ordinal).
         case restored of
           None \<Rightarrow> restore_profiles W fmt replay_started profiles (ip_key profile # quarantined) ordinal
         | Some counts_restored \<Rightarrow>
             if \<not> counts_restored then outcome (fail (ReassemblyFailure InternalState))
             else restore_profiles W fmt replay_started profiles quarantined ordinal)))"

definition restore_incomplete_profiles ::
  "('g, 's) world \<Rightarrow> output_format \<Rightarrow> persisted_incomplete_profile list \<Rightarrow> nat \<Rightarrow> u64 \<Rightarrow> ('g, 's, u64) action" where
  "restore_incomplete_profiles W fmt profiles replay_started ordinal =
     restore_profiles W fmt replay_started profiles [] ordinal"

definition ingest_archived_profile_fragment ::
  "('g, 's) world \<Rightarrow> output_format \<Rightarrow> profile_fragment_view \<Rightarrow> source_fragment \<Rightarrow> bytes \<Rightarrow> nat
     \<Rightarrow> ('g, 's, unit) action" where
  "ingest_archived_profile_fragment W fmt fragment source payload observed_at =
    (let key = profile_key_of (fv_header fragment) in
     perform (database (reconcile_persisted_profile_fragment key (sf_packet_id source) (sf_fragment_index source)
                payload)) (\<lambda>reconciled.
     case reconciled of
       Some classification \<Rightarrow>
         perform (inspect (contains_active key)) (\<lambda>active.
         perform
           (if active then
              (case classification of
                 MatchDuplicate \<Rightarrow> restore_counts key 1 0
               | MatchConflict \<Rightarrow> restore_counts key 0 1)
            else produce ()) (\<lambda>_.
         report_persisted_fragment_classification W fmt classification key (sf_packet_id source)
           (sf_fragment_index source)))
     | None \<Rightarrow>
         perform (inspect (contains_active key)) (\<lambda>active.
         perform
           (if \<not> active then
              perform (query (incomplete_profiles_for_key key MAX_STARTUP_PENDING_FRAGMENTS)) (\<lambda>incomplete.
              perform (restore_incomplete_profiles W fmt incomplete observed_at 0) (\<lambda>_. produce ()))
            else produce ()) (\<lambda>_.
         perform (reassemble (ingest_at (w_order W) fragment source observed_at)) (\<lambda>result.
         handle_profile_fragment_result W fmt result (sf_packet_id source))))))"

fun replay_error :: "('g, 's) app_error \<Rightarrow> bool" where
  "replay_error (ReassemblyFailure _) = True"
| "replay_error (DatabaseFailure (InvalidRecord _)) = True"
| "replay_error _ = False"

text \<open>The loop over the pending fragments.\<close>

fun replay_pending ::
  "('g, 's) world \<Rightarrow> output_format \<Rightarrow> nat \<Rightarrow> pending_profile_fragment list \<Rightarrow> u64 \<Rightarrow> ('g, 's, unit) action" where
  "replay_pending W fmt replay_started [] ordinal = produce ()"
| "replay_pending W fmt replay_started (archived # rest) ordinal =
    (let quarantine = (\<lambda>err ordinal.
           perform (quarantine_pending_replay W (pp_packet_id archived) err) (\<lambda>_.
           replay_pending W fmt replay_started rest ordinal))
     in
     case decode (pp_payload archived) of
       Inl Panic \<Rightarrow> outcome panic
     | Inl (Err err) \<Rightarrow> quarantine (''startup replay decode failed: '' @ w_codec_text W err) ordinal
     | Inr (DF_ProfileFragment fragment) \<Rightarrow>
         if h_fragment_index (fv_header fragment) \<noteq> pp_fragment_index archived
         then quarantine ''startup replay fragment index disagrees with archived metadata'' ordinal else
         perform
           (recover
             (ingest_archived_profile_fragment W fmt fragment (archived_source archived fragment)
                (pp_payload archived) (replay_started + unat ordinal))
             (\<lambda>err.
                if replay_error err
                then quarantine_pending_replay W (pp_packet_id archived)
                       (''startup replay semantic validation failed: '' @ w_app_text W err)
                else outcome (fail err))) (\<lambda>_.
         replay_pending W fmt replay_started rest (saturating_add ordinal 1))
     | Inr _ \<Rightarrow> quarantine ''startup replay decoded as a non-profile frame'' ordinal)"

definition reconcile_pending_profiles :: "('g, 's) world \<Rightarrow> output_format \<Rightarrow> nat \<Rightarrow> ('g, 's, unit) action" where
  "reconcile_pending_profiles W fmt replay_started =
    perform (query (incomplete_profiles MAX_STARTUP_PENDING_FRAGMENTS)) (\<lambda>incomplete.
    perform (restore_incomplete_profiles W fmt incomplete replay_started 0) (\<lambda>ordinal.
    perform (query (pending_profile_fragments MAX_STARTUP_PENDING_FRAGMENTS)) (\<lambda>pending.
    if pending = [] \<and> length incomplete = 0 then produce () else
    perform (replay_pending W fmt replay_started pending ordinal) (\<lambda>_.
    note_line W (StartupNote (length incomplete) (length pending))))))"

section \<open>Packets\<close>

datatype packet_outcome = ValidV1 | ValidV2 | UnsupportedPacket | InvalidPacket

definition store_v1 ::
  "('g, 's) world \<Rightarrow> output_format \<Rightarrow> int \<Rightarrow> radio_packet \<Rightarrow> telemetry_v1 \<Rightarrow> ('g, 's, packet_outcome) action" where
  "store_v1 W fmt now packet frame =
    perform (database (insert_received_v1 now frame (rp_payload packet) (rp_metadata packet))) (\<lambda>stored.
    perform (write_line W (TelemetryLine fmt frame (Some (rp_metadata packet)))) (\<lambda>_.
    perform (flush W) (\<lambda>_.
    perform (outcome (ok_or (sd_radio_packet_id stored) MissingPacketLink)) (\<lambda>packet_id.
    perform (note_line W (ReadingNote (sd_id stored) packet_id (sd_received_at_unix_ms stored))) (\<lambda>_.
    produce ValidV1)))))"

definition store_v2_frame ::
  "('g, 's) world \<Rightarrow> output_format \<Rightarrow> int \<Rightarrow> nat \<Rightarrow> radio_packet \<Rightarrow> decoded_frame \<Rightarrow> ('g, 's, unit) action" where
  "store_v2_frame W fmt now observed_at packet frame =
    (case frame of
       DF_DeviceConfig h config \<Rightarrow>
         perform (outcome (device_configuration h config)) (\<lambda>configuration.
         perform (database (insert_received_device_configuration now (rp_payload packet) (rp_metadata packet) h
                    configuration)) (\<lambda>stored.
         perform (outcome (map_err V2Render (render_v2 fmt (Some (rp_metadata packet)) frame))) (\<lambda>rendered.
         perform (write_line W rendered) (\<lambda>_.
         note_line W (ConfigurationNote (so_id (sv_record stored)) (sp_id (sv_packet stored)))))))
     | DF_DeviceHealth h health \<Rightarrow>
         perform (database (insert_received_device_health now (rp_payload packet) (rp_metadata packet) h
                    (device_health_record h health))) (\<lambda>stored.
         perform (outcome (map_err V2Render (render_v2 fmt (Some (rp_metadata packet)) frame))) (\<lambda>rendered.
         perform (write_line W rendered) (\<lambda>_.
         note_line W (HealthNote (so_id (sv_record stored)) (sp_id (sv_packet stored))))))
     | DF_ProfileFragment fragment \<Rightarrow>
         perform (database (archive_v2_profile_fragment now (rp_payload packet) (rp_metadata packet)
                    (fv_header fragment))) (\<lambda>stored_packet.
         ingest_archived_profile_fragment W fmt fragment
           \<lparr>sf_packet_id = sp_id stored_packet, sf_fragment_index = h_fragment_index (fv_header fragment),
            sf_received_at_unix_ms = sp_received_at_unix_ms stored_packet, sf_radio = rp_metadata packet\<rparr>
           (rp_payload packet) observed_at))"

definition store_v2 ::
  "('g, 's) world \<Rightarrow> output_format \<Rightarrow> int \<Rightarrow> nat \<Rightarrow> radio_packet \<Rightarrow> decoded_frame \<Rightarrow> ('g, 's, packet_outcome) action" where
  "store_v2 W fmt now observed_at packet frame =
    perform (store_v2_frame W fmt now observed_at packet frame) (\<lambda>_.
    perform (flush W) (\<lambda>_.
    produce ValidV2))"

fun unsupported_error :: "protocol_decode_error \<Rightarrow> bool" where
  "unsupported_error (PD_UnsupportedVersion _) = True"
| "unsupported_error (PD_InvalidMagic _) = True"
| "unsupported_error (PD_TruncatedDiscriminator _) = True"
| "unsupported_error _ = False"

text \<open>
  The wall clock is read once, for the row of the packet, and the monotonic clock once, for a fragment.
\<close>

definition store_packet ::
  "('g, 's) world \<Rightarrow> output_format \<Rightarrow> int \<Rightarrow> nat \<Rightarrow> radio_packet \<Rightarrow> ('g, 's, packet_outcome) action" where
  "store_packet W fmt now observed_at packet =
    (case decode_any (rp_payload packet) of
       Inl Panic \<Rightarrow> outcome panic
     | Inl (Err err) \<Rightarrow>
         let disposition = (if unsupported_error err then Unsupported else Invalid) in
         perform (database (archive_packet now (rp_payload packet) (rp_metadata packet) disposition
                    (Some (w_protocol_text W err)))) (\<lambda>stored.
         perform (note_line W (UndecodableNote (sp_id stored) err)) (\<lambda>_.
         produce (if disposition = Unsupported then UnsupportedPacket else InvalidPacket)))
     | Inr (DT_V1 frame) \<Rightarrow> store_v1 W fmt now packet frame
     | Inr (DT_V2 frame) \<Rightarrow> store_v2 W fmt now observed_at packet frame)"

section \<open>Listening\<close>

text \<open>120 seconds, in nanoseconds.\<close>

definition PROFILE_REASSEMBLY_TIMEOUT :: nat where
  "PROFILE_REASSEMBLY_TIMEOUT = 120 * 10 ^ 9"

definition persist_expired_profiles :: "('g, 's) world \<Rightarrow> output_format \<Rightarrow> nat \<Rightarrow> ('g, 's, unit) action" where
  "persist_expired_profiles W fmt now =
    perform (reassemble (\<lambda>r. Ok (expire_older_than (w_order W) now PROFILE_REASSEMBLY_TIMEOUT r))) (\<lambda>expired.
    each expired (persist_profile W fmt))"

record counters =
  ct_valid_frames :: nat
  ct_header_errors :: nat
  ct_crc_errors :: nat
  ct_unsupported_packets :: nat
  ct_protocol_errors :: nat

text \<open>
  What one iteration of the loop observes: the termination flag, the clock for the deadline, what the
  radio returns for a poll time, the clocks while a packet is stored, and the clock for the expiry.
\<close>

record ('g, 's) iteration =
  it_stopping :: bool
  it_deadline_now :: nat
  it_poll :: "nat \<Rightarrow> (receive_event option, ('g, 's) radio_error) result"
  it_wall_now :: int
  it_observed_at :: nat
  it_expire_now :: nat

text \<open>250 milliseconds.\<close>

definition POLL_TIME :: nat where "POLL_TIME = 250 * 10 ^ 6"

fun count_outcome :: "packet_outcome \<Rightarrow> counters \<Rightarrow> counters" where
  "count_outcome ValidV1 c = c\<lparr>ct_valid_frames := ct_valid_frames c + 1\<rparr>"
| "count_outcome ValidV2 c = c\<lparr>ct_valid_frames := ct_valid_frames c + 1\<rparr>"
| "count_outcome UnsupportedPacket c = c\<lparr>ct_unsupported_packets := ct_unsupported_packets c + 1\<rparr>"
| "count_outcome InvalidPacket c = c\<lparr>ct_protocol_errors := ct_protocol_errors c + 1\<rparr>"

fun handle_event ::
  "('g, 's) world \<Rightarrow> output_format \<Rightarrow> ('g, 's) iteration \<Rightarrow> receive_event option \<Rightarrow> counters \<Rightarrow> ('g, 's, counters) action" where
  "handle_event W fmt i None c = produce c"
| "handle_event W fmt i (Some (Packet packet)) c =
     perform (store_packet W fmt (it_wall_now i) (it_observed_at i) packet) (\<lambda>result.
     produce (count_outcome result c))"
| "handle_event W fmt i (Some (HeaderError irq)) c =
     perform (note_line W (HeaderErrorNote irq)) (\<lambda>_. produce (c\<lparr>ct_header_errors := ct_header_errors c + 1\<rparr>))"
| "handle_event W fmt i (Some (CrcError irq)) c =
     perform (note_line W (CrcErrorNote irq)) (\<lambda>_. produce (c\<lparr>ct_crc_errors := ct_crc_errors c + 1\<rparr>))"
| "handle_event W fmt i (Some (RadioTimeout irq)) c =
     perform (note_line W (TimeoutNote irq)) (\<lambda>_. produce c)"
| "handle_event W fmt i (Some (OtherIrq irq)) c =
     perform (note_line W (IrqNote irq)) (\<lambda>_. produce c)"

text \<open>
  The poll time of an iteration, or nothing when the loop ends before it.
\<close>

definition next_poll :: "nat option \<Rightarrow> nat option \<Rightarrow> ('g, 's) iteration \<Rightarrow> counters \<Rightarrow> nat option" where
  "next_poll deadline maximum_frames i c =
    (if it_stopping i \<or> (case maximum_frames of None \<Rightarrow> False | Some maximum \<Rightarrow> maximum \<le> ct_valid_frames c)
     then None else
     case deadline of
       None \<Rightarrow> Some POLL_TIME
     | Some end_time \<Rightarrow>
         if end_time < it_deadline_now i then None else Some (min (end_time - it_deadline_now i) POLL_TIME))"

definition listen_iteration ::
  "('g, 's) world \<Rightarrow> output_format \<Rightarrow> ('g, 's) iteration \<Rightarrow> nat \<Rightarrow> counters \<Rightarrow> ('g, 's, counters) action" where
  "listen_iteration W fmt i poll_time c =
    perform (outcome (map_err RadioFailure (it_poll i poll_time))) (\<lambda>event.
    perform (handle_event W fmt i event c) (\<lambda>c.
    perform (persist_expired_profiles W fmt (it_expire_now i)) (\<lambda>_.
    produce c)))"

text \<open>The loop; \<open>None\<close> when the observations end while it is still running.\<close>

fun listen_loop ::
  "('g, 's) world \<Rightarrow> output_format \<Rightarrow> nat option \<Rightarrow> nat option \<Rightarrow> ('g, 's) iteration list \<Rightarrow> counters \<Rightarrow> receiver
     \<Rightarrow> ((counters, ('g, 's) app_error) result \<times> receiver) option" where
  "listen_loop W fmt deadline maximum_frames [] c s = None"
| "listen_loop W fmt deadline maximum_frames (i # rest) c s =
    (case next_poll deadline maximum_frames i c of
       None \<Rightarrow> Some (Ok c, s)
     | Some poll_time \<Rightarrow>
         (case listen_iteration W fmt i poll_time c s of
            (Inl e, s) \<Rightarrow> Some (Inl e, s)
          | (Inr c, s) \<Rightarrow> listen_loop W fmt deadline maximum_frames rest c s))"

definition finish_listening :: "('g, 's) world \<Rightarrow> output_format \<Rightarrow> counters \<Rightarrow> ('g, 's, unit) action" where
  "finish_listening W fmt c =
    perform (reassemble (\<lambda>r. Ok (drain_incomplete (w_order W) r))) (\<lambda>incomplete.
    perform (each incomplete (persist_profile W fmt)) (\<lambda>_.
    note_line W (StoppedNote (ct_valid_frames c) (ct_unsupported_packets c) (ct_header_errors c) (ct_crc_errors c)
      (ct_protocol_errors c))))"

definition write_listen_startup :: "('g, 's) world \<Rightarrow> ('g, 's, unit) action" where
  "write_listen_startup W =
     perform (note_line W ListeningNote) (\<lambda>_. note_line W ArchivingNote)"

text \<open>
  The whole of \<^verbatim>\<open>listen\<close> after the archive is open: whether the signal handlers can be installed and
  what opening the radio returns are arguments, as are the readings of the clock.
\<close>

definition start_listening ::
  "('g, 's) world \<Rightarrow> output_format \<Rightarrow> nat \<Rightarrow> (unit, ('g, 's) radio_error) result \<Rightarrow> ('g, 's, unit) action" where
  "start_listening W fmt replay_started opened =
    perform (write_listen_startup W) (\<lambda>_.
    perform (reconcile_pending_profiles W fmt replay_started) (\<lambda>_.
    outcome (map_err RadioFailure opened)))"

definition listen ::
  "('g, 's) world \<Rightarrow> output_format \<Rightarrow> nat option \<Rightarrow> nat option \<Rightarrow> bool \<Rightarrow> nat \<Rightarrow> (unit, ('g, 's) radio_error) result
     \<Rightarrow> nat \<Rightarrow> ('g, 's) iteration list \<Rightarrow> archive \<Rightarrow> ((unit, ('g, 's) app_error) result \<times> receiver) option" where
  "listen W fmt duration_seconds maximum_frames signals replay_started opened started iterations db =
    (let s = \<lparr>rv_database = db, rv_reassembler = reassembler_default, rv_output = [], rv_diagnostics = []\<rparr> in
     if \<not> signals then Some (fail SignalFailure, s) else
     case start_listening W fmt replay_started opened s of
       (Inl e, s) \<Rightarrow> Some (Inl e, s)
     | (Inr _, s) \<Rightarrow>
         (case listen_loop W fmt (map_option (\<lambda>seconds. started + seconds * 10 ^ 9) duration_seconds) maximum_frames iterations
                 \<lparr>ct_valid_frames = 0, ct_header_errors = 0, ct_crc_errors = 0, ct_unsupported_packets = 0,
                  ct_protocol_errors = 0\<rparr> s of
            None \<Rightarrow> None
          | Some (Inl e, s) \<Rightarrow> Some (Inl e, s)
          | Some (Inr c, s) \<Rightarrow> Some (finish_listening W fmt c s)))"

end
