(* ===== verification/Receiver_Invariant.thy ===== *)
theory Receiver_Invariant
  imports Receiver Archive_Operations Reassembly_Machine Analysis_Profile
begin

text \<open>
  The receiving program never panics, works on its archive only through the operations of the archive,
  and keeps the invariants of the archive and of the reassembler, whatever is received, in whatever
  order the hash map is visited and whichever write fails.
\<close>

section \<open>Operations of the archive never panic\<close>

lemma panics_for_each_state:
  assumes "\<And>x s. \<not> panics (body x s)"
  shows "\<not> panics (for_each xs s body)"
  using assms by (induction xs arbitrary: s) (auto simp: panics_and_then)

lemma panics_statements [simp]:
  "\<not> panics (current_unix_ms now)"
  "\<not> panics (insert_packet_at payload radio received_at disposition version ft err db)"
  "\<not> panics (insert_reading_at frame payload radio received_at i db)"
  "\<not> panics (insert_v2_packet_decode_at packet_id h kind db)"
  "\<not> panics (insert_heater_step j step db)"
  "\<not> panics (insert_device_health_at health received_at i db)"
  "\<not> panics (insert_profile_step j profile_step_row db)"
  "\<not> panics (insert_profile_fragment j status source db)"
  "\<not> panics (mark_fragment_status packet_id status db)"
  "\<not> panics (parse_hex_u64 text field)"
  by (auto simp: current_unix_ms_def insert_packet_at_def insert_reading_at_def insert_v2_packet_decode_at_def
      insert_heater_step_def insert_device_health_at_def insert_profile_step_def insert_profile_fragment_def
      mark_fragment_status_def parse_hex_u64_def Let_def case_prod_unfold)

lemma panics_configuration_at [simp]: "\<not> panics (insert_device_configuration_at c received_at i db)"
  by (auto simp: insert_device_configuration_at_def Let_def panics_and_then panics_for_each_state)

lemma panics_archiving [simp]:
  "\<not> panics (insert_received_v1 now frame payload radio db)"
  "\<not> panics (archive_packet now payload radio disposition err db)"
  "\<not> panics (archive_v2_packet now payload radio h kind db)"
  "\<not> panics (archive_v2_profile_fragment now payload radio h db)"
  "\<not> panics (insert_received_device_configuration now payload radio h c db)"
  "\<not> panics (insert_received_device_health now payload radio h health db)"
proof -
  show v2: "\<not> panics (archive_v2_packet now payload radio h kind db)" for now kind
    by (auto simp: archive_v2_packet_def panics_and_then case_prod_unfold)
  show "\<not> panics (insert_received_v1 now frame payload radio db)"
    "\<not> panics (archive_packet now payload radio disposition err db)"
    "\<not> panics (archive_v2_profile_fragment now payload radio h db)"
    "\<not> panics (insert_received_device_configuration now payload radio h c db)"
    "\<not> panics (insert_received_device_health now payload radio h health db)"
    using v2 configuration_validate_no_panic
    by (auto simp: insert_received_v1_def archive_packet_def archive_v2_profile_fragment_def
        insert_received_device_configuration_def insert_received_device_health_def panics_and_then Let_def
        case_prod_unfold)
qed

lemma panics_row_key [simp]: "\<not> panics (row_key scan)"
  by (auto simp: row_key_def panics_and_then)

lemma panics_queries [simp]:
  "\<not> panics (pending_profile_fragments limit db)"
  "\<not> panics (incomplete_profiles_matching key limit db)"
  "\<not> panics (quarantine_pending_profile_fragment i err db)"
  "\<not> panics (quarantine_incomplete_profile_fragment scan_id key' i err db)"
  "\<not> panics (reconcile_persisted_profile_fragment key' i j payload db)"
proof -
  have "\<not> panics (add_incomplete_row row ps)" for row ps
    by (auto simp: add_incomplete_row_def panics_and_then Let_def)
  then show "\<not> panics (incomplete_profiles_matching key limit db)"
    by (auto simp: incomplete_profiles_matching_def Let_def panics_for_each_state)
qed (auto simp: pending_profile_fragments_def quarantine_pending_profile_fragment_def
      quarantine_incomplete_profile_fragment_def reconcile_persisted_profile_fragment_def Let_def case_prod_unfold)

lemma panics_coalesce [simp]: "\<not> panics (coalesce_incomplete_profile_into_completed profile db)"
proof -
  have "\<not> panics (coalesce_fragment key ids fragment state)" for key ids fragment state
    by (auto simp: coalesce_fragment_def Let_def case_prod_unfold)
  then show ?thesis
    by (auto simp: coalesce_incomplete_profile_into_completed_def Let_def panics_and_then case_prod_unfold
        panics_for_each_state)
qed

lemma valid_scan_masks:
  assumes "scan_validate scan = Ok ()"
  shows "\<not> panics (missing_fragment_bitmap scan)" "\<not> panics (is_transport_complete scan)"
  using scan_sound_bounds(3) [of scan] assms
  by (auto simp: scan_validate_eq_sound panics_transport missing_fragment_bitmap_def)

lemma panics_insert_profile [simp]: "\<not> panics (insert_profile_scan_inner profile integrity db)"
  using valid_scan_masks [of "rp_scan profile"] scan_validate_no_panic_lemma [of "rp_scan profile"]
  by (auto simp: insert_profile_scan_inner_def Let_def panics_and_then panics_for_each_state case_prod_unfold
      simp del: first_received_at_unix_ms.simps last_received_at_unix_ms.simps split: option.splits)

section \<open>Safe actions\<close>

definition receiver_ok :: "receiver \<Rightarrow> bool" where
  "receiver_ok s \<longleftrightarrow> archive_ok (rv_database s) \<and> reassembler_inv (rv_reassembler s)"

text \<open>
  An action is safe when it keeps the invariant, changes the archive only by its operations, does not
  panic, and returns a value with the given property if it returns one.
\<close>

definition safe :: "('g, 's, 'a) action \<Rightarrow> ('a \<Rightarrow> bool) \<Rightarrow> bool" where
  "safe m P \<longleftrightarrow> (\<forall>s. receiver_ok s \<longrightarrow> (case m s of (r, s') \<Rightarrow>
     receiver_ok s' \<and> operates\<^sup>*\<^sup>* (rv_database s) (rv_database s') \<and> \<not> panics r \<and> (\<forall>x. r = Ok x \<longrightarrow> P x)))"

named_theorems safe_intros

lemma safeD:
  assumes "safe m P" and "receiver_ok s" and "m s = (r, s')"
  shows "receiver_ok s'" "operates\<^sup>*\<^sup>* (rv_database s) (rv_database s')" "\<not> panics r" "\<And>x. r = Ok x \<Longrightarrow> P x"
  using assms by (auto simp: safe_def)

lemma safe_produce [safe_intros]: "P x \<Longrightarrow> safe (produce x) P"
  by (simp add: safe_def produce_def)

lemma safe_outcome: "\<not> panics r \<Longrightarrow> (\<And>x. r = Ok x \<Longrightarrow> P x) \<Longrightarrow> safe (outcome r) P"
  by (simp add: safe_def outcome_def)

lemma safe_perform:
  assumes "safe m P" and "\<And>x. P x \<Longrightarrow> safe (k x) Q"
  shows "safe (perform m k) Q"
  unfolding safe_def
proof (intro allI impI)
  fix s
  assume s: "receiver_ok s"
  obtain r s1 where m: "m s = (r, s1)" by (cases "m s")
  note 1 = safeD [OF assms(1) s m]
  show "case perform m k s of (r, s') \<Rightarrow> receiver_ok s' \<and> operates\<^sup>*\<^sup>* (rv_database s) (rv_database s')
      \<and> \<not> panics r \<and> (\<forall>x. r = Ok x \<longrightarrow> Q x)"
  proof (cases r)
    case (Inl e)
    then show ?thesis using 1 by (cases e) (simp_all add: perform_def m)
  next
    case (Inr x)
    obtain q s2 where k: "k x s1 = (q, s2)" by (cases "k x s1")
    note 2 = safeD [OF assms(2) [OF 1(4) [OF Inr]] 1(1) k]
    have "operates\<^sup>*\<^sup>* (rv_database s) (rv_database s2)" using 1(2) 2(2) by (rule rtranclp_trans)
    then show ?thesis using 2 Inr by (simp add: perform_def m k)
  qed
qed

lemma safe_then [safe_intros]:
  "safe m (\<lambda>_. True) \<Longrightarrow> (\<And>x. safe (k x) Q) \<Longrightarrow> safe (perform m k) Q"
  by (rule safe_perform)

lemma safe_recover:
  assumes "safe m P" and "\<And>e. safe (k e) P"
  shows "safe (recover m k) P"
  unfolding safe_def
proof (intro allI impI)
  fix s
  assume s: "receiver_ok s"
  obtain r s1 where m: "m s = (r, s1)" by (cases "m s")
  note 1 = safeD [OF assms(1) s m]
  show "case recover m k s of (r, s') \<Rightarrow> receiver_ok s' \<and> operates\<^sup>*\<^sup>* (rv_database s) (rv_database s')
      \<and> \<not> panics r \<and> (\<forall>x. r = Ok x \<longrightarrow> P x)"
  proof (cases "\<exists>e. r = fail e")
    case True
    then obtain e where e: "r = fail e" by blast
    obtain q s2 where k: "k e s1 = (q, s2)" by (cases "k e s1")
    note 2 = safeD [OF assms(2) 1(1) k]
    have "operates\<^sup>*\<^sup>* (rv_database s) (rv_database s2)" using 1(2) 2(2) by (rule rtranclp_trans)
    then show ?thesis using 2 e by (simp add: recover_def m k)
  next
    case False
    then have "recover m k s = (r, s1)" by (cases r; cases "projl r") (auto simp: recover_def m)
    then show ?thesis using 1 by simp
  qed
qed

lemma safe_transaction:
  assumes "\<And>db. \<not> panics (f db)" and "\<And>db x db'. f db = Ok (x, db') \<Longrightarrow> operates\<^sup>*\<^sup>* db db' \<and> P x"
  shows "safe (database f) P"
  unfolding safe_def
proof (intro allI impI)
  fix s
  assume s: "receiver_ok s"
  show "case database f s of (r, s') \<Rightarrow> receiver_ok s' \<and> operates\<^sup>*\<^sup>* (rv_database s) (rv_database s')
      \<and> \<not> panics r \<and> (\<forall>x. r = Ok x \<longrightarrow> P x)"
  proof (cases "f (rv_database s)")
    case (Inl e)
    then show ?thesis using s assms(1) [of "rv_database s"] by (cases e) (simp_all add: database_def)
  next
    case (Inr y)
    then obtain x db where y: "f (rv_database s) = Ok (x, db)" by (cases y) auto
    then have "operates\<^sup>*\<^sup>* (rv_database s) db" "P x" using assms(2) by blast+
    moreover from this have "archive_ok db"
      using s packet_store.run_valid by (auto simp: receiver_ok_def)
    ultimately show ?thesis using s y by (auto simp: database_def receiver_ok_def)
  qed
qed

lemma safe_database:
  assumes "\<And>db. \<not> panics (f db)" and "\<And>db x db'. f db = Ok (x, db') \<Longrightarrow> operates db db'"
  shows "safe (database f) (\<lambda>_. True)"
  using assms(1) by (rule safe_transaction) (blast dest: assms(2))

lemma safe_execute:
  assumes "\<And>db. \<not> panics (f db)" and "\<And>db db'. f db = Ok db' \<Longrightarrow> operates db db'"
  shows "safe (execute f) (\<lambda>_. True)"
  unfolding execute_def by (rule safe_database) (use assms in auto)

lemma safe_query:
  assumes "\<And>db. \<not> panics (f db)"
  shows "safe (query f) (\<lambda>_. True)"
  unfolding query_def by (rule safe_transaction) (use assms in auto)

lemma safe_reassemble:
  assumes "\<And>r. reassembler_inv r \<Longrightarrow> \<not> panics (f r)"
    and "\<And>r x r'. reassembler_inv r \<Longrightarrow> f r = Ok (x, r') \<Longrightarrow> reassembler_inv r' \<and> P x"
  shows "safe (reassemble f) P"
  unfolding safe_def
proof (intro allI impI)
  fix s
  assume s: "receiver_ok s"
  show "case reassemble f s of (r, s') \<Rightarrow> receiver_ok s' \<and> operates\<^sup>*\<^sup>* (rv_database s) (rv_database s')
      \<and> \<not> panics r \<and> (\<forall>x. r = Ok x \<longrightarrow> P x)"
  proof (cases "f (rv_reassembler s)")
    case (Inl e)
    then show ?thesis using s assms(1) [of "rv_reassembler s"]
      by (cases e) (simp_all add: reassemble_def receiver_ok_def)
  next
    case (Inr y)
    then obtain x r where "f (rv_reassembler s) = Ok (x, r)" by (cases y) auto
    then show ?thesis using s assms(2) by (auto simp: reassemble_def receiver_ok_def)
  qed
qed

lemma safe_streams [safe_intros]:
  "safe (write_line W line) (\<lambda>_. True)" "safe (flush W) (\<lambda>_. True)" "safe (note_line W diagnostic) (\<lambda>_. True)"
  "safe (inspect f) (\<lambda>_. True)"
  by (simp_all add: safe_def write_line_def flush_def note_line_def inspect_def receiver_ok_def)

lemma safe_each [safe_intros]:
  "(\<And>x. x \<in> set xs \<Longrightarrow> safe (body x) (\<lambda>_. True)) \<Longrightarrow> safe (each xs body) (\<lambda>_. True)"
  by (induction xs) (auto intro: safe_intros)

lemma safe_weaken: "safe m P \<Longrightarrow> (\<And>x. P x \<Longrightarrow> Q x) \<Longrightarrow> safe m Q"
  by (auto simp: safe_def)

section \<open>The program\<close>

lemma safe_operations [safe_intros]:
  "safe (database (insert_received_v1 now frame payload radio)) (\<lambda>_. True)"
  "safe (database (archive_packet now payload radio disposition err)) (\<lambda>_. True)"
  "safe (database (archive_v2_profile_fragment now payload radio h)) (\<lambda>_. True)"
  "safe (database (insert_received_device_configuration now payload radio h c)) (\<lambda>_. True)"
  "safe (database (insert_received_device_health now payload radio h health)) (\<lambda>_. True)"
  "safe (database (reconcile_persisted_profile_fragment key i j payload)) (\<lambda>_. True)"
  "safe (database (coalesce_incomplete_profile_into_completed incomplete)) (\<lambda>_. True)"
  "safe (database (insert_profile_integrity_snapshot profile i status)) (\<lambda>_. True)"
  "safe (execute (quarantine_pending_profile_fragment i text)) (\<lambda>_. True)"
  "safe (execute (quarantine_incomplete_profile_fragment scan_id key i text)) (\<lambda>_. True)"
  "safe (query (pending_profile_fragments limit)) (\<lambda>_. True)"
  "safe (query (incomplete_profiles limit)) (\<lambda>_. True)"
  "safe (query (incomplete_profiles_for_key key limit)) (\<lambda>_. True)"
  by (rule safe_database safe_execute safe_query; auto intro: operates.intros
      simp: insert_profile_integrity_snapshot_def incomplete_profiles_def incomplete_profiles_for_key_def
      dest: operates.snapshot [unfolded insert_profile_integrity_snapshot_def])+

lemma safe_insert_profile_scan:
  "safe (database (insert_profile_scan profile)) (\<lambda>_. scan_validate (rp_scan profile) = Ok ())"
proof (rule safe_transaction)
  show "\<not> panics (insert_profile_scan profile db)" for db by (simp add: insert_profile_scan_def)
  fix db x db'
  assume stored: "insert_profile_scan profile db = Ok (x, db')"
  then have "operates db db'" by (rule operates.scan)
  moreover have "scan_validate (rp_scan profile) = Ok ()"
    using stored by (auto simp: insert_profile_scan_def insert_profile_scan_inner_def Let_def)
  ultimately show "operates\<^sup>*\<^sup>* db db' \<and> scan_validate (rp_scan profile) = Ok ()" by blast
qed

lemma safe_persist_profile [safe_intros]: "safe (persist_profile W fmt profile) (\<lambda>_. True)"
  unfolding persist_profile_def
  by (rule safe_perform [OF safe_insert_profile_scan])
     (intro safe_intros safe_outcome; simp add: valid_scan_masks)

lemma safe_integrity [safe_intros]:
  "safe (report_persisted_fragment_classification W fmt classification key i j) (\<lambda>_. True)"
  by (cases classification)
     (simp_all add: report_persisted_fragment_classification_def write_profile_integrity_update_def safe_intros)

lemma safe_handle [safe_intros]: "safe (handle_profile_fragment_result W fmt result i) (\<lambda>_. True)"
  unfolding handle_profile_fragment_result_def
  by (auto split: option.split fragment_event.split intro!: safe_intros safe_outcome)

lemma safe_quarantine [safe_intros]:
  "safe (quarantine_pending_replay W i err) (\<lambda>_. True)"
  "safe (quarantine_incomplete_replay W scan_id key i err) (\<lambda>_. True)"
proof -
  have "safe (reassemble (\<lambda>r. Ok ((), discard key r))) (\<lambda>_. True)"
    by (rule safe_reassemble) (auto intro: discard_sound)
  then show "safe (quarantine_pending_replay W i err) (\<lambda>_. True)"
    "safe (quarantine_incomplete_replay W scan_id key i err) (\<lambda>_. True)"
    by (auto simp: quarantine_pending_replay_def quarantine_incomplete_replay_def intro!: safe_intros)
qed

lemma safe_restore_counts [safe_intros]:
  "safe (restore_counts key d c) (\<lambda>_. True)"
  "safe (restore_counts_once profile key restored) (\<lambda>_. True)"
proof -
  show counts: "safe (restore_counts key d c) (\<lambda>_. True)" for d c
    unfolding restore_counts_def
  proof (rule safe_reassemble)
    show "\<not> panics (map_ok (Pair ()) (restore_receiver_counts key d c r))" for r
      by (simp add: restore_receiver_counts_def panics_and_then)
    show "reassembler_inv r' \<and> True" if "reassembler_inv r" "map_ok (Pair ()) (restore_receiver_counts key d c r) = Ok (x, r')"
      for r x r' using that restore_sound [OF that(1)] by auto
  qed
  show "safe (restore_counts_once profile key restored) (\<lambda>_. True)"
    unfolding restore_counts_once_def using counts by (auto intro!: safe_intros)
qed

lemma ingest_decoded:
  assumes "visits_all it" and "decode bs = Ok (DF_ProfileFragment v)" and "reassembler_inv r"
    and "sf_fragment_index source = h_fragment_index (fv_header v)"
  obtains result r' where "ingest_at it v source t r = Ok (result, r')" "reassembler_inv r'"
proof -
  obtain f where f: "owned_fragment_from_view v = Ok f" "owned_ok f" "of_fragment_index f = h_fragment_index (fv_header v)"
    using decoded_owned [OF assms(2)] by metis
  then have "sf_fragment_index source = of_fragment_index f" using assms(4) by simp
  from ingest_at_sound [OF assms(3,1) f(1,2) this] show ?thesis
    using that by (auto simp: ingest_sound_def)
qed

lemma safe_ingest:
  assumes "visits_all it" and "decode bs = Ok (DF_ProfileFragment v)"
    and "sf_fragment_index source = h_fragment_index (fv_header v)"
  shows "safe (reassemble (ingest_at it v source t)) (\<lambda>_. True)"
proof (rule safe_reassemble)
  fix r :: profile_reassembler
  assume r: "reassembler_inv r"
  obtain result r1 where ok: "ingest_at it v source t r = Ok (result, r1)" "reassembler_inv r1"
    using ingest_decoded [OF assms(1,2) r assms(3)] .
  then show "\<not> panics (ingest_at it v source t r)" by simp
  show "reassembler_inv r' \<and> True" if "ingest_at it v source t r = Ok (x, r')" for x r' using that ok by simp
qed

lemma safe_restore_fragments:
  assumes "visits_all (w_order W)"
  shows "safe (restore_fragments W fmt t0 profile fragments restored ordinal) (\<lambda>_. True)"
proof (induction fragments arbitrary: restored ordinal)
  case Nil
  then show ?case by (simp add: safe_intros)
next
  case (Cons archived rest)
  show ?case
  proof (cases "decode (pp_payload archived)")
    case (Inl e)
    have "\<not> panics (decode (pp_payload archived))" by (rule decode_never_panics)
    then show ?thesis using Inl by (cases e) (auto simp: Let_def intro!: safe_intros)
  next
    case (Inr d)
    show ?thesis
    proof (cases d)
      case (DF_ProfileFragment fragment)
      have "safe (reassemble (ingest_at (w_order W) fragment (archived_source archived fragment) t)) (\<lambda>_. True)" for t
        using assms Inr DF_ProfileFragment by (auto intro!: safe_ingest simp: archived_source_def)
      then show ?thesis using Inr DF_ProfileFragment Cons by (auto simp: Let_def intro!: safe_intros)
    qed (use Inr in \<open>auto simp: Let_def intro!: safe_intros\<close>)
  qed
qed

lemma safe_restore_profiles:
  assumes "visits_all (w_order W)"
  shows "safe (restore_profiles W fmt t0 profiles quarantined ordinal) (\<lambda>_. True)"
proof (induction profiles arbitrary: quarantined ordinal)
  case Nil
  then show ?case by (simp add: safe_intros)
next
  case (Cons profile profiles)
  then show ?case
    by (auto split: option.split intro!: safe_intros safe_restore_fragments [OF assms] safe_outcome)
qed

lemma safe_ingest_archived:
  assumes "visits_all (w_order W)" and "decode bs = Ok (DF_ProfileFragment fragment)"
    and "sf_fragment_index source = h_fragment_index (fv_header fragment)"
  shows "safe (ingest_archived_profile_fragment W fmt fragment source payload t) (\<lambda>_. True)"
  unfolding ingest_archived_profile_fragment_def restore_incomplete_profiles_def Let_def
  using safe_ingest [OF assms]
  by (auto split: option.split persisted_fragment_match.split
      intro!: safe_intros safe_restore_profiles [OF assms(1)])

lemma safe_replay_pending:
  assumes "visits_all (w_order W)"
  shows "safe (replay_pending W fmt t0 pending ordinal) (\<lambda>_. True)"
proof (induction pending arbitrary: ordinal)
  case Nil
  then show ?case by (simp add: safe_intros)
next
  case (Cons archived rest)
  show ?case
  proof (cases "decode (pp_payload archived)")
    case (Inl e)
    have "\<not> panics (decode (pp_payload archived))" by (rule decode_never_panics)
    then show ?thesis using Inl Cons by (cases e) (auto simp: Let_def intro!: safe_intros)
  next
    case (Inr d)
    show ?thesis
    proof (cases d)
      case (DF_ProfileFragment fragment)
      have "safe (ingest_archived_profile_fragment W fmt fragment (archived_source archived fragment)
          (pp_payload archived) t) (\<lambda>_. True)" for t
        using assms Inr DF_ProfileFragment by (auto intro!: safe_ingest_archived simp: archived_source_def)
      then show ?thesis using Inr DF_ProfileFragment Cons
        by (auto simp: Let_def intro!: safe_intros safe_recover safe_outcome)
    qed (use Inr Cons in \<open>auto simp: Let_def intro!: safe_intros\<close>)
  qed
qed

lemma safe_reconcile_pending:
  assumes "visits_all (w_order W)"
  shows "safe (reconcile_pending_profiles W fmt t0) (\<lambda>_. True)"
  unfolding reconcile_pending_profiles_def restore_incomplete_profiles_def
  by (auto intro!: safe_intros safe_restore_profiles [OF assms] safe_replay_pending [OF assms])

lemma decode_any_Ok:
  "decode_any bs = Ok (DT_V2 d) \<Longrightarrow> decode bs = Ok d"
  "decode_any bs = Ok (DT_V1 t) \<Longrightarrow> telemetry_v1_decode bs = Ok t"
  by (auto simp: decode_any_def split: if_splits)

lemma decoded_configuration_Ok:
  assumes "decode bs = Ok (DF_DeviceConfig h c)"
  obtains r where "(device_configuration h c :: (_, 'e) result) = Ok r" "configuration_validate r = Ok ()"
proof -
  have "wf_config c" "validate_config c = Ok ()" using assms by (auto simp: decode_iff)
  from device_configuration_Ok [OF this, of h] show ?thesis using that by auto
qed

lemma decoded_render_Ok:
  assumes "decode bs = Ok d"
  shows "render_v2 fmt radio d = Ok (FrameLine fmt d radio)"
proof (cases d)
  case (DF_DeviceConfig h c)
  obtain r where "(device_configuration h c :: (_, v2_render_error) result) = Ok r"
    using decoded_configuration_Ok [OF assms [unfolded DF_DeviceConfig]] by metis
  then show ?thesis by (simp add: DF_DeviceConfig)
next
  case (DF_ProfileFragment v)
  obtain steps where "fragment_valid v steps" using assms by (auto simp: decode_iff DF_ProfileFragment)
  then show ?thesis by (simp add: DF_ProfileFragment fragment_steps_valid)
qed simp

lemma safe_store_v2:
  assumes "visits_all (w_order W)" and "decode bs = Ok frame"
  shows "safe (store_v2 W fmt now t packet frame) (\<lambda>_. True)"
proof -
  have render: "map_err V2Render (render_v2 fmt (Some (rp_metadata packet)) frame)
      = (Ok (FrameLine fmt frame (Some (rp_metadata packet))) :: (_, ('a, 'b) app_error) result)"
    by (simp only: decoded_render_Ok [OF assms(2)] map_err.simps)
  have "safe (store_v2_frame W fmt now t packet frame) (\<lambda>_. True)"
  proof (cases frame)
    case (DF_DeviceConfig h c)
    obtain r where r: "(device_configuration h c :: (_, ('a, 'b) app_error) result) = Ok r"
      using decoded_configuration_Ok [OF assms(2) [unfolded DF_DeviceConfig]] by metis
    show ?thesis
      unfolding store_v2_frame_def DF_DeviceConfig decoded_frame.case r render [unfolded DF_DeviceConfig]
      by (intro safe_intros safe_outcome) simp_all
  next
    case (DF_ProfileFragment fragment)
    then show ?thesis
      unfolding store_v2_frame_def using assms
      by (auto intro!: safe_intros safe_ingest_archived)
  next
    case (DF_DeviceHealth h health)
    show ?thesis
      unfolding store_v2_frame_def DF_DeviceHealth decoded_frame.case render [unfolded DF_DeviceHealth]
      by (intro safe_intros safe_outcome) simp_all
  qed
  then show ?thesis unfolding store_v2_def by (intro safe_intros) simp_all
qed

lemma safe_store_packet:
  assumes "visits_all (w_order W)"
  shows "safe (store_packet W fmt now t packet) (\<lambda>_. True)"
proof (cases "decode_any (rp_payload packet)")
  case (Inl e)
  have "\<not> panics (decode_any (rp_payload packet))" by (rule decode_any_no_panic)
  then obtain err where "decode_any (rp_payload packet) = fail err" using Inl by (cases e) auto
  then show ?thesis by (auto simp: store_packet_def Let_def intro!: safe_intros)
next
  case (Inr d)
  show ?thesis
  proof (cases d)
    case (DT_V1 frame)
    then show ?thesis using Inr
      by (auto simp: store_packet_def store_v1_def intro!: safe_intros safe_outcome)
  next
    case (DT_V2 frame)
    then show ?thesis using Inr safe_store_v2 [OF assms decode_any_Ok(1)] by (auto simp: store_packet_def)
  qed
qed

lemma safe_hand_out:
  assumes "visits_all (w_order W)"
  shows "safe (persist_expired_profiles W fmt now) (\<lambda>_. True)" "safe (finish_listening W fmt c) (\<lambda>_. True)"
proof -
  have "safe (reassemble (\<lambda>r. Ok (expire_older_than (w_order W) now age r))) (\<lambda>_. True)" for age
  proof (rule safe_reassemble)
    show "reassembler_inv r' \<and> True" if "reassembler_inv r" "Ok (expire_older_than (w_order W) now age r) = (Ok (x, r') :: (_, reassembly_error) result)" for r x r'
      using that expire_before_sound [OF that(1) assms] by (auto simp: expire_older_than_def split: if_splits)
  qed simp
  moreover have "safe (reassemble (\<lambda>r. Ok (drain_incomplete (w_order W) r))) (\<lambda>_. True)"
  proof (rule safe_reassemble)
    show "reassembler_inv r' \<and> True" if "reassembler_inv r" "Ok (drain_incomplete (w_order W) r) = (Ok (x, r') :: (_, reassembly_error) result)" for r x r'
      using that drain_incomplete_sound [OF that(1) assms] by auto
  qed simp
  ultimately show "safe (persist_expired_profiles W fmt now) (\<lambda>_. True)" "safe (finish_listening W fmt c) (\<lambda>_. True)"
    by (auto simp: persist_expired_profiles_def finish_listening_def intro!: safe_intros)
qed

lemma safe_iteration:
  assumes "visits_all (w_order W)" and "\<not> panics (it_poll i poll_time)"
  shows "safe (listen_iteration W fmt i poll_time c) (\<lambda>_. True)"
proof -
  have "safe (handle_event W fmt i event c) (\<lambda>_. True)" for event
    by (cases "(W, fmt, i, event, c)" rule: handle_event.cases)
       (auto intro!: safe_intros safe_store_packet [OF assms(1)])
  then show ?thesis
    unfolding listen_iteration_def using assms(2)
    by (auto intro!: safe_intros safe_outcome safe_hand_out [OF assms(1)])
qed

lemma safe_start:
  assumes "visits_all (w_order W)" and "\<not> panics opened"
  shows "safe (start_listening W fmt t0 opened) (\<lambda>_. True)"
  unfolding start_listening_def write_listen_startup_def using assms
  by (auto intro!: safe_intros safe_outcome safe_reconcile_pending)

text \<open>What a run of the loop, however long, does to the state.\<close>

lemma safe_loop:
  assumes "visits_all (w_order W)" and "\<forall>i \<in> set iterations. \<forall>poll_time. \<not> panics (it_poll i poll_time)"
    and "listen_loop W fmt deadline maximum iterations c s = Some (r, s')" and "receiver_ok s"
  shows "receiver_ok s' \<and> operates\<^sup>*\<^sup>* (rv_database s) (rv_database s') \<and> \<not> panics r"
  using assms(2-4)
proof (induction iterations arbitrary: c s)
  case Nil
  then show ?case by simp
next
  case (Cons i rest)
  show ?case
  proof (cases "next_poll deadline maximum i c")
    case None
    then show ?thesis using Cons.prems by auto
  next
    case (Some poll_time)
    obtain q s1 where step: "listen_iteration W fmt i poll_time c s = (q, s1)" by fastforce
    have "safe (listen_iteration W fmt i poll_time c) (\<lambda>_. True)"
      using Cons.prems(1) by (intro safe_iteration [OF assms(1)]) simp
    note 1 = safeD [OF this Cons.prems(3) step]
    show ?thesis
    proof (cases q)
      case (Inl e)
      then show ?thesis using Cons.prems(2) Some step 1 by auto
    next
      case (Inr c')
      then have "listen_loop W fmt deadline maximum rest c' s1 = Some (r, s')" using Cons.prems(2) Some step by simp
      then show ?thesis using Cons.IH [of c' s1] Cons.prems(1) 1(1,2) by (auto intro: rtranclp_trans)
    qed
  qed
qed

text \<open>
  A run of \<^verbatim>\<open>listen\<close>, from an archive that satisfies its invariant: it never panics and keeps the invariants
  and the packets.
\<close>

lemma listen_safe:
  assumes "visits_all (w_order W)" and "\<forall>i \<in> set iterations. \<forall>poll_time. \<not> panics (it_poll i poll_time)"
    and "\<not> panics opened" and "archive_ok db"
    and "listen W fmt duration maximum signals t0 opened t1 iterations db = Some (r, s)"
  shows "\<not> panics r \<and> archive_ok (rv_database s) \<and> reassembler_inv (rv_reassembler s)
    \<and> prefix (raw_packets db) (raw_packets (rv_database s))"
proof -
  define s0 where "s0 = \<lparr>rv_database = db, rv_reassembler = reassembler_default, rv_output = [], rv_diagnostics = []\<rparr>"
  have s0: "receiver_ok s0" using assms(4) reassembler_default_inv by (simp add: receiver_ok_def s0_def)
  obtain q s1 where start: "start_listening W fmt t0 opened s0 = (q, s1)" by fastforce
  note 1 = safeD [OF safe_start [OF assms(1,3)] s0 start]
  have "receiver_ok s \<and> operates\<^sup>*\<^sup>* db (rv_database s) \<and> \<not> panics r"
  proof (cases "signals \<and> (\<exists>u. q = Ok u)")
    case False
    then show ?thesis
      using assms(5) start 1 s0 unfolding listen_def s0_def [symmetric] Let_def
      by (cases q) (auto simp: s0_def split: if_splits)
  next
    case True
    then obtain c0 deadline p s2 where loop: "listen_loop W fmt deadline maximum iterations c0 s1 = Some (p, s2)"
      and p: "(r, s) = (case p of Inl e \<Rightarrow> (Inl e, s2) | Inr c \<Rightarrow> finish_listening W fmt c s2)"
      using assms(5) start unfolding listen_def s0_def [symmetric] Let_def
      by (auto split: option.splits sum.splits prod.splits)
    note 2 = safe_loop [OF assms(1,2) loop 1(1)]
    have "operates\<^sup>*\<^sup>* db (rv_database s2)" using 1(2) 2 by (auto simp: s0_def intro: rtranclp_trans)
    then show ?thesis
      using p 2 safeD [OF safe_hand_out(2) [OF assms(1)], of s2 fmt _ r s]
      by (cases p) (auto simp: panics_def intro: rtranclp_trans)
  qed
  then show ?thesis using packet_store.run_appends assms(4) by (simp add: receiver_ok_def)
qed

end
