(* ===== verification/Receiver_Archiving.thy ===== *)
theory Receiver_Archiving
  imports Receiver_Invariant
begin

text \<open>
  No packet is lost: whatever a received packet contains and whatever goes wrong after it, its bytes
  are in the archive, exactly once.
\<close>

section \<open>Operations that record nothing\<close>

lemma set_status_raw [simp]: "raw_packets (fst (set_status P status db)) = raw_packets db"
  by (simp add: set_status_def raw_packets_def)

lemma delete_raw [simp]:
  "raw_packets (fst (delete_decodes P db)) = raw_packets db" "raw_packets (fst (delete_scans Q db)) = raw_packets db"
  by (simp_all add: delete_decodes_def delete_scans_def raw_packets_def Let_def)

lemma update_scans_raw [simp]: "raw_packets (update_scans ids f db) = raw_packets db"
  by (simp add: update_scans_eq raw_packets_def)

lemma quarantine_raw:
  "quarantine_pending_profile_fragment i err db = Ok db' \<Longrightarrow> raw_packets db' = raw_packets db"
  "quarantine_incomplete_profile_fragment scan_id key i err db = Ok db' \<Longrightarrow> raw_packets db' = raw_packets db"
proof -
  show "quarantine_pending_profile_fragment i err db = Ok db' \<Longrightarrow> raw_packets db' = raw_packets db"
    by (auto simp: quarantine_pending_profile_fragment_def Let_def case_prod_unfold guard_eq_Ok invalidate_packet_raw)
  have "raw_packets (foldl (requeue_candidate key) db candidates) = raw_packets db" for candidates
    by (induction candidates arbitrary: db)
       (auto simp: requeue_candidate_def invalidate_packet_raw split: prod.splits)
  then show "quarantine_incomplete_profile_fragment scan_id key i err db = Ok db' \<Longrightarrow> raw_packets db' = raw_packets db"
    by (auto dest: quarantine_incomplete_Ok simp: invalidate_packet_raw)
qed

lemma reconcile_raw:
  "reconcile_persisted_profile_fragment key i j payload db = Ok (m, db') \<Longrightarrow> raw_packets db' = raw_packets db"
  by (auto simp: reconcile_persisted_profile_fragment_def Let_def case_prod_unfold split: if_splits)

lemma coalesce_raw:
  assumes "coalesce_incomplete_profile_into_completed profile db = Ok (cs, db')"
  shows "raw_packets db' = raw_packets db"
proof -
  have loop: "raw_packets (snd s) = raw_packets (snd s0)"
    if "for_each fragments s0 (coalesce_fragment key ids) = Ok s" for fragments key ids s s0
    using that by (rule for_each_invariant) (auto simp: coalesce_fragment_def Let_def case_prod_unfold guard_eq_Ok)
  show ?thesis
    using assms unfolding coalesce_incomplete_profile_into_completed_def Let_def
    by (auto simp: case_prod_unfold guard_eq_Ok dest!: loop split: if_splits)
qed

lemma insert_profile_raw:
  assumes "insert_profile_scan_inner profile integrity db = Ok (r, db')"
  shows "raw_packets db' = raw_packets db"
  using assms
proof (rule insert_profile_scan_Ok)
  fix db1 a b m c row
  assume db1: "db1 = fst (delete_scans (\<lambda>row. \<not> sr_transport_complete row
       \<and> scan_has_key (scan_record_key (rp_scan profile)) row) db)"
    and steps: "store_profile_steps (so_id r) (if c then StatusAssembled else StatusIncomplete) profile
       integrity (db1\<lparr>db_scans := db_scans db1 @ [row]\<rparr>) = Ok db'"
  have one: "raw_packets t = raw_packets s" if "for_each xs s (insert_profile_step i) = Ok t" for xs s t i
    using that by (rule for_each_invariant) (auto simp: insert_profile_step_def raw_packets_def split: if_splits)
  have two: "raw_packets t = raw_packets s" if "for_each xs s (insert_profile_fragment i status) = Ok t" for xs s t i status
    using that by (rule for_each_invariant) (auto simp: insert_fragment_Ok raw_packets_def set_status_def)
  have "raw_packets (db1\<lparr>db_scans := db_scans db1 @ [row]\<rparr>) = raw_packets db"
    using delete_raw(2) [of _ db] by (simp add: db1 raw_packets_def)
  then show "raw_packets db' = raw_packets db"
    using steps unfolding store_profile_steps_def
    by (auto dest!: one two mark_fragment_status_Ok split: option.splits)
qed

definition unrecorded :: "('g, 's, 'a) action \<Rightarrow> bool" where
  "unrecorded m \<longleftrightarrow> (\<forall>s r s'. m s = (r, s') \<longrightarrow> raw_packets (rv_database s') = raw_packets (rv_database s))"

named_theorems unrecorded_intros

lemma unrecorded_pure [unrecorded_intros]:
  "unrecorded (produce x)" "unrecorded (outcome r)" "unrecorded (write_line W line)" "unrecorded (flush W)"
  "unrecorded (note_line W diagnostic)" "unrecorded (inspect f)"
  by (auto simp: unrecorded_def produce_def outcome_def write_line_def flush_def note_line_def inspect_def split: if_splits)

lemma unrecorded_reassemble [unrecorded_intros]: "unrecorded (reassemble f)"
  by (auto simp: unrecorded_def reassemble_def split: sum.splits)

lemma unrecorded_perform [unrecorded_intros]:
  "unrecorded m \<Longrightarrow> (\<And>x. unrecorded (k x)) \<Longrightarrow> unrecorded (perform m k)"
  by (fastforce simp: unrecorded_def perform_def split: prod.splits sum.splits)

lemma unrecorded_recover [unrecorded_intros]:
  "unrecorded m \<Longrightarrow> (\<And>e. unrecorded (k e)) \<Longrightarrow> unrecorded (recover m k)"
  by (fastforce simp: unrecorded_def recover_def split: prod.splits sum.splits fault.splits)

lemma unrecorded_each [unrecorded_intros]: "(\<And>x. unrecorded (body x)) \<Longrightarrow> unrecorded (each xs body)"
  by (induction xs) (auto intro: unrecorded_intros)

lemma unrecorded_database:
  "(\<And>db x db'. f db = Ok (x, db') \<Longrightarrow> raw_packets db' = raw_packets db) \<Longrightarrow> unrecorded (database f)"
  by (auto simp: unrecorded_def database_def split: sum.splits)

lemma unrecorded_query [unrecorded_intros]: "unrecorded (query f)"
  unfolding query_def by (rule unrecorded_database) auto

lemma unrecorded_operations [unrecorded_intros]:
  "unrecorded (execute (quarantine_pending_profile_fragment i err))"
  "unrecorded (execute (quarantine_incomplete_profile_fragment scan_id key i err))"
  "unrecorded (database (reconcile_persisted_profile_fragment key i j payload))"
  "unrecorded (database (coalesce_incomplete_profile_into_completed incomplete))"
  "unrecorded (database (insert_profile_scan profile))"
  "unrecorded (database (insert_profile_integrity_snapshot profile i status))"
  unfolding execute_def insert_profile_scan_def insert_profile_integrity_snapshot_def
  by (rule unrecorded_database; auto dest: quarantine_raw reconcile_raw coalesce_raw insert_profile_raw)+

lemma unrecorded_reports [unrecorded_intros]:
  "unrecorded (persist_profile W fmt profile)"
  "unrecorded (report_persisted_fragment_classification W fmt classification key i j)"
  "unrecorded (handle_profile_fragment_result W fmt result i)"
proof -
  show persist: "unrecorded (persist_profile W fmt profile)" for profile
    unfolding persist_profile_def by (intro unrecorded_intros)
  show "unrecorded (report_persisted_fragment_classification W fmt classification key i j)"
    unfolding report_persisted_fragment_classification_def write_profile_integrity_update_def
    by (auto split: persisted_fragment_match.split intro!: unrecorded_intros)
  show "unrecorded (handle_profile_fragment_result W fmt result i)"
    unfolding handle_profile_fragment_result_def
    by (auto split: option.split fragment_event.split intro!: unrecorded_intros persist)
qed

lemma unrecorded_restoring [unrecorded_intros]:
  "unrecorded (quarantine_pending_replay W i err)"
  "unrecorded (quarantine_incomplete_replay W scan_id key i err)"
  "unrecorded (restore_counts key d c)" "unrecorded (restore_counts_once profile key restored)"
  by (auto simp: quarantine_pending_replay_def quarantine_incomplete_replay_def restore_counts_def
      restore_counts_once_def intro!: unrecorded_intros)

lemma unrecorded_restore_fragments [unrecorded_intros]:
  "unrecorded (restore_fragments W fmt t0 profile fragments restored ordinal)"
  by (induction fragments arbitrary: restored ordinal)
     (auto simp: Let_def split: sum.split fault.split decoded_frame.split intro!: unrecorded_intros)

lemma unrecorded_restore_profiles [unrecorded_intros]:
  "unrecorded (restore_profiles W fmt t0 profiles quarantined ordinal)"
  by (induction profiles arbitrary: quarantined ordinal)
     (auto split: option.split intro!: unrecorded_intros)

lemma unrecorded_ingest_archived [unrecorded_intros]:
  "unrecorded (ingest_archived_profile_fragment W fmt fragment source payload t)"
  unfolding ingest_archived_profile_fragment_def restore_incomplete_profiles_def Let_def
  by (auto split: option.split persisted_fragment_match.split intro!: unrecorded_intros)

section \<open>Operations that record a packet\<close>

definition recorded_once :: "int \<Rightarrow> bytes \<Rightarrow> radio_metadata \<Rightarrow> archive \<Rightarrow> archive \<Rightarrow> bool" where
  "recorded_once now payload radio db db' \<longleftrightarrow>
     (\<exists>i version ft. raw_packets db' = raw_packets db @ [(i, now, radio, version, ft, payload)])"

text \<open>The clock and the length under which the archive accepts a packet.\<close>

definition storable :: "int \<Rightarrow> bytes \<Rightarrow> bool" where
  "storable now payload \<longleftrightarrow> 0 \<le> now \<and> now < 2 ^ 63 \<and> length payload \<le> 255"

lemma storable_clock: "storable now payload \<Longrightarrow> current_unix_ms now = Ok now"
  by (simp add: storable_def current_unix_ms_def)

lemma insert_packet_recorded:
  assumes "storable now payload"
  obtains p db' row where
    "insert_packet_at payload radio now disposition version ft err db = Ok (p, db')" "recorded_once now payload radio db db'"
    "sp_id p \<notin> packet_ids db" "sp_id p \<in> packet_ids db'" "db' = db\<lparr>db_packets := db_packets db @ [row]\<rparr>"
proof -
  obtain p db' where ok: "insert_packet_at payload radio now disposition version ft err db = Ok (p, db')"
    using assms by (auto simp: insert_packet_at_def storable_def Let_def)
  from ok show ?thesis
  proof (rule insert_packet_Ok)
    fix row
    assume row: "db' = db\<lparr>db_packets := db_packets db @ [row]\<rparr>" "rk_id row = sp_id p" "sp_id p \<notin> packet_ids db"
      "raw_packet row = (sp_id p, now, radio, version, ft, payload)"
    then have "recorded_once now payload radio db db'" by (auto simp: recorded_once_def raw_packets_def)
    then show thesis using that [OF ok] row by simp
  qed
qed

lemma archive_packet_recorded:
  assumes "storable now payload"
  obtains p db' where "archive_packet now payload radio disposition err db = Ok (p, db')"
    "recorded_once now payload radio db db'"
proof (rule insert_packet_recorded [OF assms])
  fix p db' row
  assume "insert_packet_at payload radio now disposition
      (if take 2 payload = [0x56, 0x53] \<and> 2 < length payload then Some (payload ! 2) else None)
      (if 3 < length payload then Some (payload ! 3) else None) err db = Ok (p, db')"
    and "recorded_once now payload radio db db'"
  then show thesis using that [of p db'] by (simp add: archive_packet_def storable_clock [OF assms])
qed

lemma insert_received_v1_recorded:
  assumes "archive_ok db" and "storable now payload" and "length payload = 48"
  obtains x db' where "insert_received_v1 now frame payload radio db = Ok (x, db')" "recorded_once now payload radio db db'"
    "sd_radio_packet_id x \<noteq> None"
proof (rule insert_packet_recorded [OF assms(2)])
  fix p db1 row
  assume p: "insert_packet_at payload radio now packet_disposition.LegacyV1 (Some VERSION) None None db = Ok (p, db1)"
    "recorded_once now payload radio db db1" "sp_id p \<notin> packet_ids db" "sp_id p \<in> packet_ids db1"
    "db1 = db\<lparr>db_packets := db_packets db @ [row]\<rparr>"
  have "rd_radio_packet_id ` set (db_readings db) \<subseteq> Some ` packet_ids db \<union> {None}"
    using archive_okD(5) [OF assms(1)] by (simp add: records_ok_def)
  then have "Some (sp_id p) \<notin> rd_radio_packet_id ` set (db_readings db1)" using p(3,5) by auto
  then obtain x db' where x: "insert_reading_at frame payload radio now (Some (sp_id p)) db1 = Ok (x, db')"
    "sd_radio_packet_id x \<noteq> None" "db_packets db' = db_packets db1"
    using assms(2,3) p(4) by (auto simp: insert_reading_at_def storable_def Let_def)
  have "recorded_once now payload radio db db'" using p(2) x(3) by (simp add: recorded_once_def raw_packets_def)
  then show thesis
    using that [of x db'] p(1) x(1,2) by (simp add: insert_received_v1_def storable_clock [OF assms(2)])
qed

lemma archive_v2_packet_recorded:
  assumes "archive_ok db" and "storable now payload" and "1 \<le> h_fragment_count h"
  obtains p db' where "archive_v2_packet now payload radio h kind db = Ok (p, db')"
    "recorded_once now payload radio db db'" "sp_id p \<in> packet_ids db'" "archive_ok db'"
proof (rule insert_packet_recorded [OF assms(2)])
  fix p db1 row
  assume p: "insert_packet_at payload radio now ProtocolV2 (Some VERSION_V2) (Some (frame_type_u8 (h_frame_type h))) None db
      = Ok (p, db1)"
    "recorded_once now payload radio db db1" "sp_id p \<notin> packet_ids db" "sp_id p \<in> packet_ids db1"
    "db1 = db\<lparr>db_packets := db_packets db @ [row]\<rparr>"
  have fc: "\<not> h_fragment_count h < 1" "h_fragment_count h \<noteq> 0" using assms(3) by auto
  have "vd_packet_id ` set (db_decodes db) \<subseteq> packet_ids db"
    using archive_okD(2) [OF assms(1)] by (simp add: decodes_ok_def)
  then have "sp_id p \<notin> vd_packet_id ` set (db_decodes db1)" using p(3,5) by auto
  then obtain db' where d: "insert_v2_packet_decode_at (sp_id p) h kind db1 = Ok db'" "db_packets db' = db_packets db1"
    using fc p(4) by (simp add: insert_v2_packet_decode_at_def)
  have v2: "archive_v2_packet now payload radio h kind db = Ok (p, db')"
    using p(1) d(1) by (simp add: archive_v2_packet_def)
  moreover have "recorded_once now payload radio db db'" using p(2) d(2) by (simp add: recorded_once_def raw_packets_def)
  moreover have "archive_ok db'" using archive_v2_packet_keeps [OF v2] assms(1) by (simp add: keeps_def)
  ultimately show thesis using that [of p db'] p(4) d(2) by simp
qed

lemma insert_heater_steps_Ok:
  assumes "distinct (map hc_step_index steps)" and "\<forall>step \<in> set steps. hc_step_index step \<le> 9"
    and "\<forall>step \<in> set steps. \<forall>other. (i, other) \<in> set (db_heater_steps db) \<longrightarrow> hc_step_index other \<noteq> hc_step_index step"
  obtains db' where "for_each steps db (insert_heater_step i) = Ok db'" "db_packets db' = db_packets db"
  using assms
proof (induction steps arbitrary: db thesis)
  case Nil
  then show ?case by simp
next
  case (Cons step steps)
  let ?db = "db\<lparr>db_heater_steps := db_heater_steps db @ [(i, step)]\<rparr>"
  have "insert_heater_step i step db = Ok ?db"
    using Cons.prems(3,4) by (auto simp: insert_heater_step_def not_less)
  moreover obtain db' where "for_each steps ?db (insert_heater_step i) = Ok db'" "db_packets db' = db_packets ?db"
  proof (rule Cons.IH)
    show "distinct (map hc_step_index steps)" "\<forall>step \<in> set steps. hc_step_index step \<le> 9"
      using Cons.prems(2,3) by simp_all
    have "\<forall>s \<in> set steps. hc_step_index s \<noteq> hc_step_index step" using Cons.prems(2) by (auto simp: image_iff)
    then show "\<forall>s \<in> set steps. \<forall>other. (i, other) \<in> set (db_heater_steps ?db) \<longrightarrow> hc_step_index other \<noteq> hc_step_index s"
      using Cons.prems(4) by auto
  qed
  ultimately show ?case using Cons.prems(1) [of db'] by simp
qed

lemma insert_configuration_Ok:
  assumes "archive_ok db" and "configuration_validate c = Ok ()" and "0 \<le> t" and "i \<in> packet_ids db"
  obtains x db' where "insert_device_configuration_at c t (Some i) db = Ok (x, db')" "db_packets db' = db_packets db"
proof -
  note valid = assms(2) [unfolded configuration_validate_eq]
  let ?j = "new_rowid (map cw_id (db_configurations db))"
  let ?row = "\<lparr>cw_id = ?j, cw_received_at_unix_ms = t, cw_columns = c, cw_record_json = c, cw_source_packet_id = Some i\<rparr>"
  let ?db = "db\<lparr>db_configurations := db_configurations db @ [?row]\<rparr>"
  have "?j \<notin> fst ` set (db_heater_steps db)"
    using archive_okD(5) [OF assms(1)] new_rowid_fresh [of "map cw_id (db_configurations db)"]
    by (auto simp: records_ok_def)
  then have "\<forall>step \<in> set (cf_heater_steps c). \<forall>other. (?j, other) \<in> set (db_heater_steps ?db)
      \<longrightarrow> hc_step_index other \<noteq> hc_step_index step"
    by (auto simp: image_iff)
  moreover have "distinct (map hc_step_index (cf_heater_steps c))" "\<forall>step \<in> set (cf_heater_steps c). hc_step_index step \<le> 9"
  proof -
    let ?n = "length (cf_heater_steps c)"
    have n: "?n \<le> 10" and idx: "map hc_step_index (cf_heater_steps c) = map word_of_nat [0..<?n]" using valid by auto
    have "inj_on (word_of_nat :: nat \<Rightarrow> u8) {0..<?n}"
    proof (rule inj_onI)
      fix a b assume ab: "a \<in> {0..<?n}" "b \<in> {0..<?n}" "(word_of_nat a :: u8) = word_of_nat b"
      have "unat (word_of_nat m :: u8) = m" if "m \<in> {0..<?n}" for m using that n by (simp add: unat_of_nat)
      with ab(1,2) have "unat (word_of_nat a :: u8) = a" "unat (word_of_nat b :: u8) = b" by blast+
      then show "a = b" using ab(3) by metis
    qed
    then show "distinct (map hc_step_index (cf_heater_steps c))" unfolding idx by (simp add: distinct_map)
    have "hc_step_index step \<in> word_of_nat ` {0..<?n}" if "step \<in> set (cf_heater_steps c)" for step
      using that arg_cong [OF idx, of set] by auto
    then show "\<forall>step \<in> set (cf_heater_steps c). hc_step_index step \<le> 9"
      using n by (fastforce simp: word_le_nat_alt unat_of_nat)
  qed
  ultimately obtain db' where "for_each (cf_heater_steps c) ?db (insert_heater_step ?j) = Ok db'" "db_packets db' = db_packets ?db"
    using insert_heater_steps_Ok [of "cf_heater_steps c" ?j ?db] by metis
  moreover have "1 \<le> cf_expected_step_count c" "cf_expected_step_count c \<le> 10"
    using valid by (simp_all add: word_le_nat_alt)
  ultimately show thesis
    using that [of "\<lparr>so_id = ?j, so_received_at_unix_ms = t\<rparr>" db'] assms(3,4)
    by (simp add: insert_device_configuration_at_def Let_def)
qed

lemma insert_received_configuration_recorded:
  assumes "archive_ok db" and "storable now payload" and "1 \<le> h_fragment_count h" and "configuration_validate c = Ok ()"
  obtains x db' where "insert_received_device_configuration now payload radio h c db = Ok (x, db')"
    "recorded_once now payload radio db db'"
proof (rule archive_v2_packet_recorded [OF assms(1-3)])
  fix p db1
  assume p: "archive_v2_packet now payload radio h KindDeviceConfig db = Ok (p, db1)"
    "recorded_once now payload radio db db1" "sp_id p \<in> packet_ids db1" "archive_ok db1"
  have "0 \<le> now" using assms(2) by (simp add: storable_def)
  then obtain x db' where x: "insert_device_configuration_at c now (Some (sp_id p)) db1 = Ok (x, db')"
    "db_packets db' = db_packets db1"
    using insert_configuration_Ok [OF p(4) assms(4) _ p(3)] by metis
  have "recorded_once now payload radio db db'" using p(2) x(2) by (simp add: recorded_once_def raw_packets_def)
  then show thesis
    using that p(1) x(1) by (simp add: insert_received_device_configuration_def storable_clock [OF assms(2)] assms(4))
qed

lemma insert_received_health_recorded:
  assumes "archive_ok db" and "storable now payload" and "1 \<le> h_fragment_count h"
  obtains x db' where "insert_received_device_health now payload radio h health db = Ok (x, db')"
    "recorded_once now payload radio db db'"
proof (rule archive_v2_packet_recorded [OF assms])
  fix p db1
  assume p: "archive_v2_packet now payload radio h KindDeviceHealth db = Ok (p, db1)"
    "recorded_once now payload radio db db1" "sp_id p \<in> packet_ids db1"
  then obtain x db' where x: "insert_device_health_at health now (Some (sp_id p)) db1 = Ok (x, db')"
    "db_packets db' = db_packets db1"
    by (simp add: insert_device_health_at_def Let_def)
  have "recorded_once now payload radio db db'" using p(2) x(2) by (simp add: recorded_once_def raw_packets_def)
  then show thesis
    using that p(1) x(1) by (simp add: insert_received_device_health_def storable_clock [OF assms(2)])
qed

section \<open>Received packets\<close>

text \<open>An action that starts by recording the packet, and records nothing else.\<close>

lemma recording_action:
  assumes "perform (database f) k s = (r, s')"
    and "f (rv_database s) = Ok (x, db')" and "recorded_once now payload radio (rv_database s) db'"
    and "\<And>x. unrecorded (k x)"
  shows "recorded_once now payload radio (rv_database s) (rv_database s')"
proof -
  have "k x (s\<lparr>rv_database := db'\<rparr>) = (r, s')" using assms(1,2) by (simp add: perform_def database_def)
  then have "raw_packets (rv_database s') = raw_packets db'" using assms(4) by (fastforce simp: unrecorded_def)
  then show ?thesis using assms(3) by (simp add: recorded_once_def)
qed

lemma perform_outcome_Ok: "perform (outcome (Ok x)) k = k x"
  by (rule ext) (simp add: perform_def outcome_def)

lemma perform_perform: "perform (perform m k) l = perform m (\<lambda>x. perform (k x) l)"
  by (rule ext) (simp add: perform_def split: prod.splits sum.splits)

text \<open>What the receive loop counts a packet as.\<close>

fun outcome_of :: "(decoded_telemetry, protocol_decode_error) result \<Rightarrow> packet_outcome" where
  "outcome_of (Inr (DT_V1 _)) = ValidV1"
| "outcome_of (Inr (DT_V2 _)) = ValidV2"
| "outcome_of (Inl (Err e)) = (if unsupported_error e then UnsupportedPacket else InvalidPacket)"
| "outcome_of (Inl Panic) = InvalidPacket"

lemma decoded_fragment_count:
  assumes "decode bs = Ok d"
  shows "1 \<le> h_fragment_count (decoded_header d)"
proof -
  have "h_fragment_index (decoded_header d) < h_fragment_count (decoded_header d)"
    using assms by (simp add: decode_iff header_valid_def)
  then show ?thesis by (simp add: word_less_nat_alt word_le_nat_alt)
qed

lemma store_v2_recorded:
  assumes "decode (rp_payload packet) = Ok frame" and "archive_ok (rv_database s)" and "storable now (rp_payload packet)"
    and "store_v2 W fmt now t packet frame s = (r, s')"
  shows "recorded_once now (rp_payload packet) (rp_metadata packet) (rv_database s) (rv_database s')"
proof (cases frame)
  case (DF_DeviceConfig h c)
  have count: "1 \<le> h_fragment_count h" using decoded_fragment_count [OF assms(1)] by (simp add: DF_DeviceConfig)
  obtain conf where conf: "(device_configuration h c :: (_, ('a, 'b) app_error) result) = Ok conf"
    "configuration_validate conf = Ok ()"
    using decoded_configuration_Ok [OF assms(1) [unfolded DF_DeviceConfig]] by metis
  obtain x db' where x: "insert_received_device_configuration now (rp_payload packet) (rp_metadata packet) h conf
      (rv_database s) = Ok (x, db')"
    "recorded_once now (rp_payload packet) (rp_metadata packet) (rv_database s) db'"
    using insert_received_configuration_recorded [OF assms(2,3)
        count conf(2)] by metis
  show ?thesis
    using assms(4) unfolding store_v2_def store_v2_frame_def DF_DeviceConfig decoded_frame.case conf(1)
      perform_outcome_Ok perform_perform
    by (rule recording_action [where x = x and db' = db']) (intro x unrecorded_intros)+
next
  case (DF_DeviceHealth h health)
  have count: "1 \<le> h_fragment_count h" using decoded_fragment_count [OF assms(1)] by (simp add: DF_DeviceHealth)
  obtain x db' where x: "insert_received_device_health now (rp_payload packet) (rp_metadata packet) h
      (device_health_record h health) (rv_database s) = Ok (x, db')"
    "recorded_once now (rp_payload packet) (rp_metadata packet) (rv_database s) db'"
    using insert_received_health_recorded [OF assms(2,3)
        count] by metis
  show ?thesis
    using assms(4) unfolding store_v2_def store_v2_frame_def DF_DeviceHealth decoded_frame.case perform_perform
    by (rule recording_action [where x = x and db' = db']) (intro x unrecorded_intros)+
next
  case (DF_ProfileFragment v)
  have count: "1 \<le> h_fragment_count (fv_header v)"
    using decoded_fragment_count [OF assms(1)] by (simp add: DF_ProfileFragment)
  obtain x db' where x: "archive_v2_packet now (rp_payload packet) (rp_metadata packet) (fv_header v) KindProfileFragment
      (rv_database s) = Ok (x, db')"
    "recorded_once now (rp_payload packet) (rp_metadata packet) (rv_database s) db'"
    using archive_v2_packet_recorded [OF assms(2,3)
        count] by metis
  have f: "archive_v2_profile_fragment now (rp_payload packet) (rp_metadata packet) (fv_header v) (rv_database s) = Ok (x, db')"
    using x(1) by (simp add: archive_v2_profile_fragment_def storable_clock [OF assms(3)])
  show ?thesis
    using assms(4) unfolding store_v2_def store_v2_frame_def DF_ProfileFragment decoded_frame.case perform_perform
    by (rule recording_action [where x = x and db' = db']) (intro f x unrecorded_intros)+
qed

lemma store_packet_outcome:
  assumes "store_packet W fmt now t packet s = (Ok result, s')"
  shows "result = outcome_of (decode_any (rp_payload packet))"
  using assms
  by (auto simp: store_packet_def store_v1_def store_v2_def perform_def produce_def outcome_def Let_def
      split: sum.splits fault.splits decoded_telemetry.splits prod.splits if_splits)

lemma v1_decode_length: "telemetry_v1_decode bs = Ok t \<Longrightarrow> length bs = 48"
  by (auto simp: telemetry_v1_decode_def FRAME_LEN_def split: if_splits)

lemma store_packet_recorded:
  assumes "archive_ok (rv_database s)" and "storable now (rp_payload packet)"
    and "store_packet W fmt now t packet s = (r, s')"
  shows "recorded_once now (rp_payload packet) (rp_metadata packet) (rv_database s) (rv_database s')"
    (is "recorded_once now ?payload ?radio _ _")
proof (cases "decode_any ?payload")
  case (Inl e)
  then obtain err where err: "decode_any ?payload = fail err" using decode_any_no_panic [of ?payload] by (cases e) auto
  obtain p db' where p: "archive_packet now ?payload ?radio (if unsupported_error err then Unsupported else Invalid)
      (Some (w_protocol_text W err)) (rv_database s) = Ok (p, db')" "recorded_once now ?payload ?radio (rv_database s) db'"
    using archive_packet_recorded [OF assms(2)] by metis
  show ?thesis
    using assms(3) unfolding store_packet_def err sum.case fault.case Let_def
    by (rule recording_action [where x = p and db' = db']) (intro p unrecorded_intros)+
next
  case (Inr d)
  show ?thesis
  proof (cases d)
    case (DT_V1 frame)
    obtain x db' where x: "insert_received_v1 now frame ?payload ?radio (rv_database s) = Ok (x, db')"
      "recorded_once now ?payload ?radio (rv_database s) db'"
      using insert_received_v1_recorded [OF assms(1,2)] v1_decode_length decode_any_Ok(2) Inr DT_V1 by metis
    show ?thesis
      using assms(3) unfolding store_packet_def Inr DT_V1 sum.case decoded_telemetry.case store_v1_def
      by (rule recording_action [where x = x and db' = db']) (intro x unrecorded_intros)+
  next
    case (DT_V2 frame)
    then have "decode ?payload = Ok frame" using Inr decode_any_Ok(1) by simp
    moreover have "store_v2 W fmt now t packet frame s = (r, s')" using assms(3) Inr DT_V2 by (simp add: store_packet_def)
    ultimately show ?thesis by (intro store_v2_recorded [OF _ assms(1,2)])
  qed
qed

text \<open>
  C4. A received packet is never lost. Whatever the bytes are (a valid frame of either version, a frame
  of an unknown version, noise) and whatever fails afterwards (a write, a record that is refused, a
  fragment the reassembler rejects), exactly one row with these bytes, this radio metadata and the
  time of reception is added to the archive and no other packet row changes. If the packet is stored
  without an error, the loop counts it as what the decoder says it is.
\<close>

theorem packet_archived:
  assumes "archive_ok (rv_database s)" and "storable now (rp_payload packet)"
    and "store_packet W fmt now t packet s = (r, s')"
  shows "recorded_once now (rp_payload packet) (rp_metadata packet) (rv_database s) (rv_database s')
    \<and> (\<forall>result. r = Ok result \<longrightarrow> result = outcome_of (decode_any (rp_payload packet)))"
  using store_packet_recorded [OF assms] store_packet_outcome assms(3) by blast

end
