(* ===== verification/Receiver_Log.thy ===== *)
theory Receiver_Log
  imports Receiver_Archiving Archive_Restore
begin

text \<open>
  The receiving program refines a plain log: what it archives is the sequence of packets the radio
  delivers, and what it counts is what the decoder makes of them, whatever reassembly and reporting do
  in between.
\<close>

section \<open>The log\<close>

type_synonym log_entry = "int \<times> radio_metadata \<times> bytes"

definition packet_log :: "archive \<Rightarrow> log_entry list" where
  "packet_log db = map (\<lambda>(i, now, radio, version, ft, payload). (now, radio, payload)) (raw_packets db)"

fun logged :: "int \<Rightarrow> receive_event option \<Rightarrow> log_entry list" where
  "logged now (Some (Packet p)) = [(now, rp_metadata p, rp_payload p)]"
| "logged now _ = []"

fun count_event :: "receive_event option \<Rightarrow> counters \<Rightarrow> counters" where
  "count_event (Some (Packet p)) c = count_outcome (outcome_of (decode_any (rp_payload p))) c"
| "count_event (Some (HeaderError _)) c = c\<lparr>ct_header_errors := ct_header_errors c + 1\<rparr>"
| "count_event (Some (CrcError _)) c = c\<lparr>ct_crc_errors := ct_crc_errors c + 1\<rparr>"
| "count_event _ c = c"

text \<open>
  The specification of a session: the packets heard, and the final counters when the session ends by
  the flag, the number of frames or the deadline.
\<close>

fun session :: "nat option \<Rightarrow> nat option \<Rightarrow> ('g, 's) iteration list \<Rightarrow> counters \<Rightarrow> log_entry list \<times> counters option" where
  "session deadline maximum [] c = ([], None)"
| "session deadline maximum (i # rest) c =
    (case next_poll deadline maximum i c of
       None \<Rightarrow> ([], Some c)
     | Some poll_time \<Rightarrow>
         (case it_poll i poll_time of
            Inl e \<Rightarrow> ([], None)
          | Inr event \<Rightarrow>
              (case session deadline maximum rest (count_event event c) of
                 (log, final) \<Rightarrow> (logged (it_wall_now i) event @ log, final))))"

definition no_counts :: counters where
  "no_counts = \<lparr>ct_valid_frames = 0, ct_header_errors = 0, ct_crc_errors = 0, ct_unsupported_packets = 0,
     ct_protocol_errors = 0\<rparr>"

definition stopped_note :: "counters \<Rightarrow> diagnostic" where
  "stopped_note c = StoppedNote (ct_valid_frames c) (ct_unsupported_packets c) (ct_header_errors c) (ct_crc_errors c)
     (ct_protocol_errors c)"

text \<open>The radio does not panic, and a packet comes with a clock and a length that the archive accepts.\<close>

definition sound_radio :: "('g, 's) iteration \<Rightarrow> bool" where
  "sound_radio i \<longleftrightarrow> (\<forall>t. \<not> panics (it_poll i t)
     \<and> (\<forall>p. it_poll i t = Ok (Some (Packet p)) \<longrightarrow> storable (it_wall_now i) (rp_payload p)))"

lemma packet_log_recorded:
  "recorded_once now payload radio db db' \<Longrightarrow> packet_log db' = packet_log db @ [(now, radio, payload)]"
  by (auto simp: recorded_once_def packet_log_def)

lemma packet_log_unrecorded:
  "unrecorded m \<Longrightarrow> m s = (r, s') \<Longrightarrow> packet_log (rv_database s') = packet_log (rv_database s)"
  by (simp add: unrecorded_def packet_log_def)

section \<open>One iteration\<close>

lemma handle_event_logs:
  assumes "archive_ok (rv_database s)" and "\<And>p. event = Some (Packet p) \<Longrightarrow> storable (it_wall_now i) (rp_payload p)"
    and "handle_event W fmt i event c s = (r, s')"
  shows "packet_log (rv_database s') = packet_log (rv_database s) @ logged (it_wall_now i) event
    \<and> (\<forall>c'. r = Ok c' \<longrightarrow> c' = count_event event c)"
proof (cases "(it_wall_now i, event)" rule: logged.cases)
  case (1 now p)
  obtain q s1 where store: "store_packet W fmt (it_wall_now i) (it_observed_at i) p s = (q, s1)" by fastforce
  then have r: "r = map_ok (\<lambda>result. count_outcome result c) q" "s' = s1"
    using assms(3) 1 by (cases q; simp add: perform_def produce_def)+
  have "recorded_once (it_wall_now i) (rp_payload p) (rp_metadata p) (rv_database s) (rv_database s1)"
    using 1 assms(2) by (intro store_packet_recorded [OF assms(1) _ store]) simp
  then show ?thesis using 1 r store by (cases q) (auto simp: packet_log_recorded dest: store_packet_outcome)
qed (use assms(3) in \<open>auto simp: perform_def produce_def note_line_def split: if_splits\<close>)

lemma unrecorded_hand_out [unrecorded_intros]:
  "unrecorded (persist_expired_profiles W fmt now)" "unrecorded (finish_listening W fmt c)"
  by (auto simp: persist_expired_profiles_def finish_listening_def intro!: unrecorded_intros)

lemma iteration_logs:
  assumes "archive_ok (rv_database s)" and "sound_radio i" and "listen_iteration W fmt i poll_time c s = (r, s')"
  shows "case it_poll i poll_time of
      Inl e \<Rightarrow> packet_log (rv_database s') = packet_log (rv_database s) \<and> (\<exists>e. r = Inl e)
    | Inr event \<Rightarrow> packet_log (rv_database s') = packet_log (rv_database s) @ logged (it_wall_now i) event
        \<and> (\<forall>c'. r = Ok c' \<longrightarrow> c' = count_event event c)"
proof (cases "it_poll i poll_time")
  case (Inl e)
  then show ?thesis using assms(3) by (cases e) (auto simp: listen_iteration_def perform_def outcome_def)
next
  case (Inr event)
  obtain q s1 where handle: "handle_event W fmt i event c s = (q, s1)" by fastforce
  have 1: "packet_log (rv_database s1) = packet_log (rv_database s) @ logged (it_wall_now i) event
      \<and> (\<forall>c'. q = Ok c' \<longrightarrow> c' = count_event event c)"
    using assms(2) Inr by (intro handle_event_logs [OF assms(1) _ handle]) (auto simp: sound_radio_def)
  have rest: "(r, s') = (case q of Inl e \<Rightarrow> (Inl e, s1) | Inr c \<Rightarrow>
      perform (persist_expired_profiles W fmt (it_expire_now i)) (\<lambda>_. produce c) s1)"
    using assms(3) Inr handle by (simp add: listen_iteration_def perform_def outcome_def split: sum.splits)
  show ?thesis
  proof (cases q)
    case (Inl e)
    then show ?thesis using rest 1 Inr by simp
  next
    case ok: (Inr c')
    have "unrecorded (perform (persist_expired_profiles W fmt (it_expire_now i)) (\<lambda>_. produce c'))"
      by (intro unrecorded_intros)
    then have "packet_log (rv_database s') = packet_log (rv_database s1)"
      using rest ok packet_log_unrecorded [of _ s1 r s'] by simp
    moreover have "r = Ok x \<Longrightarrow> x = c'" for x
      using rest ok by (auto simp: perform_def produce_def split: prod.splits sum.splits)
    ultimately show ?thesis using 1 Inr ok by auto
  qed
qed

section \<open>A session\<close>

lemma loop_logs:
  assumes "visits_all (w_order W)" and "\<forall>i \<in> set iterations. sound_radio i" and "receiver_ok s"
    and "listen_loop W fmt deadline maximum iterations c s = Some (r, s')"
    and "session deadline maximum iterations c = (log, final)"
  shows "\<exists>heard. prefix heard log \<and> packet_log (rv_database s') = packet_log (rv_database s) @ heard
    \<and> (\<forall>c'. r = Ok c' \<longrightarrow> heard = log \<and> final = Some c')"
  using assms(2-5)
proof (induction iterations arbitrary: c s log)
  case Nil
  then show ?case by simp
next
  case (Cons i rest)
  show ?case
  proof (cases "next_poll deadline maximum i c")
    case None
    then show ?thesis using Cons.prems by auto
  next
    case (Some poll_time)
    obtain q s1 where step: "listen_iteration W fmt i poll_time c s = (q, s1)" by fastforce
    have "safe (listen_iteration W fmt i poll_time c) (\<lambda>_. True)"
      using Cons.prems(1) by (intro safe_iteration [OF assms(1)]) (simp add: sound_radio_def)
    then have ok: "receiver_ok s1" using safeD(1) Cons.prems(2) step by blast
    have "archive_ok (rv_database s)" "sound_radio i" using Cons.prems(1,2) by (simp_all add: receiver_ok_def)
    note logs = iteration_logs [OF this step]
    show ?thesis
    proof (cases "it_poll i poll_time")
      case (Inl e)
      then show ?thesis using logs Cons.prems(3) Some step by auto
    next
      case (Inr event)
      obtain log1 where log1: "session deadline maximum rest (count_event event c) = (log1, final)"
        "log = logged (it_wall_now i) event @ log1"
        using Cons.prems(4) Some Inr by (auto split: prod.splits)
      have 1: "packet_log (rv_database s1) = packet_log (rv_database s) @ logged (it_wall_now i) event"
        using logs Inr by simp
      show ?thesis
      proof (cases q)
        case (Inl e)
        then show ?thesis using Cons.prems(3) Some step 1 log1(2) by auto
      next
        case c': (Inr c')
        then have "c' = count_event event c" using logs Inr by simp
        with c' have "listen_loop W fmt deadline maximum rest (count_event event c) s1 = Some (r, s')"
          using Cons.prems(3) Some step by simp
        then show ?thesis using Cons.IH [OF _ ok _ log1(1)] Cons.prems(1) 1 log1(2) by fastforce
      qed
    qed
  qed
qed

lemma unrecorded_start [unrecorded_intros]: "unrecorded (start_listening W fmt t0 opened)"
proof -
  have "unrecorded (replay_pending W fmt t0 pending ordinal)" for pending ordinal
    by (induction pending arbitrary: ordinal)
       (auto simp: Let_def split: sum.split fault.split decoded_frame.split intro!: unrecorded_intros)
  then show ?thesis
    unfolding start_listening_def write_listen_startup_def reconcile_pending_profiles_def restore_incomplete_profiles_def
    by (auto intro!: unrecorded_intros)
qed

lemma finish_notes:
  "finish_listening W fmt c s = (Ok u, s') \<Longrightarrow> last (rv_diagnostics s') = stopped_note c \<and> rv_diagnostics s' \<noteq> []"
  by (auto simp: finish_listening_def perform_def note_line_def stopped_note_def split: prod.splits sum.splits if_splits)

text \<open>
  C2. The receiving program refines the log of a session. Whatever is restored at startup, reassembled,
  evicted, expired or reported meanwhile, a session that ends normally adds to the archive exactly the
  packets that the radio delivered, in order, each with its time, its radio metadata and its bytes, and
  its last line reports how many of them were valid, unsupported and undecodable and how many header and
  checksum errors there were; a session that fails has added the packets delivered up to the failure.
\<close>

theorem listen_refines_session:
  assumes "visits_all (w_order W)" and "\<forall>i \<in> set iterations. sound_radio i" and "\<not> panics opened" and "archive_ok db"
    and "listen W fmt duration maximum True t0 opened t1 iterations db = Some (r, s)"
    and "session (map_option (\<lambda>seconds. t1 + seconds * 10 ^ 9) duration) maximum iterations no_counts = (log, final)"
  shows "\<exists>heard. prefix heard log \<and> packet_log (rv_database s) = packet_log db @ heard
    \<and> (r = Ok () \<longrightarrow> heard = log \<and> final \<noteq> None \<and> last (rv_diagnostics s) = stopped_note (the final))"
proof -
  define s0 where "s0 = \<lparr>rv_database = db, rv_reassembler = reassembler_default, rv_output = [], rv_diagnostics = []\<rparr>"
  have s0: "receiver_ok s0" using assms(4) reassembler_default_inv by (simp add: receiver_ok_def s0_def)
  obtain q s1 where start: "start_listening W fmt t0 opened s0 = (q, s1)" by fastforce
  note ok1 = safeD(1) [OF safe_start [OF assms(1,3)] s0 start]
  have 1: "packet_log (rv_database s1) = packet_log db"
    using packet_log_unrecorded [OF unrecorded_start start] by (simp add: s0_def)
  show ?thesis
  proof (cases q)
    case (Inl e)
    then have "r = Inl e \<and> s = s1" using assms(5) start unfolding listen_def s0_def [symmetric] by auto
    then show ?thesis using 1 by auto
  next
    case (Inr u)
    then obtain p s2 where loop: "listen_loop W fmt (map_option (\<lambda>seconds. t1 + seconds * 10 ^ 9) duration) maximum
        iterations no_counts s1 = Some (p, s2)"
      and p: "(r, s) = (case p of Inl e \<Rightarrow> (Inl e, s2) | Inr c \<Rightarrow> finish_listening W fmt c s2)"
      using assms(5) start unfolding listen_def s0_def [symmetric] no_counts_def [symmetric] Let_def
      by (auto split: option.splits sum.splits prod.splits)
    from loop_logs [OF assms(1,2) ok1 loop assms(6)] obtain heard where heard: "prefix heard log"
      "packet_log (rv_database s2) = packet_log db @ heard" "\<forall>c'. p = Ok c' \<longrightarrow> heard = log \<and> final = Some c'"
      using 1 by auto
    show ?thesis
    proof (cases p)
      case (Inl e)
      then show ?thesis using p heard by auto
    next
      case (Inr c)
      then have fin: "finish_listening W fmt c s2 = (r, s)" using p by simp
      have "packet_log (rv_database s) = packet_log db @ heard"
        using packet_log_unrecorded [OF unrecorded_hand_out(2) fin] heard(2) by simp
      then show ?thesis using heard fin finish_notes [of W fmt c s2 "()" s] Inr by auto
    qed
  qed
qed

end
