(* ===== verification/Receiver_Conflicts.thy ===== *)
theory Receiver_Conflicts
  imports Receiver_Log
begin

text \<open>
  A fragment that contradicts a scan already completed: what the archive, the reassembler and the
  receive loop make of it together.
\<close>

lemma archive_v2_packet_scans:
  assumes "archive_v2_packet now payload radio h kind db = Ok (p, db')"
  shows "db_scans db' = db_scans db" "db_fragments db' = db_fragments db"
  using assms
  by (auto simp: archive_v2_packet_def insert_packet_at_def insert_v2_packet_decode_at_def Let_def split: if_splits)

definition completed_elsewhere :: "profile_key \<Rightarrow> u8 \<Rightarrow> archive \<Rightarrow> bool" where
  "completed_elsewhere key j db \<longleftrightarrow>
     (\<forall>scan \<in> set (db_scans db). scan_record_key (sr_columns scan) = key \<longrightarrow>
        sr_transport_complete scan \<and> \<not> holds_fragment db j scan)"

lemma completed_elsewhere_queries:
  assumes "archive_ok db" and "completed_elsewhere key j db"
  shows "reconcile_persisted_profile_fragment key i j payload db = Ok (None, db)"
    and "incomplete_profiles_for_key key MAX_STARTUP_PENDING_FRAGMENTS db = Ok []"
proof -
  have "{scan \<in> set (db_scans db). scan_record_key (sr_columns scan) = key \<and> holds_fragment db j scan} = {}"
    using assms(2) by (auto simp: completed_elsewhere_def)
  then have "fst ` set (persisted_payloads key j db) = {}"
    unfolding persisted_payloads_facts(2) [OF assms(1)] by (simp only: image_empty)
  then have "persisted_payloads key j db = []" by simp
  then show "reconcile_persisted_profile_fragment key i j payload db = Ok (None, db)"
    by (simp add: reconcile_persisted_profile_fragment_def)
  have "scan_row_ok scan" if "scan \<in> set (db_scans db)" for scan
    using archive_okD(3) [OF assms(1)] that by (simp add: scans_ok_def)
  then have "filter (wanted (Some key)) (db_scans db) = []"
    using assms(2) by (auto simp: filter_empty_conv wanted_def completed_elsewhere_def scan_has_key_iff)
  then show "incomplete_profiles_for_key key MAX_STARTUP_PENDING_FRAGMENTS db = Ok []"
    using incomplete_profiles_matching_eq [OF assms(1), of MAX_STARTUP_PENDING_FRAGMENTS "Some key"]
    by (simp add: incomplete_profiles_for_key_def MAX_STARTUP_PENDING_FRAGMENTS_def Let_def)
qed

text \<open>A fragment that no stored scan holds goes to the reassembler.\<close>

lemma ingest_fresh_fragment:
  assumes "archive_ok (rv_database s)"
    and "completed_elsewhere (profile_key_of (fv_header v)) (sf_fragment_index source) (rv_database s)"
  shows "ingest_archived_profile_fragment W fmt v source payload t s
    = perform (reassemble (ingest_at (w_order W) v source t)) (\<lambda>result.
        handle_profile_fragment_result W fmt result (sf_packet_id source)) s"
proof -
  have same: "s\<lparr>rv_database := rv_database s\<rparr> = s" by simp
  show ?thesis
    unfolding ingest_archived_profile_fragment_def Let_def
    by (simp add: perform_def database_def query_def inspect_def same produce_def restore_incomplete_profiles_def
        completed_elsewhere_queries [OF assms])
qed

lemma completed_conflict_fails:
  assumes "receiver_ok s" and "decode bs = Ok (DF_ProfileFragment v)"
    and "profile_key_of (fv_header v) \<in> cp_key ` set (pr_completed (rv_reassembler s))"
    and "completed_elsewhere (profile_key_of (fv_header v)) (h_fragment_index (fv_header v)) (rv_database s)"
    and "sf_fragment_index source = h_fragment_index (fv_header v)"
  shows "ingest_archived_profile_fragment W fmt v source payload t s = (fail (ReassemblyFailure InternalState), s)"
proof -
  let ?key = "profile_key_of (fv_header v)"
  note ok = assms(1) [unfolded receiver_ok_def]
  obtain c where found: "find (\<lambda>entry. cp_key entry = ?key) (pr_completed (rv_reassembler s)) = Some c"
    using assms(3) by (cases "find (\<lambda>entry. cp_key entry = ?key) (pr_completed (rv_reassembler s))")
      (auto simp: find_None_iff)
  then have c: "c \<in> set (pr_completed (rv_reassembler s))" "cp_key c = ?key" by (auto simp: find_Some_iff)
  obtain f where f: "owned_fragment_from_view v = Ok f" "of_metadata f = metadata_of_view v"
    "of_fragment_index f = h_fragment_index (fv_header v)"
    using decoded_owned [OF assms(2)] by metis
  have key: "pm_key (of_metadata f) = ?key" by (simp add: f(2) metadata_of_view_def)
  from found obtain event where ingest: "ingest_at (w_order W) v source t (rv_reassembler s)
      = Ok (\<lparr>ig_event = event, ig_evicted = None, ig_integrity_snapshot = None\<rparr>, rv_reassembler s)"
    and event: "event = Duplicate ?key (of_fragment_index f) \<or> event = Conflict ?key (of_fragment_index f)"
    using ingest_completed [OF f(1), of source "rv_reassembler s" c "w_order W" t] assms(5) f(3) key
    by (cases "unat (of_fragment_index f) < length (cp_fragments c) \<and> cp_fragments c ! unat (of_fragment_index f) = Some f") auto
  have same: "s\<lparr>rv_reassembler := rv_reassembler s\<rparr> = s" by simp
  show ?thesis
    unfolding ingest_fresh_fragment [OF conjunct1 [OF ok] assms(4) [folded assms(5)]]
    using event
    by (auto simp: perform_def reassemble_def same ingest produce_def outcome_def handle_profile_fragment_result_def)
qed

text \<open>
  C18. One packet can end the receiving program. When a scan is complete and archived, a fragment that
  decodes, has the key of the scan and an index that the archived scan does not have makes the receive
  loop stop with the internal-state error of the reassembler: the reassembler answers from its list of
  completed scans without a snapshot, and the caller requires one. The packet itself is archived.
\<close>

theorem completed_scan_abort:
  assumes "receiver_ok s" and "decode_any (rp_payload packet) = Ok (DT_V2 (DF_ProfileFragment v))"
    and "storable (it_wall_now i) (rp_payload packet)"
    and "profile_key_of (fv_header v) \<in> cp_key ` set (pr_completed (rv_reassembler s))"
    and "completed_elsewhere (profile_key_of (fv_header v)) (h_fragment_index (fv_header v)) (rv_database s)"
    and "next_poll deadline maximum i c = Some poll_time" and "it_poll i poll_time = Ok (Some (Packet packet))"
  shows "\<exists>s'. listen_loop W fmt deadline maximum (i # rest) c s = Some (fail (ReassemblyFailure InternalState), s')
    \<and> recorded_once (it_wall_now i) (rp_payload packet) (rp_metadata packet) (rv_database s) (rv_database s')"
proof -
  note decoded = decode_any_Ok(1) [OF assms(2)]
  have ok: "archive_ok (rv_database s)" using assms(1) by (simp add: receiver_ok_def)
  have fragments: "1 \<le> h_fragment_count (fv_header v)" using decoded_fragment_count [OF decoded] by simp
  obtain p db' where p: "archive_v2_packet (it_wall_now i) (rp_payload packet) (rp_metadata packet) (fv_header v)
      KindProfileFragment (rv_database s) = Ok (p, db')"
    "recorded_once (it_wall_now i) (rp_payload packet) (rp_metadata packet) (rv_database s) db'" "archive_ok db'"
    using archive_v2_packet_recorded [OF ok assms(3) fragments] by metis
  let ?s = "s\<lparr>rv_database := db'\<rparr>"
  have "receiver_ok ?s" using assms(1) p(3) by (simp add: receiver_ok_def)
  moreover have "completed_elsewhere (profile_key_of (fv_header v)) (h_fragment_index (fv_header v)) (rv_database ?s)"
    using assms(5) archive_v2_packet_scans [OF p(1)] by (simp add: completed_elsewhere_def holds_fragment_def)
  ultimately have fails: "ingest_archived_profile_fragment W fmt v source payload t ?s
      = (fail (ReassemblyFailure InternalState), ?s)"
    if "sf_fragment_index source = h_fragment_index (fv_header v)" for source payload t
    using completed_conflict_fails [where s = ?s, OF _ decoded] assms(4) that by simp
  have "store_packet W fmt (it_wall_now i) (it_observed_at i) packet s = (fail (ReassemblyFailure InternalState), ?s)"
    by (simp add: store_packet_def assms(2) store_v2_def store_v2_frame_def perform_def database_def fails
        archive_v2_profile_fragment_def storable_clock [OF assms(3)] p(1))
  then show ?thesis
    using assms(6,7) p(2) by (simp add: listen_iteration_def perform_def outcome_def)
qed

end
