(* ===== verification/Receiver_Delivery.thy ===== *)
theory Receiver_Delivery
  imports Receiver_Conflicts Reassembly_Delivery
begin

text \<open>
  A scan on its way through the whole program: the frames the sensor node encodes are received by the
  loop of \<^verbatim>\<open>listen\<close>, archived, reassembled, stored and reported.
\<close>

section \<open>Storing a profile succeeds\<close>

lemma insert_steps_succeed:
  assumes "distinct (map st_step_index steps)" and "\<forall>step \<in> set steps. st_step_index step \<le> 9"
    and "\<forall>step \<in> set steps. (i, st_step_index step) \<notin> set (map (map_prod id st_step_index) (db_steps db))"
  shows "for_each steps db (insert_profile_step i) = Ok (db\<lparr>db_steps := db_steps db @ map (Pair i) steps\<rparr>)"
  using assms
proof (induction steps arbitrary: db)
  case Nil
  then show ?case by simp
next
  case (Cons step steps)
  have "\<not> 9 < st_step_index step" "(i, st_step_index step) \<notin> set (map (map_prod id st_step_index) (db_steps db))"
    using Cons.prems(2,3) by auto
  then have "insert_profile_step i step db = Ok (db\<lparr>db_steps := db_steps db @ [(i, step)]\<rparr>)"
    by (simp only: insert_profile_step_def if_False)
  moreover have "\<forall>s \<in> set steps. st_step_index s \<noteq> st_step_index step" using Cons.prems(1) by (auto simp: image_iff)
  then have "\<forall>s \<in> set steps. (i, st_step_index s) \<notin> set (map (map_prod id st_step_index) (db_steps db @ [(i, step)]))"
    using Cons.prems(3) by (simp add: id_def)
  then have "for_each steps (db\<lparr>db_steps := db_steps db @ [(i, step)]\<rparr>) (insert_profile_step i)
      = Ok (db\<lparr>db_steps := (db_steps db @ [(i, step)]) @ map (Pair i) steps\<rparr>)"
    using Cons.IH [of "db\<lparr>db_steps := db_steps db @ [(i, step)]\<rparr>"] Cons.prems(1,2) by (simp add: id_def)
  ultimately show ?case by simp
qed

lemma insert_fragments_succeed:
  assumes "distinct (map sf_packet_id fs)" and "distinct (map sf_fragment_index fs)"
    and "\<forall>f \<in> set fs. sf_packet_id f \<in> packet_ids db \<and> sf_packet_id f \<notin> fr_packet_id ` set (db_fragments db)
      \<and> (i, sf_fragment_index f) \<notin> (\<lambda>g. (fr_scan_id g, fr_fragment_index g)) ` set (db_fragments db)"
  shows "\<exists>db'. for_each fs db (insert_profile_fragment i status) = Ok db' \<and> db_steps db' = db_steps db"
  using assms
proof (induction fs arbitrary: db)
  case Nil
  then show ?case by simp
next
  case (Cons f fs)
  define db1 where "db1 = fst (set_status (\<lambda>row. vd_packet_id row = sf_packet_id f) status
    (db\<lparr>db_fragments := db_fragments db @ [link_row i f]\<rparr>))"
  have step: "insert_profile_fragment i status f db = Ok db1"
    using Cons.prems(3) by (simp add: insert_fragment_Ok db1_def)
  have db1: "db_packets db1 = db_packets db" "db_fragments db1 = db_fragments db @ [link_row i f]"
    "db_steps db1 = db_steps db"
    by (simp_all add: db1_def set_status_def)
  have "\<exists>db'. for_each fs db1 (insert_profile_fragment i status) = Ok db' \<and> db_steps db' = db_steps db1"
    using Cons.prems by (intro Cons.IH) (auto simp: db1 link_row_def intro: rev_image_eqI)
  then show ?case using step db1(3) by simp
qed

lemma no_scan_deleted:
  assumes "archive_ok db" and "\<forall>scan \<in> set (db_scans db). scan_record_key (sr_columns scan) \<noteq> key"
  shows "delete_scans (\<lambda>row. \<not> sr_transport_complete row \<and> scan_has_key key row) db = (db, 0)"
proof -
  have "\<forall>scan \<in> set (db_scans db). \<not> scan_has_key key scan"
    using assms archive_okD(3) [OF assms(1)] by (auto simp: scans_ok_def scan_has_key_iff)
  then show ?thesis by (auto simp: delete_scans_def Let_def count_rows_def filter_empty_conv cong: filter_cong)
qed

text \<open>
  A profile of which no scan is stored and no source is used can be stored: it becomes one more scan, with
  its steps and its sources.
\<close>

lemma insert_profile_succeeds:
  assumes "archive_ok db" and "scan_validate (rp_scan profile) = Ok ()" and "rp_fragments profile \<noteq> []"
    and "\<forall>scan \<in> set (db_scans db). scan_record_key (sr_columns scan) \<noteq> scan_record_key (rp_scan profile)"
    and "distinct (map sf_packet_id (rp_fragments profile))" and "distinct (map sf_fragment_index (rp_fragments profile))"
    and "sf_packet_id ` set (rp_fragments profile) \<subseteq> packet_ids db - fr_packet_id ` set (db_fragments db)"
  obtains r db' row where "insert_profile_scan profile db = Ok (r, db')" "sr_id row = so_id r"
    "sr_columns row = rp_scan profile" "sr_id row \<notin> sr_id ` set (db_scans db)"
    "is_transport_complete (rp_scan profile) = (Ok (sr_transport_complete row) :: (bool, storage_error) result)"
    "db_packets db' = db_packets db" "db_scans db' = db_scans db @ [row]"
    "db_steps db' = db_steps db @ map (Pair (sr_id row)) (pf_steps (rp_scan profile))"
    "db_fragments db' = db_fragments db @ map (link_row (sr_id row)) (rp_fragments profile)"
proof -
  let ?scan = "rp_scan profile" and ?i = "new_rowid (map sr_id (db_scans db))"
  have sound: "scan_sound ?scan" using assms(2) by (simp add: scan_validate_eq_sound)
  then have n: "1 \<le> unat (pf_expected_steps ?scan)" "unat (pf_expected_steps ?scan) \<le> 10"
    "unat (pf_expected_fragment_count ?scan) < 16"
    by (auto simp: scan_sound_def Let_def)
  obtain a b where times: "first_received_at_unix_ms profile = Some a" "last_received_at_unix_ms profile = Some b"
    using assms(3) by (cases "rp_fragments profile") auto
  obtain c where c: "is_transport_complete ?scan = (Ok c :: (bool, storage_error) result)"
    using n(3) by (auto simp: is_transport_complete_Ok)
  obtain m where m: "missing_fragment_bitmap ?scan = (Ok m :: (u16, storage_error) result)"
    using n(3) by (auto simp: missing_fragment_bitmap_def expected_masks_Ok)
  define row where "row = new_scan_row ?i a b ?scan m c"
  define status where "status = (if c then StatusAssembled else StatusIncomplete)"
  let ?db1 = "db\<lparr>db_scans := db_scans db @ [row]\<rparr>"
  let ?db2 = "?db1\<lparr>db_steps := db_steps db @ map (Pair ?i) (pf_steps ?scan)\<rparr>"
  have fresh: "?i \<notin> sr_id ` set (db_scans db)" by (metis list.set_map new_rowid_fresh)
  have links: "fst ` set (db_steps db) \<subseteq> sr_id ` set (db_scans db)"
    "fr_scan_id ` set (db_fragments db) \<subseteq> sr_id ` set (db_scans db)"
    using archive_okD(4) [OF assms(1)] by (simp_all add: links_ok_def)
  have "distinct (map st_step_index (pf_steps ?scan))" "\<forall>step \<in> set (pf_steps ?scan). st_step_index step \<le> 9"
    using sound n(2) by (fastforce simp: scan_sound_def Let_def word_le_nat_alt)+
  then have steps: "for_each (pf_steps ?scan) ?db1 (insert_profile_step ?i) = Ok ?db2"
    using insert_steps_succeed [of "pf_steps ?scan" ?i ?db1] links(1) fresh by fastforce
  have "\<exists>db'. for_each (rp_fragments profile) ?db2 (insert_profile_fragment ?i status) = Ok db' \<and> db_steps db' = db_steps ?db2"
    using assms(5-7) links(2) fresh by (intro insert_fragments_succeed) auto
  then obtain db' where fragments: "for_each (rp_fragments profile) ?db2 (insert_profile_fragment ?i status) = Ok db'"
    "db_steps db' = db_steps ?db2" by blast
  have "insert_profile_scan profile db = Ok (\<lparr>so_id = ?i, so_received_at_unix_ms = b\<rparr>, db')"
    using n(1,2) unfolding insert_profile_scan_def insert_profile_scan_inner_def Let_def
    by (simp add: assms(2) times no_scan_deleted [OF assms(1,4)] m c steps fragments(1) row_def [symmetric]
        status_def [symmetric] word_le_nat_alt del: first_received_at_unix_ms.simps last_received_at_unix_ms.simps)
  then show thesis
    using that [of "\<lparr>so_id = ?i, so_received_at_unix_ms = b\<rparr>" db' row] insert_fragments_tables [OF fragments(1)] fragments(2) fresh c
    by (simp add: row_def new_scan_row_def)
qed

section \<open>One fragment\<close>

lemma archive_fragment_succeeds:
  assumes "archive_ok db" and "storable now payload" and "1 \<le> h_fragment_count h"
  obtains p db' where "archive_v2_profile_fragment now payload radio h db = Ok (p, db')"
    "sp_received_at_unix_ms p = now" "archive_ok db'"
    "raw_packets db' = raw_packets db @ [(sp_id p, now, radio, Some VERSION_V2, Some (frame_type_u8 (h_frame_type h)), payload)]"
    "db_scans db' = db_scans db" "db_steps db' = db_steps db" "db_fragments db' = db_fragments db"
proof (rule archive_v2_packet_recorded [OF assms])
  fix p db'
  assume p: "archive_v2_packet now payload radio h KindProfileFragment db = Ok (p, db')" "archive_ok db'"
  then obtain db1 where insert: "insert_packet_at payload radio now ProtocolV2 (Some VERSION_V2)
      (Some (frame_type_u8 (h_frame_type h))) None db = Ok (p, db1)"
    and decode: "insert_v2_packet_decode_at (sp_id p) h KindProfileFragment db1 = Ok db'"
    by (auto simp: archive_v2_packet_def)
  have same: "db_packets db' = db_packets db1" "db_scans db' = db_scans db1" "db_steps db' = db_steps db1"
    "db_fragments db' = db_fragments db1"
    using decode by (auto simp: insert_v2_packet_decode_at_def split: if_splits)
  from insert show thesis
  proof (rule insert_packet_Ok)
    fix row
    assume row: "db1 = db\<lparr>db_packets := db_packets db @ [row]\<rparr>" "sp_received_at_unix_ms p = now"
      "raw_packet row = (sp_id p, now, radio, Some VERSION_V2, Some (frame_type_u8 (h_frame_type h)), payload)"
    show thesis
      using p same row
      by (intro that [of p db'])
         (simp_all add: archive_v2_profile_fragment_def storable_clock [OF assms(2)] raw_packets_def)
  qed
qed

lemma nothing_expires:
  assumes "reassembler_inv r" and "visits_all it" and "\<forall>(key, a) \<in> set (pr_active r). now \<le> ap_last_observed_at a + age"
  obtains recent where "expire_older_than it now age r = ([], r\<lparr>pr_completed := recent\<rparr>)" "set recent \<subseteq> set (pr_completed r)"
proof (cases "age \<le> now")
  case True
  have visit: "mset (it xs) = mset xs" for xs using assms(2) by (simp add: visits_all_def)
  have keep: "filter (\<lambda>(_, a). now - age \<le> ap_last_observed_at a) (pr_active r) = pr_active r"
    "filter (\<lambda>(_, a). ap_last_observed_at a < now - age) (it (pr_active r)) = []"
    using assms(3) mset_eq_setD [OF visit [of "pr_active r"]] True
    by (fastforce intro!: filter_True simp: filter_empty_conv)+
  have "expire_before it (now - age) r
      = ([], r\<lparr>pr_completed := filter (\<lambda>entry. now - age \<le> cp_completed_at entry) (pr_completed r)\<rparr>)"
    unfolding expire_before_eq [OF assms(1,2)] by (simp add: keep)
  then show thesis using that True by (simp add: expire_older_than_def)
next
  case False
  then show thesis using that [of "pr_completed r"] by (simp add: expire_older_than_def)
qed

section \<open>A scan in reception\<close>

text \<open>The surroundings a scan needs to get through: streams that accept what is written.\<close>

definition writable :: "('g, 's) world \<Rightarrow> bool" where
  "writable W \<longleftrightarrow> (\<forall>out line. w_writes W out line) \<and> (\<forall>out. w_flushes W out) \<and> (\<forall>notes note. w_notes W notes note)"

definition frame_bytes :: "encoded_profile \<Rightarrow> nat \<Rightarrow> bytes" where
  "frame_bytes p j = as_slice (encoded_profile_frames p ! j)"

text \<open>
  The iteration in which a frame of the scan is heard: the radio delivers it, the clock is one the archive
  accepts, and neither the scan nor those that were there before are too old at its end.
\<close>

definition hears :: "encoded_profile \<Rightarrow> radio_metadata \<Rightarrow> active_entries \<Rightarrow> nat \<Rightarrow> ('g, 's) iteration \<Rightarrow> bool" where
  "hears p radio others j i \<longleftrightarrow>
     (\<forall>t. it_poll i t = Ok (Some (Packet \<lparr>rp_payload = frame_bytes p j, rp_metadata = radio\<rparr>)))
     \<and> 0 \<le> it_wall_now i \<and> it_wall_now i < 2 ^ 63
     \<and> it_expire_now i \<le> it_observed_at i + PROFILE_REASSEMBLY_TIMEOUT
     \<and> (\<forall>(key, a) \<in> set others. it_expire_now i \<le> ap_last_observed_at a + PROFILE_REASSEMBLY_TIMEOUT)"

definition heard_source ::
  "(nat \<Rightarrow> ('g, 's) iteration) \<Rightarrow> (nat \<Rightarrow> radio_metadata) \<Rightarrow> (nat \<Rightarrow> int) \<Rightarrow> nat \<Rightarrow> source_fragment" where
  "heard_source heard radio ids j =
     \<lparr>sf_packet_id = ids j, sf_fragment_index = word_of_nat j, sf_received_at_unix_ms = it_wall_now (heard j),
      sf_radio = radio j\<rparr>"

text \<open>What the archive keeps of the packet.\<close>

definition heard_packet ::
  "encoded_profile \<Rightarrow> (nat \<Rightarrow> ('g, 's) iteration) \<Rightarrow> (nat \<Rightarrow> radio_metadata) \<Rightarrow> (nat \<Rightarrow> int) \<Rightarrow> nat
     \<Rightarrow> int \<times> int \<times> radio_metadata \<times> u8 option \<times> u8 option \<times> bytes" where
  "heard_packet p heard radio ids j =
     (ids j, it_wall_now (heard j), radio j, Some VERSION_V2, Some (frame_type_u8 ProfileFragment), frame_bytes p j)"

text \<open>No scan with the key is stored, recently completed or in progress, and there is room for it.\<close>

definition unknown_scan :: "profile_key \<Rightarrow> receiver \<Rightarrow> bool" where
  "unknown_scan key s \<longleftrightarrow>
     (\<forall>scan \<in> set (db_scans (rv_database s)). scan_record_key (sr_columns scan) \<noteq> key)
     \<and> key \<notin> cp_key ` set (pr_completed (rv_reassembler s))
     \<and> \<not> contains_active key (rv_reassembler s)
     \<and> active_len (rv_reassembler s) < pr_max_active (rv_reassembler s)"

text \<open>The state after some of the frames, from a state in which the scan was unknown.\<close>

definition receiving ::
  "('g, 's) world \<Rightarrow> common \<Rightarrow> profile_scan \<Rightarrow> encoded_profile \<Rightarrow> (nat \<Rightarrow> ('g, 's) iteration)
     \<Rightarrow> (nat \<Rightarrow> radio_metadata) \<Rightarrow> (nat \<Rightarrow> int) \<Rightarrow> nat list \<Rightarrow> receiver \<Rightarrow> receiver \<Rightarrow> bool" where
  "receiving W common scan p heard radio ids received s0 s \<longleftrightarrow>
     receiver_ok s \<and> rv_output s = rv_output s0
     \<and> raw_packets (rv_database s) = raw_packets (rv_database s0) @ map (heard_packet p heard radio ids) received
     \<and> db_scans (rv_database s) = db_scans (rv_database s0) \<and> db_steps (rv_database s) = db_steps (rv_database s0)
     \<and> db_fragments (rv_database s) = db_fragments (rv_database s0)
     \<and> (\<exists>r active. rv_reassembler s = r\<lparr>pr_active := active\<rparr> \<and> pr_active r = pr_active (rv_reassembler s0)
          \<and> scan_key common scan \<notin> cp_key ` set (pr_completed r)
          \<and> ready (w_order W) common scan (heard_source heard radio ids) received r active)"

lemma ready_cong:
  assumes "\<forall>j \<in> set received. src j = src' j"
  shows "ready it common scan src received r active \<longleftrightarrow> ready it common scan src' received r active"
proof -
  have same: "map src received = map src' received" using assms by simp
  show ?thesis unfolding ready_def building_def same ..
qed

lemma ready_completed:
  assumes "ready it common scan src received r active" and "reassembler_inv (r\<lparr>pr_active := active, pr_completed := recent\<rparr>)"
  shows "ready it common scan src received (r\<lparr>pr_completed := recent\<rparr>) active"
proof -
  have same: "r\<lparr>pr_completed := recent, pr_active := active\<rparr> = r\<lparr>pr_active := active, pr_completed := recent\<rparr>" by simp
  have "evict it key (r\<lparr>pr_active := active, pr_completed := recent\<rparr>) = evict it key (r\<lparr>pr_active := active\<rparr>)" for key
    by (simp add: evict_def split: option.split)
  then show ?thesis using assms unfolding ready_def same by simp
qed

lemma scan_record_key_identity:
  "scan_record_key (delivered_scan common scan) = scan_key common scan"
  by (simp add: scan_record_key_def delivered_scan_def scan_key_def profile_key_of_def record_identity_of_def
      COMMON_FLAG_BOOT_ID_VALID_def)

lemma perform_produce: "perform (produce x) k = k x"
  by (rule ext) (simp add: perform_def produce_def)

lemma perform_state_cong: "m s = m' s' \<Longrightarrow> perform m k s = perform m' k s'"
  by (simp add: perform_def)

text \<open>
  A fragment up to the reassembler: its packet is archived, its key is that of no stored scan, and it is
  handed to the reassembler with the id of the packet.
\<close>

definition packet_source :: "radio_packet \<Rightarrow> int \<Rightarrow> profile_fragment_view \<Rightarrow> int \<Rightarrow> source_fragment" where
  "packet_source packet now v n =
     \<lparr>sf_packet_id = n, sf_fragment_index = h_fragment_index (fv_header v), sf_received_at_unix_ms = now,
      sf_radio = rp_metadata packet\<rparr>"

lemma fresh_fragment_stored:
  fixes W :: "('g, 's) world" and k :: "packet_outcome \<Rightarrow> ('g, 's, 'a) action"
  assumes "decode_any (rp_payload packet) = Ok (DT_V2 (DF_ProfileFragment v))" and "archive_ok (rv_database s)"
    and "storable now (rp_payload packet)"
    and "\<forall>row \<in> set (db_scans (rv_database s)). scan_record_key (sr_columns row) \<noteq> profile_key_of (fv_header v)"
  obtains n db where "archive_ok db"
    "raw_packets db = raw_packets (rv_database s) @ [(n, now, rp_metadata packet, Some VERSION_V2,
       Some (frame_type_u8 (h_frame_type (fv_header v))), rp_payload packet)]"
    "db_scans db = db_scans (rv_database s)" "db_steps db = db_steps (rv_database s)"
    "db_fragments db = db_fragments (rv_database s)"
    "perform (store_packet W fmt now t packet) k s =
       perform (reassemble (ingest_at (w_order W) v (packet_source packet now v n) t)) (\<lambda>result.
       perform (handle_profile_fragment_result W fmt result n) (\<lambda>_.
       perform (flush W) (\<lambda>_. k ValidV2))) (s\<lparr>rv_database := db\<rparr>)"
proof (rule archive_fragment_succeeds [OF assms(2,3)])
  show "1 \<le> h_fragment_count (fv_header v)" using decoded_fragment_count [OF decode_any_Ok(1) [OF assms(1)]] by simp
  fix stored db
  assume stored: "archive_v2_profile_fragment now (rp_payload packet) (rp_metadata packet) (fv_header v) (rv_database s)
      = Ok (stored, db)" "sp_received_at_unix_ms stored = now" "archive_ok db"
    and tables: "raw_packets db = raw_packets (rv_database s) @ [(sp_id stored, now, rp_metadata packet, Some VERSION_V2,
       Some (frame_type_u8 (h_frame_type (fv_header v))), rp_payload packet)]"
    "db_scans db = db_scans (rv_database s)" "db_steps db = db_steps (rv_database s)"
    "db_fragments db = db_fragments (rv_database s)"
  let ?s = "s\<lparr>rv_database := db\<rparr>" and ?source = "packet_source packet now v (sp_id stored)"
  let ?go = "reassemble (ingest_at (w_order W) v ?source t)"
    and ?then = "\<lambda>result. handle_profile_fragment_result W fmt result (sp_id stored)"
  have "completed_elsewhere (profile_key_of (fv_header v)) (sf_fragment_index ?source) (rv_database ?s)"
    using assms(4) tables(2) by (simp add: completed_elsewhere_def)
  from ingest_fresh_fragment [OF _ this]
  have "ingest_archived_profile_fragment W fmt v ?source (rp_payload packet) t ?s = perform ?go ?then ?s"
    using stored(3) by (simp add: packet_source_def)
  then have "store_v2_frame W fmt now t packet (DF_ProfileFragment v) s = perform ?go ?then ?s"
    by (simp add: store_v2_frame_def perform_def [of "database _"] database_def stored(1,2) packet_source_def)
  then have "perform (store_v2_frame W fmt now t packet (DF_ProfileFragment v)) (\<lambda>_. perform (flush W) (\<lambda>_. k ValidV2)) s
      = perform (perform ?go ?then) (\<lambda>_. perform (flush W) (\<lambda>_. k ValidV2)) ?s"
    by (rule perform_state_cong)
  then have "perform (store_packet W fmt now t packet) k s
      = perform ?go (\<lambda>result. perform (?then result) (\<lambda>_. perform (flush W) (\<lambda>_. k ValidV2))) ?s"
    by (simp add: store_packet_def assms(1) store_v2_def perform_perform perform_produce)
  then show thesis using that stored(3) tables by blast
qed

text \<open>The rest of an iteration, once the reassembler has answered.\<close>

definition after_ingestion ::
  "('g, 's) world \<Rightarrow> output_format \<Rightarrow> ('g, 's) iteration \<Rightarrow> counters \<Rightarrow> int \<Rightarrow> ingest_result \<Rightarrow> ('g, 's, counters) action" where
  "after_ingestion W fmt i c n result =
     perform (handle_profile_fragment_result W fmt result n) (\<lambda>_.
     perform (flush W) (\<lambda>_.
     perform (persist_expired_profiles W fmt (it_expire_now i)) (\<lambda>_.
     produce (count_outcome ValidV2 c))))"

lemma frame_reaches_reassembler:
  assumes "wf_scan scan" and "encode_profile common scan = Ok p" and "i < scan_fragment_count scan"
    and "receiver_ok s" and "hears p (radio i) others i (heard i)"
    and "\<forall>row \<in> set (db_scans (rv_database s)). scan_record_key (sr_columns row) \<noteq> scan_key common scan"
  obtains n db where "archive_ok db"
    "raw_packets db = raw_packets (rv_database s) @ [heard_packet p heard radio (\<lambda>_. n) i]"
    "db_scans db = db_scans (rv_database s)" "db_steps db = db_steps (rv_database s)"
    "db_fragments db = db_fragments (rv_database s)"
    "listen_iteration W fmt (heard i) t c s =
       perform (reassemble (ingest_at (w_order W) (scan_fragment_view common scan i)
                  (heard_source heard radio (\<lambda>_. n) i) (it_observed_at (heard i)))) (after_ingestion W fmt (heard i) c n) (s\<lparr>rv_database := db\<rparr>)"
proof -
  let ?v = "scan_fragment_view common scan i" and ?now = "it_wall_now (heard i)"
    and ?packet = "\<lparr>rp_payload = frame_bytes p i, rp_metadata = radio i\<rparr>"
  have decoded: "decode (frame_bytes p i) = Ok (DF_ProfileFragment ?v)"
    unfolding frame_bytes_def by (rule fragment_frame_decodes(1) [OF assms(1-3)])
  then have any: "decode_any (rp_payload ?packet) = Ok (DT_V2 (DF_ProfileFragment ?v))" by (simp add: decode_any_selects)
  have ok: "archive_ok (rv_database s)" using assms(4) by (simp add: receiver_ok_def)
  have heard: "it_poll (heard i) t = Ok (Some (Packet ?packet))" "storable ?now (rp_payload ?packet)" for t
    using assms(5) decode_length_bounds [OF decoded] by (simp_all add: hears_def storable_def v2_lens)
  have view: "profile_key_of (fv_header ?v) = scan_key common scan" "h_fragment_index (fv_header ?v) = word_of_nat i"
    "h_frame_type (fv_header ?v) = ProfileFragment"
    by (simp_all add: scan_key_def scan_fragment_view_def scan_fragment_header_def profile_key_of_def)
  have source: "packet_source ?packet ?now ?v n = heard_source heard radio (\<lambda>_. n) i" for n
    by (simp add: packet_source_def heard_source_def view)
  show thesis
    by (rule fresh_fragment_stored [OF any ok heard(2), of W fmt "it_observed_at (heard i)"
        "\<lambda>result. perform (produce (count_outcome result c)) (\<lambda>c.
           perform (persist_expired_profiles W fmt (it_expire_now (heard i))) (\<lambda>_. produce c))"])
       (use assms(6) in \<open>auto simp: view source heard_packet_def listen_iteration_def after_ingestion_def [abs_def] heard(1) perform_outcome_Ok
          perform_perform perform_produce intro!: that\<close>)
qed

section \<open>One iteration\<close>

lemma nothing_persisted:
  assumes "receiver_ok s" and "visits_all (w_order W)"
    and "\<forall>(key, a) \<in> set (pr_active (rv_reassembler s)). now \<le> ap_last_observed_at a + PROFILE_REASSEMBLY_TIMEOUT"
  obtains recent where "set recent \<subseteq> set (pr_completed (rv_reassembler s))"
    "persist_expired_profiles W fmt now s = (Ok (), s\<lparr>rv_reassembler := (rv_reassembler s)\<lparr>pr_completed := recent\<rparr>\<rparr>)"
proof (rule nothing_expires [OF _ assms(2,3)])
  show "reassembler_inv (rv_reassembler s)" using assms(1) by (simp add: receiver_ok_def)
  fix recent
  assume "expire_older_than (w_order W) now PROFILE_REASSEMBLY_TIMEOUT (rv_reassembler s)
      = ([], (rv_reassembler s)\<lparr>pr_completed := recent\<rparr>)" "set recent \<subseteq> set (pr_completed (rv_reassembler s))"
  then show thesis
    using that by (simp add: persist_expired_profiles_def perform_def reassemble_def produce_def)
qed

text \<open>The entries of the table: that of the scan, and those that were there before.\<close>

lemma ready_entries:
  assumes "ready it common scan src received r active" and "(key, a) \<in> set active"
  shows "map_of active key = Some a" and "key = scan_key common scan \<or> (key, a) \<in> set (pr_active r)"
proof -
  have "distinct (map fst active)" "AList.delete (scan_key common scan) active = pr_active r"
    using assms(1) reassembler_invD(2) [of "r\<lparr>pr_active := active\<rparr>"] by (simp_all add: ready_def)
  then show "map_of active key = Some a" "key = scan_key common scan \<or> (key, a) \<in> set (pr_active r)"
    using assms(2) by (auto simp: AList.delete_eq dest!: sym [of _ "pr_active r"])
qed

text \<open>What the scan and its surroundings are throughout.\<close>

definition reception ::
  "('g, 's) world \<Rightarrow> common \<Rightarrow> profile_scan \<Rightarrow> encoded_profile \<Rightarrow> (nat \<Rightarrow> ('g, 's) iteration)
     \<Rightarrow> (nat \<Rightarrow> radio_metadata) \<Rightarrow> receiver \<Rightarrow> bool" where
  "reception W common scan p heard radio s0 \<longleftrightarrow>
     visits_all (w_order W) \<and> writable W \<and> wf_scan scan \<and> encode_profile common scan = Ok p
     \<and> receiver_ok s0 \<and> unknown_scan (scan_key common scan) s0
     \<and> (\<forall>i < scan_fragment_count scan. hears p (radio i) (pr_active (rv_reassembler s0)) i (heard i))"

text \<open>The state when a frame has been archived and not yet reassembled.\<close>

definition arrived ::
  "('g, 's) world \<Rightarrow> common \<Rightarrow> profile_scan \<Rightarrow> encoded_profile \<Rightarrow> (nat \<Rightarrow> ('g, 's) iteration)
     \<Rightarrow> (nat \<Rightarrow> radio_metadata) \<Rightarrow> (nat \<Rightarrow> int) \<Rightarrow> nat list \<Rightarrow> nat \<Rightarrow> receiver \<Rightarrow> receiver \<Rightarrow> archive
     \<Rightarrow> profile_reassembler \<Rightarrow> active_entries \<Rightarrow> bool" where
  "arrived W common scan p heard radio ids received i s0 s db r active \<longleftrightarrow>
     archive_ok db
     \<and> raw_packets db = raw_packets (rv_database s0) @ map (heard_packet p heard radio ids) (received @ [i])
     \<and> db_scans db = db_scans (rv_database s0) \<and> db_steps db = db_steps (rv_database s0)
     \<and> db_fragments db = db_fragments (rv_database s0)
     \<and> rv_reassembler s = r\<lparr>pr_active := active\<rparr> \<and> pr_active r = pr_active (rv_reassembler s0)
     \<and> scan_key common scan \<notin> cp_key ` set (pr_completed r)
     \<and> ready (w_order W) common scan (heard_source heard radio ids) received r active"

lemma arrivedD:
  assumes "arrived W common scan p heard radio ids received i s0 s db r active"
  shows "archive_ok db"
    "raw_packets db = raw_packets (rv_database s0) @ map (heard_packet p heard radio ids) (received @ [i])"
    "db_scans db = db_scans (rv_database s0)" "db_steps db = db_steps (rv_database s0)"
    "db_fragments db = db_fragments (rv_database s0)"
    "rv_reassembler s = r\<lparr>pr_active := active\<rparr>" "pr_active r = pr_active (rv_reassembler s0)"
    "scan_key common scan \<notin> cp_key ` set (pr_completed r)"
    "ready (w_order W) common scan (heard_source heard radio ids) received r active"
  using assms by (simp_all add: arrived_def)

text \<open>The reassembler accepts it, and what it answers depends on whether frames are missing.\<close>

lemma arrived_ingested:
  fixes t :: nat
  assumes "reception W common scan p heard radio s0" and "arrived W common scan p heard radio ids received i s0 s db r active"
    and "i < scan_fragment_count scan" and "i \<notin> set received"
  defines "a \<equiv> accept (scan_owned common scan i) (heard_source heard radio ids i) t
      (entry_for (scan_owned common scan i) t active)"
    and "out \<equiv> ingest_at (w_order W) (scan_fragment_view common scan i) (heard_source heard radio ids i) t (rv_reassembler s)"
  shows "building common scan (heard_source heard radio ids) (received @ [i]) a"
    and "\<not> {..<scan_fragment_count scan} \<subseteq> set (received @ [i]) \<Longrightarrow>
      \<exists>pg. out = Ok (\<lparr>ig_event = Pending pg, ig_evicted = None, ig_integrity_snapshot = None\<rparr>,
               r\<lparr>pr_active := AList.update (scan_key common scan) a active\<rparr>)
        \<and> ready (w_order W) common scan (heard_source heard radio ids) (received @ [i]) r
            (AList.update (scan_key common scan) a active)"
    and "set (received @ [i]) = {..<scan_fragment_count scan} \<Longrightarrow>
      \<exists>r'. out = Ok (\<lparr>ig_event = Complete (finish a), ig_evicted = None, ig_integrity_snapshot = None\<rparr>, r')
        \<and> reassembler_inv r' \<and> pr_active r' = pr_active r"
proof -
  have env: "wf_scan scan" "encode_profile common scan = Ok p" "visits_all (w_order W)"
    using assms(1) by (simp_all add: reception_def)
  have index: "sf_fragment_index (heard_source heard radio ids i) = word_of_nat i" by (simp add: heard_source_def)
  note r = arrivedD(6-9) [OF assms(2)]
  note step = ready_step [OF env(1,2) assms(3) env(3) r(4) assms(4) index r(3), of t, folded r(1), folded a_def out_def]
  show "building common scan (heard_source heard radio ids) (received @ [i]) a" by (rule step(1))
  note complete = building_complete [OF step(1)]
  show "\<exists>pg. out = Ok (\<lparr>ig_event = Pending pg, ig_evicted = None, ig_integrity_snapshot = None\<rparr>,
               r\<lparr>pr_active := AList.update (scan_key common scan) a active\<rparr>)
        \<and> ready (w_order W) common scan (heard_source heard radio ids) (received @ [i]) r
            (AList.update (scan_key common scan) a active)"
    if "\<not> {..<scan_fragment_count scan} \<subseteq> set (received @ [i])"
    using step(2) that unfolding complete by blast
  show "\<exists>r'. out = Ok (\<lparr>ig_event = Complete (finish a), ig_evicted = None, ig_integrity_snapshot = None\<rparr>, r')
        \<and> reassembler_inv r' \<and> pr_active r' = pr_active r"
    if "set (received @ [i]) = {..<scan_fragment_count scan}"
    using step(3) that unfolding complete by blast
qed

lemma receiving_iteration:
  assumes "reception W common scan p heard radio s0" and "receiving W common scan p heard radio ids received s0 s"
    and "i < scan_fragment_count scan" and "i \<notin> set received"
  obtains ids' db r active where
    "arrived W common scan p heard radio ids' received i s0 s db r active"
    "listen_iteration W fmt (heard i) t c s =
       perform (reassemble (ingest_at (w_order W) (scan_fragment_view common scan i)
                  (heard_source heard radio ids' i) (it_observed_at (heard i)))) (after_ingestion W fmt (heard i) c (ids' i)) (s\<lparr>rv_database := db\<rparr>)"
proof -
  note env = assms(1) [unfolded reception_def unknown_scan_def]
  from assms(2) obtain r active where ra: "rv_reassembler s = r\<lparr>pr_active := active\<rparr>"
    "pr_active r = pr_active (rv_reassembler s0)" "scan_key common scan \<notin> cp_key ` set (pr_completed r)"
    "ready (w_order W) common scan (heard_source heard radio ids) received r active"
    and s: "receiver_ok s"
    "raw_packets (rv_database s) = raw_packets (rv_database s0) @ map (heard_packet p heard radio ids) received"
    "db_scans (rv_database s) = db_scans (rv_database s0)" "db_steps (rv_database s) = db_steps (rv_database s0)"
    "db_fragments (rv_database s) = db_fragments (rv_database s0)"
    unfolding receiving_def by blast
  have "\<forall>row \<in> set (db_scans (rv_database s)). scan_record_key (sr_columns row) \<noteq> scan_key common scan"
    using env s(3) by simp
  then obtain n db where db: "archive_ok db"
      "raw_packets db = raw_packets (rv_database s) @ [heard_packet p heard radio (\<lambda>_. n) i]"
      "db_scans db = db_scans (rv_database s)" "db_steps db = db_steps (rv_database s)"
      "db_fragments db = db_fragments (rv_database s)"
    and iteration: "listen_iteration W fmt (heard i) t c s =
       perform (reassemble (ingest_at (w_order W) (scan_fragment_view common scan i)
                  (heard_source heard radio (\<lambda>_. n) i) (it_observed_at (heard i)))) (after_ingestion W fmt (heard i) c n) (s\<lparr>rv_database := db\<rparr>)"
    using frame_reaches_reassembler [of scan common p i s radio "pr_active (rv_reassembler s0)" heard W fmt t c] env s(1) assms(3)
    by metis
  define ids' where "ids' = ids(i := n)"
  have new: "heard_source heard radio (\<lambda>_. n) i = heard_source heard radio ids' i"
    "heard_packet p heard radio (\<lambda>_. n) i = heard_packet p heard radio ids' i" "n = ids' i"
    by (simp_all add: heard_source_def heard_packet_def ids'_def)
  have old: "\<forall>j \<in> set received. heard_source heard radio ids j = heard_source heard radio ids' j"
    "map (heard_packet p heard radio ids) received = map (heard_packet p heard radio ids') received"
    using assms(4) by (auto simp: heard_source_def heard_packet_def ids'_def)
  show thesis
    using that [of ids' db r active] db s(2-5) ra iteration ready_cong [OF old(1)]
    by (simp add: arrived_def new(1,2) old(2) new(3) [symmetric])
qed

lemma reception_step_ok:
  assumes "reception W common scan p heard radio s0" and "receiver_ok s" and "i < scan_fragment_count scan"
    and "listen_iteration W fmt (heard i) t c s = (r, s')"
  shows "receiver_ok s'"
proof -
  have "\<not> panics (it_poll (heard i) t)" "visits_all (w_order W)"
    using assms(1,3) by (auto simp: reception_def hears_def)
  then show ?thesis using safeD(1) [OF safe_iteration assms(2,4)] by blast
qed

lemma persist_profile_succeeds:
  assumes "writable W" and "archive_ok (rv_database s)" and "insert_profile_scan profile (rv_database s) = Ok (rec, db)"
  obtains line where "archive_ok db" "persist_profile W fmt profile s = (Ok (), s\<lparr>rv_database := db,
    rv_output := rv_output s @ [ProfileLine fmt profile], rv_diagnostics := rv_diagnostics s @ [line]\<rparr>)"
proof -
  have "keeps (rv_database s) db"
    using insert_profile_scan_keeps [OF _ assms(2)] assms(3) by (simp add: insert_profile_scan_def)
  moreover have "scan_validate (rp_scan profile) = Ok ()"
    using assms(3) by (auto simp: insert_profile_scan_def insert_profile_scan_inner_def Let_def)
  then have "unat (pf_expected_fragment_count (rp_scan profile)) < 16"
    by (auto simp: scan_validate_eq_sound scan_sound_def Let_def)
  then obtain missing where
    "missing_fragment_bitmap (rp_scan profile) = (Ok missing :: (u16, ('a, 'b) app_error) result)"
    by (auto simp: missing_fragment_bitmap_def expected_masks_Ok)
  ultimately show thesis
    using assms that
    by (simp add: persist_profile_def perform_def database_def write_line_def flush_def outcome_def note_line_def
        writable_def keeps_def)
qed

text \<open>The two ends of an iteration in which no scan is too old.\<close>

definition unexpired :: "('g, 's) iteration \<Rightarrow> profile_reassembler \<Rightarrow> bool" where
  "unexpired i r \<longleftrightarrow>
     (\<forall>(key, a) \<in> set (pr_active r). it_expire_now i \<le> ap_last_observed_at a + PROFILE_REASSEMBLY_TIMEOUT)"

lemma after_pending:
  assumes "reception W common scan p heard radio s0" and "receiver_ok s" and "unexpired i (rv_reassembler s)"
  obtains s' recent where "after_ingestion W fmt i c n \<lparr>ig_event = Pending pg, ig_evicted = None, ig_integrity_snapshot = None\<rparr> s
      = (Ok (count_outcome ValidV2 c), s')"
    "rv_database s' = rv_database s" "rv_output s' = rv_output s" "set recent \<subseteq> set (pr_completed (rv_reassembler s))"
    "rv_reassembler s' = (rv_reassembler s)\<lparr>pr_completed := recent\<rparr>"
proof -
  let ?s = "s\<lparr>rv_diagnostics := rv_diagnostics s @ [PendingNote pg]\<rparr>"
  have "receiver_ok ?s" "visits_all (w_order W)"
    "\<forall>(key, a) \<in> set (pr_active (rv_reassembler ?s)). it_expire_now i \<le> ap_last_observed_at a + PROFILE_REASSEMBLY_TIMEOUT"
    using assms by (simp_all add: reception_def receiver_ok_def unexpired_def)
  then show thesis
  proof (rule nothing_persisted)
    fix recent
    assume "set recent \<subseteq> set (pr_completed (rv_reassembler ?s))" "persist_expired_profiles W fmt (it_expire_now i) ?s
        = (Ok (), ?s\<lparr>rv_reassembler := (rv_reassembler ?s)\<lparr>pr_completed := recent\<rparr>\<rparr>)"
    then show thesis
      using assms(1) that [of "?s\<lparr>rv_reassembler := (rv_reassembler ?s)\<lparr>pr_completed := recent\<rparr>\<rparr>" recent]
      by (simp add: after_ingestion_def perform_def handle_profile_fragment_result_def note_line_def flush_def produce_def
          reception_def writable_def)
  qed
qed

lemma after_complete:
  assumes "reception W common scan p heard radio s0" and "receiver_ok s" and "unexpired i (rv_reassembler s)"
    and "insert_profile_scan profile (rv_database s) = Ok (rec, db)"
  obtains s' where "after_ingestion W fmt i c n
      \<lparr>ig_event = Complete profile, ig_evicted = None, ig_integrity_snapshot = None\<rparr> s = (Ok (count_outcome ValidV2 c), s')"
    "rv_database s' = db" "rv_output s' = rv_output s @ [ProfileLine fmt profile]"
    "pr_active (rv_reassembler s') = pr_active (rv_reassembler s)"
proof (rule persist_profile_succeeds [OF _ _ assms(4), of W fmt])
  show env: "writable W" "archive_ok (rv_database s)" using assms(1,2) by (simp_all add: reception_def receiver_ok_def)
  fix line
  let ?s = "s\<lparr>rv_database := db, rv_output := rv_output s @ [ProfileLine fmt profile],
    rv_diagnostics := rv_diagnostics s @ [line]\<rparr>"
  assume stored: "archive_ok db" "persist_profile W fmt profile s = (Ok (), ?s)"
  have "receiver_ok ?s" "visits_all (w_order W)"
    "\<forall>(key, a) \<in> set (pr_active (rv_reassembler ?s)). it_expire_now i \<le> ap_last_observed_at a + PROFILE_REASSEMBLY_TIMEOUT"
    using assms(1-3) stored(1) by (simp_all add: reception_def receiver_ok_def unexpired_def)
  then show thesis
  proof (rule nothing_persisted)
    fix recent
    assume "persist_expired_profiles W fmt (it_expire_now i) ?s
        = (Ok (), ?s\<lparr>rv_reassembler := (rv_reassembler ?s)\<lparr>pr_completed := recent\<rparr>\<rparr>)"
    then show thesis
      using env(1) stored(2) that [of "?s\<lparr>rv_reassembler := (rv_reassembler ?s)\<lparr>pr_completed := recent\<rparr>\<rparr>"]
      by (simp add: after_ingestion_def perform_def handle_profile_fragment_result_def flush_def produce_def writable_def)
  qed
qed

text \<open>A frame before the last: it is pending.\<close>

lemma pending_iteration:
  assumes "reception W common scan p heard radio s0" and "receiving W common scan p heard radio ids received s0 s"
    and "i < scan_fragment_count scan" and "i \<notin> set received"
    and "\<not> {..<scan_fragment_count scan} \<subseteq> set (received @ [i])"
  obtains ids' s' where "listen_iteration W fmt (heard i) t c s = (Ok (count_outcome ValidV2 c), s')"
    "receiving W common scan p heard radio ids' (received @ [i]) s0 s'"
proof (rule receiving_iteration [OF assms(1-4), of fmt t c])
  fix ids' db r active
  assume arrived: "arrived W common scan p heard radio ids' received i s0 s db r active"
    and iteration: "listen_iteration W fmt (heard i) t c s =
       perform (reassemble (ingest_at (w_order W) (scan_fragment_view common scan i)
                  (heard_source heard radio ids' i) (it_observed_at (heard i))))
         (after_ingestion W fmt (heard i) c (ids' i)) (s\<lparr>rv_database := db\<rparr>)"
  note db = arrivedD(1-5) [OF arrived] and r = arrivedD(6-9) [OF arrived]
  note env = assms(1) [unfolded reception_def writable_def]
  let ?a = "accept (scan_owned common scan i) (heard_source heard radio ids' i) (it_observed_at (heard i))
    (entry_for (scan_owned common scan i) (it_observed_at (heard i)) active)"
  let ?active = "AList.update (scan_key common scan) ?a active"
  obtain pg where ingest: "ingest_at (w_order W) (scan_fragment_view common scan i) (heard_source heard radio ids' i)
      (it_observed_at (heard i)) (rv_reassembler s)
      = Ok (\<lparr>ig_event = Pending pg, ig_evicted = None, ig_integrity_snapshot = None\<rparr>, r\<lparr>pr_active := ?active\<rparr>)"
    and rd: "ready (w_order W) common scan (heard_source heard radio ids') (received @ [i]) r ?active"
    using arrived_ingested(2) [OF assms(1) arrived assms(3-5)] by blast
  let ?s = "s\<lparr>rv_database := db, rv_reassembler := r\<lparr>pr_active := ?active\<rparr>\<rparr>"
  have ok: "receiver_ok ?s" using db(1) rd by (simp add: receiver_ok_def ready_def)
  have "it_observed_at (heard i) \<le> ap_last_observed_at ?a" by (simp add: accept_def)
  moreover have "it_expire_now (heard i) \<le> it_observed_at (heard i) + PROFILE_REASSEMBLY_TIMEOUT"
    "\<forall>(key, a) \<in> set (pr_active r). it_expire_now (heard i) \<le> ap_last_observed_at a + PROFILE_REASSEMBLY_TIMEOUT"
    using env assms(3) r(2) by (auto simp: hears_def)
  ultimately have fresh: "unexpired (heard i) (rv_reassembler ?s)"
    using ready_entries [OF rd] by (fastforce simp: unexpired_def AList.update_conv')
  show thesis
  proof (rule after_pending [OF assms(1) ok fresh, of fmt c "ids' i" pg])
    fix s' recent
    assume run: "after_ingestion W fmt (heard i) c (ids' i)
        \<lparr>ig_event = Pending pg, ig_evicted = None, ig_integrity_snapshot = None\<rparr> ?s = (Ok (count_outcome ValidV2 c), s')"
      and s': "rv_database s' = rv_database ?s" "rv_output s' = rv_output ?s" "set recent \<subseteq> set (pr_completed (rv_reassembler ?s))"
        "rv_reassembler s' = (rv_reassembler ?s)\<lparr>pr_completed := recent\<rparr>"
    have iterated: "listen_iteration W fmt (heard i) t c s = (Ok (count_outcome ValidV2 c), s')"
      using run unfolding iteration by (simp add: perform_def reassemble_def ingest)
    have ok': "receiver_ok s'" using reception_step_ok [OF assms(1) _ assms(3) iterated] assms(2) by (simp add: receiving_def)
    then have "ready (w_order W) common scan (heard_source heard radio ids') (received @ [i]) (r\<lparr>pr_completed := recent\<rparr>) ?active"
      using s'(4) by (intro ready_completed [OF rd]) (simp add: receiver_ok_def)
    then have "receiving W common scan p heard radio ids' (received @ [i]) s0 s'"
      using assms(2) ok' db(2-5) r(2,3) s' unfolding receiving_def
      by (auto intro!: exI [of _ "r\<lparr>pr_completed := recent\<rparr>"] exI [of _ ?active])
    then show thesis using that iterated by blast
  qed
qed

section \<open>The last frame\<close>

text \<open>The record that is stored and printed.\<close>

definition delivered_profile ::
  "common \<Rightarrow> profile_scan \<Rightarrow> (nat \<Rightarrow> ('g, 's) iteration) \<Rightarrow> (nat \<Rightarrow> radio_metadata) \<Rightarrow> (nat \<Rightarrow> int) \<Rightarrow> nat list
     \<Rightarrow> reassembled_profile" where
  "delivered_profile common scan heard radio ids order =
     \<lparr>rp_scan = delivered_scan common scan, rp_fragments = map (heard_source heard radio ids) order\<rparr>"

text \<open>The scan is in the archive, with the packets it came in, and nothing else is.\<close>

definition scan_stored ::
  "common \<Rightarrow> profile_scan \<Rightarrow> encoded_profile \<Rightarrow> (nat \<Rightarrow> ('g, 's) iteration) \<Rightarrow> (nat \<Rightarrow> radio_metadata)
     \<Rightarrow> (nat \<Rightarrow> int) \<Rightarrow> nat list \<Rightarrow> archive \<Rightarrow> archive \<Rightarrow> bool" where
  "scan_stored common scan p heard radio ids order db db' \<longleftrightarrow>
     raw_packets db' = raw_packets db @ map (heard_packet p heard radio ids) order
     \<and> (\<exists>row. db_scans db' = db_scans db @ [row] \<and> sr_id row \<notin> sr_id ` set (db_scans db)
          \<and> sr_columns row = delivered_scan common scan \<and> sr_transport_complete row
          \<and> db_steps db' = db_steps db @ map (Pair (sr_id row)) (pf_steps (delivered_scan common scan))
          \<and> db_fragments db' = db_fragments db @ map (\<lambda>j. link_row (sr_id row) (heard_source heard radio ids j)) order)"

lemma delivered_complete:
  assumes "wf_scan scan" and "encode_profile common scan = Ok p"
  shows "is_transport_complete (delivered_scan common scan) = Ok True"
proof -
  have "validate_profile scan = Ok ()" using assms(2) by (simp add: encode_profile_iff [OF assms(1)])
  note b = scan_fragment_count_bounds [OF this]
  have "bit (mask (scan_fragment_count scan) :: u16) j" if "j < scan_fragment_count scan" for j
    using that b(2) by (simp add: bit_mask_iff)
  then show ?thesis using b by (auto simp: is_transport_complete_Ok delivered_scan_def)
qed

text \<open>The archived packets give the sources of the profile distinct new ids.\<close>

lemma heard_ids:
  assumes "archive_ok db" and "archive_ok db0"
    and "raw_packets db = raw_packets db0 @ map (heard_packet p heard radio ids) order"
    and "db_fragments db = db_fragments db0"
  shows "distinct (map ids order)" "ids ` set order \<subseteq> packet_ids db - fr_packet_id ` set (db_fragments db)"
proof -
  have "map rk_id (db_packets db) = map fst (raw_packets db)" "map rk_id (db_packets db0) = map fst (raw_packets db0)"
    by (simp_all add: raw_packets_def raw_packet_def)
  then have ids: "map rk_id (db_packets db) = map rk_id (db_packets db0) @ map ids order"
    using assms(3) by (simp add: heard_packet_def)
  have "distinct (map rk_id (db_packets db))" using archive_okD(1) [OF assms(1)] by (simp add: packets_ok_def)
  then have new: "distinct (map ids order)" "ids ` set order \<inter> packet_ids db0 = {}" unfolding ids by auto
  then show "distinct (map ids order)" by simp
  have "fr_packet_id ` set (db_fragments db) \<subseteq> packet_ids db0"
    using archive_okD(4) [OF assms(2)] assms(4) by (simp add: links_ok_def)
  moreover have "packet_ids db = packet_ids db0 \<union> ids ` set order"
    using arg_cong [OF ids, of set] by simp
  ultimately show "ids ` set order \<subseteq> packet_ids db - fr_packet_id ` set (db_fragments db)" using new(2) by blast
qed

lemma delivered_profile_stored:
  assumes "reception W common scan p heard radio s0" and "archive_ok db"
    and "raw_packets db = raw_packets (rv_database s0) @ map (heard_packet p heard radio ids) order"
    and "db_scans db = db_scans (rv_database s0)" and "db_steps db = db_steps (rv_database s0)"
    and "db_fragments db = db_fragments (rv_database s0)"
    and "scan_validate (delivered_scan common scan) = Ok ()" and "distinct order" and "order \<noteq> []"
    and "\<forall>j \<in> set order. j < scan_fragment_count scan"
  obtains r db' where "insert_profile_scan (delivered_profile common scan heard radio ids order) db = Ok (r, db')"
    "scan_stored common scan p heard radio ids order (rv_database s0) db'"
proof -
  let ?profile = "delivered_profile common scan heard radio ids order"
  have env: "wf_scan scan" "encode_profile common scan = Ok p" "archive_ok (rv_database s0)"
    "\<forall>row \<in> set (db_scans (rv_database s0)). scan_record_key (sr_columns row) \<noteq> scan_key common scan"
    using assms(1) by (auto simp: reception_def unknown_scan_def receiver_ok_def)
  note ids = heard_ids [OF assms(2) env(3) assms(3,6)]
  have "inj_on (word_of_nat :: nat \<Rightarrow> u8) (set order)"
    using scan_index [OF env(2,1)] assms(10) by (metis inj_on_inverseI)
  then have index: "distinct (map sf_fragment_index (rp_fragments ?profile))"
    using assms(8) by (simp add: delivered_profile_def heard_source_def o_def distinct_map)
  have packet: "distinct (map sf_packet_id (rp_fragments ?profile))"
    "sf_packet_id ` set (rp_fragments ?profile) \<subseteq> packet_ids db - fr_packet_id ` set (db_fragments db)"
    using ids by (simp_all add: delivered_profile_def heard_source_def o_def image_image)
  have prem: "scan_validate (rp_scan ?profile) = Ok ()" "rp_fragments ?profile \<noteq> []"
    "\<forall>row \<in> set (db_scans db). scan_record_key (sr_columns row) \<noteq> scan_record_key (rp_scan ?profile)"
    using assms(4,7,9) env(4) by (simp_all add: delivered_profile_def scan_record_key_identity)
  show thesis
  proof (rule insert_profile_succeeds [OF assms(2) prem packet(1) index packet(2)])
    fix r db' row
    assume stored: "insert_profile_scan ?profile db = Ok (r, db')" "sr_columns row = rp_scan ?profile"
      "sr_id row \<notin> sr_id ` set (db_scans db)"
      "is_transport_complete (rp_scan ?profile) = (Ok (sr_transport_complete row) :: (bool, storage_error) result)"
      "db_packets db' = db_packets db" "db_scans db' = db_scans db @ [row]"
      "db_steps db' = db_steps db @ map (Pair (sr_id row)) (pf_steps (rp_scan ?profile))"
      "db_fragments db' = db_fragments db @ map (link_row (sr_id row)) (rp_fragments ?profile)"
    have "is_transport_complete (delivered_scan common scan) = (Ok True :: (bool, storage_error) result)"
      by (rule delivered_complete [OF env(1,2)])
    then have "scan_stored common scan p heard radio ids order (rv_database s0) db'"
      using stored(2-8) assms(3-6)
      by (auto simp: scan_stored_def raw_packets_def delivered_profile_def)
    then show thesis using that stored(1) by blast
  qed
qed

text \<open>The last frame: the scan is stored and printed, and its entry leaves the table.\<close>

lemma completing_iteration:
  assumes "reception W common scan p heard radio s0" and "receiving W common scan p heard radio ids received s0 s"
    and "i < scan_fragment_count scan" and "i \<notin> set received" and "distinct received"
    and "set (received @ [i]) = {..<scan_fragment_count scan}"
  obtains ids' s' where "listen_iteration W fmt (heard i) t c s = (Ok (count_outcome ValidV2 c), s')" "receiver_ok s'"
    "scan_stored common scan p heard radio ids' (received @ [i]) (rv_database s0) (rv_database s')"
    "rv_output s' = rv_output s0 @ [ProfileLine fmt (delivered_profile common scan heard radio ids' (received @ [i]))]"
    "pr_active (rv_reassembler s') = pr_active (rv_reassembler s0)"
proof (rule receiving_iteration [OF assms(1-4), of fmt t c])
  fix ids' db r active
  assume arrived: "arrived W common scan p heard radio ids' received i s0 s db r active"
    and iteration: "listen_iteration W fmt (heard i) t c s =
       perform (reassemble (ingest_at (w_order W) (scan_fragment_view common scan i)
                  (heard_source heard radio ids' i) (it_observed_at (heard i))))
         (after_ingestion W fmt (heard i) c (ids' i)) (s\<lparr>rv_database := db\<rparr>)"
  note db = arrivedD(1-5) [OF arrived] and r = arrivedD(6-9) [OF arrived]
  note env = assms(1) [unfolded reception_def writable_def]
  let ?profile = "delivered_profile common scan heard radio ids' (received @ [i])"
  note ingested = arrived_ingested [OF assms(1) arrived assms(3,4), of "it_observed_at (heard i)"]
  let ?a = "accept (scan_owned common scan i) (heard_source heard radio ids' i) (it_observed_at (heard i))
    (entry_for (scan_owned common scan i) (it_observed_at (heard i)) active)"
  have finish: "finish ?a = ?profile"
    unfolding delivered_profile_def using env by (intro building_finish [OF _ _ ingested(1) assms(6)]) auto
  obtain r' where ingest: "ingest_at (w_order W) (scan_fragment_view common scan i) (heard_source heard radio ids' i)
      (it_observed_at (heard i)) (rv_reassembler s)
      = Ok (\<lparr>ig_event = Complete ?profile, ig_evicted = None, ig_integrity_snapshot = None\<rparr>, r')"
    "reassembler_inv r'" "pr_active r' = pr_active r"
    using ingested(3) [OF assms(6)] unfolding finish by blast
  have valid: "scan_validate (delivered_scan common scan) = Ok ()"
    using finish_sound [of ?a] ingested(1) finish by (simp add: building_def scan_validate_eq_sound delivered_profile_def)
  show thesis
  proof (rule delivered_profile_stored [OF assms(1) db valid])
    show "distinct (received @ [i])" "received @ [i] \<noteq> []" "\<forall>j \<in> set (received @ [i]). j < scan_fragment_count scan"
      using assms(4-6) by auto
    fix rec db'
    assume stored: "insert_profile_scan ?profile db = Ok (rec, db')"
      "scan_stored common scan p heard radio ids' (received @ [i]) (rv_database s0) db'"
    let ?s = "s\<lparr>rv_database := db, rv_reassembler := r'\<rparr>"
    have "receiver_ok ?s" using db(1) ingest(2) by (simp add: receiver_ok_def)
    moreover have "unexpired (heard i) (rv_reassembler ?s)"
      using env assms(3) r(2) ingest(3) by (auto simp: hears_def unexpired_def)
    moreover have "insert_profile_scan ?profile (rv_database ?s) = Ok (rec, db')" using stored(1) by simp
    ultimately obtain s' where run: "after_ingestion W fmt (heard i) c (ids' i)
        \<lparr>ig_event = Complete ?profile, ig_evicted = None, ig_integrity_snapshot = None\<rparr> ?s = (Ok (count_outcome ValidV2 c), s')"
      and s': "rv_database s' = db'" "rv_output s' = rv_output ?s @ [ProfileLine fmt ?profile]"
        "pr_active (rv_reassembler s') = pr_active (rv_reassembler ?s)"
      by (rule after_complete [OF assms(1)])
    have iterated: "listen_iteration W fmt (heard i) t c s = (Ok (count_outcome ValidV2 c), s')"
      using run unfolding iteration by (simp add: perform_def reassemble_def ingest(1))
    have "receiver_ok s'" using reception_step_ok [OF assms(1) _ assms(3) iterated] assms(2) by (simp add: receiving_def)
    then show thesis
      using that [OF iterated] s' stored(2) assms(2) r(2) ingest(3) by (simp add: receiving_def)
  qed
qed

section \<open>The loop\<close>

text \<open>The loop does not end before the frames are heard: no stop, no deadline, no limit of frames.\<close>

definition keeps_polling ::
  "nat option \<Rightarrow> nat option \<Rightarrow> (nat \<Rightarrow> ('g, 's) iteration) \<Rightarrow> counters \<Rightarrow> nat list \<Rightarrow> bool" where
  "keeps_polling deadline maximum heard c order \<longleftrightarrow>
     (\<forall>k < length order. next_poll deadline maximum (heard (order ! k))
        (c\<lparr>ct_valid_frames := ct_valid_frames c + k\<rparr>) \<noteq> None)"

lemma loop_continues:
  assumes "\<And>rest. listen_loop W fmt deadline maximum (map heard received @ rest) c s0
      = listen_loop W fmt deadline maximum rest (c\<lparr>ct_valid_frames := ct_valid_frames c + length received\<rparr>) s"
    and "keeps_polling deadline maximum heard c (received @ [i])"
    and "\<And>t. listen_iteration W fmt (heard i) t (c\<lparr>ct_valid_frames := ct_valid_frames c + length received\<rparr>) s
      = (Ok (count_outcome ValidV2 (c\<lparr>ct_valid_frames := ct_valid_frames c + length received\<rparr>)), s' t)"
  shows "\<exists>t. \<forall>rest. listen_loop W fmt deadline maximum (map heard (received @ [i]) @ rest) c s0
    = listen_loop W fmt deadline maximum rest (c\<lparr>ct_valid_frames := ct_valid_frames c + length (received @ [i])\<rparr>) (s' t)"
proof -
  obtain t where "next_poll deadline maximum (heard i) (c\<lparr>ct_valid_frames := ct_valid_frames c + length received\<rparr>) = Some t"
    using assms(2) by (auto simp: keeps_polling_def nth_append dest!: spec [of _ "length received"])
  then show ?thesis using assms(1) [of "heard i # _"] assms(3) by auto
qed

lemma receiving_start:
  assumes "reception W common scan p heard radio s0"
  shows "receiving W common scan p heard radio ids [] s0 s0"
  using assms ready_start [of scan common p "rv_reassembler s0"]
  by (auto simp: reception_def receiving_def unknown_scan_def receiver_ok_def intro!: exI [of _ "rv_reassembler s0"]
      exI [of _ "pr_active (rv_reassembler s0)"])

lemma pending_loop:
  assumes "reception W common scan p heard radio s0" and "keeps_polling deadline maximum heard c received"
    and "distinct received" and "set received \<subset> {..<scan_fragment_count scan}"
  shows "\<exists>ids s. (\<forall>rest. listen_loop W fmt deadline maximum (map heard received @ rest) c s0
      = listen_loop W fmt deadline maximum rest (c\<lparr>ct_valid_frames := ct_valid_frames c + length received\<rparr>) s)
    \<and> receiving W common scan p heard radio ids received s0 s"
  using assms(2-4)
proof (induction received rule: rev_induct)
  case Nil
  then show ?case using receiving_start [OF assms(1)] by (auto intro!: exI [of _ s0])
next
  case (snoc i received)
  have "keeps_polling deadline maximum heard c received"
    using snoc.prems(1) by (auto simp: keeps_polling_def nth_append dest: less_SucI)
  then obtain ids s where IH: "\<And>rest. listen_loop W fmt deadline maximum (map heard received @ rest) c s0
      = listen_loop W fmt deadline maximum rest (c\<lparr>ct_valid_frames := ct_valid_frames c + length received\<rparr>) s"
    "receiving W common scan p heard radio ids received s0 s"
    using snoc by auto
  let ?c = "c\<lparr>ct_valid_frames := ct_valid_frames c + length received\<rparr>"
  have i: "i < scan_fragment_count scan" "i \<notin> set received" "\<not> {..<scan_fragment_count scan} \<subseteq> set (received @ [i])"
    using snoc.prems(2,3) by auto
  have "\<exists>ids' s'. listen_iteration W fmt (heard i) t ?c s = (Ok (count_outcome ValidV2 ?c), s')
      \<and> receiving W common scan p heard radio ids' (received @ [i]) s0 s'" for t
    using pending_iteration [OF assms(1) IH(2) i] by metis
  then obtain ids' s' where step: "\<And>t. listen_iteration W fmt (heard i) t ?c s = (Ok (count_outcome ValidV2 ?c), s' t)"
    "\<And>t. receiving W common scan p heard radio (ids' t) (received @ [i]) s0 (s' t)" by metis
  from loop_continues [OF IH(1) snoc.prems(1) step(1)] step(2) show ?case by blast
qed

text \<open>
  C3. A scan gets through the whole program. Let the sensor node encode a scan the station does not know
  yet, and let the receive loop hear its frames in any order, next to other scans in progress, before it is
  told to stop and within the reassembly timeout, while the streams accept what is written. Then the loop goes
  on after them with all frames counted as valid; the archive has one packet for each frame in the order of
  arrival, with its bytes, its time and its radio data, and one more scan, complete, with exactly the record,
  the steps and the source packets of what the node measured; one line is printed, with that record; and the
  other scans are as they were.
\<close>

theorem scan_archived:
  assumes "reception W common scan p heard radio s" and "mset order = mset [0..<length (encoded_profile_frames p)]"
    and "keeps_polling deadline maximum heard c order"
  shows "\<exists>ids s'. (\<forall>rest. listen_loop W fmt deadline maximum (map heard order @ rest) c s
        = listen_loop W fmt deadline maximum rest (c\<lparr>ct_valid_frames := ct_valid_frames c + length order\<rparr>) s')
    \<and> scan_stored common scan p heard radio ids order (rv_database s) (rv_database s')
    \<and> rv_output s' = rv_output s @ [ProfileLine fmt (delivered_profile common scan heard radio ids order)]
    \<and> pr_active (rv_reassembler s') = pr_active (rv_reassembler s) \<and> receiver_ok s'"
proof -
  let ?n = "scan_fragment_count scan"
  have env: "wf_scan scan" "encode_profile common scan = Ok p" using assms(1) by (simp_all add: reception_def)
  have "0 < ?n" using env(2) scan_fragment_count_bounds(1) by (fastforce simp: encode_profile_iff [OF env(1)])
  then have "length (encoded_profile_frames p) = ?n" by (rule fragment_frame_decodes(3) [OF env])
  then have order: "distinct order" "set order = {..<?n}"
    using mset_eq_imp_distinct_iff [OF assms(2)] mset_eq_setD [OF assms(2)]
    by (simp_all only: distinct_upt set_upt lessThan_atLeast0)
  then obtain received i where split: "order = received @ [i]" using \<open>0 < ?n\<close> by (cases order rule: rev_cases) auto
  have i: "i < ?n" "i \<notin> set received" "distinct received" "set received \<subset> {..<?n}" "set (received @ [i]) = {..<?n}"
    using order split by auto
  have "keeps_polling deadline maximum heard c received"
    using assms(3) by (auto simp: split keeps_polling_def nth_append dest: less_SucI)
  then obtain ids s1 where loop: "\<And>rest. listen_loop W fmt deadline maximum (map heard received @ rest) c s
      = listen_loop W fmt deadline maximum rest (c\<lparr>ct_valid_frames := ct_valid_frames c + length received\<rparr>) s1"
    "receiving W common scan p heard radio ids received s s1"
    using pending_loop [OF assms(1) _ i(3,4)] by blast
  let ?c = "c\<lparr>ct_valid_frames := ct_valid_frames c + length received\<rparr>"
  have "\<exists>ids s'. listen_iteration W fmt (heard i) t ?c s1 = (Ok (count_outcome ValidV2 ?c), s')
    \<and> scan_stored common scan p heard radio ids order (rv_database s) (rv_database s')
    \<and> rv_output s' = rv_output s @ [ProfileLine fmt (delivered_profile common scan heard radio ids order)]
    \<and> pr_active (rv_reassembler s') = pr_active (rv_reassembler s) \<and> receiver_ok s'" for t
    unfolding split using completing_iteration [OF assms(1) loop(2) i(1,2,3,5)] by metis
  then obtain ids' s' where step: "\<And>t. listen_iteration W fmt (heard i) t ?c s1 = (Ok (count_outcome ValidV2 ?c), s' t)"
    "\<And>t. scan_stored common scan p heard radio (ids' t) order (rv_database s) (rv_database (s' t))
      \<and> rv_output (s' t) = rv_output s @ [ProfileLine fmt (delivered_profile common scan heard radio (ids' t) order)]
      \<and> pr_active (rv_reassembler (s' t)) = pr_active (rv_reassembler s) \<and> receiver_ok (s' t)"
    by metis
  from loop_continues [OF loop(1) assms(3) [unfolded split] step(1)] step(2) show ?thesis unfolding split by blast
qed

end
