(* ===== verification/Archive_Open.thy ===== *)
theory Archive_Open
  imports Archive_Operations
begin

text \<open>
  Opening the archive: \<^verbatim>\<open>TelemetryStore::initialize\<close> and \<^verbatim>\<open>migrate_schema_two\<close> of
  \<^verbatim>\<open>crates/vesta-receiver/src/database.rs\<close>.

  A file has a schema version and the tables of that version. The first schema has readings only, of
  which the rows have no link to a packet; the second adds packets, and draft tables for records of
  protocol version 2, of which the rows are kept by the migration and used by nothing else: a row of
  them is the packet it refers to. Rebuilding the table of packets copies every column of every row. The
  indices, the pragmas and the text of the schema have no effect on rows and are not modelled.
\<close>

datatype schema_file =
  EmptyFile
| SchemaOne "reading_row list"
| SchemaTwo "packet_row list" "reading_row list" "int list"
| SchemaThree archive
| OtherSchema int

text \<open>The rows that refer to a packet that does not exist, of \<^verbatim>\<open>pragma_foreign_key_check\<close>.\<close>

definition foreign_key_violations :: "packet_row list \<Rightarrow> reading_row list \<Rightarrow> int list \<Rightarrow> int list" where
  "foreign_key_violations packets readings drafts =
     filter (\<lambda>i. i \<notin> set (map rk_id packets))
       (List.map_filter rd_radio_packet_id readings @ drafts)"

text \<open>The column that is added to the readings of the first schema.\<close>

definition add_packet_link :: "reading_row \<Rightarrow> reading_row" where
  "add_packet_link row = row\<lparr>rd_radio_packet_id := None\<rparr>"

text \<open>The row of the new table of packets, column by column.\<close>

definition rebuild_packet :: "packet_row \<Rightarrow> packet_row" where
  "rebuild_packet row =
     \<lparr>rk_id = rk_id row, rk_received_at_unix_ms = rk_received_at_unix_ms row, rk_radio = rk_radio row,
       rk_protocol_version = rk_protocol_version row, rk_frame_type = rk_frame_type row,
       rk_disposition = rk_disposition row, rk_decode_error = rk_decode_error row, rk_payload = rk_payload row\<rparr>"

definition migrate_schema_two ::
  "packet_row list \<Rightarrow> reading_row list \<Rightarrow> int list \<Rightarrow> (archive, storage_error) result" where
  "migrate_schema_two packets readings drafts =
    (let db = empty_archive\<lparr>db_packets := map rebuild_packet packets, db_readings := readings\<rparr>;
         violations = length (foreign_key_violations (db_packets db) (db_readings db) drafts)
     in if violations \<noteq> 0 then fail (MigrationForeignKeyViolations violations) else Ok db)"

fun initialize :: "schema_file \<Rightarrow> (archive, storage_error) result" where
  "initialize EmptyFile = Ok empty_archive"
| "initialize (SchemaOne readings) =
     Ok (empty_archive\<lparr>db_readings := map add_packet_link readings\<rparr>)"
| "initialize (SchemaTwo packets readings drafts) = migrate_schema_two packets readings drafts"
| "initialize (SchemaThree db) = Ok db"
| "initialize (OtherSchema found) = fail (UnsupportedSchemaVersion found)"

section \<open>What a file holds\<close>

fun file_packets :: "schema_file \<Rightarrow> packet_row list" where
  "file_packets (SchemaTwo packets readings drafts) = packets"
| "file_packets (SchemaThree db) = db_packets db"
| "file_packets _ = []"

fun file_readings :: "schema_file \<Rightarrow> reading_row list" where
  "file_readings (SchemaOne readings) = map add_packet_link readings"
| "file_readings (SchemaTwo packets readings drafts) = readings"
| "file_readings (SchemaThree db) = db_readings db"
| "file_readings _ = []"

text \<open>Keys are distinct and the constraints on single rows hold; references are not assumed.\<close>

fun file_ok :: "schema_file \<Rightarrow> bool" where
  "file_ok (SchemaOne readings) \<longleftrightarrow> distinct (map rd_id readings)"
| "file_ok (SchemaTwo packets readings drafts) \<longleftrightarrow>
     packets_ok (empty_archive\<lparr>db_packets := packets\<rparr>) \<and> distinct (map rd_id readings)"
| "file_ok (SchemaThree db) \<longleftrightarrow> archive_ok db"
| "file_ok _ \<longleftrightarrow> True"

text \<open>The condition under which a file is opened.\<close>

fun migrates :: "schema_file \<Rightarrow> bool" where
  "migrates (SchemaTwo packets readings drafts) \<longleftrightarrow>
     set drafts \<union> set (List.map_filter rd_radio_packet_id readings) \<subseteq> rk_id ` set packets"
| "migrates (OtherSchema found) \<longleftrightarrow> False"
| "migrates _ \<longleftrightarrow> True"

lemma rebuild_packet [simp]: "rebuild_packet row = row"
  by (simp add: rebuild_packet_def)

lemma rebuild_packets [simp]: "map rebuild_packet rows = rows"
  by (simp add: map_idI)

lemma set_map_filter: "set (List.map_filter f xs) = {y. \<exists>x \<in> set xs. f x = Some y}"
  by (force simp: List.map_filter_def)

lemma no_violations_iff:
  "foreign_key_violations packets readings drafts = [] \<longleftrightarrow> migrates (SchemaTwo packets readings drafts)"
  by (auto simp: foreign_key_violations_def filter_empty_conv)

lemma empty_tables: "db_packets empty_archive = []" "db_readings empty_archive = []"
  by (simp_all add: empty_archive_def)

lemma schema_one_ok:
  "distinct (map rd_id readings) \<Longrightarrow>
     archive_ok (empty_archive\<lparr>db_readings := map add_packet_link readings\<rparr>)"
  by (auto simp: archive_ok_defs empty_archive_def add_packet_link_def o_def)

lemma schema_two_ok:
  assumes "file_ok (SchemaTwo packets readings drafts)" and "migrates (SchemaTwo packets readings drafts)"
  shows "archive_ok (empty_archive\<lparr>db_packets := packets, db_readings := readings\<rparr>)"
proof -
  have "rd_radio_packet_id row \<in> Some ` rk_id ` set packets \<union> {None}" if "row \<in> set readings" for row
    using assms(2) that by (cases "rd_radio_packet_id row") (auto simp: set_map_filter)
  then show ?thesis using assms(1) by (auto simp: archive_ok_defs empty_archive_def)
qed

lemma initialize_sound:
  assumes "file_ok stored"
  shows "(is_ok (initialize stored) \<longleftrightarrow> migrates stored) \<and> \<not> panics (initialize stored)
    \<and> (\<forall>db. initialize stored = Ok db \<longrightarrow>
        archive_ok db \<and> db_packets db = file_packets stored \<and> db_readings db = file_readings stored)"
proof (cases stored)
  case EmptyFile
  then show ?thesis by (simp add: empty_archive_ok empty_tables is_ok_iff)
next
  case (SchemaOne readings)
  then show ?thesis using assms schema_one_ok [of readings] by (simp add: empty_tables is_ok_iff)
next
  case (SchemaTwo packets readings drafts)
  then show ?thesis
    using assms schema_two_ok [of packets readings drafts] no_violations_iff [of packets readings drafts]
    by (auto simp: migrate_schema_two_def is_ok_iff Let_def)
next
  case (SchemaThree db)
  then show ?thesis using assms by (simp add: is_ok_iff)
qed (simp add: is_ok_iff)

text \<open>
  C11. Opening an archive loses nothing. A file of any version whose rows satisfy their own constraints is
  opened exactly when the version is known and, in the second schema, every reference to a packet has
  its packet; the tables then satisfy the invariant of the archive, and all packets with their ids and
  bytes and all readings with their links are those of the file, in their order.
\<close>

theorem initialize_lossless:
  assumes "file_ok stored"
  shows "(is_ok (initialize stored) \<longleftrightarrow> migrates stored) \<and> \<not> panics (initialize stored)
    \<and> (\<forall>db. initialize stored = Ok db \<longrightarrow>
        archive_ok db \<and> db_packets db = file_packets stored \<and> db_readings db = file_readings stored)"
  using assms by (rule initialize_sound)

end
