(* ===== verification/Console.thy ===== *)
theory Console
  imports Receiver_Invariant Archive_Open
begin

text \<open>
  The command line of \<^verbatim>\<open>crates/vesta-receiver/src/main.rs\<close>: decoding a frame given as an argument or a
  stream of frames on the standard input, the choice of the command, and the exit code. Parsing the
  arguments is the business of a library; a command is what that library returns.

  A text is the list of its bytes in UTF-8. The standard input is the bytes that are read before its
  end or, with the flag, before a read fails.
\<close>

section \<open>Texts\<close>

text \<open>The encodings of the characters with the Unicode property \<^verbatim>\<open>White_Space\<close>.\<close>

definition whitespace :: "bytes list" where
  "whitespace =
     [[0x09], [0x0a], [0x0b], [0x0c], [0x0d], [0x20], [0xc2, 0x85], [0xc2, 0xa0], [0xe1, 0x9a, 0x80],
      [0xe2, 0x80, 0x80], [0xe2, 0x80, 0x81], [0xe2, 0x80, 0x82], [0xe2, 0x80, 0x83], [0xe2, 0x80, 0x84],
      [0xe2, 0x80, 0x85], [0xe2, 0x80, 0x86], [0xe2, 0x80, 0x87], [0xe2, 0x80, 0x88], [0xe2, 0x80, 0x89],
      [0xe2, 0x80, 0x8a], [0xe2, 0x80, 0xa8], [0xe2, 0x80, 0xa9], [0xe2, 0x80, 0xaf], [0xe2, 0x81, 0x9f],
      [0xe3, 0x80, 0x80]]"

definition matching_space :: "bytes list \<Rightarrow> bytes \<Rightarrow> bytes option" where
  "matching_space spaces str = find (\<lambda>space. prefix space str \<and> space \<noteq> []) spaces"

function strip_spaces :: "bytes list \<Rightarrow> bytes \<Rightarrow> bytes" where
  "strip_spaces spaces str =
     (case matching_space spaces str of
        None \<Rightarrow> str
      | Some space \<Rightarrow> strip_spaces spaces (drop (length space) str))"
  by pat_completeness auto

termination strip_spaces
proof (relation "measure (\<lambda>(_, str). length str)")
  fix spaces str space
  assume "matching_space spaces str = Some space"
  then have "prefix space str" "space \<noteq> []" by (auto simp: matching_space_def find_Some_iff)
  then show "((spaces, drop (length space) str), (spaces, str)) \<in> measure (\<lambda>(_, str). length str)"
    using prefix_length_le [of space str] by (cases space) auto
qed simp

declare strip_spaces.simps [simp del]

text \<open>\<^verbatim>\<open>str::trim\<close>: white space is removed from the front and, read backwards, from the end.\<close>

definition trim :: "bytes \<Rightarrow> bytes" where
  "trim str = rev (strip_spaces (map rev whitespace) (rev (strip_spaces whitespace str)))"

text \<open>\<^verbatim>\<open>str::from_utf8\<close>.\<close>

definition continuation :: "u8 \<Rightarrow> bool" where
  "continuation b \<longleftrightarrow> 0x80 \<le> b \<and> b \<le> 0xbf"

definition second_of_three :: "u8 \<Rightarrow> u8 \<Rightarrow> bool" where
  "second_of_three a b \<longleftrightarrow>
     a = 0xe0 \<and> 0xa0 \<le> b \<and> b \<le> 0xbf
   \<or> (0xe1 \<le> a \<and> a \<le> 0xec \<or> 0xee \<le> a \<and> a \<le> 0xef) \<and> continuation b
   \<or> a = 0xed \<and> 0x80 \<le> b \<and> b \<le> 0x9f"

definition second_of_four :: "u8 \<Rightarrow> u8 \<Rightarrow> bool" where
  "second_of_four a b \<longleftrightarrow>
     a = 0xf0 \<and> 0x90 \<le> b \<and> b \<le> 0xbf
   \<or> 0xf1 \<le> a \<and> a \<le> 0xf3 \<and> continuation b
   \<or> a = 0xf4 \<and> 0x80 \<le> b \<and> b \<le> 0x8f"

fun utf8_valid :: "bytes \<Rightarrow> bool" where
  "utf8_valid [] = True"
| "utf8_valid (a # str) =
    (if a < 0x80 then utf8_valid str
     else case str of
       [] \<Rightarrow> False
     | b # str \<Rightarrow>
         if 0xc2 \<le> a \<and> a \<le> 0xdf then continuation b \<and> utf8_valid str
         else case str of
           [] \<Rightarrow> False
         | c # str \<Rightarrow>
             if second_of_three a b then continuation c \<and> utf8_valid str
             else case str of
               [] \<Rightarrow> False
             | d # str \<Rightarrow> second_of_four a b \<and> continuation c \<and> continuation d \<and> utf8_valid str)"

definition strip_cr :: "bytes \<Rightarrow> bytes" where
  "strip_cr line = (if line \<noteq> [] \<and> last line = 0x0d then butlast line else line)"

text \<open>
  \<^verbatim>\<open>BufRead::lines\<close>: a line ends with a newline, before which one carriage return is dropped, or with
  the input. A line that is not UTF-8 and a failed read are errors (\<open>None\<close>).
\<close>

definition checked_line :: "bytes \<Rightarrow> bytes option" where
  "checked_line line = (if utf8_valid line then Some line else None)"

function read_lines :: "bool \<Rightarrow> bytes \<Rightarrow> bytes option list" where
  "read_lines broken input =
    (case dropWhile (\<lambda>b. b \<noteq> 0x0a) input of
       [] \<Rightarrow> if broken then [None] else if input = [] then [] else [checked_line input]
     | _ # rest \<Rightarrow> checked_line (strip_cr (takeWhile (\<lambda>b. b \<noteq> 0x0a) input)) # read_lines broken rest)"
  by pat_completeness auto

termination read_lines
proof (relation "measure (\<lambda>(_, input). length input)")
  fix broken :: bool and input rest :: bytes and b
  assume "dropWhile (\<lambda>b. b \<noteq> 0x0a) input = b # rest"
  then have "length rest < length (dropWhile (\<lambda>b. b \<noteq> 0x0a) input)" by simp
  also have "\<dots> \<le> length input" by (rule length_dropWhile_le)
  finally show "((broken, rest), (broken, input)) \<in> measure (\<lambda>(_, input). length input)" by simp
qed simp

declare read_lines.simps [simp del]

section \<open>Commands\<close>

definition write_decoded_frame :: "('g, 's) world \<Rightarrow> output_format \<Rightarrow> telemetry_v1 \<Rightarrow> ('g, 's, unit) action" where
  "write_decoded_frame W fmt frame = write_line W (TelemetryLine fmt frame None)"

definition write_frame :: "('g, 's) world \<Rightarrow> output_format \<Rightarrow> bytes \<Rightarrow> ('g, 's, unit) action" where
  "write_frame W fmt encoded =
    perform (outcome (map_err HexFailure (parse_payload_hex encoded))) (\<lambda>payload.
    perform (outcome (map_err ProtocolFailure (decode_any payload))) (\<lambda>decoded.
    case decoded of
      DT_V1 frame \<Rightarrow> write_decoded_frame W fmt frame
    | DT_V2 frame \<Rightarrow>
        perform (outcome (map_err V2Render (render_v2 fmt None frame))) (\<lambda>rendered.
        write_line W rendered)))"

text \<open>The loop over the lines, with the number of the line before and the failures so far.\<close>

fun decode_lines ::
  "('g, 's) world \<Rightarrow> output_format \<Rightarrow> bytes option list \<Rightarrow> nat \<Rightarrow> nat \<Rightarrow> ('g, 's, unit) action" where
  "decode_lines W fmt [] i failures =
     (if failures = 0 then produce () else outcome (fail (StreamFailures failures)))"
| "decode_lines W fmt (None # rest) i failures = outcome (fail Io)"
| "decode_lines W fmt (Some line # rest) i failures =
    (let line_number = i + 1; frame = trim line in
     if frame = [] then decode_lines W fmt rest line_number failures else
     perform
       (recover (perform (write_frame W fmt frame) (\<lambda>_. produce failures))
         (\<lambda>err. perform (note_line W (StreamNote line_number (w_app_text W err))) (\<lambda>_. produce (failures + 1))))
       (\<lambda>failures. decode_lines W fmt rest line_number failures))"

definition decode_stream :: "('g, 's) world \<Rightarrow> output_format \<Rightarrow> bool \<Rightarrow> bytes \<Rightarrow> ('g, 's, unit) action" where
  "decode_stream W fmt broken input = decode_lines W fmt (read_lines broken input) 0 0"

datatype cli_output = CliHuman | CliJsonl

fun cli_format :: "cli_output \<Rightarrow> output_format" where
  "cli_format CliHuman = Human"
| "cli_format CliJsonl = JsonLines"

datatype command =
  DecodeCommand "bytes option" bool cli_output
| ListenCommand "nat option" "nat option" cli_output

text \<open>
  What the operating system gives to a run of the program: the standard input, whether the signal
  handlers can be installed, the file of the archive or the failure to open it, what opening the radio
  returns, and what the loop observes.
\<close>

record ('g, 's) surroundings =
  en_broken_input :: bool
  en_input :: bytes
  en_signals :: bool
  en_file :: "(schema_file, storage_error) result"
  en_replay_started :: nat
  en_radio :: "(unit, ('g, 's) radio_error) result"
  en_started :: nat
  en_iterations :: "('g, 's) iteration list"

definition initial_receiver :: "archive \<Rightarrow> receiver" where
  "initial_receiver db = \<lparr>rv_database = db, rv_reassembler = reassembler_default, rv_output = [], rv_diagnostics = []\<rparr>"

text \<open>\<open>None\<close> when the observations end while \<^verbatim>\<open>listen\<close> is still running.\<close>

fun run ::
  "('g, 's) world \<Rightarrow> ('g, 's) surroundings \<Rightarrow> command \<Rightarrow> ((unit, ('g, 's) app_error) result \<times> receiver) option" where
  "run W env (DecodeCommand frame stdin fmt) =
     Some ((if stdin then decode_stream W (cli_format fmt) (en_broken_input env) (en_input env)
            else perform (outcome (ok_or frame MissingFrame)) (\<lambda>frame. write_frame W (cli_format fmt) frame))
       (initial_receiver empty_archive))"
| "run W env (ListenCommand duration maximum fmt) =
     (if \<not> en_signals env then Some (fail SignalFailure, initial_receiver empty_archive) else
      case map_err DatabaseFailure (and_then (en_file env) initialize) of
        Inl e \<Rightarrow> Some (Inl e, initial_receiver empty_archive)
      | Inr db \<Rightarrow> listen W (cli_format fmt) duration maximum True (en_replay_started env) (en_radio env) (en_started env)
                    (en_iterations env) db)"

text \<open>
  \<^verbatim>\<open>main\<close>: whether the exit code is that of success. A note that cannot be written is ignored.
\<close>

fun report_outcome ::
  "('g, 's) world \<Rightarrow> (unit, ('g, 's) app_error) result \<times> receiver \<Rightarrow> (bool, ('g, 's) app_error) result \<times> receiver" where
  "report_outcome W (Inl Panic, s) = (panic, s)"
| "report_outcome W (r, s) =
    (let flushed = w_flushes W (rv_output s);
         s = (case r of Inl (Err e) \<Rightarrow> snd (note_line W (ErrorNote (w_app_text W e)) s) | _ \<Rightarrow> s);
         s = (if flushed then s else snd (note_line W FlushErrorNote s))
     in (Ok (is_ok r \<and> flushed), s))"

definition main_program ::
  "('g, 's) world \<Rightarrow> ('g, 's) surroundings \<Rightarrow> command \<Rightarrow> ((bool, ('g, 's) app_error) result \<times> receiver) option" where
  "main_program W env cmd = map_option (report_outcome W) (run W env cmd)"

section \<open>What a line decodes to\<close>

fun line_of :: "output_format \<Rightarrow> decoded_telemetry \<Rightarrow> output_line" where
  "line_of fmt (DT_V1 frame) = TelemetryLine fmt frame None"
| "line_of fmt (DT_V2 frame) = FrameLine fmt frame None"

definition text_result :: "bytes \<Rightarrow> (decoded_telemetry, ('g, 's) app_error) result" where
  "text_result str =
    and_then (map_err HexFailure (parse_payload_hex str)) (\<lambda>payload. map_err ProtocolFailure (decode_any payload))"

lemma text_result_no_panic: "\<not> panics (text_result str)"
proof -
  have "\<not> panics (parse_payload_hex str)" using hex_parsers_no_panic by blast
  then show ?thesis by (simp add: text_result_def panics_and_then decode_any_no_panic)
qed

lemma write_frame_eq:
  "write_frame W fmt str = (case text_result str of Inl e \<Rightarrow> outcome (Inl e) | Inr d \<Rightarrow> write_line W (line_of fmt d))"
proof (rule ext)
  fix s
  show "write_frame W fmt str s
    = (case text_result str of Inl e \<Rightarrow> outcome (Inl e) | Inr d \<Rightarrow> write_line W (line_of fmt d)) s"
  proof (cases "\<exists>payload frame. parse_payload_hex str = Ok payload \<and> decode_any payload = Ok (DT_V2 frame)")
    case True
    then obtain payload frame where "parse_payload_hex str = Ok payload" "decode_any payload = Ok (DT_V2 frame)" by blast
    then show ?thesis
      by (simp add: write_frame_def text_result_def perform_def outcome_def decoded_render_Ok [OF decode_any_Ok(1)])
  next
    case False
    show ?thesis
    proof (cases "parse_payload_hex str")
      case (Inl e)
      then show ?thesis
        by (cases e) (auto simp: write_frame_def text_result_def perform_def outcome_def)
    next
      case (Inr payload)
      then show ?thesis
      proof (cases "decode_any payload")
        case (Inl e)
        then show ?thesis
          using Inr by (cases e) (auto simp: write_frame_def text_result_def perform_def outcome_def)
      next
        case d: (Inr d)
        then obtain frame where "d = DT_V1 frame" using False Inr by (cases d) auto
        then show ?thesis
          using d Inr by (simp add: write_frame_def text_result_def perform_def outcome_def write_decoded_frame_def)
      qed
    qed
  qed
qed

section \<open>Streams\<close>

text \<open>The lines that are not blank, with their numbers; their frames; the complaints about the others.\<close>

definition numbered :: "nat \<Rightarrow> bytes list \<Rightarrow> (nat \<times> bytes) list" where
  "numbered i texts = filter (\<lambda>(_, str). str \<noteq> []) (enumerate (i + 1) (map trim texts))"

definition frame_lines :: "output_format \<Rightarrow> (nat \<times> bytes) list \<Rightarrow> output_line list" where
  "frame_lines fmt entries =
     concat (map (\<lambda>(_, str). case (text_result str :: (_, (unit, unit) app_error) result) of
        Inr d \<Rightarrow> [line_of fmt d] | Inl _ \<Rightarrow> []) entries)"

definition complaints :: "('g, 's) world \<Rightarrow> (nat \<times> bytes) list \<Rightarrow> diagnostic list" where
  "complaints W entries =
     concat (map (\<lambda>(i, str). case text_result str of
        Inl (Err e) \<Rightarrow> [StreamNote i (w_app_text W e)] | _ \<Rightarrow> []) entries)"

text \<open>Every write to either stream succeeds.\<close>

definition working_streams :: "('g, 's) world \<Rightarrow> bool" where
  "working_streams W \<longleftrightarrow> (\<forall>out line. w_writes W out line) \<and> (\<forall>notes note. w_notes W notes note)"

lemma text_result_Ok_any:
  "text_result str = (Ok d :: (_, ('g, 's) app_error) result) \<longleftrightarrow> text_result str = (Ok d :: (_, ('h, 't) app_error) result)"
  by (cases "parse_payload_hex str"; cases "decode_any (projr (parse_payload_hex str))")
     (auto simp: text_result_def split: fault.splits)

lemma decode_lines_step:
  assumes "working_streams W" and "trim str \<noteq> []"
  shows "decode_lines W fmt (Some str # rest) i failures s =
    (case text_result (trim str) of
       Inr d \<Rightarrow> decode_lines W fmt rest (i + 1) failures (s\<lparr>rv_output := rv_output s @ [line_of fmt d]\<rparr>)
     | Inl (Err e) \<Rightarrow> decode_lines W fmt rest (i + 1) (failures + 1)
         (s\<lparr>rv_diagnostics := rv_diagnostics s @ [StreamNote (i + 1) (w_app_text W e)]\<rparr>)
     | Inl Panic \<Rightarrow> (panic, s))"
  using assms
  by (auto simp: working_streams_def write_frame_eq Let_def perform_def recover_def outcome_def write_line_def
      note_line_def produce_def split: sum.splits fault.splits)

lemma decode_lines_exact:
  assumes "working_streams W"
  shows "decode_lines W fmt (map Some texts @ rest) i failures s =
    decode_lines W fmt rest (i + length texts) (failures + length (complaints W (numbered i texts)))
      (s\<lparr>rv_output := rv_output s @ frame_lines fmt (numbered i texts),
         rv_diagnostics := rv_diagnostics s @ complaints W (numbered i texts)\<rparr>)"
proof (induction texts arbitrary: i failures s)
  case Nil
  then show ?case by (simp add: numbered_def frame_lines_def complaints_def)
next
  case (Cons str texts)
  show ?case
  proof (cases "trim str = []")
    case True
    then have "numbered i (str # texts) = numbered (i + 1) texts" by (simp add: numbered_def)
    then show ?thesis using Cons.IH [of "i + 1" failures s] True by simp
  next
    case False
    then have n: "numbered i (str # texts) = (i + 1, trim str) # numbered (i + 1) texts" by (simp add: numbered_def)
    note step = decode_lines_step [OF assms False, of fmt "map Some texts @ rest" i failures s]
    show ?thesis
    proof (cases "text_result (trim str) :: (_, ('a, 'b) app_error) result")
      case (Inr d)
      then have "text_result (trim str) = (Ok d :: (_, (unit, unit) app_error) result)" using text_result_Ok_any by blast
      then show ?thesis using step Inr Cons.IH [of "i + 1" failures] n by (simp add: frame_lines_def complaints_def)
    next
      case (Inl e)
      obtain err where err: "e = Err err" using text_result_no_panic [of "trim str"] Inl by (cases e) (auto simp: panics_def)
      have "\<not> (\<exists>d. text_result (trim str) = (Ok d :: (_, (unit, unit) app_error) result))"
        using Inl text_result_Ok_any by (metis Inl_Inr_False)
      then obtain e' where "text_result (trim str) = (Inl e' :: (_, (unit, unit) app_error) result)"
        by (cases "text_result (trim str) :: (_, (unit, unit) app_error) result") auto
      then show ?thesis
        using step Inl err Cons.IH [of "i + 1" "failures + 1"] n by (simp add: frame_lines_def complaints_def)
    qed
  qed
qed

text \<open>
  C25. Decoding a stream. When the streams of the program work, every line that is not blank is either
  printed as the frame it encodes or reported with its number and the reason, in order and each exactly
  once, whatever the other lines are; the result is success when no line was reported and otherwise says
  how many were. If reading fails or a line is not text, the lines before it have been treated this way.
\<close>

theorem decode_stream_exact:
  assumes "working_streams W" and "read_lines broken input = map Some texts @ rest" and "rest = [] \<or> hd rest = None"
  shows "decode_stream W fmt broken input s =
    (if rest \<noteq> [] then fail Io
     else if complaints W (numbered 0 texts) = [] then Ok ()
     else fail (StreamFailures (length (complaints W (numbered 0 texts)))),
     s\<lparr>rv_output := rv_output s @ frame_lines fmt (numbered 0 texts),
       rv_diagnostics := rv_diagnostics s @ complaints W (numbered 0 texts)\<rparr>)"
  using assms(3) unfolding decode_stream_def assms(2) decode_lines_exact [OF assms(1)]
  by (cases rest) (auto simp: produce_def outcome_def)

section \<open>Hexadecimal streams\<close>

definition blank :: "bytes \<Rightarrow> bool" where
  "blank str \<longleftrightarrow> set str \<subseteq> {0x20, 0x09}"

lemma matching_blank:
  assumes "b = 0x20 \<or> b = 0x09"
  shows "matching_space whitespace (b # str) = Some [b]" "matching_space (map rev whitespace) (b # str) = Some [b]"
proof -
  have "matching_space whitespace (0x20 # str) = Some [0x20]" "matching_space whitespace (0x09 # str) = Some [0x09]"
    "matching_space (map rev whitespace) (0x20 # str) = Some [0x20]"
    "matching_space (map rev whitespace) (0x09 # str) = Some [0x09]"
    by (simp_all add: matching_space_def whitespace_def)
  then show "matching_space whitespace (b # str) = Some [b]" "matching_space (map rev whitespace) (b # str) = Some [b]"
    using assms by blast+
qed

lemma whitespace_heads:
  "list_all (\<lambda>space. hd space < 0x30 \<or> 0x66 < hd space) whitespace"
  "list_all (\<lambda>space. hd space < 0x30 \<or> 0x66 < hd space) (map rev whitespace)"
  by code_simp+

lemma matching_digit:
  assumes "0x30 \<le> c" and "c \<le> 0x66"
  shows "matching_space whitespace (c # str) = None" "matching_space (map rev whitespace) (c # str) = None"
proof -
  have "matching_space spaces (c # str) = None" if "list_all (\<lambda>space. hd space < 0x30 \<or> 0x66 < hd space) spaces" for spaces
  proof -
    have "\<not> (prefix space (c # str) \<and> space \<noteq> [])" if "space \<in> set spaces" for space
      using \<open>list_all _ spaces\<close> that assms by (cases space) (auto simp: list_all_iff not_less [symmetric])
    then show ?thesis by (auto simp: matching_space_def find_None_iff)
  qed
  then show "matching_space whitespace (c # str) = None" "matching_space (map rev whitespace) (c # str) = None"
    using whitespace_heads by blast+
qed

lemma strip_blank:
  "blank pre \<Longrightarrow> strip_spaces whitespace (pre @ str) = strip_spaces whitespace str"
  "blank pre \<Longrightarrow> strip_spaces (map rev whitespace) (pre @ str) = strip_spaces (map rev whitespace) str"
proof (induction pre)
  case (Cons b pre)
  { case 1 then show ?case using Cons.IH(1) by (subst strip_spaces.simps) (simp add: blank_def matching_blank) }
  { case 2 then show ?case using Cons.IH(2) by (subst strip_spaces.simps) (simp add: blank_def matching_blank) }
qed simp_all

lemma hex_digit_range: "n < 16 \<Longrightarrow> 0x30 \<le> hex_digit n \<and> hex_digit n \<le> 0x66"
proof -
  assume n: "n < 16"
  have "list_all (\<lambda>n. 0x30 \<le> hex_digit (word_of_nat n) \<and> hex_digit (word_of_nat n) \<le> 0x66) [0..<16]" by code_simp
  moreover have "unat n \<in> set [0..<16]" using n by (simp add: word_less_nat_alt)
  ultimately have "0x30 \<le> hex_digit (word_of_nat (unat n)) \<and> hex_digit (word_of_nat (unat n)) \<le> 0x66"
    unfolding list_all_iff by (rule bspec)
  then show ?thesis by simp
qed

lemma to_hex_range: "c \<in> set (to_hex bs) \<Longrightarrow> 0x30 \<le> c \<and> c \<le> 0x66"
  using hex_digit_range nibbles_less by (auto simp: to_hex_def)

lemma trim_padded:
  assumes "blank pre" and "blank post" and "bs \<noteq> []"
  shows "trim (pre @ to_hex bs @ post) = to_hex bs"
proof -
  have "to_hex bs \<noteq> []" using assms(3) by (cases bs) (simp_all add: to_hex_def nibbles_def)
  then obtain c cs d ds where c: "to_hex bs = c # cs" and d: "rev (to_hex bs) = d # ds"
    by (metis list.exhaust rev_is_Nil_conv)
  then have "c \<in> set (to_hex bs)" "d \<in> set (to_hex bs)" by (simp, metis list.set_intros(1) set_rev)
  then have c': "0x30 \<le> c" "c \<le> 0x66" and d': "0x30 \<le> d" "d \<le> 0x66" using to_hex_range by blast+
  have "strip_spaces whitespace (to_hex bs @ post) = to_hex bs @ post"
    using matching_digit(1) [OF c'] c by (subst strip_spaces.simps) simp
  moreover have "blank (rev post)" using assms(2) by (simp add: blank_def)
  moreover have "strip_spaces (map rev whitespace) (rev (to_hex bs)) = rev (to_hex bs)"
    using matching_digit(2) [OF d'] d by (subst strip_spaces.simps) simp
  ultimately show ?thesis using assms(1) by (simp add: trim_def strip_blank)
qed

lemma utf8_ascii: "list_all (\<lambda>b. b < 0x80) str \<Longrightarrow> utf8_valid str"
  by (induction str) auto

definition hex_line :: "bytes \<Rightarrow> bytes \<Rightarrow> bytes \<Rightarrow> bytes" where
  "hex_line pre bs post = pre @ to_hex bs @ post"

lemma hex_line_bytes:
  assumes "blank pre" and "blank post" and "c \<in> set (hex_line pre bs post)"
  shows "c \<noteq> 0x0a" "c \<noteq> 0x0d" "c < 0x80"
proof -
  have "c = 0x20 \<or> c = 0x09 \<or> (0x30 \<le> c \<and> c \<le> 0x66)"
    using assms to_hex_range by (auto simp: hex_line_def blank_def)
  then show "c \<noteq> 0x0a" "c \<noteq> 0x0d" "c < 0x80" by (auto simp: word_le_nat_alt word_less_nat_alt)
qed

lemma read_hex_lines:
  assumes "\<forall>(pre, bs, post) \<in> set entries. blank pre \<and> blank post"
  shows "read_lines False (concat (map (\<lambda>(pre, bs, post). hex_line pre bs post @ [0x0a]) entries))
    = map Some (map (\<lambda>(pre, bs, post). hex_line pre bs post) entries)"
  using assms
proof (induction entries)
  case Nil
  then show ?case by (simp add: read_lines.simps)
next
  case (Cons entry entries)
  obtain pre bs post where entry: "entry = (pre, bs, post)" by (cases entry)
  note line = hex_line_bytes [of pre post _ bs]
  have blanks: "blank pre" "blank post" using Cons.prems entry by auto
  let ?line = "hex_line pre bs post"
    and ?rest = "concat (map (\<lambda>(pre, bs, post). hex_line pre bs post @ [0x0a]) entries)"
  have "takeWhile (\<lambda>b. b \<noteq> 0x0a) (?line @ 0x0a # ?rest) = ?line"
    "dropWhile (\<lambda>b. b \<noteq> 0x0a) (?line @ 0x0a # ?rest) = 0x0a # ?rest"
    using line(1) [OF blanks] by (simp_all add: takeWhile_tail dropWhile_append takeWhile_append)
  moreover have "checked_line (strip_cr ?line) = Some ?line"
    using line(2,3) [OF blanks] last_in_set [of ?line]
    by (auto simp: checked_line_def strip_cr_def list_all_iff intro!: utf8_ascii)
  ultimately show ?case
    using Cons.IH Cons.prems entry by (subst read_lines.simps) simp
qed

lemma decodable_length:
  assumes "decode_any bs = Ok d"
  shows "3 \<le> length bs" "length bs \<le> MAX_PHY_FRAME_LEN"
proof -
  show "3 \<le> length bs" using assms by (auto simp: decode_any_def split: if_splits)
  show "length bs \<le> MAX_PHY_FRAME_LEN"
  proof (cases d)
    case (DT_V1 frame)
    then have "length bs = 48"
      using assms decode_any_Ok(2) [of bs frame] by (auto simp: telemetry_v1_decode_def FRAME_LEN_def split: if_splits)
    then show ?thesis by (simp add: MAX_PHY_FRAME_LEN_def)
  next
    case (DT_V2 frame)
    then have "decode bs = Ok frame" using assms decode_any_Ok(1) by simp
    then show ?thesis using decode_length_bounds [of bs frame] by (simp add: v2_lens)
  qed
qed

text \<open>Lines of which the text is known to decode.\<close>

lemma hex_lines_decoded:
  assumes "map (\<lambda>(pre, bs, post). decode_any bs) entries = map Ok ds"
    and "\<And>pre bs post. (pre, bs, post) \<in> set entries \<Longrightarrow>
      text_result (trim (hex_line pre bs post)) = (map_err ProtocolFailure (decode_any bs) :: (_, ('g, 's) app_error) result)"
    and "\<And>pre bs post. (pre, bs, post) \<in> set entries \<Longrightarrow> trim (hex_line pre bs post) \<noteq> []"
  shows "frame_lines fmt (numbered i (map (\<lambda>(pre, bs, post). hex_line pre bs post) entries)) = map (line_of fmt) ds
    \<and> complaints (W :: ('g, 's) world) (numbered i (map (\<lambda>(pre, bs, post). hex_line pre bs post) entries)) = []"
  using assms
proof (induction entries arbitrary: i ds)
  case Nil
  then show ?case by (simp add: numbered_def frame_lines_def complaints_def)
next
  case (Cons entry entries)
  obtain pre bs post where entry: "entry = (pre, bs, post)" by (cases entry)
  obtain d ds' where d: "ds = d # ds'" "decode_any bs = Ok d" "map (\<lambda>(pre, bs, post). decode_any bs) entries = map Ok ds'"
    using Cons.prems(1) entry by auto
  let ?str = "hex_line pre bs post"
  have str: "text_result (trim ?str) = (Ok d :: (_, ('g, 's) app_error) result)" "trim ?str \<noteq> []"
    using Cons.prems(2,3) entry d(2) by auto
  then have "text_result (trim ?str) = (Ok d :: (_, (unit, unit) app_error) result)" using text_result_Ok_any by blast
  then show ?case
    using Cons.IH [OF d(3), of "i + 1"] Cons.prems(2,3) entry d(1) str
    by (simp add: numbered_def frame_lines_def complaints_def)
qed

text \<open>
  C26. A stream of captured frames is decoded back: the text that has, for each frame, one line with its
  bytes in hexadecimal digits between blanks, is read as exactly those frames, in order, and the command
  succeeds without a complaint.
\<close>

theorem hex_stream_roundtrip:
  assumes "working_streams W" and "\<forall>(pre, bs, post) \<in> set entries. blank pre \<and> blank post"
    and "map (\<lambda>(pre, bs, post). decode_any bs) entries = map Ok ds"
  shows "decode_stream W fmt False (concat (map (\<lambda>(pre, bs, post). hex_line pre bs post @ [0x0a]) entries)) s
    = (Ok (), s\<lparr>rv_output := rv_output s @ map (line_of fmt) ds\<rparr>)"
proof -
  let ?texts = "map (\<lambda>(pre, bs, post). hex_line pre bs post) entries"
  have entries: "text_result (trim (hex_line pre bs post)) = map_err ProtocolFailure (decode_any bs)"
    "trim (hex_line pre bs post) \<noteq> []"
    if "(pre, bs, post) \<in> set entries" for pre bs post
  proof -
    have "decode_any bs \<in> set (map (\<lambda>(pre, bs, post). decode_any bs) entries)" using that by force
    then have "\<exists>d. decode_any bs = Ok d" unfolding assms(3) by auto
    then have len: "3 \<le> length bs" "length bs \<le> MAX_PHY_FRAME_LEN" using decodable_length by blast+
    then have "bs \<noteq> []" by auto
    then have trim: "trim (hex_line pre bs post) = to_hex bs"
      using trim_padded [of pre post bs] bspec [OF assms(2) that] by (auto simp: hex_line_def)
    show "text_result (trim (hex_line pre bs post)) = map_err ProtocolFailure (decode_any bs)"
      using parse_payload_hex_roundtrip [OF len] by (simp add: text_result_def trim)
    show "trim (hex_line pre bs post) \<noteq> []"
      unfolding trim using \<open>bs \<noteq> []\<close> by (cases bs) (simp_all add: to_hex_def nibbles_def)
  qed
  have lines: "frame_lines fmt (numbered i ?texts) = map (line_of fmt) ds \<and> complaints W (numbered i ?texts) = []" for i
    using assms(3) entries by (rule hex_lines_decoded)
  show ?thesis
    unfolding decode_stream_def read_hex_lines [OF assms(2)]
    using decode_lines_exact [OF assms(1), of fmt ?texts "[]" 0 0 s] lines [of 0] by (simp add: produce_def)
qed

section \<open>The whole program\<close>

lemma safe_write_frame: "safe (write_frame W fmt str) (\<lambda>_. True)"
proof (cases "text_result str :: (_, ('a, 'b) app_error) result")
  case (Inl e)
  then have "\<not> panics (Inl e :: (unit, ('a, 'b) app_error) result)"
    using text_result_no_panic [of str] by (cases e) (auto simp: panics_def)
  then show ?thesis unfolding write_frame_eq Inl by (auto intro: safe_outcome)
next
  case (Inr d)
  then show ?thesis unfolding write_frame_eq by (auto intro!: safe_intros)
qed

lemma safe_decode_lines: "safe (decode_lines W fmt lines i failures) (\<lambda>_. True)"
proof (induction lines arbitrary: i failures)
  case Nil
  then show ?case by (auto intro!: safe_intros safe_outcome)
next
  case (Cons line lines)
  have caught: "safe (recover (perform (write_frame W fmt (trim str)) (\<lambda>_. produce failures))
      (\<lambda>err. perform (note_line W (StreamNote (i + 1) (w_app_text W err))) (\<lambda>_. produce (failures + 1)))) (\<lambda>_. True)" for str
    by (intro safe_recover safe_perform [OF safe_write_frame] safe_intros) (auto intro!: safe_intros)
  show ?case
  proof (cases line)
    case None
    then show ?thesis by (auto intro!: safe_outcome)
  next
    case (Some str)
    have "safe (perform (recover (perform (write_frame W fmt (trim str)) (\<lambda>_. produce failures))
        (\<lambda>err. perform (note_line W (StreamNote (i + 1) (w_app_text W err))) (\<lambda>_. produce (failures + 1))))
      (decode_lines W fmt lines (i + 1))) (\<lambda>_. True)"
      by (rule safe_perform [OF caught]) (rule Cons.IH)
    then show ?thesis using Some Cons.IH by (simp add: Let_def)
  qed
qed

lemma report_outcome_keeps:
  assumes "report_outcome W (r, s) = (p, s')" and "\<not> panics r"
  shows "rv_database s' = rv_database s" "\<exists>success. p = Ok success"
proof -
  have kept: "rv_database (snd (note_line W d s)) = rv_database s" for d s by (simp add: note_line_def)
  show "rv_database s' = rv_database s" "\<exists>success. p = Ok success"
    using assms by (cases "(W, r, s)" rule: report_outcome.cases; auto simp: Let_def kept panics_def split: sum.splits fault.splits if_splits)+
qed

text \<open>
  C5. The program as a whole. For every command and whatever the surroundings do (a standard input that
  breaks off, a file of any schema version or none, a radio that fails, writes that fail, any order of the
  hash map), a run that ends returns an exit code and never panics; the archive it leaves satisfies its
  invariant, and when it listens on a file that can be migrated every packet of the file is still there,
  unchanged and in place.
\<close>

theorem main_program_safe:
  assumes "visits_all (w_order W)" and "\<forall>i \<in> set (en_iterations env). \<forall>poll_time. \<not> panics (it_poll i poll_time)"
    and "\<not> panics (en_radio env)" and "\<not> panics (en_file env)" and "\<forall>stored. en_file env = Ok stored \<longrightarrow> file_ok stored"
    and "main_program W env cmd = Some (r, s)"
  shows "(\<exists>success. r = Ok success) \<and> archive_ok (rv_database s)
    \<and> (\<forall>duration maximum fmt stored. cmd = ListenCommand duration maximum fmt \<and> en_signals env
          \<and> en_file env = Ok stored \<and> migrates stored
        \<longrightarrow> prefix (map raw_packet (file_packets stored)) (raw_packets (rv_database s)))"
proof -
  have initial: "receiver_ok (initial_receiver empty_archive)"
    by (simp add: initial_receiver_def receiver_ok_def empty_archive_ok reassembler_default_inv)
  obtain q s1 where run: "run W env cmd = Some (q, s1)" and report: "report_outcome W (q, s1) = (r, s)"
    using assms(6) by (auto simp: main_program_def)
  have "\<not> panics q \<and> archive_ok (rv_database s1)
    \<and> (\<forall>duration maximum fmt stored. cmd = ListenCommand duration maximum fmt \<and> en_signals env
          \<and> en_file env = Ok stored \<and> migrates stored
        \<longrightarrow> prefix (map raw_packet (file_packets stored)) (raw_packets (rv_database s1)))"
  proof (cases cmd)
    case (DecodeCommand frame stdin fmt)
    have "safe (if stdin then decode_stream W (cli_format fmt) (en_broken_input env) (en_input env)
        else perform (outcome (ok_or frame MissingFrame)) (\<lambda>frame. write_frame W (cli_format fmt) frame)) (\<lambda>_. True)"
      unfolding decode_stream_def
      by (auto intro!: safe_decode_lines safe_perform [OF safe_outcome [where P = "\<lambda>_. True"]] safe_write_frame)
    from safeD [OF this initial, of q s1] show ?thesis using run DecodeCommand by (auto simp: receiver_ok_def)
  next
    case (ListenCommand duration maximum fmt)
    show ?thesis
    proof (cases "en_signals env \<and> (\<exists>db. and_then (en_file env) initialize = Ok db)")
      case False
      have "\<not> panics (and_then (en_file env) initialize)"
        using assms(4,5) initialize_sound by (auto simp: panics_and_then)
      then have r: "\<not> panics q \<and> s1 = initial_receiver empty_archive"
      proof (cases "en_signals env")
        case True
        with False obtain e where "and_then (en_file env) initialize = fail e"
          using \<open>\<not> panics (and_then (en_file env) initialize)\<close>
          by (metis fault.exhaust panics_def sum.exhaust)
        then show ?thesis using run True by (auto simp: ListenCommand panics_def)
      qed (use run in \<open>auto simp: ListenCommand panics_def\<close>)
      have "\<not> (en_signals env \<and> en_file env = Ok stored \<and> migrates stored)" for stored
        using False assms(5) initialize_sound [of stored] by (auto simp: is_ok_iff)
      then show ?thesis using r initial by (auto simp: receiver_ok_def)
    next
      case True
      then obtain stored db where stored: "en_file env = Ok stored" "initialize stored = Ok db" by auto
      then have db: "archive_ok db" "db_packets db = file_packets stored" using assms(5) initialize_sound by blast+
      have "listen W (cli_format fmt) duration maximum True (en_replay_started env) (en_radio env) (en_started env)
          (en_iterations env) db = Some (q, s1)"
        using run ListenCommand True stored by simp
      from listen_safe [OF assms(1-3) db(1) this] show ?thesis
        using db(2) stored(1) by (auto simp: raw_packets_def ListenCommand)
    qed
  qed
  then show ?thesis using report_outcome_keeps [OF report] by auto
qed

end
