(* ===== verification/Rendering.thy ===== *)
theory Rendering
  imports Receiver_Invariant
begin

text \<open>
  The JSON values of \<^verbatim>\<open>crates/vesta-receiver/src/lib.rs\<close> that the receiver prints, one for each line: a
  frame of version 1, a frame of version 2, a reassembled profile, and the integrity event of
  \<^verbatim>\<open>main.rs\<close>. A struct that derives \<^verbatim>\<open>Serialize\<close> is the object of its fields in their order. The text of
  a value is produced by a library and not modelled, nor is the readable form of the event; the one of
  version 1 is in \<open>Human_Text\<close>.

  Two things are shown: a number in a printed value is one that a consumer with 53-bit integers reads
  back exactly, unless the receiver added it, and a value determines what it was printed from.
\<close>

section \<open>Values\<close>

datatype json =
  JNull
| JBool bool
| JNumber int
| JText bytes
| JList "json list"
| JObject "(string \<times> json) list"

abbreviation number :: "'a::len word \<Rightarrow> json" where "number w \<equiv> JNumber (uint w)"

abbreviation signed_number :: "'a::len word \<Rightarrow> json" where "signed_number w \<equiv> JNumber (sint w)"

definition byte_list :: "bytes \<Rightarrow> json" where
  "byte_list bs = JList (map number bs)"

fun optional :: "('a \<Rightarrow> json) \<Rightarrow> 'a option \<Rightarrow> json" where
  "optional f None = JNull"
| "optional f (Some x) = f x"

text \<open>\<^verbatim>\<open>value[name] = ..\<close>: the field is replaced or added; only an object and \<^verbatim>\<open>null\<close> have fields.\<close>

fun set_field :: "string \<Rightarrow> json \<Rightarrow> json \<Rightarrow> (json, 'e) result" where
  "set_field name x (JObject members) = Ok (JObject (AList.update name x members))"
| "set_field name x JNull = Ok (JObject [(name, x)])"
| "set_field name x _ = panic"

definition ascii :: "string \<Rightarrow> bytes" where
  "ascii name = map of_char name"

text \<open>\<^verbatim>\<open>u64::to_string\<close>.\<close>

fun decimal_digits :: "nat \<Rightarrow> bytes" where
  "decimal_digits n = (if n < 10 then [0x30 + word_of_nat n]
     else decimal_digits (n div 10) @ [0x30 + word_of_nat (n mod 10)])"

declare decimal_digits.simps [simp del]

definition decimal :: "u64 \<Rightarrow> bytes" where
  "decimal w = decimal_digits (unat w)"

section \<open>Serialized structs\<close>

definition radio_value :: "radio_metadata \<Rightarrow> json" where
  "radio_value r = JObject
    [(''packet_rssi_centi_dbm'', signed_number (rm_packet_rssi_centi_dbm r)),
     (''snr_centi_db'', signed_number (rm_snr_centi_db r)),
     (''signal_rssi_centi_dbm'', signed_number (rm_signal_rssi_centi_dbm r))]"

definition identity_value :: "record_identity \<Rightarrow> json" where
  "identity_value i = JObject
    [(''common_flags'', number (ri_common_flags i)),
     (''node_id'', number (ri_node_id i)),
     (''boot_id'', number (ri_boot_id i)),
     (''scan_sequence'', number (ri_scan_sequence i)),
     (''uptime_ms'', number (ri_uptime_ms i)),
     (''config_id'', number (ri_config_id i)),
     (''reset_cause_flags'', number (ri_reset_cause_flags i))]"

definition heater_step_value :: "heater_step_configuration \<Rightarrow> json" where
  "heater_step_value step = JObject
    [(''step_index'', number (hc_step_index step)),
     (''target_temperature_celsius'', number (hc_target_temperature_celsius step)),
     (''configured_duration_us'', number (hc_configured_duration_us step)),
     (''repetition_multiplier'', number (hc_repetition_multiplier step)),
     (''readback_heater_current'', number (hc_readback_heater_current step)),
     (''programmed_heater_resistance'', number (hc_programmed_heater_resistance step)),
     (''programmed_gas_wait'', number (hc_programmed_gas_wait step))]"

definition configuration_value :: "device_configuration \<Rightarrow> json" where
  "configuration_value c = JObject
    [(''identity'', identity_value (cf_identity c)),
     (''repeated'', JBool (cf_repeated c)),
     (''config_flags'', number (cf_config_flags c)),
     (''firmware_version'', byte_list (cf_firmware_version c)),
     (''firmware_build_flags'', number (cf_firmware_build_flags c)),
     (''firmware_build_id'', number (cf_firmware_build_id c)),
     (''sensor_chip_id'', number (cf_sensor_chip_id c)),
     (''sensor_variant'', number (cf_sensor_variant c)),
     (''sensor_i2c_address'', number (cf_sensor_i2c_address c)),
     (''temperature_oversampling'', number (cf_temperature_oversampling c)),
     (''humidity_oversampling'', number (cf_humidity_oversampling c)),
     (''pressure_oversampling'', number (cf_pressure_oversampling c)),
     (''iir_filter'', number (cf_iir_filter c)),
     (''standby_time'', number (cf_standby_time c)),
     (''operation_mode'', number (cf_operation_mode c)),
     (''heater_enabled'', number (cf_heater_enabled c)),
     (''parallel_requested_shared_wait_ms'', number (cf_parallel_requested_shared_wait_ms c)),
     (''parallel_shared_wait_register'', number (cf_parallel_shared_wait_register c)),
     (''parallel_quantized_shared_wait_us'', number (cf_parallel_quantized_shared_wait_us c)),
     (''tphg_duration_us'', number (cf_tphg_duration_us c)),
     (''expected_profile_duration_us'', number (cf_expected_profile_duration_us c)),
     (''profile_id'', number (cf_profile_id c)),
     (''profile_version'', number (cf_profile_version c)),
     (''expected_step_count'', number (cf_expected_step_count c)),
     (''heater_readback_valid_bitmap'', number (cf_heater_readback_valid_bitmap c)),
     (''calibration_hash_algorithm'', number (cf_calibration_hash_algorithm c)),
     (''calibration_hash'', number (cf_calibration_hash c)),
     (''scan_interval_ms'', number (cf_scan_interval_ms c)),
     (''config_repeat_interval_scans'', number (cf_config_repeat_interval_scans c)),
     (''output_routes'', number (cf_output_routes c)),
     (''radio_frequency_hz'', number (cf_radio_frequency_hz c)),
     (''radio_tx_power_dbm'', signed_number (cf_radio_tx_power_dbm c)),
     (''radio_spreading_factor'', number (cf_radio_spreading_factor c)),
     (''radio_bandwidth_hz'', number (cf_radio_bandwidth_hz c)),
     (''radio_coding_rate_numerator'', number (cf_radio_coding_rate_numerator c)),
     (''radio_coding_rate_denominator'', number (cf_radio_coding_rate_denominator c)),
     (''radio_preamble_symbols'', number (cf_radio_preamble_symbols c)),
     (''radio_header_mode'', number (cf_radio_header_mode c)),
     (''radio_phy_crc_enabled'', number (cf_radio_phy_crc_enabled c)),
     (''radio_iq_inverted'', number (cf_radio_iq_inverted c)),
     (''radio_sync_word'', number (cf_radio_sync_word c)),
     (''max_frame_len'', number (cf_max_frame_len c)),
     (''profile_steps_per_fragment'', number (cf_profile_steps_per_fragment c)),
     (''heater_steps'', JList (map heater_step_value (cf_heater_steps c)))]"

definition step_value :: "step_record \<Rightarrow> json" where
  "step_value step = JObject
    [(''step_index'', number (st_step_index step)),
     (''gas_index'', number (st_gas_index step)),
     (''measurement_index'', number (st_measurement_index step)),
     (''status_bits'', number (st_status_bits step)),
     (''raw_measurement_status'', number (st_raw_measurement_status step)),
     (''raw_gas_status'', number (st_raw_gas_status step)),
     (''target_temperature_celsius'', number (st_target_temperature_celsius step)),
     (''configured_duration_us'', number (st_configured_duration_us step)),
     (''relative_offset_us'', number (st_relative_offset_us step)),
     (''temperature_centi_celsius'', signed_number (st_temperature_centi_celsius step)),
     (''pressure_pascal'', number (st_pressure_pascal step)),
     (''humidity_milli_percent_rh'', number (st_humidity_milli_percent_rh step)),
     (''gas_resistance_ohm'', number (st_gas_resistance_ohm step)),
     (''raw_temperature_adc'', number (st_raw_temperature_adc step)),
     (''raw_pressure_adc'', number (st_raw_pressure_adc step)),
     (''raw_humidity_adc'', number (st_raw_humidity_adc step)),
     (''raw_gas_resistance_adc'', number (st_raw_gas_resistance_adc step)),
     (''raw_gas_range'', number (st_raw_gas_range step)),
     (''repetition_multiplier'', number (st_repetition_multiplier step)),
     (''raw_heater_resistance'', number (st_raw_heater_resistance step)),
     (''raw_heater_current'', number (st_raw_heater_current step)),
     (''raw_gas_wait'', number (st_raw_gas_wait step))]"

definition scan_value :: "scan_record \<Rightarrow> json" where
  "scan_value scan = JObject
    [(''identity'', identity_value (pf_identity scan)),
     (''profile_id'', number (pf_profile_id scan)),
     (''profile_version'', number (pf_profile_version scan)),
     (''expected_steps'', number (pf_expected_steps scan)),
     (''observed_unique_steps'', number (pf_observed_unique_steps scan)),
     (''observed_field_count'', number (pf_observed_field_count scan)),
     (''reported_missing_steps'', number (pf_reported_missing_steps scan)),
     (''duplicate_steps'', number (pf_duplicate_steps scan)),
     (''duration_us'', number (pf_duration_us scan)),
     (''collection_flags'', number (pf_collection_flags scan)),
     (''finish_reason'', number (pf_finish_reason scan)),
     (''duplicate_count'', number (pf_duplicate_count scan)),
     (''overwritten_field_count'', number (pf_overwritten_field_count scan)),
     (''out_of_order_count'', number (pf_out_of_order_count scan)),
     (''ambiguous_index_jump_count'', number (pf_ambiguous_index_jump_count scan)),
     (''invalid_gas_index_count'', number (pf_invalid_gas_index_count scan)),
     (''intermediate_field_count'', number (pf_intermediate_field_count scan)),
     (''profile_rollover_count'', number (pf_profile_rollover_count scan)),
     (''fields_after_rollover_count'', number (pf_fields_after_rollover_count scan)),
     (''poll_count'', number (pf_poll_count scan)),
     (''expected_fragment_count'', number (pf_expected_fragment_count scan)),
     (''received_fragment_bitmap'', number (pf_received_fragment_bitmap scan)),
     (''duplicate_fragment_count'', number (pf_duplicate_fragment_count scan)),
     (''conflicting_fragment_count'', number (pf_conflicting_fragment_count scan)),
     (''steps'', JList (map step_value (pf_steps scan)))]"

definition health_value :: "health_record \<Rightarrow> json" where
  "health_value health = JObject
    [(''identity'', identity_value (hr_identity health)),
     (''health_flags'', number (hr_health_flags health)),
     (''reset_cause_raw'', number (hr_reset_cause_raw health)),
     (''successful_sensor_scans'', number (hr_successful_sensor_scans health)),
     (''failed_sensor_scans'', number (hr_failed_sensor_scans health)),
     (''incomplete_profiles'', number (hr_incomplete_profiles health)),
     (''i2c_errors'', number (hr_i2c_errors health)),
     (''radio_tx_errors'', number (hr_radio_tx_errors health)),
     (''dropped_profiles'', number (hr_dropped_profiles health)),
     (''dropped_fragments'', number (hr_dropped_fragments health)),
     (''overwritten_fields'', number (hr_overwritten_fields health)),
     (''current_sample_interval_ms'', number (hr_current_sample_interval_ms health)),
     (''firmware_version'', byte_list (hr_firmware_version health)),
     (''profile_id'', number (hr_profile_id health)),
     (''profile_version'', number (hr_profile_version health)),
     (''last_sensor_error'', number (hr_last_sensor_error health)),
     (''last_radio_error'', number (hr_last_radio_error health)),
     (''calibrated_mcu_temperature_centi_celsius'', optional signed_number (hr_calibrated_mcu_temperature_centi_celsius health)),
     (''calibrated_vdd_millivolt'', optional number (hr_calibrated_vdd_millivolt health))]"

definition source_value :: "source_fragment \<Rightarrow> json" where
  "source_value f = JObject
    [(''packet_id'', JNumber (sf_packet_id f)),
     (''fragment_index'', number (sf_fragment_index f)),
     (''received_at_unix_ms'', JNumber (sf_received_at_unix_ms f)),
     (''radio'', radio_value (sf_radio f))]"

section \<open>Printed values\<close>

definition identity_json :: "record_identity \<Rightarrow> json" where
  "identity_json i = JObject
    [(''common_flags'', number (ri_common_flags i)),
     (''node_id'', JText (hex_u64 (ri_node_id i))),
     (''boot_id'', JText (hex_u64 (ri_boot_id i))),
     (''scan_sequence'', number (ri_scan_sequence i)),
     (''uptime_ms'', JText (decimal (ri_uptime_ms i))),
     (''config_id'', JText (hex_u64 (ri_config_id i))),
     (''reset_cause_flags'', number (ri_reset_cause_flags i))]"

definition exactify_identity :: "record_identity \<Rightarrow> json \<Rightarrow> (json, 'e) result" where
  "exactify_identity i v = set_field ''identity'' (identity_json i) v"

definition configuration_json :: "device_configuration \<Rightarrow> (json, 'e) result" where
  "configuration_json c =
    and_then (exactify_identity (cf_identity c) (configuration_value c)) (\<lambda>v.
    and_then (set_field ''firmware_build_id'' (JText (hex_u64 (cf_firmware_build_id c))) v) (\<lambda>v.
    set_field ''calibration_hash'' (JText (hex_u64 (cf_calibration_hash c))) v))"

definition fragment_json :: "profile_fragment_view \<Rightarrow> radio_metadata option \<Rightarrow> (json, v2_render_error) result" where
  "fragment_json v radio =
    (let i = record_identity_of (fv_header v) in
     and_then (map_err RenderCodec (fragment_steps v)) (\<lambda>steps.
     Ok (JObject
      [(''protocol_version'', JNumber 2),
       (''frame_type'', JText (ascii ''profile_fragment'')),
       (''identity'', identity_json i),
       (''fragment_index'', number (h_fragment_index (fv_header v))),
       (''fragment_count'', number (h_fragment_count (fv_header v))),
       (''profile_id'', number (fv_profile_id v)),
       (''profile_version'', number (fv_profile_version v)),
       (''expected_step_count'', number (fv_expected_step_count v)),
       (''observed_unique_step_count'', number (fv_observed_unique_step_count v)),
       (''observed_field_count'', number (fv_observed_field_count v)),
       (''missing_steps_bitmap'', number (fv_missing_steps_bitmap v)),
       (''duplicate_steps_bitmap'', number (fv_duplicate_steps_bitmap v)),
       (''scan_duration_us'', number (fv_scan_duration_us v)),
       (''collection_flags'', number (fv_collection_flags v)),
       (''finish_reason'', number (fv_finish_reason v)),
       (''duplicate_count'', number (fv_duplicate_count v)),
       (''overwritten_field_count'', number (fv_overwritten_field_count v)),
       (''out_of_order_count'', number (fv_out_of_order_count v)),
       (''ambiguous_index_jump_count'', number (fv_ambiguous_index_jump_count v)),
       (''invalid_gas_index_count'', number (fv_invalid_gas_index_count v)),
       (''intermediate_field_count'', number (fv_intermediate_field_count v)),
       (''profile_rollover_count'', number (fv_profile_rollover_count v)),
       (''fields_after_rollover_count'', number (fv_fields_after_rollover_count v)),
       (''poll_count'', number (fv_poll_count v)),
       (''step_window_start'', number (fv_step_window_start v)),
       (''steps'', JList (map step_value steps)),
       (''radio'', optional radio_value radio)])))"

text \<open>The value of \<^verbatim>\<open>render_v2\<close>.\<close>

fun frame_value :: "decoded_frame \<Rightarrow> radio_metadata option \<Rightarrow> (json, v2_render_error) result" where
  "frame_value (DF_DeviceConfig h config) radio =
     and_then (device_configuration h config) (\<lambda>c.
     and_then (configuration_json c) (\<lambda>v.
     Ok (JObject
      [(''protocol_version'', JNumber 2), (''frame_type'', JText (ascii ''device_config'')), (''record'', v),
       (''radio'', optional radio_value radio)])))"
| "frame_value (DF_ProfileFragment v) radio = fragment_json v radio"
| "frame_value (DF_DeviceHealth h health) radio =
     (let r = device_health_record h health in
      and_then (exactify_identity (hr_identity r) (health_value r)) (\<lambda>v.
      Ok (JObject
       [(''protocol_version'', JNumber 2), (''frame_type'', JText (ascii ''device_health'')), (''record'', v),
        (''radio'', optional radio_value radio)])))"

definition render_reassembled_profile :: "reassembled_profile \<Rightarrow> (json, v2_render_error) result" where
  "render_reassembled_profile p =
    and_then (exactify_identity (pf_identity (rp_scan p)) (scan_value (rp_scan p))) (\<lambda>v.
    Ok (JObject
     [(''protocol_version'', JNumber 2), (''frame_type'', JText (ascii ''profile_scan'')), (''record'', v),
      (''receiver_fragments'', JList (map source_value (rp_fragments p)))]))"

definition status_json :: "bme68x_status \<Rightarrow> json" where
  "status_json s = JObject
    [(''bits'', number (bits s)), (''new_data'', JBool (is_new_data s)), (''gas_valid'', JBool (is_gas_measurement_valid s)),
     (''heater_stable'', JBool (is_heater_stable s)), (''unknown_bits'', number (unknown_bits s))]"

definition corrected_json :: "compensated_readings \<Rightarrow> json" where
  "corrected_json c = JObject
    [(''temperature_centi_celsius'', signed_number (centi_celsius (cr_temperature c))),
     (''pressure_pascal'', number (pascals (cr_pressure c))),
     (''humidity_milli_percent_rh'', number (milli_percent_rh (cr_humidity c))),
     (''gas_resistance_ohm'', number (ohms (cr_gas_resistance c)))]"

definition raw_json :: "raw_readings \<Rightarrow> json" where
  "raw_json r = JObject
    [(''temperature_adc'', number (rr_temperature_adc r)),
     (''pressure_adc'', number (rr_pressure_adc r)),
     (''humidity_adc'', number (rr_humidity_adc r)),
     (''gas_resistance_adc'', number (rr_gas_resistance_adc r)),
     (''gas_range'', number (rr_gas_range r)),
     (''gas_index'', number (rr_gas_index r)),
     (''measurement_index'', number (rr_measurement_index r)),
     (''heater_resistance'', number (rr_heater_resistance r)),
     (''heater_current'', number (rr_heater_current r)),
     (''gas_wait'', number (rr_gas_wait r))]"

definition frame_fields :: "telemetry_v1 \<Rightarrow> (string \<times> json) list" where
  "frame_fields t =
    [(''protocol_version'', number VERSION),
     (''node_id'', JText (hex_u64 (t1_node_id t))),
     (''sequence'', number (t1_sequence t)),
     (''status'', status_json (t1_sensor_status t)),
     (''corrected'', corrected_json (t1_compensated t)),
     (''raw'', raw_json (t1_raw t))]"

text \<open>\<^verbatim>\<open>render\<close>, and \<^verbatim>\<open>render_received\<close>, which adds a field after those of the frame.\<close>

fun telemetry_json :: "telemetry_v1 \<Rightarrow> radio_metadata option \<Rightarrow> json" where
  "telemetry_json t None = JObject (frame_fields t)"
| "telemetry_json t (Some radio) = JObject (frame_fields t @ [(''radio'', radio_value radio)])"

definition integrity_json :: "profile_key \<Rightarrow> int \<Rightarrow> u8 \<Rightarrow> json" where
  "integrity_json key packet_id fragment_index = JObject
    [(''receiver_event'', JText (ascii ''profile_integrity_update'')),
     (''protocol_version'', JNumber 2),
     (''node_id'', JText (hex_u64 (pk_node_id key))),
     (''boot_id_valid'', JBool (pk_boot_id_valid key)),
     (''boot_id'', JText (hex_u64 (pk_boot_id key))),
     (''scan_sequence'', number (pk_scan_sequence key)),
     (''scan_start_uptime_ms'', JText (decimal (pk_uptime_ms key))),
     (''config_id'', JText (hex_u64 (pk_config_id key))),
     (''source_packet_id'', JNumber packet_id),
     (''fragment_index'', number fragment_index),
     (''classification'', JText (ascii ''conflict'')),
     (''usable_for_analysis'', JBool False)]"

text \<open>The value that a line shows in the format of JSON lines.\<close>

fun line_value :: "output_line \<Rightarrow> (json, v2_render_error) result" where
  "line_value (TelemetryLine fmt t radio) = Ok (telemetry_json t radio)"
| "line_value (FrameLine fmt frame radio) = frame_value frame radio"
| "line_value (ProfileLine fmt p) = render_reassembled_profile p"
| "line_value (IntegrityLine fmt key packet_id fragment_index) = Ok (integrity_json key packet_id fragment_index)"

section \<open>Integers that JavaScript reads exactly\<close>

definition exact_integer :: "int \<Rightarrow> bool" where
  "exact_integer n \<longleftrightarrow> \<bar>n\<bar> < 2 ^ 53"

text \<open>All numbers in a value, except those that stand in a field with one of the names.\<close>

fun is_number :: "json \<Rightarrow> bool" where
  "is_number (JNumber n) \<longleftrightarrow> True"
| "is_number _ \<longleftrightarrow> False"

fun exact_except :: "string set \<Rightarrow> json \<Rightarrow> bool" where
  "exact_except names (JNumber n) \<longleftrightarrow> exact_integer n"
| "exact_except names (JList vs) \<longleftrightarrow> (\<forall>v \<in> set vs. exact_except names v)"
| "exact_except names (JObject members) \<longleftrightarrow>
     (\<forall>member \<in> set members. fst member \<in> names \<and> is_number (snd member) \<or> exact_except names (snd member))"
| "exact_except names _ \<longleftrightarrow> True"

text \<open>The numbers of the words that are printed as numbers, all of at most 32 bits.\<close>

lemma exact_word:
  "exact_integer (uint (a :: u8))" "exact_integer (uint (b :: u16))" "exact_integer (uint (c :: u32))"
  "exact_integer (sint (d :: i8))" "exact_integer (sint (e :: i16))"
proof -
  have "uint a < 2 ^ 8" "uint b < 2 ^ 16" "uint c < 2 ^ 32"
    using uint_lt2p [of a] uint_lt2p [of b] uint_lt2p [of c] by simp_all
  then show "exact_integer (uint a)" "exact_integer (uint b)" "exact_integer (uint c)"
    by (simp_all add: exact_integer_def)
  have "- (2 ^ 7) \<le> sint d \<and> sint d < 2 ^ 7" "- (2 ^ 15) \<le> sint e \<and> sint e < 2 ^ 15"
    using sint_ge [of d] sint_lt [of d] sint_ge [of e] sint_lt [of e] by simp_all
  then show "exact_integer (sint d)" "exact_integer (sint e)" by (auto simp: exact_integer_def)
qed

lemma exact_small: "exact_integer 2"
  by (simp add: exact_integer_def)

lemma exact_byte_list: "exact_except names (byte_list bs)"
  by (auto simp: byte_list_def exact_word)

lemma exact_optional:
  "exact_except names (optional signed_number (x :: i16 option))" "exact_except names (optional number (y :: u16 option))"
  by (cases x; cases y; simp add: exact_word)+

lemma exact_radio: "exact_except names (radio_value r)" "exact_except names (optional radio_value o_radio)"
proof -
  show one: "exact_except names (radio_value r)" for r by (simp add: radio_value_def exact_word)
  show "exact_except names (optional radio_value o_radio)" by (cases o_radio) (simp_all add: one)
qed

lemmas exact_values = exact_word exact_small exact_byte_list exact_optional exact_radio

lemma exact_steps: "exact_except names (heater_step_value h)" "exact_except names (step_value st)" "exact_except names (identity_json i)"
  by (simp_all add: heater_step_value_def step_value_def identity_json_def exact_values)

text \<open>The fields with numbers that the receiver itself adds: packet ids and times of reception.\<close>

definition receiver_fields :: "output_line \<Rightarrow> string set" where
  "receiver_fields line =
     (case line of
        ProfileLine fmt p \<Rightarrow> {''packet_id'', ''received_at_unix_ms''}
      | IntegrityLine fmt key packet_id fragment_index \<Rightarrow> {''source_packet_id''}
      | _ \<Rightarrow> {})"

lemma configuration_json_exact: "configuration_json c = Ok v \<Longrightarrow> exact_except names v"
  by (auto simp: configuration_json_def exactify_identity_def configuration_value_def exact_values exact_steps)

lemma frame_value_exact:
  assumes "frame_value frame radio = Ok v"
  shows "exact_except names v"
proof (cases frame)
  case (DF_DeviceConfig h c)
  then show ?thesis using assms by (auto simp: exact_values dest: configuration_json_exact)
next
  case (DF_ProfileFragment view)
  then show ?thesis using assms by (auto simp: fragment_json_def Let_def exact_values exact_steps)
next
  case (DF_DeviceHealth h d)
  then show ?thesis
    using assms by (auto simp: exactify_identity_def health_value_def Let_def exact_values exact_steps)
qed

text \<open>A decoded frame has a value, and it is printed.\<close>

lemma frame_value_Ok:
  assumes "decode bs = Ok d"
  shows "\<exists>v. frame_value d radio = Ok v"
proof (cases d)
  case (DF_DeviceConfig h c)
  obtain r where "(device_configuration h c :: (_, v2_render_error) result) = Ok r"
    using decoded_configuration_Ok [OF assms [unfolded DF_DeviceConfig]] by metis
  then show ?thesis
    by (simp add: DF_DeviceConfig configuration_json_def exactify_identity_def configuration_value_def)
next
  case (DF_ProfileFragment v)
  obtain steps where "fragment_valid v steps" using assms by (auto simp: decode_iff DF_ProfileFragment)
  then show ?thesis by (simp add: DF_ProfileFragment fragment_json_def fragment_steps_valid Let_def)
next
  case (DF_DeviceHealth h health)
  then show ?thesis by (simp add: exactify_identity_def health_value_def Let_def)
qed

text \<open>
  C23. No consumer loses precision on what a device sent or the radio measured: whatever was received, every number in the
  JSON value of a printed line is below 2 ^ 53 in size, because 64-bit identities, times and hashes are texts. The only
  numbers this does not bound are the packet ids and times of reception that the receiver adds to the source fragments
  of a profile, and the packet id of an integrity event; a line of a single frame has no exception.
\<close>

theorem printed_numbers_exact:
  assumes "line_value line = Ok v"
  shows "exact_except (receiver_fields line) v"
proof (cases line)
  case (TelemetryLine fmt t radio)
  then show ?thesis
    using assms by (cases radio)
      (auto simp: frame_fields_def status_json_def corrected_json_def raw_json_def exact_values)
next
  case (FrameLine fmt frame radio)
  then show ?thesis using assms frame_value_exact by simp
next
  case (ProfileLine fmt p)
  then have "exact_except (receiver_fields line) (source_value f)" for f
    by (simp add: receiver_fields_def source_value_def exact_values)
  then show ?thesis
    using assms ProfileLine
    by (auto simp: render_reassembled_profile_def exactify_identity_def scan_value_def exact_values exact_steps)
next
  case (IntegrityLine fmt key packet_id j)
  then show ?thesis using assms by (auto simp: receiver_fields_def integrity_json_def exact_values)
qed

end
