(* ===== verification/Rendering_Lossless.thy ===== *)
theory Rendering_Lossless
  imports Rendering
begin

text \<open>
  A printed value determines what it was printed from: the reading of version 1, the packet of version
  2, the reassembled profile with its sources.
\<close>

section \<open>Texts and words\<close>

definition digits_value :: "bytes \<Rightarrow> nat" where
  "digits_value str = foldl (\<lambda>n b. 10 * n + unat (b - 0x30)) 0 str"

lemma digits_value_decimal: "digits_value (decimal_digits n) = n"
proof (induction n rule: less_induct)
  case (less n)
  have digit: "unat (word_of_nat m :: u8) = m" if "m < 10" for m using that by (simp add: unat_of_nat)
  show ?case
  proof (cases "n < 10")
    case True
    then show ?thesis by (subst decimal_digits.simps) (simp add: digits_value_def digit)
  next
    case False
    then have "digits_value (decimal_digits (n div 10)) = n div 10" by (intro less.IH) simp
    then show ?thesis using False by (subst decimal_digits.simps) (simp add: digits_value_def digit)
  qed
qed

lemma decimal_inject: "decimal v = decimal w \<longleftrightarrow> v = w"
  unfolding decimal_def by (metis digits_value_decimal word_unat_eq_iff)

lemma number_inject: "uint v = uint w \<longleftrightarrow> v = w" "sint i = sint j \<longleftrightarrow> i = j"
  by (simp add: word_uint_eq_iff) (metis word_eq_iff_signed)

lemma byte_list_inject: "byte_list bs = byte_list bs' \<longleftrightarrow> bs = bs'"
proof -
  have "inj (number :: u8 \<Rightarrow> json)" by (simp add: inj_on_def number_inject)
  then show ?thesis by (simp add: byte_list_def inj_map_eq_map)
qed

lemma optional_inject:
  assumes "\<And>x y. f x = f y \<longleftrightarrow> x = y" and "\<And>x. f x \<noteq> JNull"
  shows "optional f a = optional f b \<longleftrightarrow> a = b"
  using assms by (cases a; cases b) (auto, metis+)

lemma radio_value_inject: "radio_value r = radio_value r' \<longleftrightarrow> r = r'"
  by (cases r; cases r') (simp add: radio_value_def number_inject)

lemmas value_inject = number_inject byte_list_inject decimal_inject hex_u64_inject radio_value_inject

lemma optional_values_inject:
  "optional signed_number (a :: i16 option) = optional signed_number b \<longleftrightarrow> a = b"
  "optional number (c :: u16 option) = optional number d \<longleftrightarrow> c = d"
  "optional radio_value r = optional radio_value r' \<longleftrightarrow> r = r'"
  by (rule optional_inject; (simp only: radio_value_inject)?; simp add: number_inject radio_value_def)+

section \<open>Structs\<close>

lemma identity_json_inject: "identity_json i = identity_json j \<longleftrightarrow> i = j"
  by (cases i; cases j) (simp add: identity_json_def value_inject)

lemma step_value_inject: "step_value a = step_value b \<longleftrightarrow> a = b"
  by (cases a; cases b) (simp add: step_value_def value_inject)

lemma heater_step_value_inject: "heater_step_value a = heater_step_value b \<longleftrightarrow> a = b"
  by (cases a; cases b) (simp add: heater_step_value_def value_inject)

lemma source_value_inject: "source_value a = source_value b \<longleftrightarrow> a = b"
  by (cases a; cases b) (simp add: source_value_def value_inject)

lemma map_values_inject:
  "map step_value xs = map step_value ys \<longleftrightarrow> xs = ys"
  "map heater_step_value hs = map heater_step_value hs' \<longleftrightarrow> hs = hs'"
  "map source_value ss = map source_value ss' \<longleftrightarrow> ss = ss'"
  by (simp_all add: inj_map_eq_map inj_on_def step_value_inject heater_step_value_inject source_value_inject)

lemma configuration_json_inject:
  assumes "configuration_json c = (Ok v :: (_, 'e) result)" and "configuration_json c' = (Ok v :: (_, 'e) result)"
  shows "c = c'"
  using assms
  by (auto simp: configuration_json_def exactify_identity_def configuration_value_def value_inject
      identity_json_inject map_values_inject intro: device_configuration.equality)

lemma scan_value_inject:
  assumes "exactify_identity (pf_identity s) (scan_value s) = (Ok v :: (_, 'e) result)"
    and "exactify_identity (pf_identity s') (scan_value s') = (Ok v :: (_, 'e) result)"
  shows "s = s'"
  using assms
  by (auto simp: exactify_identity_def scan_value_def value_inject identity_json_inject map_values_inject
      intro: scan_record.equality)

lemma health_value_inject:
  assumes "exactify_identity (hr_identity r) (health_value r) = (Ok v :: (_, 'e) result)"
    and "exactify_identity (hr_identity r') (health_value r') = (Ok v :: (_, 'e) result)"
  shows "r = r'"
  using assms
  by (auto simp: exactify_identity_def health_value_def value_inject identity_json_inject optional_values_inject
      intro: health_record.equality)

lemma telemetry_json_inject: "telemetry_json t radio = telemetry_json t' radio' \<longleftrightarrow> t = t' \<and> radio = radio'"
proof -
  have parts: "status_json a = status_json b \<longleftrightarrow> a = b" "corrected_json c = corrected_json d \<longleftrightarrow> c = d"
    "raw_json r = raw_json r' \<longleftrightarrow> r = r'" for a b c d r r'
  proof -
    show "status_json a = status_json b \<longleftrightarrow> a = b" by (cases a; cases b) (auto simp: status_json_def value_inject)
    show "corrected_json c = corrected_json d \<longleftrightarrow> c = d"
      by (cases c; cases d) (auto simp: corrected_json_def value_inject intro: temperature.expand pressure.expand
          relative_humidity.expand gas_resistance.expand)
    show "raw_json r = raw_json r' \<longleftrightarrow> r = r'" by (cases r; cases r') (auto simp: raw_json_def value_inject)
  qed
  have "frame_fields t = frame_fields t' \<longleftrightarrow> t = t'"
    by (cases t; cases t') (auto simp: frame_fields_def value_inject parts)
  moreover have "length (frame_fields t) = 6" for t by (simp add: frame_fields_def)
  ultimately show ?thesis
    by (cases radio; cases radio') (auto simp: value_inject dest: arg_cong [of _ _ length])
qed

section \<open>Packets\<close>

text \<open>What of a decoded frame determines the packet it was decoded from.\<close>

lemma decode_layout:
  assumes "decode bs = Ok d" and "decode bs' = Ok d'" and "h_frame_type (decoded_header d) = h_frame_type (decoded_header d')"
    and "h_common (decoded_header d) = h_common (decoded_header d')"
    and "h_fragment_index (decoded_header d) = h_fragment_index (decoded_header d')"
    and "h_fragment_count (decoded_header d) = h_fragment_count (decoded_header d')"
    and "decoded_payload d = decoded_payload d'"
  shows "bs = bs'"
proof -
  note d = assms(1) [unfolded decode_iff] and d' = assms(2) [unfolded decode_iff]
  have "unat (h_payload_len (decoded_header d)) = unat (h_payload_len (decoded_header d'))" using d d' assms(7) by simp
  then have "h_payload_len (decoded_header d) = h_payload_len (decoded_header d')" by (simp add: word_unat_eq_iff)
  then show ?thesis using d d' assms(3-7) by (simp add: header_layout_def)
qed

lemma record_identity_of_inject: "record_identity_of h = record_identity_of h' \<longleftrightarrow> h_common h = h_common h'"
  by (cases "h_common h"; cases "h_common h'") (simp add: record_identity_of_def)

lemma heater_steps_inject:
  assumes "map heater_step_record (enumerate i xs) = map heater_step_record (enumerate i ys)"
  shows "xs = ys"
  using assms
proof (induction xs arbitrary: i ys)
  case (Cons x xs)
  then obtain y ys' where ys: "ys = y # ys'" by (cases ys) auto
  have "x = y" using Cons.prems by (cases x; cases y) (simp add: ys heater_step_record_def)
  then show ?case using Cons by (simp add: ys)
next
  case Nil
  then show ?case by (cases ys) simp_all
qed

lemma device_configuration_layout:
  assumes "device_configuration h c = (Ok r :: (_, 'e) result)" and "device_configuration h' c' = (Ok r :: (_, 'e) result)"
  shows "h_common h = h_common h' \<and> config_layout c = config_layout c'"
proof -
  obtain used where used: "slice (dc_steps c) 0 (unat (dc_expected_step_count c)) = (Ok used :: (_, 'e) result)"
    using assms(1) by (auto simp: device_configuration_def)
  obtain used' where used': "slice (dc_steps c') 0 (unat (dc_expected_step_count c')) = (Ok used' :: (_, 'e) result)"
    using assms(2) by (auto simp: device_configuration_def)
  note eq = assms [unfolded device_configuration_def used used' and_then.simps Let_def sum.inject]
  note same = trans [OF eq(1) eq(2) [symmetric], unfolded device_configuration.ext_inject]
  have "used = used'" using same heater_steps_inject [of 0 used used'] by blast
  moreover have "used = take (unat (dc_expected_step_count c)) (dc_steps c)"
    "used' = take (unat (dc_expected_step_count c')) (dc_steps c')"
    using used used' by (auto simp: slice_def split: if_splits)
  moreover have "config_base_layout c = config_base_layout c'"
    unfolding config_base_layout_def using same by (elim conjE) (simp only:)
  moreover have "h_common h = h_common h'" using same unfolding record_identity_of_inject by blast
  ultimately show ?thesis by (simp add: config_layout_def)
qed

lemma device_health_layout:
  assumes "device_health_record h d = device_health_record h' d'"
  shows "h_common h = h_common h' \<and> health_layout d = health_layout d'"
proof -
  have "d = d'" using assms by (cases d; cases d') (simp add: device_health_record_def)
  then show ?thesis using assms by (simp add: device_health_record_def record_identity_of_inject)
qed

lemma profile_step_inject: "profile_step a = profile_step b \<longleftrightarrow> a = b"
  by (cases a; cases b) (simp add: profile_step_def)

lemma fragment_json_layout:
  assumes "fragment_valid v steps" and "fragment_valid v' steps'"
    and "fragment_json v radio = Ok x" and "fragment_json v' radio' = Ok x"
  shows "h_common (fv_header v) = h_common (fv_header v')" "h_fragment_index (fv_header v) = h_fragment_index (fv_header v')"
    "h_fragment_count (fv_header v) = h_fragment_count (fv_header v')" "fragment_layout v = fragment_layout v'" "radio = radio'"
proof -
  have json: "map step_value (map profile_step steps) = map step_value (map profile_step steps')"
    "identity_json (record_identity_of (fv_header v)) = identity_json (record_identity_of (fv_header v'))"
    "optional radio_value radio = optional radio_value radio'"
    and meta: "h_fragment_index (fv_header v) = h_fragment_index (fv_header v')"
    "h_fragment_count (fv_header v) = h_fragment_count (fv_header v')"
    "fv_profile_id v = fv_profile_id v'" "fv_profile_version v = fv_profile_version v'"
    "fv_expected_step_count v = fv_expected_step_count v'" "fv_observed_unique_step_count v = fv_observed_unique_step_count v'"
    "fv_observed_field_count v = fv_observed_field_count v'" "fv_missing_steps_bitmap v = fv_missing_steps_bitmap v'"
    "fv_duplicate_steps_bitmap v = fv_duplicate_steps_bitmap v'" "fv_scan_duration_us v = fv_scan_duration_us v'"
    "fv_collection_flags v = fv_collection_flags v'" "fv_finish_reason v = fv_finish_reason v'"
    "fv_duplicate_count v = fv_duplicate_count v'" "fv_overwritten_field_count v = fv_overwritten_field_count v'"
    "fv_out_of_order_count v = fv_out_of_order_count v'" "fv_ambiguous_index_jump_count v = fv_ambiguous_index_jump_count v'"
    "fv_invalid_gas_index_count v = fv_invalid_gas_index_count v'"
    "fv_intermediate_field_count v = fv_intermediate_field_count v'"
    "fv_profile_rollover_count v = fv_profile_rollover_count v'"
    "fv_fields_after_rollover_count v = fv_fields_after_rollover_count v'" "fv_poll_count v = fv_poll_count v'"
    "fv_step_window_start v = fv_step_window_start v'"
    using assms(3,4) by (auto simp: fragment_json_def fragment_steps_valid [OF assms(1)] fragment_steps_valid [OF assms(2)]
        value_inject Let_def)
  have "map profile_step steps = map profile_step steps'" using json(1) by (simp only: map_values_inject)
  then have steps: "steps = steps'" by (simp add: inj_map_eq_map inj_on_def profile_step_inject)
  have "unat (fv_steps_in_fragment v) = length steps" "unat (fv_steps_in_fragment v') = length steps'"
    using assms(1,2) steps_encode_length by (auto simp: fragment_valid_def unat_steps_in_fragment)
  then have "fv_steps_in_fragment v = fv_steps_in_fragment v'" using steps by (simp add: word_unat_eq_iff)
  moreover have "fv_step_bytes v = fv_step_bytes v'"
    using assms(1,2) steps by (simp add: fragment_valid_def steps_encode_def)
  ultimately show "fragment_layout v = fragment_layout v'" using meta by (simp add: fragment_layout_def fragment_meta_layout_def)
  show "h_common (fv_header v) = h_common (fv_header v')"
    using json(2) by (simp add: identity_json_inject record_identity_of_inject)
  show "radio = radio'" using json(3) by (simp add: optional_values_inject)
qed (use assms(3,4) in \<open>auto simp: fragment_json_def fragment_steps_valid [OF assms(1)] fragment_steps_valid [OF assms(2)]
        value_inject Let_def\<close>)

lemma frame_type_texts:
  "ascii ''device_config'' \<noteq> ascii ''device_health''" "ascii ''device_health'' \<noteq> ascii ''device_config''"
  by code_simp+

text \<open>
  C22. A printed frame of version 2 shows everything: from its JSON value the packet it was decoded from, byte
  for byte, and the radio measurements can be recovered.
\<close>

theorem printed_frame_determines_packet:
  assumes "decode bs = Ok d" and "decode bs' = Ok d'"
    and "frame_value d radio = Ok v" and "frame_value d' radio' = Ok v"
  shows "bs = bs' \<and> radio = radio'"
proof -
  note valid = assms(1,2) [unfolded decode_iff]
  show ?thesis
  proof (cases d)
    case d: (DF_DeviceConfig h c)
    then obtain h' c' where d': "d' = DF_DeviceConfig h' c'"
      using assms(3,4) by (cases d') (auto simp: fragment_json_def exactify_identity_def Let_def frame_type_texts)
    obtain r x where r: "(device_configuration h c :: (_, v2_render_error) result) = Ok r"
      "(configuration_json r :: (_, v2_render_error) result) = Ok x"
      using assms(3) d by auto
    obtain r' where r': "(device_configuration h' c' :: (_, v2_render_error) result) = Ok r'"
      "(configuration_json r' :: (_, v2_render_error) result) = Ok x" "optional radio_value radio = optional radio_value radio'"
      using assms(3,4) d d' r by auto
    have "r = r'" using r r' configuration_json_inject by blast
    then have "h_common h = h_common h' \<and> config_layout c = config_layout c'"
      using r(1) r'(1) device_configuration_layout by blast
    then show ?thesis
      using decode_layout [OF assms(1,2)] valid r'(3) by (simp add: d d' optional_values_inject)
  next
    case d: (DF_DeviceHealth h c)
    then obtain h' c' where d': "d' = DF_DeviceHealth h' c'"
      using assms(3,4) by (cases d') (auto simp: fragment_json_def exactify_identity_def Let_def frame_type_texts)
    let ?r = "device_health_record h c" and ?r' = "device_health_record h' c'"
    obtain x where x: "(exactify_identity (hr_identity ?r) (health_value ?r) :: (_, v2_render_error) result) = Ok x"
      "(exactify_identity (hr_identity ?r') (health_value ?r') :: (_, v2_render_error) result) = Ok x"
      "optional radio_value radio = optional radio_value radio'"
      using assms(3,4) d d' by (auto simp: Let_def)
    then have "h_common h = h_common h' \<and> health_layout c = health_layout c'"
      using health_value_inject device_health_layout by blast
    then show ?thesis
      using decode_layout [OF assms(1,2)] valid x(3) by (simp add: d d' optional_values_inject)
  next
    case d: (DF_ProfileFragment u)
    then obtain u' where d': "d' = DF_ProfileFragment u'"
      using assms(3,4) by (cases d') (auto simp: fragment_json_def exactify_identity_def Let_def)
    obtain steps steps' where "fragment_valid u steps" "fragment_valid u' steps'" using valid by (auto simp: d d')
    from fragment_json_layout [OF this] have "h_common (fv_header u) = h_common (fv_header u')"
      "h_fragment_index (fv_header u) = h_fragment_index (fv_header u')"
      "h_fragment_count (fv_header u) = h_fragment_count (fv_header u')" "fragment_layout u = fragment_layout u'" "radio = radio'"
      using assms(3,4) by (simp_all add: d d')
    then show ?thesis using decode_layout [OF assms(1,2)] valid by (simp add: d d')
  qed
qed

text \<open>
  C24. The JSON of a reading of version 1 and of a reassembled profile is lossless: equal values come from
  equal readings with equal radio measurements, and from equal profiles with equal sources.
\<close>

theorem printed_records_lossless:
  "(telemetry_json t radio = telemetry_json t' radio' \<longleftrightarrow> t = t' \<and> radio = radio')
   \<and> (render_reassembled_profile p = render_reassembled_profile p' \<longleftrightarrow> p = p')"
proof -
  have "p = p'" if same: "render_reassembled_profile p = render_reassembled_profile p'"
  proof -
    obtain v where v: "(exactify_identity (pf_identity (rp_scan p)) (scan_value (rp_scan p)) :: (_, v2_render_error) result) = Ok v"
      by (simp add: exactify_identity_def scan_value_def)
    obtain v' where v': "(exactify_identity (pf_identity (rp_scan p')) (scan_value (rp_scan p')) :: (_, v2_render_error) result) = Ok v'"
      by (simp add: exactify_identity_def scan_value_def)
    have "v = v'" "map source_value (rp_fragments p) = map source_value (rp_fragments p')"
      using same v v' by (simp_all add: render_reassembled_profile_def)
    then have "rp_scan p = rp_scan p'" "rp_fragments p = rp_fragments p'"
      using scan_value_inject [OF v] v' map_values_inject(3) by blast+
    then show ?thesis by simp
  qed
  then show ?thesis using telemetry_json_inject by blast
qed

end
