(* ===== verification/Receiver_Examples.thy ===== *)
theory Receiver_Examples
  imports Reassembly_Behaviour Receiver_Delivery Archive_Examples Console Rendering_Lossless
begin

text \<open>
  Runs of the receiving program on concrete packets: a scan of one fragment arrives, is archived,
  reassembled, stored and reported; a second fragment with the same key ends the program.
\<close>

section \<open>Packets and states\<close>

definition station_world :: "(unit, unit) world" where
  "station_world = \<lparr>w_order = rev, w_writes = (\<lambda>_ _. True), w_flushes = (\<lambda>_. True), w_notes = (\<lambda>_ _. True),
     w_protocol_text = (\<lambda>_. ''undecodable''), w_codec_text = (\<lambda>_. ''invalid''), w_app_text = (\<lambda>_. ''refused'')\<rparr>"

text \<open>The frames of a scan without steps; they differ in the fragment they are and in the steps they announce.\<close>

definition station_frame :: "u8 \<Rightarrow> u8 \<Rightarrow> u8 \<Rightarrow> u8 \<Rightarrow> u8 \<Rightarrow> bytes" where
  "station_frame j n steps missing start =
     [86, 83, 2, 2, 48, 3, j, n, 0, 42, 0, 0, 0, 0, 0, 0, 0, 161, 0, 0, 0, 0, 0, 0, 0, 178, 0, 0, 0, 7, 0, 0, 0, 0, 0, 1,
      226, 64, 0, 0, 0, 0, 0, 0, 0, 195, 0, 1, 1, 0, 0, 1, 0, 1, steps, 0, 0, 0, 0, missing, 0, 0, 0, 13, 187, 160, 0, 0, 0,
      0, 2] @ replicate 17 0 @ [20, start]"

definition station_view :: "u8 \<Rightarrow> u8 \<Rightarrow> u8 \<Rightarrow> u16 \<Rightarrow> u8 \<Rightarrow> profile_fragment_view" where
  "station_view j n steps missing start =
   \<lparr>fv_header = \<lparr>h_frame_type = ProfileFragment,
      h_common = \<lparr>c_flags = 3, c_node_id = 161, c_boot_id = 178, c_scan_sequence = 7, c_uptime_ms = 123456,
         c_config_id = 195, c_reset_cause_flags = 1\<rparr>,
      h_fragment_index = j, h_fragment_count = n, h_payload_len = 42\<rparr>,
    fv_profile_id = 1, fv_profile_version = 1, fv_expected_step_count = steps, fv_observed_unique_step_count = 0,
    fv_observed_field_count = 0, fv_missing_steps_bitmap = missing, fv_duplicate_steps_bitmap = 0,
    fv_scan_duration_us = 900000, fv_collection_flags = 0, fv_finish_reason = 2, fv_duplicate_count = 0,
    fv_overwritten_field_count = 0, fv_out_of_order_count = 0, fv_ambiguous_index_jump_count = 0,
    fv_invalid_gas_index_count = 0, fv_intermediate_field_count = 0, fv_profile_rollover_count = 0,
    fv_fields_after_rollover_count = 0, fv_poll_count = 20, fv_step_window_start = start, fv_steps_in_fragment = 0,
    fv_step_bytes = []\<rparr>"

definition station_packet :: "bytes \<Rightarrow> radio_packet" where
  "station_packet bs = \<lparr>rp_payload = bs, rp_metadata = bench_radio\<rparr>"

definition station_source :: source_fragment where
  "station_source = \<lparr>sf_packet_id = 1, sf_fragment_index = 0, sf_received_at_unix_ms = 1000,
     sf_radio = bench_radio\<rparr>"

text \<open>The program before and after the first of them, with the notes written so far.\<close>

definition station_start :: "diagnostic list \<Rightarrow> receiver" where
  "station_start notes = \<lparr>rv_database = empty_archive, rv_reassembler = reassembler_default, rv_output = [],
     rv_diagnostics = notes\<rparr>"

lemma station_decodes:
  "decode_any (station_frame 0 1 3 7 0) = Ok (DT_V2 (DF_ProfileFragment (station_view 0 1 3 7 0)))"
  "decode_any (station_frame 1 2 4 15 3) = Ok (DT_V2 (DF_ProfileFragment (station_view 1 2 4 15 3)))"
  by code_simp+


definition station_archived :: archive where
  "station_archived = tables_of (archive_v2_profile_fragment 1000 (station_frame 0 1 3 7 0)
     bench_radio (fv_header (station_view 0 1 3 7 0)) empty_archive)"

lemma station_archived_eq:
  "archive_v2_profile_fragment 1000 (station_frame 0 1 3 7 0) bench_radio
     (fv_header (station_view 0 1 3 7 0)) empty_archive
   = Ok (\<lparr>sp_id = 1, sp_received_at_unix_ms = 1000\<rparr>, station_archived)"
  by code_simp

fun completed_of :: "(ingest_result \<times> profile_reassembler, reassembly_error) result \<Rightarrow> reassembled_profile" where
  "completed_of (Inr (res, r)) = (case ig_event res of Complete p \<Rightarrow> p | _ \<Rightarrow> bench_profile)"
| "completed_of (Inl e) = bench_profile"

fun table_of :: "(ingest_result \<times> profile_reassembler, reassembly_error) result \<Rightarrow> profile_reassembler" where
  "table_of (Inr (res, r)) = r"
| "table_of (Inl e) = reassembler_default"

definition station_profile :: reassembled_profile where
  "station_profile = completed_of (ingest_at rev (station_view 0 1 3 7 0) station_source 5 reassembler_default)"

definition station_table :: profile_reassembler where
  "station_table = table_of (ingest_at rev (station_view 0 1 3 7 0) station_source 5 reassembler_default)"

lemma station_ingests:
  "ingest_at rev (station_view 0 1 3 7 0) station_source 5 reassembler_default =
     Ok (\<lparr>ig_event = Complete station_profile, ig_evicted = None, ig_integrity_snapshot = None\<rparr>, station_table)"
  by code_simp

definition station_database :: archive where
  "station_database = tables_of (insert_profile_scan station_profile station_archived)"

lemma station_inserts:
  "insert_profile_scan station_profile station_archived
     = Ok (\<lparr>so_id = 1, so_received_at_unix_ms = 1000\<rparr>, station_database)"
  by code_simp

lemma station_missing: "missing_fragment_bitmap (rp_scan station_profile) = (Ok 0 :: (u16, (unit, unit) app_error) result)"
  by code_simp

definition station_after :: "diagnostic list \<Rightarrow> receiver" where
  "station_after notes = \<lparr>rv_database = station_database, rv_reassembler = station_table,
     rv_output = [ProfileLine Human station_profile], rv_diagnostics = notes @ [ProfileNote 1 1000 0]\<rparr>"

definition station_key :: profile_key where
  "station_key = profile_key_of (fv_header (station_view 0 1 3 7 0))"

lemma station_empty: "archive_ok station_archived" "db_scans station_archived = []"
proof -
  have "operates empty_archive station_archived" using station_archived_eq by (rule operates.fragment)
  then show "archive_ok station_archived" using packet_store.operation_valid empty_archive_ok by blast
  show "db_scans station_archived = []" by code_simp
qed

lemma station_stores:
  "store_packet station_world Human 1000 5 (station_packet (station_frame 0 1 3 7 0)) (station_start notes)
     = (Ok ValidV2, station_after notes)"
proof -
  have "completed_elsewhere station_key 0 station_archived" by (simp add: completed_elsewhere_def station_empty(2))
  note queries = completed_elsewhere_queries [OF station_empty(1) this]
  have key: "profile_key_of (fv_header (station_view 0 1 3 7 0)) = station_key" by (simp add: station_key_def)
  have idx: "h_fragment_index (fv_header (station_view 0 1 3 7 0)) = 0" by (simp add: station_view_def)
  have idle: "\<not> contains_active station_key reassembler_default" by (simp add: contains_active_def reassembler_default_def)
  have payload: "rp_payload (station_packet bs) = bs" "rp_metadata (station_packet bs) = bench_radio" for bs
    by (simp_all add: station_packet_def)
  have source: "\<lparr>sf_packet_id = 1, sf_fragment_index = 0, sf_received_at_unix_ms = 1000,
     sf_radio = bench_radio\<rparr> = station_source" by (simp add: station_source_def)
  have world: "w_order station_world = rev" "w_writes station_world a b" "w_flushes station_world a" "w_notes station_world d e" for a b d e
    by (simp_all add: station_world_def)
  show ?thesis
    by (simp add: store_packet_def payload station_decodes(1) store_v2_def store_v2_frame_def perform_def database_def
        station_start_def station_archived_eq ingest_archived_profile_fragment_def Let_def key idx queries inspect_def idle
        query_def restore_incomplete_profiles_def produce_def reassemble_def source world station_ingests
        handle_profile_fragment_result_def persist_profile_def station_inserts write_line_def flush_def outcome_def
        station_missing note_line_def station_after_def)
qed

lemma station_world_ok: "visits_all (w_order station_world)"
  by (simp add: station_world_def visits_all_def)

lemma station_start_ok: "receiver_ok (station_start notes)"
  by (simp add: station_start_def receiver_ok_def empty_archive_ok reassembler_default_inv)

lemma station_after_ok: "receiver_ok (station_after notes)"
  using safeD(1) [OF safe_store_packet [OF station_world_ok] station_start_ok station_stores] .

section \<open>Runs\<close>

definition station_hears :: "receive_event option \<Rightarrow> int \<Rightarrow> bool \<Rightarrow> (unit, unit) iteration" where
  "station_hears event now stopping = \<lparr>it_stopping = stopping, it_deadline_now = 0, it_poll = (\<lambda>_. Ok event),
     it_wall_now = now, it_observed_at = 5, it_expire_now = 6\<rparr>"

definition station_session :: "(unit, unit) iteration list" where
  "station_session = [station_hears (Some (Packet (station_packet (station_frame 0 1 3 7 0)))) 1000 False,
     station_hears (Some (CrcError 0)) 1001 False, station_hears None 1002 True]"

lemma length_station_frame [simp]: "length (station_frame j n steps missing start) = 90"
  by (simp add: station_frame_def)

lemma station_radio_ok: "\<forall>i \<in> set station_session. sound_radio i"
  by (simp add: station_session_def station_hears_def sound_radio_def storable_def station_packet_def)

lemma station_started:
  "start_listening station_world Human 0 (Ok ()) (station_start []) = (Ok (), station_start [ListeningNote, ArchivingNote])"
  by (simp add: start_listening_def write_listen_startup_def reconcile_pending_profiles_def perform_def note_line_def
      station_world_def station_start_def query_def database_def incomplete_profiles_def incomplete_profiles_matching_def
      incomplete_rows_def pending_profile_fragments_def pending_rows_def empty_archive_def MAX_STARTUP_PENDING_FRAGMENTS_def
      restore_incomplete_profiles_def produce_def outcome_def)

lemma station_idle: "pr_active station_table = []"
  by code_simp

lemma station_run:
  "\<exists>s. listen station_world Human None None True 0 (Ok ()) 0 station_session empty_archive = Some (Ok (), s)"
proof -
  let ?s = "station_after [ListeningNote, ArchivingNote]"
  have start: "start_listening station_world Human 0 (Ok ())
      \<lparr>rv_database = empty_archive, rv_reassembler = reassembler_default, rv_output = [], rv_diagnostics = []\<rparr>
      = (Ok (), station_start [ListeningNote, ArchivingNote])"
    using station_started by (simp add: station_start_def)
  have idle: "pr_active (rv_reassembler ?s) = []" by (simp add: station_after_def station_idle)
  have world: "w_order station_world = rev" "w_notes station_world d e" for d e by (simp_all add: station_world_def)
  show ?thesis
    unfolding listen_def Let_def
    by (simp add: start station_session_def station_hears_def next_poll_def listen_iteration_def perform_def outcome_def
        station_stores produce_def persist_expired_profiles_def reassemble_def expire_older_than_def
        PROFILE_REASSEMBLY_TIMEOUT_def note_line_def world finish_listening_def drain_incomplete_def idle)
qed

text \<open>A packet that is not a frame, received while the output is broken.\<close>

theorem packet_archived_witness:
  "\<exists>r s'. store_packet (station_world\<lparr>w_notes := (\<lambda>_ _. False)\<rparr>) Human 7 5 (station_packet [1, 2]) (station_start []) = (r, s')
     \<and> recorded_once 7 [1, 2] bench_radio empty_archive (rv_database s')"
proof -
  obtain r s' where run: "store_packet (station_world\<lparr>w_notes := (\<lambda>_ _. False)\<rparr>) Human 7 5 (station_packet [1, 2])
      (station_start []) = (r, s')"
    by fastforce
  have "archive_ok (rv_database (station_start []))" using station_start_ok by (simp add: receiver_ok_def)
  from packet_archived [OF this _ run] run show ?thesis
    by (simp add: storable_def station_packet_def station_start_def)
qed

definition station_surroundings :: "schema_file \<Rightarrow> (unit, unit) surroundings" where
  "station_surroundings stored = \<lparr>en_broken_input = False, en_input = [], en_signals = True, en_file = Ok stored,
     en_replay_started = 0, en_radio = Ok (), en_started = 0, en_iterations = station_session\<rparr>"

theorem main_program_safe_witness:
  "\<exists>r s. main_program station_world (station_surroundings EmptyFile) (ListenCommand None None CliHuman) = Some (r, s)
     \<and> (\<exists>success. r = Ok success) \<and> archive_ok (rv_database s)"
proof -
  have "\<exists>s. run station_world (station_surroundings EmptyFile) (ListenCommand None None CliHuman) = Some (Ok (), s)"
    using station_run by (simp add: station_surroundings_def)
  then obtain r s where run:
    "main_program station_world (station_surroundings EmptyFile) (ListenCommand None None CliHuman) = Some (r, s)"
    by (auto simp: main_program_def Let_def)
  have "\<forall>i \<in> set station_session. \<forall>t. \<not> panics (it_poll i t)" using station_radio_ok by (simp add: sound_radio_def)
  from main_program_safe [OF station_world_ok _ _ _ _ run] this run show ?thesis
    by (auto simp: station_surroundings_def panics_def)
qed

text \<open>
  A file of the second schema with one packet: it is opened when its reading and its draft refer to that
  packet, and refused when the draft refers to a packet that is missing.
\<close>

definition station_row :: packet_row where
  "station_row = \<lparr>rk_id = 4, rk_received_at_unix_ms = 1000, rk_radio = bench_radio, rk_protocol_version = Some 2,
     rk_frame_type = Some 2, rk_disposition = ProtocolV2, rk_decode_error = None, rk_payload = [1, 2]\<rparr>"

theorem initialize_lossless_witness:
  "initialize (SchemaTwo [station_row] [] [4]) = Ok (empty_archive\<lparr>db_packets := [station_row]\<rparr>)
     \<and> archive_ok (empty_archive\<lparr>db_packets := [station_row]\<rparr>)
     \<and> initialize (SchemaTwo [station_row] [] [4, 5]) = fail (MigrationForeignKeyViolations 1)
     \<and> \<not> migrates (SchemaTwo [station_row] [] [4, 5])"
proof -
  have ok: "file_ok (SchemaTwo [station_row] [] drafts)" for drafts
    by (simp add: archive_ok_defs empty_archive_def station_row_def)
  have opened: "initialize (SchemaTwo [station_row] [] [4]) = Ok (empty_archive\<lparr>db_packets := [station_row]\<rparr>)"
    "initialize (SchemaTwo [station_row] [] [4, 5]) = fail (MigrationForeignKeyViolations 1)"
    by (simp_all add: migrate_schema_two_def foreign_key_violations_def station_row_def List.map_filter_def empty_archive_def)
  show ?thesis
    using initialize_lossless [OF ok, of "[4]"] initialize_lossless [OF ok, of "[4, 5]"] opened by simp
qed

theorem listen_refines_session_witness:
  "\<exists>s. listen station_world Human None None True 0 (Ok ()) 0 station_session empty_archive = Some (Ok (), s)
     \<and> packet_log (rv_database s) = [(1000, bench_radio, station_frame 0 1 3 7 0)]
     \<and> last (rv_diagnostics s) = StoppedNote 1 0 0 1 0"
proof -
  obtain s where run: "listen station_world Human None None True 0 (Ok ()) 0 station_session empty_archive = Some (Ok (), s)"
    using station_run by blast
  have "session None None station_session no_counts = ([(1000, bench_radio, station_frame 0 1 3 7 0)],
      Some \<lparr>ct_valid_frames = 1, ct_header_errors = 0, ct_crc_errors = 1, ct_unsupported_packets = 0, ct_protocol_errors = 0\<rparr>)"
    by (simp add: station_session_def station_hears_def next_poll_def station_packet_def station_decodes no_counts_def)
  moreover have "packet_log empty_archive = []" by (simp add: packet_log_def raw_packets_def empty_archive_def)
  ultimately show ?thesis
    using listen_refines_session [OF station_world_ok station_radio_ok _ empty_archive_ok run] run
    by (auto simp: stopped_note_def)
qed

theorem completed_scan_abort_witness:
  "\<exists>s'. listen_loop station_world Human None None
      [station_hears (Some (Packet (station_packet (station_frame 1 2 4 15 3)))) 1001 False] no_counts (station_after [])
      = Some (fail (ReassemblyFailure InternalState), s')"
proof -
  let ?packet = "station_packet (station_frame 1 2 4 15 3)" and ?view = "station_view 1 2 4 15 3"
  let ?i = "station_hears (Some (Packet ?packet)) 1001 False"
  have key: "profile_key_of (fv_header ?view) = station_key"
    by (simp add: station_key_def station_view_def profile_key_of_def)
  have idx: "h_fragment_index (fv_header ?view) = 1" by (simp add: station_view_def)
  have "map cp_key (pr_completed station_table) = [station_key]" by code_simp
  then have "station_key \<in> cp_key ` set (pr_completed station_table)" by (metis list.set_intros(1) list.set_map)
  then have completed: "profile_key_of (fv_header ?view) \<in> cp_key ` set (pr_completed (rv_reassembler (station_after [])))"
    by (simp add: key station_after_def)
  have "completed_elsewhere station_key 1 station_database" by code_simp
  then have elsewhere: "completed_elsewhere (profile_key_of (fv_header ?view)) (h_fragment_index (fv_header ?view))
      (rv_database (station_after []))"
    by (simp add: key idx station_after_def)
  have "decode_any (rp_payload ?packet) = Ok (DT_V2 (DF_ProfileFragment ?view))"
    by (simp add: station_packet_def station_decodes)
  moreover have "storable (it_wall_now ?i) (rp_payload ?packet)"
    by (simp add: station_packet_def station_hears_def storable_def)
  moreover have "next_poll None None ?i no_counts = Some POLL_TIME" "it_poll ?i POLL_TIME = Ok (Some (Packet ?packet))"
    by (simp_all add: next_poll_def station_hears_def)
  ultimately show ?thesis
    using completed_scan_abort [OF station_after_ok _ _ completed elsewhere, of ?packet ?i] by blast
qed

section \<open>A scan of two frames\<close>

text \<open>The sample scan has two frames, of which the second is heard first.\<close>

definition station_heard :: "encoded_profile \<Rightarrow> nat \<Rightarrow> (unit, unit) iteration" where
  "station_heard p j = station_hears (Some (Packet (station_packet (frame_bytes p j)))) (1000 + int j) False"

lemma station_reception:
  assumes "encode_profile sample_common sample_scan = Ok p"
  shows "reception station_world sample_common sample_scan p (station_heard p) (\<lambda>_. bench_radio) (initial_receiver empty_archive)"
proof -
  have "hears p bench_radio [] j (station_heard p j)" if "j < 2" for j
    using that by (simp add: hears_def station_heard_def station_hears_def station_packet_def PROFILE_REASSEMBLY_TIMEOUT_def)
  moreover have "unknown_scan key (initial_receiver empty_archive)" for key
    by (simp add: unknown_scan_def initial_receiver_def empty_archive_def reassembler_default_def contains_active_def
        active_len_def DEFAULT_MAX_ACTIVE_SCANS_def)
  moreover have "pr_active (rv_reassembler (initial_receiver empty_archive)) = []"
    by (simp add: initial_receiver_def reassembler_default_def)
  ultimately show ?thesis
    using station_world_ok sample_wf(3) assms empty_archive_ok reassembler_default_inv
    by (simp add: reception_def writable_def station_world_def receiver_ok_def initial_receiver_def sample_count)
qed

theorem scan_archived_witness:
  "\<exists>p ids s c. encode_profile sample_common sample_scan = Ok p
     \<and> listen_loop station_world Human None None [station_heard p 1, station_heard p 0, station_hears None 9 True] no_counts
         (initial_receiver empty_archive) = Some (Ok c, s)
     \<and> ct_valid_frames c = 2
     \<and> scan_stored sample_common sample_scan p (station_heard p) (\<lambda>_. bench_radio) ids [1, 0] empty_archive (rv_database s)
     \<and> length (rv_output s) = 1"
proof -
  obtain p where p: "encode_profile sample_common sample_scan = Ok p" using sample_scan_encodes by blast
  have polls: "keeps_polling None None (station_heard p) no_counts [1, 0]"
    by (simp add: keeps_polling_def next_poll_def station_heard_def station_hears_def less_Suc_eq)
  from scan_archived [OF station_reception [OF p] sample_order [OF p] polls, of Human] obtain ids s where
    "\<And>rest. listen_loop station_world Human None None (map (station_heard p) [1, 0] @ rest) no_counts (initial_receiver empty_archive)
       = listen_loop station_world Human None None rest (no_counts\<lparr>ct_valid_frames := ct_valid_frames no_counts + 2\<rparr>) s"
    "scan_stored sample_common sample_scan p (station_heard p) (\<lambda>_. bench_radio) ids [1, 0] empty_archive (rv_database s)"
    "length (rv_output s) = 1"
    by (auto simp: initial_receiver_def)
  moreover from this(1) [of "[station_hears None 9 True]"]
  have "listen_loop station_world Human None None [station_heard p 1, station_heard p 0, station_hears None 9 True] no_counts
      (initial_receiver empty_archive) = Some (Ok (no_counts\<lparr>ct_valid_frames := 2\<rparr>), s)"
    by (simp add: next_poll_def station_hears_def no_counts_def)
  ultimately show ?thesis using p by fastforce
qed

section \<open>Streams\<close>

lemma station_streams: "working_streams station_world"
  by (simp add: working_streams_def station_world_def)

lemma short_text: "text_result [0x30] = fail (HexFailure (HE_OddLength 1))"
  by (simp add: text_result_def parse_payload_hex_def)

text \<open>A blank line, a line that is too short, and a line that is not UTF-8.\<close>

theorem decode_stream_exact_witness:
  "decode_stream station_world Human False [0x20, 0x0d, 0x0a, 0x30, 0x0a, 0xff, 0x0a] (station_start [])
   = (fail Io, station_start [StreamNote 2 ''refused''])"
proof -
  have read: "read_lines False [0x20, 0x0d, 0x0a, 0x30, 0x0a, 0xff, 0x0a] = map Some [[0x20], [0x30]] @ [None]" by code_simp
  have "numbered 0 [[0x20], [0x30]] = [(2, [0x30])]" by code_simp
  then have "frame_lines Human (numbered 0 [[0x20], [0x30]]) = []"
    "complaints station_world (numbered 0 [[0x20], [0x30]]) = [StreamNote 2 ''refused'']"
    by (simp_all add: frame_lines_def complaints_def station_world_def short_text)
  then show ?thesis
    using decode_stream_exact [OF station_streams read] by (simp add: station_start_def)
qed

theorem hex_stream_roundtrip_witness:
  "decode_stream station_world JsonLines False ([0x20] @ to_hex (station_frame 0 1 3 7 0) @ [0x09, 0x0a]) (station_start [])
     = (Ok (), (station_start [])\<lparr>rv_output := [FrameLine JsonLines (DF_ProfileFragment (station_view 0 1 3 7 0)) None]\<rparr>)"
  using hex_stream_roundtrip [OF station_streams, of "[([0x20], station_frame 0 1 3 7 0, [0x09])]"
      "[DT_V2 (DF_ProfileFragment (station_view 0 1 3 7 0))]" JsonLines "station_start []"]
  by (simp add: blank_def hex_line_def station_decodes station_start_def)

section \<open>Printed values\<close>

theorem printed_numbers_exact_witness:
  "\<exists>v. frame_value (DF_ProfileFragment (station_view 0 1 3 7 0)) (Some bench_radio) = Ok v \<and> exact_except {} v"
proof -
  obtain v where v: "frame_value (DF_ProfileFragment (station_view 0 1 3 7 0)) (Some bench_radio) = Ok v"
    using frame_value_Ok [OF decode_any_Ok(1) [OF station_decodes(1)]] by blast
  then have "line_value (FrameLine JsonLines (DF_ProfileFragment (station_view 0 1 3 7 0)) (Some bench_radio)) = Ok v" by simp
  from printed_numbers_exact [OF this] v show ?thesis by (auto simp: receiver_fields_def)
qed

theorem printed_frame_determines_packet_witness:
  "\<exists>bs frame v. decode (station_frame 0 1 3 7 0) = Ok frame \<and> frame_value frame (Some bench_radio) = Ok v
     \<and> decode bs = Ok frame \<and> bs = station_frame 0 1 3 7 0"
proof -
  note frame = decode_any_Ok(1) [OF station_decodes(1)]
  obtain v where v: "frame_value (DF_ProfileFragment (station_view 0 1 3 7 0)) (Some bench_radio) = Ok v"
    using frame_value_Ok [OF frame] by blast
  show ?thesis using printed_frame_determines_packet [OF frame frame v v] frame v by blast
qed

end
