(* ===== verification/Texts.thy ===== *)
theory Texts
  imports Dispatch Archive_Invariant
begin

text \<open>
  The texts of decode failures (\<^verbatim>\<open>impl Display\<close> in \<^verbatim>\<open>crates/vesta-protocol/src/lib.rs\<close> and \<^verbatim>\<open>v2.rs\<close>), and the
  pieces texts are made of. The text of a version 2 error is the one that \<^verbatim>\<open>derive(Debug)\<close> gives it; the names
  of fields in it are identifiers, of which no character is escaped.
\<close>

section \<open>Numbers\<close>

text \<open>\<^verbatim>\<open>{}\<close> of an unsigned number.\<close>

fun nat_text :: "nat \<Rightarrow> string" where
  "nat_text n = (if n < 10 then [char_of (48 + n)] else nat_text (n div 10) @ [char_of (48 + n mod 10)])"

declare nat_text.simps [simp del]

definition int_text :: "int \<Rightarrow> string" where
  "int_text i = (if i < 0 then ''-'' else '''') @ nat_text (nat \<bar>i\<bar>)"

abbreviation word_text :: "'a::len word \<Rightarrow> string" where "word_text w \<equiv> nat_text (unat w)"

text \<open>\<^verbatim>\<open>{:02x}\<close> of a byte, and of the bytes of a number.\<close>

definition hex_text :: "bytes \<Rightarrow> string" where
  "hex_text bs = map (\<lambda>b. char_of (unat b)) (to_hex bs)"

definition bool_text :: "bool \<Rightarrow> string" where
  "bool_text b = (if b then ''true'' else ''false'')"

definition digit :: "char \<Rightarrow> bool" where
  "digit c \<longleftrightarrow> 48 \<le> (of_char c :: nat) \<and> (of_char c :: nat) \<le> 57"

lemma nat_text_digits: "c \<in> set (nat_text n) \<Longrightarrow> digit c"
proof (induction n rule: nat_text.induct)
  case (1 n)
  have "digit (char_of (48 + k))" if "k < 10" for k :: nat
    using that by (simp add: digit_def)
  then show ?case
    using 1 by (subst (asm) (2) nat_text.simps) (auto split: if_splits)
qed

lemma nat_text_nonempty [simp]: "nat_text n \<noteq> []"
  by (subst nat_text.simps) simp

definition text_value :: "string \<Rightarrow> nat" where
  "text_value = foldl (\<lambda>v c. 10 * v + (of_char c - 48)) 0"

lemma text_value_nat [simp]: "text_value (nat_text n) = n"
proof (induction n rule: nat_text.induct)
  case (1 n)
  then show ?case by (subst nat_text.simps) (simp add: text_value_def)
qed

lemma nat_text_inject [simp]: "nat_text a = nat_text b \<longleftrightarrow> a = b"
  by (metis text_value_nat)

lemma int_text_inject [simp]: "int_text i = int_text j \<longleftrightarrow> i = j"
proof
  have "CHR ''-'' \<notin> set (nat_text n)" for n using nat_text_digits [of "CHR ''-''" n] by (auto simp: digit_def)
  then have "nat_text n \<noteq> CHR ''-'' # str" for n str by (metis list.set_intros(1))
  then show "i = j" if "int_text i = int_text j"
    using that by (auto simp: int_text_def split: if_splits) metis+
qed simp

text \<open>A number ends where its digits end.\<close>

lemma digits_before:
  assumes "\<forall>c \<in> set xs. digit c" and "\<forall>c \<in> set ys. digit c" and "\<not> digit c" and "\<not> digit d"
  shows "xs @ c # us = ys @ d # vs \<longleftrightarrow> xs = ys \<and> c = d \<and> us = vs"
proof
  assume eq: "xs @ c # us = ys @ d # vs"
  have "takeWhile digit (xs @ c # us) = xs" "takeWhile digit (ys @ d # vs) = ys"
    using assms by (simp_all add: takeWhile_append)
  then have "xs = ys" using eq by metis
  then show "xs = ys \<and> c = d \<and> us = vs" using eq by simp
qed simp

lemma nat_text_delimited [simp]:
  "\<not> digit c \<Longrightarrow> \<not> digit d \<Longrightarrow> nat_text a @ c # us = nat_text b @ d # vs \<longleftrightarrow> a = b \<and> c = d \<and> us = vs"
  using digits_before [of "nat_text a" "nat_text b" c d us vs] nat_text_digits by auto

lemma hex_text_inject [simp]: "hex_text xs = hex_text ys \<longleftrightarrow> xs = ys"
proof
  have "inj (\<lambda>b :: u8. char_of (unat b) :: char)"
  proof
    fix x y :: u8
    assume "char_of (unat x) = (char_of (unat y) :: char)"
    then have "of_char (char_of (unat x) :: char) = (of_char (char_of (unat y) :: char) :: nat)" by simp
    then show "x = y"
      using unsigned_less [of x, where 'a = nat] unsigned_less [of y, where 'a = nat] by (simp add: unsigned_word_eqI)
  qed
  then show "xs = ys" if "hex_text xs = hex_text ys"
    using that to_hex_inject by (simp add: hex_text_def inj_map_eq_map)
qed simp

lemma length_hex_text [simp]: "length (hex_text bs) = 2 * length bs"
  by (induction bs) (simp_all add: hex_text_def to_hex_def nibbles_def)

lemma hex_text_prefix [simp]:
  "length xs = length ys \<Longrightarrow> hex_text xs @ us = hex_text ys @ vs \<longleftrightarrow> xs = ys \<and> us = vs"
  by (simp add: append_eq_append_conv)

section \<open>Lists of numbers\<close>

text \<open>\<^verbatim>\<open>{:?}\<close> of an array of bytes.\<close>

fun items_text :: "bytes \<Rightarrow> string" where
  "items_text [] = '']''"
| "items_text (b # bs) = word_text b @ (if bs = [] then '''' else '', '') @ items_text bs"

definition list_text :: "bytes \<Rightarrow> string" where
  "list_text bs = ''['' @ items_text bs"

lemma not_digits [simp]:
  "\<not> digit CHR '',''" "\<not> digit CHR '']''" "\<not> digit CHR '' ''" "\<not> digit CHR '')''" "\<not> digit CHR ''.''" "\<not> digit CHR ''=''"
  "\<not> digit CHR ''-''" "\<not> digit CHR 0x0A"
  by (simp_all add: digit_def)

lemma unat_inject: "unat (v :: 'a::len word) = unat w \<longleftrightarrow> v = w"
  by (rule iffI) (simp_all add: unsigned_word_eqI)

lemma items_text_starts: "nat_text n @ us \<noteq> CHR '']'' # vs" "CHR '']'' # vs \<noteq> nat_text n @ us"
proof -
  have "\<exists>c cs. nat_text n = c # cs \<and> digit c"
    using nat_text_digits [of _ n] nat_text_nonempty [of n] by (cases "nat_text n") auto
  then show "nat_text n @ us \<noteq> CHR '']'' # vs" "CHR '']'' # vs \<noteq> nat_text n @ us"
    using not_digits(2) by auto
qed

lemma items_text_inject: "items_text xs @ us = items_text ys @ vs \<longleftrightarrow> xs = ys \<and> us = vs"
proof (induction xs arbitrary: ys)
  case Nil
  then show ?case by (cases ys) (simp_all add: items_text_starts)
next
  case (Cons x xs)
  show ?case
  proof (cases ys)
    case Nil
    then show ?thesis by (simp add: items_text_starts)
  next
    case ys: (Cons y ys')
    show ?thesis
    proof (cases "xs = [] \<or> ys' = []")
      case True
      then show ?thesis unfolding ys by (cases xs; cases ys') (simp_all add: unat_inject)
    next
      case False
      then have "items_text (x # xs) @ us = items_text (y # ys') @ vs \<longleftrightarrow> x = y \<and> items_text xs @ us = items_text ys' @ vs"
        by (simp add: unat_inject)
      then show ?thesis unfolding ys using Cons.IH [of ys'] by simp
    qed
  qed
qed

section \<open>Decode failures\<close>

fun decode_error_text :: "decode_error \<Rightarrow> string" where
  "decode_error_text (DE_WrongLength expected actual) =
     ''wrong frame length: expected '' @ nat_text expected @ '', got '' @ nat_text actual"
| "decode_error_text (DE_InvalidMagic found) =
     ''invalid frame magic: expected '' @ hex_text MAGIC @ '', got '' @ hex_text found"
| "decode_error_text (DE_UnsupportedVersion found) = ''unsupported frame version: '' @ word_text found"

text \<open>\<^verbatim>\<open>derive(Debug)\<close>.\<close>

fun v2_error_text :: "v2_error \<Rightarrow> string" where
  "v2_error_text (WrongLength expected actual) =
     ''WrongLength { expected: '' @ nat_text expected @ '', actual: '' @ nat_text actual @ '' }''"
| "v2_error_text (FrameTooLong len) = ''FrameTooLong('' @ nat_text len @ '')''"
| "v2_error_text (InvalidMagic found) = ''InvalidMagic('' @ list_text found @ '')''"
| "v2_error_text (UnsupportedVersion found) = ''UnsupportedVersion('' @ word_text found @ '')''"
| "v2_error_text (InvalidHeaderLength found) = ''InvalidHeaderLength('' @ word_text found @ '')''"
| "v2_error_text (UnknownFrameType found) = ''UnknownFrameType('' @ word_text found @ '')''"
| "v2_error_text (InvalidFragmentCount found) = ''InvalidFragmentCount('' @ word_text found @ '')''"
| "v2_error_text (InvalidFragmentIndex i n) =
     ''InvalidFragmentIndex { index: '' @ word_text i @ '', count: '' @ word_text n @ '' }''"
| "v2_error_text (InvalidField field) = ''InvalidField('' @ [CHR 0x22] @ field @ [CHR 0x22] @ '')''"
| "v2_error_text (UnknownFlags field flags) =
     ''UnknownFlags { field: '' @ [CHR 0x22] @ field @ [CHR 0x22] @ '', bits: '' @ word_text flags @ '' }''"
| "v2_error_text (ConfigIdMismatch h calculated) =
     ''ConfigIdMismatch { header: '' @ word_text h @ '', calculated: '' @ word_text calculated @ '' }''"
| "v2_error_text StepIndexOutOfBounds = ''StepIndexOutOfBounds''"
| "v2_error_text BufferExhausted = ''BufferExhausted''"

fun protocol_error_text :: "protocol_decode_error \<Rightarrow> string" where
  "protocol_error_text (PD_TruncatedDiscriminator actual) =
     ''truncated Vesta discriminator: got '' @ nat_text actual @ '' bytes''"
| "protocol_error_text (PD_InvalidMagic found) =
     ''invalid frame magic: expected '' @ hex_text MAGIC @ '', got '' @ hex_text found"
| "protocol_error_text (PD_UnsupportedVersion found) = ''unsupported frame version: '' @ word_text found"
| "protocol_error_text (PD_V1 err) = ''invalid protocol-v1 frame: '' @ decode_error_text err"
| "protocol_error_text (PD_V2 err) = ''invalid protocol-v2 frame: '' @ v2_error_text err"

section \<open>A text determines its error\<close>

lemma decode_error_text_inject: "decode_error_text a = decode_error_text b \<longleftrightarrow> a = b"
  by (cases a; cases b) (simp_all add: unat_inject)

lemma digits_after:
  assumes "\<forall>c \<in> set xs. digit c" and "\<forall>c \<in> set ys. digit c" and "\<not> digit c" and "\<not> digit d"
  shows "us @ c # xs = vs @ d # ys \<longleftrightarrow> us = vs \<and> c = d \<and> xs = ys"
proof -
  have "us @ c # xs = vs @ d # ys \<longleftrightarrow> rev xs @ c # rev us = rev ys @ d # rev vs"
    by (subst rev_is_rev_conv [symmetric]) simp
  then show ?thesis using digits_before [of "rev xs" "rev ys" c d "rev us" "rev vs"] assms by auto
qed

lemma flags_text_inject:
  "field @ [CHR 0x22] @ '', bits: '' @ nat_text a @ '' }'' = field' @ [CHR 0x22] @ '', bits: '' @ nat_text b @ '' }''
    \<longleftrightarrow> field = field' \<and> a = b"
proof -
  have "field @ [CHR 0x22] @ '', bits: '' @ nat_text a @ '' }'' = ((field @ CHR 0x22 # '', bits:'') @ CHR '' '' # nat_text a) @ '' }''"
    for field a
    by simp
  then have "field @ [CHR 0x22] @ '', bits: '' @ nat_text a @ '' }'' = field' @ [CHR 0x22] @ '', bits: '' @ nat_text b @ '' }''
      \<longleftrightarrow> (field @ CHR 0x22 # '', bits:'') @ CHR '' '' # nat_text a = (field' @ CHR 0x22 # '', bits:'') @ CHR '' '' # nat_text b"
    by (simp only: append_same_eq)
  also have "\<dots> \<longleftrightarrow> field = field' \<and> a = b"
    using nat_text_digits by (subst digits_after) auto
  finally show ?thesis .
qed

lemma list_text_prefix: "list_text xs @ us = list_text ys @ vs \<longleftrightarrow> xs = ys \<and> us = vs"
  by (simp add: list_text_def items_text_inject)

lemma list_text_inject: "list_text xs = list_text ys \<longleftrightarrow> xs = ys"
  using list_text_prefix [of xs "[]" ys "[]"] by simp

lemma v2_error_text_inject: "v2_error_text a = v2_error_text b \<longleftrightarrow> a = b"
  by (cases a; cases b) (simp_all add: unat_inject list_text_inject flags_text_inject [simplified])

lemma protocol_error_text_inject: "protocol_error_text a = protocol_error_text b \<longleftrightarrow> a = b"
  by (cases a; cases b) (simp_all add: unat_inject decode_error_text_inject v2_error_text_inject)

end
