(* ===== verification/Human_Text.thy ===== *)
theory Human_Text
  imports Texts Radio
begin

text \<open>
  The readable form of a version 1 reading (\<^verbatim>\<open>HumanFrame\<close> and \<^verbatim>\<open>HumanReceivedFrame\<close> in
  \<^verbatim>\<open>crates/vesta-receiver/src/lib.rs\<close>), with the binary floating point numbers in it: the quotient of an integer
  and a power of ten, rounded to 24 bits (\<^verbatim>\<open>f32\<close>) or 53 bits (\<^verbatim>\<open>f64\<close>) to nearest, ties to even, and printed
  with a fixed number of decimals, rounded again. The quotients are zero or between \<open>2 ^ -10\<close> and \<open>2 ^ 32\<close> in
  size, so that no exponent leaves its range.
\<close>

section \<open>Floating point quotients\<close>

text \<open>\<open>a / b\<close> rounded to the nearest integer, to the even one of two.\<close>

definition round_even :: "nat \<Rightarrow> nat \<Rightarrow> nat" where
  "round_even a b =
    (let q = a div b; r = a mod b
     in if 2 * r < b then q else if b < 2 * r then q + 1 else q + q mod 2)"

text \<open>The number of doublings after which \<open>a / b\<close> has \<open>precision\<close> bits before the point.\<close>

function doublings :: "nat \<Rightarrow> nat \<Rightarrow> nat \<Rightarrow> nat" where
  "doublings precision a b = (if a = 0 \<or> b * 2 ^ (precision - 1) \<le> a then 0 else Suc (doublings precision (2 * a) b))"
  by auto
termination by (relation "measure (\<lambda>(precision, a, b). b * 2 ^ (precision - 1) - a)") auto

declare doublings.simps [simp del]

text \<open>The mantissa and the scale of \<open>a / b\<close>: the value is \<open>m / 2 ^ s\<close>.\<close>

definition float_quotient :: "nat \<Rightarrow> nat \<Rightarrow> nat \<Rightarrow> nat \<times> nat" where
  "float_quotient precision a b =
    (let s = doublings precision a b in (round_even (a * 2 ^ s) b, s))"

text \<open>\<^verbatim>\<open>{:.n}\<close> of it.\<close>

definition fixed_digits :: "nat \<Rightarrow> nat \<Rightarrow> string" where
  "fixed_digits decimals n =
     nat_text (n div 10 ^ decimals) @ ''.''
       @ map (\<lambda>i. char_of (48 + n div 10 ^ (decimals - 1 - i) mod 10)) [0..<decimals]"

definition fixed_text :: "nat \<Rightarrow> bool \<Rightarrow> nat \<times> nat \<Rightarrow> string" where
  "fixed_text decimals negative value =
     (case value of (m, s) \<Rightarrow> (if negative then ''-'' else '''') @ fixed_digits decimals (round_even (m * 10 ^ decimals) (2 ^ s)))"

definition f32_hundredths :: "i16 \<Rightarrow> string" where
  "f32_hundredths w = fixed_text 2 (sint w < 0) (float_quotient 24 (nat \<bar>sint w\<bar>) 100)"

definition f64_hundredths :: "u32 \<Rightarrow> string" where
  "f64_hundredths w = fixed_text 2 False (float_quotient 53 (unat w) 100)"

definition f64_thousandths :: "u32 \<Rightarrow> string" where
  "f64_thousandths w = fixed_text 3 False (float_quotient 53 (unat w) 1000)"

section \<open>The form of a reading\<close>

definition joined :: "string list \<Rightarrow> string" where
  "joined lines = concat (map (\<lambda>line. line @ [CHR 0x0A]) (butlast lines)) @ last lines"

definition human_lines :: "telemetry_v1 \<Rightarrow> string list" where
  "human_lines frame =
    (let status = t1_sensor_status frame; c = t1_compensated frame; r = t1_raw frame in
     [''Vesta telemetry v'' @ word_text VERSION,
      ''  node_id: 0x'' @ hex_text (to_be_bytes (t1_node_id frame)),
      ''  sequence: '' @ word_text (t1_sequence frame),
      ''  status: 0x'' @ hex_text [bits status],
      ''    new_data: '' @ bool_text (is_new_data status),
      ''    gas_valid: '' @ bool_text (is_gas_measurement_valid status),
      ''    heater_stable: '' @ bool_text (is_heater_stable status),
      ''    unknown_bits: 0x'' @ hex_text [unknown_bits status],
      ''  corrected:'',
      ''    temperature: '' @ f32_hundredths (centi_celsius (cr_temperature c)) @ '' deg C (''
        @ int_text (sint (centi_celsius (cr_temperature c))) @ '' centi-deg C)'',
      ''    pressure: '' @ word_text (pascals (cr_pressure c)) @ '' Pa ('' @ f64_hundredths (pascals (cr_pressure c)) @ '' hPa)'',
      ''    humidity: '' @ f64_thousandths (milli_percent_rh (cr_humidity c)) @ ''% RH (''
        @ word_text (milli_percent_rh (cr_humidity c)) @ '' milli-% RH)'',
      ''    gas_resistance: '' @ word_text (ohms (cr_gas_resistance c)) @ '' ohm'',
      ''  raw:'',
      ''    temperature_adc: '' @ word_text (rr_temperature_adc r),
      ''    pressure_adc: '' @ word_text (rr_pressure_adc r),
      ''    humidity_adc: '' @ word_text (rr_humidity_adc r),
      ''    gas_resistance_adc: '' @ word_text (rr_gas_resistance_adc r),
      ''    gas_range: '' @ word_text (rr_gas_range r),
      ''    gas_index: '' @ word_text (rr_gas_index r),
      ''    measurement_index: '' @ word_text (rr_measurement_index r),
      ''    heater_resistance: '' @ word_text (rr_heater_resistance r),
      ''    heater_current: '' @ word_text (rr_heater_current r),
      ''    gas_wait: '' @ word_text (rr_gas_wait r)])"

definition human_frame :: "telemetry_v1 \<Rightarrow> string" where
  "human_frame frame = joined (human_lines frame)"

definition radio_lines :: "radio_metadata \<Rightarrow> string list" where
  "radio_lines radio =
     [''  radio:'',
      ''    packet_rssi: '' @ f32_hundredths (rm_packet_rssi_centi_dbm radio) @ '' dBm'',
      ''    snr: '' @ f32_hundredths (rm_snr_centi_db radio) @ '' dB'',
      ''    signal_rssi: '' @ f32_hundredths (rm_signal_rssi_centi_dbm radio) @ '' dBm'']"

definition human_received_frame :: "telemetry_v1 \<Rightarrow> radio_metadata \<Rightarrow> string" where
  "human_received_frame frame radio = human_frame frame @ [CHR 0x0A] @ joined (radio_lines radio)"

section \<open>The decimals are exact\<close>

lemma round_even_near:
  assumes "0 < b"
  shows "2 * a \<le> (2 * round_even a b + 1) * b" "(2 * round_even a b) * b \<le> 2 * a + b"
proof -
  define q r where "q = a div b" and "r = a mod b"
  then have a: "a = q * b + r" by simp
  have "round_even a b = q \<and> 2 * r \<le> b \<or> round_even a b = q + 1 \<and> b \<le> 2 * r"
    by (auto simp: round_even_def Let_def q_def r_def elim: oddE)
  moreover have "r < b" using assms by (simp add: r_def)
  ultimately show "2 * a \<le> (2 * round_even a b + 1) * b" "(2 * round_even a b) * b \<le> 2 * a + b"
    by (auto simp: a algebra_simps)
qed

lemma round_even_unique:
  assumes "2 * a < (2 * n + 1) * b" and "2 * n * b < 2 * a + b"
  shows "round_even a b = n"
proof -
  have b: "0 < b" using assms(1) by (cases b) auto
  note near = round_even_near [OF b, of a]
  have "n * (2 * b) < (round_even a b + 1) * (2 * b)" "round_even a b * (2 * b) < (n + 1) * (2 * b)"
    using near assms by (simp_all add: algebra_simps)
  then have "n < round_even a b + 1" "round_even a b < n + 1" by (simp_all only: mult_less_cancel2)
  then show ?thesis by simp
qed

lemma doublings_enough:
  assumes "0 < a"
  shows "b * 2 ^ (precision - 1) \<le> a * 2 ^ doublings precision a b"
  using assms
proof (induction precision a b rule: doublings.induct)
  case (1 precision a b)
  then show ?case
    by (cases "b * 2 ^ (precision - 1) \<le> a"; subst doublings.simps) (simp_all add: ac_simps)
qed

text \<open>A number with fewer bits than the precision comes back from the quotient and the decimals.\<close>

lemma decimals_exact:
  assumes "a < 2 ^ (precision - 1)"
  shows "fixed_text decimals negative (float_quotient precision a (10 ^ decimals))
    = (if negative then ''-'' else '''') @ fixed_digits decimals a"
proof (cases "a = 0")
  case True
  then show ?thesis by (simp add: fixed_text_def float_quotient_def Let_def round_even_def doublings.simps)
next
  case False
  let ?s = "doublings precision a (10 ^ decimals)" and ?b = "10 ^ decimals :: nat"
  let ?m = "round_even (a * 2 ^ ?s) ?b"
  have "?b * 2 ^ (precision - 1) \<le> a * 2 ^ ?s" using False by (intro doublings_enough) simp
  also have "\<dots> < 2 ^ ?s * 2 ^ (precision - 1)" using assms by simp
  finally have small: "?b < 2 ^ ?s" by simp
  have "2 * (a * 2 ^ ?s) \<le> (2 * ?m + 1) * ?b" "(2 * ?m) * ?b \<le> 2 * (a * 2 ^ ?s) + ?b"
    by (rule round_even_near; simp)+
  then have "round_even (?m * ?b) (2 ^ ?s) = a"
    using small by (intro round_even_unique) (simp_all add: algebra_simps)
  then show ?thesis by (simp add: fixed_text_def float_quotient_def Let_def)
qed

lemma f32_hundredths_exact:
  "f32_hundredths w = (if sint w < 0 then ''-'' else '''') @ fixed_digits 2 (nat \<bar>sint w\<bar>)"
proof -
  have "\<bar>sint w\<bar> \<le> 2 ^ 15" using sint_range_size [of w] by (auto simp: word_size)
  then have "nat \<bar>sint w\<bar> < 2 ^ (24 - 1)" by simp
  then show ?thesis using decimals_exact [of _ 24 2] by (simp add: f32_hundredths_def)
qed

lemma f64_exact:
  "f64_hundredths w = fixed_digits 2 (unat w)" "f64_thousandths w = fixed_digits 3 (unat w)"
proof -
  have "unat w < 2 ^ (53 - 1)" using unsigned_less [of w, where 'a = nat] by simp
  then show "f64_hundredths w = fixed_digits 2 (unat w)" "f64_thousandths w = fixed_digits 3 (unat w)"
    using decimals_exact [of "unat w" 53 2 False] decimals_exact [of "unat w" 53 3 False]
    by (simp_all add: f64_hundredths_def f64_thousandths_def)
qed

text \<open>The temperature and the signal strengths of the tests of the crate.\<close>

lemma sample_decimals: "f32_hundredths (- 1234) = ''-12.34''" "f32_hundredths (- 10050) = ''-100.50''"
proof -
  have digits: "nat_text 12 = ''12''" "nat_text 100 = ''100''"
    "map (\<lambda>i. char_of (48 + i)) [3, 4, 5, 0 :: nat] = ''3450''" by code_simp+
  then show "f32_hundredths (- 1234) = ''-12.34''" "f32_hundredths (- 10050) = ''-100.50''"
    unfolding f32_hundredths_exact by (simp_all add: fixed_digits_def upt_rec)
qed

section \<open>The form determines the reading\<close>

lemma delimited:
  assumes "c \<notin> set xs" and "c \<notin> set ys"
  shows "xs @ c # us = ys @ c # vs \<longleftrightarrow> xs = ys \<and> us = vs"
proof
  assume eq: "xs @ c # us = ys @ c # vs"
  have "takeWhile (\<lambda>d. d \<noteq> c) (xs @ c # us) = xs" "takeWhile (\<lambda>d. d \<noteq> c) (ys @ c # vs) = ys"
    using assms by (auto simp: takeWhile_append takeWhile_eq_all_conv)
  then have "xs = ys" using eq by metis
  then show "xs = ys \<and> us = vs" using eq by simp
qed simp

lemma joined_Cons: "lines \<noteq> [] \<Longrightarrow> joined (line # lines) = line @ CHR 0x0A # joined lines"
  by (simp add: joined_def)

lemma joined_append: "xs \<noteq> [] \<Longrightarrow> ys \<noteq> [] \<Longrightarrow> joined (xs @ ys) = joined xs @ CHR 0x0A # joined ys"
proof (induction xs)
  case (Cons x xs)
  then show ?case by (cases "xs = []") (simp_all add: joined_Cons, simp add: joined_def)
qed simp

lemma joined_inject:
  assumes "\<forall>line \<in> set xs \<union> set ys. CHR 0x0A \<notin> set line" and "xs \<noteq> []" and "ys \<noteq> []" and "joined xs = joined ys"
  shows "xs = ys"
  using assms
proof (induction xs arbitrary: ys)
  case (Cons x xs)
  then obtain y ys' where ys: "ys = y # ys'" by (cases ys) auto
  consider "xs = []" "ys' = []" | "xs = []" "ys' \<noteq> []" | "xs \<noteq> []" "ys' = []" | "xs \<noteq> []" "ys' \<noteq> []" by blast
  then show ?case
  proof cases
    case 1
    then show ?thesis using Cons.prems(4) by (simp add: ys joined_def)
  next
    case 2
    then have "x = y @ CHR 0x0A # joined ys'" using Cons.prems(4) by (simp add: ys joined_Cons) (simp add: joined_def)
    then show ?thesis using Cons.prems(1) by auto
  next
    case 3
    then have "x @ CHR 0x0A # joined xs = y" using Cons.prems(4) by (simp add: ys joined_Cons) (simp add: joined_def)
    then show ?thesis using Cons.prems(1) by (auto simp: ys)
  next
    case 4
    then have "x = y \<and> joined xs = joined ys'"
      using Cons.prems(1,4) delimited [of "CHR 0x0A" x y] by (simp add: ys joined_Cons)
    then show ?thesis using Cons.IH [of ys'] Cons.prems(1) 4 by (simp add: ys)
  qed
qed simp

text \<open>The pieces have neither line ends nor spaces, nor percent signs.\<close>

definition plain :: "string \<Rightarrow> bool" where
  "plain str \<longleftrightarrow> list_all (\<lambda>c. c \<noteq> CHR 0x0A \<and> c \<noteq> CHR '' '' \<and> c \<noteq> CHR ''%'') str"

lemma digits_plain:
  assumes "\<forall>c \<in> set str. digit c"
  shows "plain str"
proof -
  have "\<not> digit CHR 0x0A" "\<not> digit CHR '' ''" "\<not> digit CHR ''%''" by (simp_all add: digit_def)
  then show ?thesis using assms unfolding plain_def list_all_iff by blast
qed

lemma plain_append [simp]: "plain (xs @ ys) \<longleftrightarrow> plain xs \<and> plain ys"
  by (auto simp: plain_def)

lemma plain_nat [simp]: "plain (nat_text n)"
  using nat_text_digits by (intro digits_plain) blast

lemma plain_int [simp]: "plain (int_text i)"
  by (simp add: int_text_def) (simp add: plain_def)

lemma plain_bool [simp]: "plain (bool_text b)"
  by (simp add: bool_text_def plain_def)

lemma decimals_digits: "\<forall>c \<in> set (map (\<lambda>i. char_of (48 + (n :: nat) div 10 ^ (k - 1 - i) mod 10)) [0..<k]). digit c"
proof -
  have "digit (char_of (48 + j mod 10))" for j :: nat by (simp add: digit_def)
  then show ?thesis by simp
qed

lemma plain_fixed [simp]: "plain (fixed_digits k n)"
  using digits_plain [OF decimals_digits [of n k]] by (simp add: fixed_digits_def) (simp add: plain_def)

lemma hex_digit_plain:
  assumes "n < 16"
  shows "plain [char_of (unat (hex_digit n))]"
proof -
  have "list_all (\<lambda>n. plain [char_of (unat (hex_digit (word_of_nat n)))]) [0..<16]" by code_simp
  moreover have "unat n \<in> set [0..<16]" using assms by (simp add: word_less_nat_alt)
  ultimately have "plain [char_of (unat (hex_digit (word_of_nat (unat n))))]" unfolding list_all_iff by (rule bspec)
  then show ?thesis by simp
qed

lemma plain_hex [simp]: "plain (hex_text bs)"
proof -
  have "plain [char_of (unat (hex_digit n))]" if "n \<in> set (nibbles b)" for n b
    using that nibbles_less hex_digit_plain by blast
  then show ?thesis by (simp add: plain_def list_all_iff hex_text_def to_hex_def)
qed

text \<open>The decimals determine the number.\<close>

lemma fixed_digits_inject [simp]: "fixed_digits k m = fixed_digits k n \<longleftrightarrow> m = n"
proof
  assume eq: "fixed_digits k m = fixed_digits k n"
  have whole: "m div 10 ^ k = n div 10 ^ k"
    and parts: "map (\<lambda>i. char_of (48 + m div 10 ^ (k - 1 - i) mod 10) :: char) [0..<k]
      = map (\<lambda>i. char_of (48 + n div 10 ^ (k - 1 - i) mod 10)) [0..<k]"
    using eq by (simp_all add: fixed_digits_def)
  have digits: "m div 10 ^ i mod 10 = n div 10 ^ i mod 10" if "i < k" for i
  proof -
    from that have "k - 1 - i < k" "k - 1 - (k - 1 - i) = i" by simp_all
    then have "(char_of (48 + m div 10 ^ i mod 10) :: char) = char_of (48 + n div 10 ^ i mod 10)"
      using parts [unfolded map_eq_conv, rule_format, of "k - 1 - i"] by simp
    then have "of_char (char_of (48 + m div 10 ^ i mod 10) :: char) = (of_char (char_of (48 + n div 10 ^ i mod 10) :: char) :: nat)"
      by simp
    then show ?thesis by simp
  qed
  have "m div 10 ^ (k - i) = n div 10 ^ (k - i)" for i
  proof (induction i)
    case (Suc i)
    have step: "m div 10 ^ (k - Suc i) = n div 10 ^ (k - Suc i)" if "i < k"
    proof -
      from that have one: "Suc (k - Suc i) = k - i" and less: "k - Suc i < k" by simp_all
      have split: "a div 10 ^ (k - Suc i) = 10 * (a div 10 ^ (k - i)) + a div 10 ^ (k - Suc i) mod 10" for a :: nat
        by (simp flip: one add: div_mult2_eq mult.commute [of 10])
      show ?thesis using split [of m] split [of n] Suc.IH digits [OF less] by simp
    qed
    then show ?case using Suc.IH by (cases "i < k") simp_all
  qed (simp add: whole)
  from this [of k] show "m = n" by simp
qed simp

lemma plain_excludes: "plain str \<Longrightarrow> CHR 0x0A \<notin> set str \<and> CHR '' '' \<notin> set str \<and> CHR ''%'' \<notin> set str"
  by (auto simp: plain_def list_all_iff)

lemmas excluded [simp] = plain_excludes [OF plain_nat] plain_excludes [OF plain_int] plain_excludes [OF plain_hex]
  plain_excludes [OF plain_bool] plain_excludes [OF plain_fixed]

lemma plain_f32 [simp]: "plain (f32_hundredths w)"
  by (simp add: f32_hundredths_exact) (simp add: plain_def)

lemmas excluded_float [simp] = plain_excludes [OF plain_f32]

lemma bool_text_inject [simp]: "bool_text a = bool_text b \<longleftrightarrow> a = b"
  by (simp add: bool_text_def)

lemma f32_hundredths_inject [simp]: "f32_hundredths v = f32_hundredths w \<longleftrightarrow> v = w"
proof
  have "CHR ''-'' \<notin> set (fixed_digits k n)" for k n
  proof -
    have "c \<noteq> CHR ''-''" if "digit c" for c using that not_digits(7) by blast
    then have "CHR ''-'' \<notin> set str" if "\<forall>c \<in> set str. digit c" for str using that by blast
    from this [OF decimals_digits [of n k]] this [of "nat_text (n div 10 ^ k)"] nat_text_digits
    show ?thesis by (simp add: fixed_digits_def)
  qed
  then have "fixed_digits k n \<noteq> CHR ''-'' # str" for k n str by (metis list.set_intros(1))
  then have "sint v = sint w" if "f32_hundredths v = f32_hundredths w"
    using that by (auto simp: f32_hundredths_exact split: if_splits) metis+
  then show "v = w" if "f32_hundredths v = f32_hundredths w" using that by (intro signed_word_eqI) simp
qed simp

lemma human_lines_ends:
  "\<forall>line \<in> set (human_lines frame). CHR 0x0A \<notin> set line" "\<forall>line \<in> set (radio_lines radio). CHR 0x0A \<notin> set line"
  by (simp_all add: human_lines_def radio_lines_def Let_def f64_exact)

lemma human_lines_nonempty [simp]: "human_lines frame \<noteq> []" "radio_lines radio \<noteq> []"
  by (simp_all add: human_lines_def radio_lines_def Let_def)

lemma same_lines:
  "human_lines frame @ us = human_lines frame' @ vs \<longleftrightarrow> human_lines frame = human_lines frame' \<and> us = vs"
proof -
  have "length (human_lines frame) = length (human_lines frame')" by (simp add: human_lines_def Let_def)
  then show ?thesis by simp
qed

lemma radio_lines_inject: "radio_lines radio = radio_lines radio' \<Longrightarrow> radio = radio'"
  by (simp add: radio_lines_def)

lemma to_be_bytes_u64_inject: "to_be_bytes (v :: u64) = to_be_bytes w \<longleftrightarrow> v = w"
  by (metis be_bytes_inverse(4))

lemma human_lines_inject:
  assumes "human_lines frame = human_lines frame'"
  shows "frame = frame'"
proof -
  have status: "t1_node_id frame = t1_node_id frame'" "t1_sequence frame = t1_sequence frame'"
    "bits (t1_sensor_status frame) = bits (t1_sensor_status frame')"
    using assms by (simp_all add: human_lines_def Let_def unat_inject to_be_bytes_u64_inject)
  have "centi_celsius (cr_temperature (t1_compensated frame)) = centi_celsius (cr_temperature (t1_compensated frame'))"
    "pascals (cr_pressure (t1_compensated frame)) = pascals (cr_pressure (t1_compensated frame'))"
    "milli_percent_rh (cr_humidity (t1_compensated frame)) = milli_percent_rh (cr_humidity (t1_compensated frame'))"
    "ohms (cr_gas_resistance (t1_compensated frame)) = ohms (cr_gas_resistance (t1_compensated frame'))"
    using assms by (simp_all add: human_lines_def Let_def unat_inject delimited f64_exact)
  then have "t1_compensated frame = t1_compensated frame'"
    by (intro compensated_readings.equality) (auto intro: temperature.expand pressure.expand relative_humidity.expand gas_resistance.expand)
  moreover have "t1_raw frame = t1_raw frame'"
    using assms by (intro raw_readings.equality) (simp_all add: human_lines_def Let_def unat_inject)
  ultimately show ?thesis
    using status by (intro telemetry_v1.equality) (auto intro: bme68x_status.expand)
qed

text \<open>
  C20. The readable form of a received reading loses nothing: two received readings are printed the same way
  only when the readings are the same and the radio conditions are. So the temperature, the pressure, the
  humidity and the signal strengths can be read off the printed line to their last decimal, although they
  go through binary floating point.
\<close>

theorem human_determines_reading:
  "human_received_frame frame radio = human_received_frame frame' radio' \<longleftrightarrow> frame = frame' \<and> radio = radio'"
proof
  assume eq: "human_received_frame frame radio = human_received_frame frame' radio'"
  have "human_lines frame @ radio_lines radio = human_lines frame' @ radio_lines radio'"
  proof (rule joined_inject)
    show "joined (human_lines frame @ radio_lines radio) = joined (human_lines frame' @ radio_lines radio')"
      using eq by (simp add: joined_append human_received_frame_def human_frame_def)
    show "\<forall>line \<in> set (human_lines frame @ radio_lines radio) \<union> set (human_lines frame' @ radio_lines radio'). CHR 0x0A \<notin> set line"
      using human_lines_ends by auto
  qed simp_all
  then have "human_lines frame = human_lines frame'" "radio_lines radio = radio_lines radio'"
    by (simp_all add: same_lines)
  then show "frame = frame' \<and> radio = radio'" using human_lines_inject radio_lines_inject by blast
qed simp

end
