(* ===== verification/Failure_Text.thy ===== *)
theory Failure_Text
  imports Texts Receiver
begin

text \<open>
  The texts of failures (\<^verbatim>\<open>impl Display\<close> of the error types of \<^verbatim>\<open>crates/vesta-receiver\<close>), up to the line with
  which the program ends. The texts that the standard library and other libraries give their own errors are
  parameters, of which nothing is assumed. The text of a record error and of a reassembly error is the one that
  \<^verbatim>\<open>derive(Debug)\<close> gives it. A text determines its failure, up to library errors with the same text.
\<close>

section \<open>Texts of other libraries\<close>

record ('g, 's) library_texts =
  lt_sqlite :: "sqlite_error \<Rightarrow> string"
  lt_system_time :: string
  lt_io :: string
  lt_signal :: string
  lt_gpio :: "'g \<Rightarrow> string"
  lt_spi :: "'s \<Rightarrow> string"

section \<open>Failures\<close>

fun hex_error_text :: "hex_error \<Rightarrow> string" where
  "hex_error_text (HE_WrongLength expected actual) =
     ''wrong hexadecimal length: expected '' @ nat_text expected @ '' characters, got '' @ nat_text actual"
| "hex_error_text (HE_OddLength actual) = ''odd hexadecimal length: got '' @ nat_text actual @ '' characters''"
| "hex_error_text (HE_PayloadLength minimum maximum actual) =
     ''payload length must be '' @ nat_text minimum @ ''..='' @ nat_text maximum @ '' bytes, got '' @ nat_text actual"
| "hex_error_text (HE_InvalidByte position found) =
     ''invalid hexadecimal byte 0x'' @ hex_text [found] @ '' at position '' @ nat_text position"

fun text_decode_error_text :: "text_decode_error \<Rightarrow> string" where
  "text_decode_error_text (TE_Hex err) = hex_error_text err"
| "text_decode_error_text (TE_Protocol err) = decode_error_text err"

fun render_error_text :: "v2_render_error \<Rightarrow> string" where
  "render_error_text (RenderCodec err) = ''invalid profile fragment: '' @ v2_error_text err"

text \<open>\<^verbatim>\<open>derive(Debug)\<close>: the name, and the fields with their names or, of a tuple, without.\<close>

definition tuple_text :: "string \<Rightarrow> string \<Rightarrow> string" where
  "tuple_text name contents = name @ ''('' @ contents @ '')''"

fun fields_text :: "(string \<times> string) list \<Rightarrow> string" where
  "fields_text [] = '' }''"
| "fields_text ((name, contents) # rest) = name @ '': '' @ contents @ (if rest = [] then '''' else '', '') @ fields_text rest"

definition struct_text :: "string \<Rightarrow> (string \<times> string) list \<Rightarrow> string" where
  "struct_text name members = name @ '' { '' @ fields_text members"

definition quoted :: "string \<Rightarrow> string" where
  "quoted name = [CHR 0x22] @ name @ [CHR 0x22]"

fun record_error_text :: "record_error \<Rightarrow> string" where
  "record_error_text (InvalidExpectedSteps n) = tuple_text ''InvalidExpectedSteps'' (word_text n)"
| "record_error_text (ConfigurationStepCount expected actual) =
     struct_text ''ConfigurationStepCount'' [(''expected'', word_text expected), (''actual'', nat_text actual)]"
| "record_error_text (ConfigurationStepOrder position step_index) =
     struct_text ''ConfigurationStepOrder'' [(''position'', word_text position), (''step_index'', word_text step_index)]"
| "record_error_text (BitmapOutOfRange field bitmap expected_steps) =
     struct_text ''BitmapOutOfRange''
       [(''field'', quoted field), (''bitmap'', word_text bitmap), (''expected_steps'', word_text expected_steps)]"
| "record_error_text (RecordFragmentCount expected actual) =
     struct_text ''InvalidFragmentCount'' [(''expected'', word_text expected), (''actual'', word_text actual)]"
| "record_error_text (FragmentBitmapOutOfRange bitmap expected_fragments) =
     struct_text ''FragmentBitmapOutOfRange''
       [(''bitmap'', word_text bitmap), (''expected_fragments'', word_text expected_fragments)]"
| "record_error_text (ObservedCountMismatch reported computed) =
     struct_text ''ObservedCountMismatch'' [(''reported'', word_text reported), (''computed'', word_text computed)]"
| "record_error_text (ObservedFieldCountTooSmall field_count unique) =
     struct_text ''ObservedFieldCountTooSmall'' [(''fields'', word_text field_count), (''unique'', word_text unique)]"
| "record_error_text (StepIndexOutOfRange step expected_steps) =
     struct_text ''StepIndexOutOfRange'' [(''index'', word_text step), (''expected_steps'', word_text expected_steps)]"
| "record_error_text (DuplicateStepIndex step) = tuple_text ''DuplicateStepIndex'' (word_text step)"
| "record_error_text (StatusRawMismatch step_index status raw_known_status) =
     struct_text ''StatusRawMismatch''
       [(''step_index'', word_text step_index), (''status'', word_text status), (''raw_known_status'', word_text raw_known_status)]"
| "record_error_text (GasIndexRawMismatch step_index gas_index raw_gas_index) =
     struct_text ''GasIndexRawMismatch''
       [(''step_index'', word_text step_index), (''gas_index'', word_text gas_index), (''raw_gas_index'', word_text raw_gas_index)]"
| "record_error_text (GasRangeRawMismatch step_index gas_range raw_gas_range) =
     struct_text ''GasRangeRawMismatch''
       [(''step_index'', word_text step_index), (''gas_range'', word_text gas_range), (''raw_gas_range'', word_text raw_gas_range)]"
| "record_error_text (GasIndexStepMismatch step_index gas_index) =
     struct_text ''GasIndexStepMismatch'' [(''step_index'', word_text step_index), (''gas_index'', word_text gas_index)]"
| "record_error_text (StepFromMissingFragment step_index fragment_index) =
     struct_text ''StepFromMissingFragment''
       [(''step_index'', word_text step_index), (''fragment_index'', word_text fragment_index)]"
| "record_error_text (ReceivedFragmentMissingStep step) = tuple_text ''ReceivedFragmentMissingStep'' (word_text step)"
| "record_error_text (MissingBitmapMismatch reported computed) =
     struct_text ''MissingBitmapMismatch'' [(''reported'', word_text reported), (''computed'', word_text computed)]"

fun reassembly_error_text :: "reassembly_error \<Rightarrow> string" where
  "reassembly_error_text InvalidCapacity = ''InvalidCapacity''"
| "reassembly_error_text (SourceFragmentIndex source wire) =
     struct_text ''SourceFragmentIndex'' [(''source'', word_text source), (''wire'', word_text wire)]"
| "reassembly_error_text (Codec err) = tuple_text ''Codec'' (v2_error_text err)"
| "reassembly_error_text InternalState = ''InternalState''"

definition SCHEMA_VERSION :: int where "SCHEMA_VERSION = 3"

fun storage_error_text :: "('g, 's) library_texts \<Rightarrow> storage_error \<Rightarrow> string" where
  "storage_error_text L (Sqlite err) = ''SQLite error: '' @ lt_sqlite L err"
| "storage_error_text L SystemTime = ''system clock error: '' @ lt_system_time L"
| "storage_error_text L TimestampOutOfRange = ''timestamp does not fit SQLite''"
| "storage_error_text L (InvalidRecord err) = ''invalid decoded record: '' @ record_error_text err"
| "storage_error_text L (MissingV2Packet packet_id) = ''v2 source packet '' @ int_text packet_id @ '' does not exist''"
| "storage_error_text L ProfileWithoutFragments = ''reassembled profile has no source fragments''"
| "storage_error_text L InvalidPendingReplayLimit = ''pending-fragment replay limit must be positive''"
| "storage_error_text L (PendingReplayLimitExceeded pending limit) =
     nat_text pending @ '' pending profile fragments exceed startup replay limit '' @ nat_text limit"
| "storage_error_text L InvalidIncompleteReplayLimit = ''incomplete-profile replay limit must be positive''"
| "storage_error_text L (IncompleteReplayLimitExceeded fragment_number limit) =
     nat_text fragment_number @ '' persisted incomplete-profile fragments exceed replay limit '' @ nat_text limit"
| "storage_error_text L CorruptIncompleteProfile = ''persisted incomplete profile has no grouping row''"
| "storage_error_text L (CorruptHexIdentity field) = ''persisted profile has an invalid hexadecimal '' @ field"
| "storage_error_text L (MigrationForeignKeyViolations n) =
     ''schema migration left '' @ nat_text n @ '' foreign-key violation(s)''"
| "storage_error_text L (UnsupportedSchemaVersion found) =
     ''unsupported telemetry database schema version '' @ int_text found @ ''; expected '' @ int_text SCHEMA_VERSION"

fun radio_error_text :: "('g, 's) library_texts \<Rightarrow> ('g, 's) radio_error \<Rightarrow> string" where
  "radio_error_text L (Gpio err) = ''GPIO access failed: '' @ lt_gpio L err"
| "radio_error_text L (Spi err) = ''SPI access failed: '' @ lt_spi L err"
| "radio_error_text L BusyTimeout = ''SX1262 BUSY remained high for one second''"
| "radio_error_text L (ShortTransfer expected actual) =
     ''short SPI transfer: expected '' @ nat_text expected @ '' bytes, transferred '' @ nat_text actual"
| "radio_error_text L (InvalidStatus opcode status) =
     ''invalid SX1262 status byte 0x'' @ hex_text [status] @ '' for command 0x'' @ hex_text [opcode]"
| "radio_error_text L (CommandRejected opcode status) =
     ''SX1262 rejected command 0x'' @ hex_text [opcode] @ '' with status 0x'' @ hex_text [status]"
| "radio_error_text L (UnexpectedPacketType packet_type) =
     ''SX1262 packet type readback was 0x'' @ hex_text [packet_type] @ '', not LoRa''"
| "radio_error_text L (SyncWordMismatch sync_word) =
     ''SX1262 sync-word readback was 0x'' @ hex_text (to_be_bytes sync_word) @ '', expected 0x1424''"
| "radio_error_text L (DeviceErrors flags) =
     ''SX1262 device error flags are set: 0x'' @ hex_text (to_be_bytes flags)"
| "radio_error_text L (UnexpectedMode expected status) =
     ''SX1262 mode mismatch: expected 0x'' @ hex_text [expected] @ '', status was 0x'' @ hex_text [status]"

fun app_error_text :: "('g, 's) library_texts \<Rightarrow> ('g, 's) app_error \<Rightarrow> string" where
  "app_error_text L MissingFrame = ''a hexadecimal frame or --stdin is required''"
| "app_error_text L (HexFailure err) = hex_error_text err"
| "app_error_text L (ProtocolFailure err) = protocol_error_text err"
| "app_error_text L (V2Render err) = render_error_text err"
| "app_error_text L Io = ''I/O error: '' @ lt_io L"
| "app_error_text L (DatabaseFailure err) = ''database error: '' @ storage_error_text L err"
| "app_error_text L MissingPacketLink = ''database did not link archived packet''"
| "app_error_text L (ReassemblyFailure err) = ''profile reassembly error: '' @ reassembly_error_text err"
| "app_error_text L (RadioFailure err) = ''radio error: '' @ radio_error_text L err"
| "app_error_text L SignalFailure = ''could not install signal handler: '' @ lt_signal L"
| "app_error_text L (StreamFailures n) = nat_text n @ '' input frame(s) could not be decoded''"

section \<open>A text determines its failure\<close>

lemma nat_text_starts:
  assumes "\<not> digit c"
  shows "nat_text n @ us \<noteq> c # vs" "c # vs \<noteq> nat_text n @ us"
proof -
  have "\<exists>d ds. nat_text n = d # ds \<and> digit d"
    using nat_text_digits [of _ n] nat_text_nonempty [of n] by (cases "nat_text n") auto
  then show "nat_text n @ us \<noteq> c # vs" "c # vs \<noteq> nat_text n @ us" using assms by auto
qed

lemma int_text_delimited:
  assumes "\<not> digit c"
  shows "int_text i @ c # us = int_text j @ c # vs \<longleftrightarrow> i = j \<and> us = vs"
proof -
  have "nat_text m @ us' \<noteq> CHR ''-'' # vs'" "CHR ''-'' # vs' \<noteq> nat_text m @ us'" for m us' vs'
    by (simp_all add: nat_text_starts)
  then show ?thesis using assms by (auto simp: int_text_def)
qed

lemma number_after_inject:
  assumes "\<not> digit c"
  shows "us @ c # nat_text m @ ws = vs @ c # nat_text n @ ws \<longleftrightarrow> us = vs \<and> m = n"
proof -
  have "us @ c # nat_text m @ ws = vs @ c # nat_text n @ ws \<longleftrightarrow> (us @ c # nat_text m) @ ws = (vs @ c # nat_text n) @ ws"
    by simp
  also have "\<dots> \<longleftrightarrow> us @ c # nat_text m = vs @ c # nat_text n" by (rule append_same_eq)
  also have "\<dots> \<longleftrightarrow> us = vs \<and> m = n"
    using nat_text_digits assms by (subst digits_after) auto
  finally show ?thesis .
qed

lemma bitmap_text_inject:
  "record_error_text (BitmapOutOfRange field a b) = record_error_text (BitmapOutOfRange field' a' b')
    \<longleftrightarrow> field = field' \<and> a = a' \<and> b = b'"
proof -
  have form: "record_error_text (BitmapOutOfRange field a b) =
      ((''BitmapOutOfRange { field: '' @ quoted field @ '', bitmap:'') @ CHR '' '' # word_text a @ '', expected_steps:'')
        @ CHR '' '' # word_text b @ '' }''" for field a b
    by (simp add: struct_text_def)
  show ?thesis
    unfolding form number_after_inject [OF not_digits(3)] by (auto simp: quoted_def unat_inject)
qed

lemmas debug_text = struct_text_def tuple_text_def quoted_def unat_inject

lemma record_error_text_inject: "record_error_text a = record_error_text b \<longleftrightarrow> a = b"
proof (cases "(\<exists>f v n. a = BitmapOutOfRange f v n) \<and> (\<exists>f v n. b = BitmapOutOfRange f v n)")
  case True
  then show ?thesis using bitmap_text_inject by auto
next
  case False
  then show ?thesis by (cases a; cases b) (simp_all add: debug_text)
qed

lemma reassembly_error_text_inject: "reassembly_error_text a = reassembly_error_text b \<longleftrightarrow> a = b"
  by (cases a; cases b) (simp_all add: debug_text v2_error_text_inject)

lemma hex_error_text_inject: "hex_error_text a = hex_error_text b \<longleftrightarrow> a = b"
  by (cases a; cases b) (simp_all add: conj_commute)

lemma storage_error_text_same:
  "storage_error_text L a = storage_error_text L b \<longleftrightarrow>
     a = b \<or> (\<exists>x y. a = Sqlite x \<and> b = Sqlite y \<and> lt_sqlite L x = lt_sqlite L y)"
  by (cases a; cases b)
    (simp_all add: record_error_text_inject int_text_delimited nat_text_starts digit_def, blast)

lemma to_be_bytes_u16_inject: "to_be_bytes (v :: u16) = to_be_bytes w \<longleftrightarrow> v = w"
  by (metis be_bytes_inverse(2))

lemma render_error_text_inject: "render_error_text a = render_error_text b \<longleftrightarrow> a = b"
  by (cases a; cases b) (simp add: v2_error_text_inject)

text \<open>The three kinds of failure that are printed without a heading.\<close>

lemma hex_protocol_text: "hex_error_text a \<noteq> protocol_error_text b"
  by (cases a; cases b) simp_all

lemma hex_render_text: "hex_error_text a \<noteq> render_error_text c"
  by (cases a; cases c) simp_all

lemma protocol_render_text: "protocol_error_text b \<noteq> render_error_text c"
  by (cases b; cases c) simp_all

lemmas unheaded_texts = hex_protocol_text hex_render_text protocol_render_text
  hex_protocol_text [symmetric] hex_render_text [symmetric] protocol_render_text [symmetric]

definition unheaded :: "string \<Rightarrow> bool" where
  "unheaded str \<longleftrightarrow> take 2 str \<in> {''wr'', ''od'', ''pa'', ''in'', ''tr'', ''un''}"

lemma unheaded_opening: "unheaded (hex_error_text a)" "unheaded (protocol_error_text b)" "unheaded (render_error_text c)"
  unfolding unheaded_def by ((cases a; simp), (cases b; simp), (cases c; simp))

lemma headed_differs:
  assumes "unheaded str"
  shows "\<not> unheaded (c # d # us) \<Longrightarrow> str \<noteq> c # d # us" "\<not> unheaded (c # d # us) \<Longrightarrow> c # d # us \<noteq> str"
    "str \<noteq> nat_text n @ us" "nat_text n @ us \<noteq> str"
proof -
  have "\<not> digit c" if "unheaded (c # us)" for c us using that by (auto simp: unheaded_def digit_def)
  then have "\<not> unheaded (nat_text n @ us)" using nat_text_digits [of _ n] nat_text_nonempty [of n] by (cases "nat_text n") auto
  then show "\<not> unheaded (c # d # us) \<Longrightarrow> str \<noteq> c # d # us" "\<not> unheaded (c # d # us) \<Longrightarrow> c # d # us \<noteq> str"
    "str \<noteq> nat_text n @ us" "nat_text n @ us \<noteq> str"
    using assms by auto
qed

lemmas headed_texts = headed_differs [OF unheaded_opening(1)] headed_differs [OF unheaded_opening(2)]
  headed_differs [OF unheaded_opening(3)]

lemma headings:
  "\<not> unheaded (CHR ''a'' # CHR '' '' # us)" "\<not> unheaded (CHR ''I'' # CHR ''/'' # us)" "\<not> unheaded (CHR ''d'' # CHR ''a'' # us)"
  "\<not> unheaded (CHR ''p'' # CHR ''r'' # us)" "\<not> unheaded (CHR ''r'' # CHR ''a'' # us)" "\<not> unheaded (CHR ''c'' # CHR ''o'' # us)"
  by (simp_all add: unheaded_def)

lemma radio_error_text_same:
  "radio_error_text L a = radio_error_text L b \<longleftrightarrow>
     a = b \<or> (\<exists>x y. a = Gpio x \<and> b = Gpio y \<and> lt_gpio L x = lt_gpio L y)
     \<or> (\<exists>x y. a = Spi x \<and> b = Spi y \<and> lt_spi L x = lt_spi L y)"
  by (cases a; cases b) (simp_all add: to_be_bytes_u16_inject conj_commute, blast+)

text \<open>
  The same failure, as far as the program can say: errors of the libraries for pins, the bus and the database are
  the same when those libraries give them the same text.
\<close>

definition same_failure :: "('g, 's) library_texts \<Rightarrow> ('g, 's) app_error \<Rightarrow> ('g, 's) app_error \<Rightarrow> bool" where
  "same_failure L a b \<longleftrightarrow>
     a = b
     \<or> (\<exists>x y. a = DatabaseFailure (Sqlite x) \<and> b = DatabaseFailure (Sqlite y) \<and> lt_sqlite L x = lt_sqlite L y)
     \<or> (\<exists>x y. a = RadioFailure (Gpio x) \<and> b = RadioFailure (Gpio y) \<and> lt_gpio L x = lt_gpio L y)
     \<or> (\<exists>x y. a = RadioFailure (Spi x) \<and> b = RadioFailure (Spi y) \<and> lt_spi L x = lt_spi L y)"

text \<open>
  C21. The reason the program gives when it ends, and for each line of a stream it rejects, is unambiguous: two failures have
  the same text exactly when they are the same failure, whatever component they come from. So the text determines
  the kind of the failure and every number, byte, field and flag that the two crates put into it; an error of the
  libraries for pins, the bus and the database is determined as far as their own text goes. A failed input or output, a
  failed signal handler and a failed clock are one failure each, without the detail of the operating system.
\<close>

theorem failure_text_determines: "app_error_text L a = app_error_text L b \<longleftrightarrow> same_failure L a b"
proof -
  note texts = hex_error_text_inject protocol_error_text_inject render_error_text_inject reassembly_error_text_inject
    storage_error_text_same radio_error_text_same
  show ?thesis
    by (cases a; cases b)
      (simp_all add: texts same_failure_def nat_text_starts digit_def unheaded_texts headed_texts headings)
qed

end
