(* ===== verification/Receiver_Failures.thy ===== *)
theory Receiver_Failures
  imports Failure_Text Receiver_Archiving Console
begin

text \<open>
  What the receiver keeps of a packet it cannot decode: its bytes with the reason, in the words of
  \<^verbatim>\<open>ProtocolDecodeError\<close>.
\<close>

text \<open>A program whose texts are the ones of the source.\<close>

definition states_texts :: "('g, 's) library_texts \<Rightarrow> ('g, 's) world \<Rightarrow> bool" where
  "states_texts L W \<longleftrightarrow>
     w_protocol_text W = protocol_error_text \<and> w_codec_text W = v2_error_text \<and> w_app_text W = app_error_text L"

lemma insert_packet_reason:
  assumes "storable now payload"
  obtains p row where
    "insert_packet_at payload radio now disposition version ft err db = Ok (p, db\<lparr>db_packets := db_packets db @ [row]\<rparr>)"
    "raw_packet row = (sp_id p, now, radio, version, ft, payload)" "rk_disposition row = disposition" "rk_decode_error row = err"
  using assms by (fastforce simp: insert_packet_at_def raw_packet_def storable_def Let_def)

lemma archive_packet_reason:
  assumes "storable now payload"
  obtains p row where
    "archive_packet now payload radio disposition err db = Ok (p, db\<lparr>db_packets := db_packets db @ [row]\<rparr>)"
    "rk_payload row = payload" "rk_radio row = radio" "rk_received_at_unix_ms row = now"
    "rk_disposition row = disposition" "rk_decode_error row = err"
proof (rule insert_packet_reason [OF assms])
  fix p row
  assume "insert_packet_at payload radio now disposition
      (if take 2 payload = [0x56, 0x53] \<and> 2 < length payload then Some (payload ! 2) else None)
      (if 3 < length payload then Some (payload ! 3) else None) err db = Ok (p, db\<lparr>db_packets := db_packets db @ [row]\<rparr>)"
    and "raw_packet row = (sp_id p, now, radio,
      if take 2 payload = [0x56, 0x53] \<and> 2 < length payload then Some (payload ! 2) else None,
      if 3 < length payload then Some (payload ! 3) else None, payload)"
    and "rk_disposition row = disposition" "rk_decode_error row = err"
  then show thesis using that [of p row] by (simp add: archive_packet_def storable_clock [OF assms] raw_packet_def)
qed


text \<open>Noise of two bytes, while the diagnostics are broken.\<close>

definition noise :: radio_packet where
  "noise = \<lparr>rp_payload = [1, 2], rp_metadata = \<lparr>rm_packet_rssi_centi_dbm = -10050, rm_snr_centi_db = 725, rm_signal_rssi_centi_dbm = -10250\<rparr>\<rparr>"

definition plain_world :: "(unit, unit) library_texts \<Rightarrow> (unit, unit) world" where
  "plain_world L = \<lparr>w_order = id, w_writes = (\<lambda>_ _. True), w_flushes = (\<lambda>_. True), w_notes = (\<lambda>_ _. False),
     w_protocol_text = protocol_error_text, w_codec_text = v2_error_text, w_app_text = app_error_text L\<rparr>"


end
