(* ===== verification/Spec2Isabelle.thy ===== *)
theory Spec2Isabelle
  imports Dispatch V2_Airtime Reassembly_Behaviour Analysis_Profile Radio_Safety Archive_Examples Receiver_Examples Human_Text Receiver_Failures
begin

text \<open>
  \<^bold>\<open>The Vesta receiver.\<close>

  A battery powered sensor node measures a gas sensor along a heater profile and sends what it saw as
  LoRa packets. The receiver is a Raspberry Pi that listens with an SX1262 radio, archives every packet
  in SQLite, decodes it, puts the fragments of a profile scan together, stores the scan, prints it and
  derives features from it. The repository has two crates, \<^verbatim>\<open>vesta-protocol\<close> (the wire format, shared with
  the node) and \<^verbatim>\<open>vesta-receiver\<close> (everything on the host). This library models both.

  \<^bold>\<open>Conventions.\<close> Integers of 8 to 64 bits are words, so that arithmetic wraps where the source wraps;
  \<^verbatim>\<open>usize\<close> and the ticks of \<^verbatim>\<open>Instant\<close> are \<open>nat\<close>, \<^verbatim>\<open>i64\<close> values of the database are \<open>int\<close> with their
  range as a condition. A byte string is a list of \<open>u8\<close>, a struct a record, an enum a datatype. A
  fallible function returns \<open>('a, 'e) result\<close>, which is \<open>'e fault + 'a\<close>: a value, an error (\<open>Err\<close>) or a panic
  (\<open>Panic\<close>: an index out of bounds, an overflow in a checked build); \<open>and_then\<close> is the operator \<^verbatim>\<open>?\<close>.
  \<open>Vesta_Prelude\<close> has these types, slices, bounded loops (\<open>for_each\<close>) and their lemmas.

  \<^bold>\<open>The protocol\<close> (\<^verbatim>\<open>crates/vesta-protocol\<close>).
  \<^item> \<open>Protocol_V1\<close>: the fixed frame of 48 bytes of \<^verbatim>\<open>lib.rs\<close>, encoder and decoder. They are inverse to each
    other on all readings and on all accepted frames.
  \<^item> \<open>V2_Model\<close>, \<open>V2_Wire\<close>, \<open>V2_Validate\<close>: constants and structs of \<^verbatim>\<open>v2.rs\<close>, its cursors \<^verbatim>\<open>Reader\<close> and
    \<^verbatim>\<open>Writer\<close> (the locale \<open>wire_field\<close> is the contract of one field, interpreted for each integer type), and
    every validator.
  \<^item> \<open>V2_Header\<close>, \<open>V2_Config\<close>, \<open>V2_Health\<close>, \<open>V2_Profile\<close>, \<open>V2_Codec\<close>: header, configuration, health and
    profile codecs. Each decoder is characterised by one byte layout and one predicate on records; from
    this follow that decoding never panics, is injective, returns what was encoded, and that an accepted
    frame is the encoding of its record. \<open>V2_Samples\<close> has concrete records.
  \<^item> \<open>V2_Airtime\<close>: the LoRa time on air; \<open>Dispatch\<close>: the choice of the version, \<^verbatim>\<open>decode_any\<close>.

  \<^bold>\<open>Records and reassembly\<close> (\<^verbatim>\<open>crates/vesta-receiver\<close>).
  \<^item> \<open>Hex_Text\<close> (\<^verbatim>\<open>lib.rs\<close>): frames in hexadecimal digits. \<open>Records\<close> (\<^verbatim>\<open>records.rs\<close>): the records of the server and
    their validators. \<open>Convert\<close> (\<^verbatim>\<open>reassembly.rs\<close>): from decoded frames to records.
  \<^item> \<open>Reassembly\<close> (\<^verbatim>\<open>reassembly.rs\<close>): \<^verbatim>\<open>ProfileReassembler\<close>, its table of scans in progress, its list of
    completed scans and all its operations. \<open>Reassembly_Table\<close>, \<open>Reassembly_Ingest\<close>, \<open>Reassembly_Profile\<close>,
    \<open>Reassembly_Machine\<close>, \<open>Reassembly_Delivery\<close>, \<open>Reassembly_Behaviour\<close>: the invariant, each operation on
    each branch, every sequence of operations as a step relation (locale \<open>machine\<close>), and the delivery of a
    scan whose fragments arrive in any order next to others. The order in which a \<^verbatim>\<open>HashMap\<close> is visited is
    a parameter of which only \<open>visits_all\<close> is assumed: it visits every entry once.
  \<^item> \<open>Analysis\<close>, \<open>Analysis_History\<close>, \<open>Analysis_Profile\<close> (\<^verbatim>\<open>analysis.rs\<close>): quality flags, history of a series
    (locale \<open>keyed_history\<close>), rates and profile features. The operations on floating point numbers are a
    parameter (\<open>f64_ops\<close>).

  \<^bold>\<open>The radio.\<close> \<open>Radio\<close> (\<^verbatim>\<open>sx1262.rs\<close>): the driver over a parameter \<open>hal\<close> for pins, SPI, clock and sleeping. A
  wait loop is a partial function that may not return; \<open>Radio_Behaviour\<close> proves that it does when the clock
  advances, \<open>Radio_Safety\<close> that nothing is ever sent that is not a command for receiving.

  \<^bold>\<open>The archive.\<close> \<open>Archive\<close> and \<open>Archive_Scans\<close> (\<^verbatim>\<open>database.rs\<close>): the tables as lists of rows in the order of
  insertion, every operation of \<^verbatim>\<open>TelemetryStore\<close> as a function on them that is atomic (an error leaves the
  tables as they were, the rollback of a transaction), with the constraints of the schema as errors.
  \<open>Archive_Open\<close> opens a file of any schema version and migrates it without losing a row.
  \<open>Archive_Invariant\<close> and \<open>Archive_Operations\<close> have the invariant of the tables and the contract of an
  append-only store (locale \<open>append_only_store\<close>, interpreted on the operations); \<open>Archive_Behaviour\<close>,
  \<open>Archive_Restore\<close>, \<open>Archive_Quarantine\<close> say what each query and correction returns and changes;
  \<open>Archive_Examples\<close> runs it.

  \<^bold>\<open>The program.\<close> \<open>Receiver\<close> (\<^verbatim>\<open>main.rs\<close>): storing a packet, replaying what is pending at startup, the receive
  loop, the end. Its state is the archive, the reassembler and the lines written so far; a world says
  which writes fail and how the hash map is visited; one iteration of the loop observes the termination
  flag, the clocks and the radio. \<open>Receiver_Invariant\<close> proves that no run of the loop panics and that the
  invariants hold after it; \<open>Receiver_Archiving\<close> that every packet is archived exactly once whatever happens after;
  \<open>Receiver_Log\<close> that the program refines a plain log of the session; \<open>Receiver_Conflicts\<close> shows how one
  contradictory packet ends the program; \<open>Receiver_Delivery\<close> follows a scan from the encoder of the node
  through the loop into the archive. \<open>Console\<close> is the rest of \<^verbatim>\<open>main.rs\<close>: the command \<^verbatim>\<open>decode\<close> on an
  argument or on the lines of the standard input, and the exit code; it ends with the safety of the whole
  program from the file to the exit code. \<open>Rendering\<close> (\<^verbatim>\<open>lib.rs\<close>) has the JSON
  value of every printed line, and that the numbers a device sent are exact for consumers with 53-bit integers;
  \<open>Rendering_Lossless\<close> that a value determines what was printed. \<open>Human_Text\<close> is the readable form of a version 1
  reading, with its quotients in 24 and 53 bit floating point, and that it determines the reading. \<open>Texts\<close> and
  \<open>Failure_Text\<close> are the texts of all failures, and that a text determines its failure up to the texts
  of the libraries; \<open>Receiver_Failures\<close> applies
  them to the reasons in the archive. \<open>Receiver_Examples\<close> runs the program.

  \<^bold>\<open>Bounds.\<close> A packet has at most 255 bytes; at startup at most 1024 pending and 1024 incomplete fragments
  are replayed; a scan in progress expires after 120 seconds; the radio is polled for at most 250
  milliseconds. The receive loop has no bound in the source: the model runs over a list of observations
  and is undetermined (\<open>None\<close>) when they end before the loop does, so that no fuel is chosen.

  \<^bold>\<open>Not modelled.\<close> The text of a JSON value (a printed line is the data it shows, with its JSON value or its readable
  form); the texts that other libraries give their errors; the wording of the diagnostics around a failure; parsing of the arguments; the path of the database file, tables in a file of schema version 0, the text of its schema,
  its indices and pragmas, and failures of SQLite other than violated constraints; the floating point
  arithmetic of \<open>Analysis\<close>.
  Derived trait implementations, tests and build files are left out.
\<close>

end
